(* ===== verification/DML_Prelude.thy ===== *)
theory DML_Prelude
  imports Main "HOL-Library.Word"
begin

text \<open>
  Shared vocabulary of the development: the machine integers of the sources, the byte
  memory the library works on, little-endian encodings of integers as byte lists, typed
  loads and stores, address regions, the \<open>for\<close> loops of the kernels, and the interface
  \<open>field_view\<close> of an integer field inside a byte container, which the descriptor views and
  the completion record views both provide.
\<close>

unbundle bit_operations_syntax

section \<open>Machine integers and memory\<close>

type_synonym u8 = "8 word"
type_synonym u16 = "16 word"
type_synonym u32 = "32 word"
type_synonym u64 = "64 word"
type_synonym byte = "8 word"
type_synonym addr = "64 word"

text \<open>The address space: every address holds a byte. Which pages are mapped is not modelled.\<close>
type_synonym mem = "64 word \<Rightarrow> 8 word"

named_theorems field_simps_dml \<open>laws of integer fields in byte containers\<close>
named_theorems mem_simps \<open>reads after writes in memory\<close>

subsection \<open>Offsets inside a region\<close>

text \<open>\<open>x\<close> lies in the \<open>n\<close> bytes starting at \<open>a\<close>, also when the region wraps.\<close>
definition in_region :: "addr \<Rightarrow> addr \<Rightarrow> nat \<Rightarrow> bool" where
  "in_region x a n \<longleftrightarrow> unat (x - a) < n"

text \<open>No address is in both regions.\<close>
definition disjoint_regions :: "addr \<Rightarrow> nat \<Rightarrow> addr \<Rightarrow> nat \<Rightarrow> bool" where
  "disjoint_regions a n b k \<longleftrightarrow> (\<forall>x. \<not> (in_region x a n \<and> in_region x b k))"

lemma unat_of_nat_addr [simp]: "i < 2 ^ 64 \<Longrightarrow> unat (word_of_nat i :: addr) = i"
  by (simp add: unat_of_nat)

lemma unat_u32_less: "unat (n :: u32) < 4294967296"
  using unsigned_less [of n] by simp

lemma unat_addr_less: "unat (a :: addr) < 18446744073709551616"
  using unsigned_less [of a] by simp

lemma unat_u32_less_addr: "unat (n :: u32) < 2 ^ 64"
  using unat_u32_less [of n] by simp

lemma unat_ucast_size [simp]: "unat (ucast (n :: u32) :: u64) = unat n"
  by (simp add: unsigned_ucast_eq take_bit_nat_eq_self unat_u32_less [THEN order.strict_trans])

lemma in_region_offset [simp]:
  "n \<le> 2 ^ 64 \<Longrightarrow> i < n \<Longrightarrow> in_region (a + word_of_nat i) a n"
  by (simp add: in_region_def)

lemma in_regionE:
  assumes "in_region x a n"
  obtains i where "i < n" "x = a + word_of_nat i"
proof (rule that [of "unat (x - a)"])
  show "unat (x - a) < n" using assms by (simp add: in_region_def)
  show "x = a + word_of_nat (unat (x - a))" by simp
qed

lemma in_region_zero [simp]: "\<not> in_region x a 0"
  by (simp add: in_region_def)

lemma in_region_mono: "in_region x a n \<Longrightarrow> n \<le> k \<Longrightarrow> in_region x a k"
  by (simp add: in_region_def)

lemma disjoint_regions_sym: "disjoint_regions a n b k \<Longrightarrow> disjoint_regions b k a n"
  by (auto simp: disjoint_regions_def)

lemma disjoint_regionsD: "disjoint_regions a n b k \<Longrightarrow> in_region x a n \<Longrightarrow> \<not> in_region x b k"
  by (auto simp: disjoint_regions_def)

lemma disjoint_regionsD2: "disjoint_regions a n b k \<Longrightarrow> in_region x b k \<Longrightarrow> \<not> in_region x a n"
  by (auto simp: disjoint_regions_def)

lemma disjoint_regions_mono:
  "disjoint_regions a n b k \<Longrightarrow> n' \<le> n \<Longrightarrow> k' \<le> k \<Longrightarrow> disjoint_regions a n' b k'"
  by (meson disjoint_regions_def in_region_mono)

lemma offset_eq_iff:
  "i < 2 ^ 64 \<Longrightarrow> j < 2 ^ 64 \<Longrightarrow> (a + word_of_nat i = a + (word_of_nat j :: addr)) = (i = j)"
  by (metis add_left_cancel unat_of_nat_addr)

text \<open>A region that does not wrap is an interval of addresses.\<close>
lemma in_region_no_wrap:
  assumes "unat a + n \<le> 2 ^ 64"
  shows "in_region x a n \<longleftrightarrow> unat a \<le> unat x \<and> unat x < unat a + n"
proof -
  show ?thesis
    using assms unat_addr_less [of a] unat_addr_less [of x] by (auto simp: in_region_def unat_sub_if')
qed

lemma disjoint_no_wrap:
  assumes "unat a + n \<le> 2 ^ 64" "unat b + k \<le> 2 ^ 64" "0 < n" "0 < k"
  shows "disjoint_regions a n b k \<longleftrightarrow> unat a + n \<le> unat b \<or> unat b + k \<le> unat a"
proof
  assume d: "disjoint_regions a n b k"
  have "\<not> in_region a b k"
    using d assms(1,3) by (auto simp: disjoint_regions_def in_region_no_wrap)
  moreover have "\<not> in_region b a n"
    using d assms(2,4) by (auto simp: disjoint_regions_def in_region_no_wrap)
  ultimately show "unat a + n \<le> unat b \<or> unat b + k \<le> unat a"
    using assms by (simp add: in_region_no_wrap) linarith
qed (use assms in \<open>auto simp: disjoint_regions_def in_region_no_wrap\<close>)

section \<open>Little-endian encodings\<close>

text \<open>The bytes of an integer, least significant first, as x86-64 stores it.\<close>
definition bytes_of :: "'a::len word \<Rightarrow> byte list" where
  "bytes_of w = map (\<lambda>i. ucast (drop_bit (8 * i) w)) [0 ..< LENGTH('a) div 8]"

text \<open>The integer a little-endian byte list encodes.\<close>
fun word_of :: "byte list \<Rightarrow> 'a::len word" where
  "word_of [] = 0"
| "word_of (b # bs) = ucast b OR push_bit 8 (word_of bs)"

lemma length_bytes_of [simp]: "length (bytes_of (w :: 'a::len word)) = LENGTH('a) div 8"
  by (simp add: bytes_of_def)

lemma nth_bytes_of:
  "i < LENGTH('a) div 8 \<Longrightarrow> bytes_of (w :: 'a::len word) ! i = ucast (drop_bit (8 * i) w)"
  by (simp add: bytes_of_def)

lemma bit_word_of:
  "bit (word_of bs :: 'a::len word) k \<longleftrightarrow>
     k < LENGTH('a) \<and> k div 8 < length bs \<and> bit (bs ! (k div 8)) (k mod 8)"
proof (induction bs arbitrary: k)
  case Nil
  then show ?case by simp
next
  case (Cons b bs)
  show ?case
  proof (cases "k < 8")
    case True
    then show ?thesis by (auto simp: bit_simps)
  next
    case False
    then obtain j where k: "k = j + 8" by (metis add.commute le_Suc_ex not_less)
    have "\<not> bit b k" using False bit_imp_le_length [of b k] by auto
    moreover have "(j + 8) div 8 = Suc (j div 8)" by simp
    ultimately show ?thesis using Cons.IH [of j]
      by (auto simp: k bit_simps)
  qed
qed

lemma word_of_zeros [simp]: "word_of (replicate n 0) = 0"
  by (induction n) simp_all

lemma word_of_bytes_of [simp]:
  assumes "8 dvd LENGTH('a)"
  shows "word_of (bytes_of (w :: 'a::len word)) = w"
proof (rule bit_word_eqI)
  fix k assume k: "k < LENGTH('a)"
  then have "k div 8 < LENGTH('a) div 8"
    using assms by (metis div_less_iff_less_mult dvd_mult_div_cancel mult.commute zero_less_numeral)
  with k show "bit (word_of (bytes_of w) :: 'a word) k = bit w k"
    by (simp add: bit_word_of nth_bytes_of bit_simps)
qed

lemma bytes_of_word_of:
  assumes "length bs = LENGTH('a::len) div 8" "8 dvd LENGTH('a)"
  shows "bytes_of (word_of bs :: 'a word) = bs"
proof (rule nth_equalityI)
  show "length (bytes_of (word_of bs :: 'a word)) = length bs" using assms by simp
next
  fix i assume "i < length (bytes_of (word_of bs :: 'a word))"
  then have i: "i < LENGTH('a) div 8" by simp
  show "bytes_of (word_of bs :: 'a word) ! i = bs ! i"
  proof (rule bit_word_eqI)
    fix k assume k: "k < LENGTH(8)"
    then have "k < 8" by simp
    moreover from this i assms(2) have "8 * i + k < LENGTH('a)" by auto
    ultimately show "bit (bytes_of (word_of bs :: 'a word) ! i) k = bit (bs ! i) k"
      using i assms by (simp add: nth_bytes_of bit_simps bit_word_of)
  qed
qed

section \<open>Loads and stores\<close>

definition load_bytes :: "mem \<Rightarrow> addr \<Rightarrow> nat \<Rightarrow> byte list" where
  "load_bytes m a n = map (\<lambda>i. m (a + word_of_nat i)) [0 ..< n]"

definition store_bytes :: "mem \<Rightarrow> addr \<Rightarrow> byte list \<Rightarrow> mem" where
  "store_bytes m a bs = (\<lambda>x. if unat (x - a) < length bs then bs ! unat (x - a) else m x)"

text \<open>A typed load and store, as \<open>*(T *)p\<close> does.\<close>
definition load :: "mem \<Rightarrow> addr \<Rightarrow> 'a::len word" where
  "load m a = word_of (load_bytes m a (LENGTH('a) div 8))"

definition store :: "mem \<Rightarrow> addr \<Rightarrow> 'a::len word \<Rightarrow> mem" where
  "store m a w = store_bytes m a (bytes_of w)"

lemma length_load_bytes [simp]: "length (load_bytes m a n) = n"
  by (simp add: load_bytes_def)

lemma nth_load_bytes [simp]: "i < n \<Longrightarrow> load_bytes m a n ! i = m (a + word_of_nat i)"
  by (simp add: load_bytes_def)

lemma load_bytes_0 [simp]: "load_bytes m a 0 = []"
  by (simp add: load_bytes_def)

lemma load_bytes_cong:
  "(\<And>i. i < n \<Longrightarrow> m (a + word_of_nat i) = m' (a' + word_of_nat i)) \<Longrightarrow>
   load_bytes m a n = load_bytes m' a' n"
  by (simp add: load_bytes_def)

lemma load_bytes_add:
  "load_bytes m a (n + k) = load_bytes m a n @ load_bytes m (a + word_of_nat n) k"
  by (rule nth_equalityI) (auto simp: nth_append add.assoc simp flip: of_nat_add)

lemma store_bytes_Nil [simp]: "store_bytes m a [] = m"
  by (simp add: store_bytes_def)

lemma store_bytes_outside [mem_simps]:
  "\<not> in_region x a (length bs) \<Longrightarrow> store_bytes m a bs x = m x"
  by (simp add: store_bytes_def in_region_def)

lemma store_bytes_inside [mem_simps]:
  "i < length bs \<Longrightarrow> i < 2 ^ 64 \<Longrightarrow> store_bytes m a bs (a + word_of_nat i) = bs ! i"
  by (simp add: store_bytes_def)

lemma load_store_bytes_same [mem_simps]:
  "length bs = n \<Longrightarrow> n \<le> 2 ^ 64 \<Longrightarrow> load_bytes (store_bytes m a bs) a n = bs"
  by (rule nth_equalityI) (auto simp: mem_simps)

lemma load_store_bytes_disjoint [mem_simps]:
  assumes "disjoint_regions a n b (length bs)" "n \<le> 2 ^ 64"
  shows "load_bytes (store_bytes m b bs) a n = load_bytes m a n"
proof (rule load_bytes_cong)
  fix i assume "i < n"
  then have "\<not> in_region (a + word_of_nat i) b (length bs)"
    using assms(2) in_region_offset [of n i a] by (intro disjoint_regionsD [OF assms(1)]) simp
  then show "store_bytes m b bs (a + word_of_nat i) = m (a + word_of_nat i)"
    by (rule store_bytes_outside)
qed

lemma load_store_same [mem_simps]:
  assumes "8 dvd LENGTH('a::len)" "LENGTH('a) div 8 \<le> 2 ^ 64"
  shows "load (store m a (w :: 'a word)) a = w"
  using assms by (simp add: load_def store_def mem_simps)

lemma store_outside [mem_simps]:
  "\<not> in_region x a (LENGTH('a::len) div 8) \<Longrightarrow> store m a (w :: 'a word) x = m x"
  by (simp add: store_def mem_simps)

lemma load_store_disjoint [mem_simps]:
  assumes "disjoint_regions a (LENGTH('a::len) div 8) b (LENGTH('b::len) div 8)"
    and "LENGTH('a) div 8 \<le> 2 ^ 64"
  shows "(load (store m b (w :: 'b word)) a :: 'a word) = load m a"
  using assms by (simp add: load_def store_def mem_simps)

lemma store_bytes_twice [mem_simps]:
  "length bs = length cs \<Longrightarrow> store_bytes (store_bytes m a bs) a cs = store_bytes m a cs"
  by (rule ext) (simp add: store_bytes_def)

lemma store_bytes_load [mem_simps]: "store_bytes m a (load_bytes m a n) = m"
  by (rule ext) (simp add: store_bytes_def)

lemma store_twice [mem_simps]: "store (store m a (v :: 'a::len word)) a (w :: 'a word) = store m a w"
  by (simp add: store_def mem_simps)

lemma store_load [mem_simps]:
  assumes "8 dvd LENGTH('a::len)"
  shows "store m a (load m a :: 'a word) = m"
  using assms by (simp add: store_def load_def bytes_of_word_of mem_simps)

lemma load_byte: "(load m a :: 8 word) = m a"
  by (simp add: load_def load_bytes_def)

lemma store_byte: "store m a (w :: 8 word) = m(a := w)"
  by (rule ext) (auto simp: store_def store_bytes_def bytes_of_def unat_eq_0)

subsection \<open>Stores and loads in pieces\<close>

lemma store_bytes_snoc:
  assumes "length bs < 2 ^ 64"
  shows "store_bytes m a (bs @ [b]) = (store_bytes m a bs)(a + word_of_nat (length bs) := b)"
proof
  fix x :: addr
  show "store_bytes m a (bs @ [b]) x = ((store_bytes m a bs)(a + word_of_nat (length bs) := b)) x"
  proof (cases "x = a + word_of_nat (length bs)")
    case True
    then show ?thesis using assms by (simp add: store_bytes_def)
  next
    case False
    have "x = a + word_of_nat (unat (x - a))" by simp
    with False have "unat (x - a) \<noteq> length bs" by metis
    with False show ?thesis by (auto simp: store_bytes_def nth_append)
  qed
qed

lemma load_bytes_Suc: "load_bytes m a (Suc n) = load_bytes m a n @ [m (a + word_of_nat n)]"
  by (simp add: load_bytes_def)

lemma load_bytes_Cons: "load_bytes m a (Suc n) = m a # load_bytes m (a + 1) n"
  by (simp add: load_bytes_def upt_conv_Cons map_Suc_upt [symmetric] add.assoc del: upt_Suc map_Suc_upt)

lemma store_bytes_append:
  assumes "length xs + length ys \<le> 2 ^ 64"
  shows "store_bytes (store_bytes m a xs) (a + word_of_nat (length xs)) ys = store_bytes m a (xs @ ys)"
  using assms
proof (induction ys rule: rev_induct)
  case Nil
  then show ?case by simp
next
  case (snoc y ys)
  then show ?case
    using store_bytes_snoc [of "xs @ ys" m a y]
    by (simp add: store_bytes_snoc add.assoc del: fun_upd_apply flip: of_nat_add)
qed

lemma load_bytes_part:
  "off + k \<le> n \<Longrightarrow> load_bytes m (a + word_of_nat off) k = take k (drop off (load_bytes m a n))"
  by (rule nth_equalityI) (auto simp: add.assoc simp flip: of_nat_add)

lemma offset_neq:
  assumes "unat a + i < 2 ^ 64" "unat b + j < 2 ^ 64" "unat a + i \<noteq> unat b + j"
  shows "a + word_of_nat i \<noteq> b + (word_of_nat j :: addr)"
proof
  assume "a + word_of_nat i = b + (word_of_nat j :: addr)"
  moreover have "unat (c + word_of_nat k) = unat c + k" if "unat c + k < 2 ^ 64" for c :: addr and k
    using that by (subst unat_add_lem [THEN iffD1]) simp_all
  ultimately show False using assms by metis
qed

lemma ucast_word_of_nat: "k < 2 ^ 32 \<Longrightarrow> ucast (word_of_nat k :: u32) = (word_of_nat k :: addr)"
  by (intro word_unat_eq_iff [THEN iffD2]) (simp add: unat_of_nat)

lemma unat_add_offset: "unat a + k < 2 ^ 64 \<Longrightarrow> unat (a + word_of_nat k :: addr) = unat a + k"
  by (subst unat_add_lem [THEN iffD1]) simp_all

lemma store_bytes_commute:
  assumes "disjoint_regions a (length xs) b (length ys)"
  shows "store_bytes (store_bytes m a xs) b ys = store_bytes (store_bytes m b ys) a xs"
  using assms by (auto simp: store_bytes_def disjoint_regions_def in_region_def fun_eq_iff)

text \<open>Parts of a region that do not overlap as offsets do not overlap in memory.\<close>
lemma disjoint_parts:
  assumes "i + n \<le> j \<or> j + k \<le> i" "i + n \<le> 2 ^ 64" "j + k \<le> 2 ^ 64"
  shows "disjoint_regions (a + word_of_nat i) n (a + word_of_nat j) k"
  unfolding disjoint_regions_def
proof (intro allI notI, elim conjE in_regionE)
  fix x u v assume u: "u < n" "x = a + word_of_nat i + word_of_nat u"
    and v: "v < k" "x = a + word_of_nat j + word_of_nat v"
  then have "a + word_of_nat (i + u) = a + (word_of_nat (j + v) :: addr)"
    by (simp add: add.assoc)
  moreover have "i + u < 2 ^ 64" "j + v < 2 ^ 64" using assms(2,3) u(1) v(1) by linarith+
  ultimately have "i + u = j + v" by (simp only: offset_eq_iff)
  with assms(1) u(1) v(1) show False by linarith
qed

lemma in_region_part:
  assumes "in_region x (a + word_of_nat i) n" "i + n \<le> k" "k \<le> 2 ^ 64"
  shows "in_region x a k"
  using assms(1)
proof (rule in_regionE)
  fix u assume "u < n" "x = a + word_of_nat i + word_of_nat u"
  then show ?thesis
    using in_region_offset [of k "i + u" a] assms(2,3) by (simp add: add.assoc)
qed

lemma disjoint_regions_part:
  assumes "disjoint_regions a n b k" "i + n' \<le> n" "n \<le> 2 ^ 64"
  shows "disjoint_regions (a + word_of_nat i) n' b k"
  using assms in_region_part unfolding disjoint_regions_def by blast

section \<open>Counted loops\<close>

text \<open>
  \<open>for (size_t i = 0; i < n; ++i) body(i)\<close> over a state, for the loops without an early
  exit; the bound of every such loop of the kernels is computed once, before the loop.
\<close>
definition for_loop :: "nat \<Rightarrow> (nat \<Rightarrow> 's \<Rightarrow> 's) \<Rightarrow> 's \<Rightarrow> 's" where
  "for_loop n body s = fold body [0 ..< n] s"

lemma for_loop_0 [simp]: "for_loop 0 body s = s"
  by (simp add: for_loop_def)

lemma for_loop_Suc [simp]: "for_loop (Suc n) body s = body n (for_loop n body s)"
  by (simp add: for_loop_def)

lemma for_loop_numeral [simp]:
  "for_loop (numeral k) body s = body (pred_numeral k) (for_loop (pred_numeral k) body s)"
  by (simp add: numeral_eq_Suc)

lemma for_loop_invariant:
  assumes "P 0 s" and "\<And>i s. i < n \<Longrightarrow> P i s \<Longrightarrow> P (Suc i) (body i s)"
  shows "P n (for_loop n body s)"
  using assms by (induction n) auto

section \<open>Integer fields of a byte container\<close>

text \<open>
  The interface every accessor of a view promises: \<open>get\<close> reads an integer out of a
  container, \<open>put\<close> writes it, and the container keeps its shape. Both the descriptor
  views (over the 64 bytes of a descriptor) and the completion record views (over the
  record in memory) provide it.
\<close>
locale field_view =
  fixes get :: "'s \<Rightarrow> 'v" and put :: "'v \<Rightarrow> 's \<Rightarrow> 's" and wf :: "'s \<Rightarrow> bool"
  assumes get_put: "wf s \<Longrightarrow> get (put v s) = v"
    and put_put: "wf s \<Longrightarrow> put v (put u s) = put v s"
    and put_get: "wf s \<Longrightarrow> put (get s) s = s"
    and wf_put: "wf s \<Longrightarrow> wf (put v s)"
begin

text \<open>A compound assignment \<open>view.f() = g(view.f())\<close> changes the field by \<open>g\<close>.\<close>
lemma get_modify: "wf s \<Longrightarrow> get (put (g (get s)) s) = g (get s)"
  by (rule get_put)

lemma modify_modify:
  assumes "wf s"
  shows "put (h (get (put (g (get s)) s))) (put (g (get s)) s) = put (h (g (get s))) s"
  using assms by (simp add: get_put put_put)

lemma put_inject: "wf s \<Longrightarrow> put v s = put u s \<longleftrightarrow> v = u"
  by (metis get_put)

end

text \<open>Two fields of the same container that do not share bytes.\<close>
locale field_pair = f: field_view get1 put1 wf + g: field_view get2 put2 wf
  for get1 :: "'s \<Rightarrow> 'v" and put1 :: "'v \<Rightarrow> 's \<Rightarrow> 's" and get2 :: "'s \<Rightarrow> 'w"
    and put2 :: "'w \<Rightarrow> 's \<Rightarrow> 's" and wf :: "'s \<Rightarrow> bool" +
  assumes get1_put2: "wf s \<Longrightarrow> get1 (put2 w s) = get1 s"
    and get2_put1: "wf s \<Longrightarrow> get2 (put1 v s) = get2 s"
begin

lemma both_after_puts: "wf s \<Longrightarrow> get1 (put2 w (put1 v s)) = v \<and> get2 (put2 w (put1 v s)) = w"
  by (simp add: f.get_put g.get_put f.wf_put get1_put2)

end

text \<open>A field of type \<open>'a word\<close> at a byte offset of a byte list.\<close>
definition get_field :: "nat \<Rightarrow> byte list \<Rightarrow> 'a::len word" where
  "get_field off d = word_of (take (LENGTH('a) div 8) (drop off d))"

definition set_field :: "nat \<Rightarrow> 'a::len word \<Rightarrow> byte list \<Rightarrow> byte list" where
  "set_field off w d = take off d @ bytes_of w @ drop (off + LENGTH('a) div 8) d"

lemma length_set_field [simp]:
  "off + LENGTH('a::len) div 8 \<le> length d \<Longrightarrow> length (set_field off (w :: 'a word) d) = length d"
  by (simp add: set_field_def)

lemma get_set_field_same [field_simps_dml]:
  assumes "off + LENGTH('a::len) div 8 \<le> length d" "8 dvd LENGTH('a)"
  shows "get_field off (set_field off (w :: 'a word) d) = w"
  using assms by (simp add: get_field_def set_field_def min_def)

lemma set_set_field_same [field_simps_dml]:
  assumes "off + LENGTH('a::len) div 8 \<le> length d"
  shows "set_field off (w :: 'a word) (set_field off (v :: 'a word) d) = set_field off w d"
  using assms by (simp add: set_field_def min_def)

lemma set_get_field_same [field_simps_dml]:
  assumes "off + LENGTH('a::len) div 8 \<le> length d" "8 dvd LENGTH('a)"
  shows "set_field off (get_field off d :: 'a word) d = d"
proof -
  let ?n = "LENGTH('a) div 8"
  have "bytes_of (get_field off d :: 'a word) = take ?n (drop off d)"
    unfolding get_field_def using assms by (intro bytes_of_word_of) auto
  then have "set_field off (get_field off d :: 'a word) d
      = take off d @ take ?n (drop off d) @ drop ?n (drop off d)"
    by (simp add: set_field_def add.commute)
  then show ?thesis by (metis append_take_drop_id)
qed

lemma nth_set_field_other:
  assumes "off + LENGTH('a::len) div 8 \<le> length d"
    and "i < off \<or> off + LENGTH('a) div 8 \<le> i"
  shows "set_field off (w :: 'a word) d ! i = d ! i"
proof (cases "i < off")
  case True
  with assms(1) show ?thesis by (simp add: set_field_def nth_append)
next
  case False
  with assms have i: "off + LENGTH('a) div 8 \<le> i" by simp
  then have "\<not> i - off < LENGTH('a) div 8" "\<not> i < off" by linarith+
  with i assms(1) show ?thesis by (simp add: set_field_def nth_append)
qed

lemma get_set_field_other [field_simps_dml]:
  assumes len: "o2 + LENGTH('b::len) div 8 \<le> length d"
    and sep: "o1 + LENGTH('a::len) div 8 \<le> o2 \<or> o2 + LENGTH('b) div 8 \<le> o1"
  shows "(get_field o1 (set_field o2 (w :: 'b word) d) :: 'a word) = get_field o1 d"
proof -
  let ?n = "LENGTH('a) div 8"
  have "take ?n (drop o1 (set_field o2 w d)) = take ?n (drop o1 d)"
  proof (rule nth_equalityI)
    show "length (take ?n (drop o1 (set_field o2 w d))) = length (take ?n (drop o1 d))"
      using len by simp
  next
    fix i assume "i < length (take ?n (drop o1 (set_field o2 w d)))"
    then have i: "i < ?n" "o1 + i < length d" using len by auto
    have "set_field o2 w d ! (o1 + i) = d ! (o1 + i)"
      by (rule nth_set_field_other [OF len]) (use sep i in linarith)
    with i len show "take ?n (drop o1 (set_field o2 w d)) ! i = take ?n (drop o1 d) ! i"
      by simp
  qed
  then show ?thesis by (simp add: get_field_def)
qed

end
