(* ===== verification/DML_Types.thy ===== *)
theory DML_Types
  imports DML_Prelude
begin

text \<open>
  The vocabulary of \<open>include/dml/detail/common\<close> and \<open>core/operations.hpp\<close>: operation codes,
  flag enumerations, statuses, and the option bit masks built from the flags
  (\<open>ml/options.hpp\<close>). An \<open>enum class\<close> is a datatype with its constructors, and its
  \<open>to_underlying\<close> is a function to the underlying machine integer.
\<close>

section \<open>Operation codes\<close>

datatype operation =
    op_nop | op_batch | op_drain | op_mem_move | op_fill | op_compare | op_compare_pattern
  | op_create_delta | op_apply_delta | op_dualcast | op_crc | op_copy_crc | op_dif_check
  | op_dif_insert | op_dif_strip | op_dif_update | op_cache_flush

fun operation_code :: "operation \<Rightarrow> u8" where
  "operation_code op_nop = 0x00"
| "operation_code op_batch = 0x01"
| "operation_code op_drain = 0x02"
| "operation_code op_mem_move = 0x03"
| "operation_code op_fill = 0x04"
| "operation_code op_compare = 0x05"
| "operation_code op_compare_pattern = 0x06"
| "operation_code op_create_delta = 0x07"
| "operation_code op_apply_delta = 0x08"
| "operation_code op_dualcast = 0x09"
| "operation_code op_crc = 0x10"
| "operation_code op_copy_crc = 0x11"
| "operation_code op_dif_check = 0x12"
| "operation_code op_dif_insert = 0x13"
| "operation_code op_dif_strip = 0x14"
| "operation_code op_dif_update = 0x15"
| "operation_code op_cache_flush = 0x20"

definition all_operations :: "operation list" where
  "all_operations =
    [op_nop, op_batch, op_drain, op_mem_move, op_fill, op_compare, op_compare_pattern,
     op_create_delta, op_apply_delta, op_dualcast, op_crc, op_copy_crc, op_dif_check,
     op_dif_insert, op_dif_strip, op_dif_update, op_cache_flush]"

text \<open>
  \<open>static_cast<operation>(byte)\<close> followed by a \<open>switch\<close>: \<open>None\<close> is the value no \<open>case\<close>
  names, for which the \<open>default\<close> branch runs.
\<close>
definition operation_of :: "u8 \<Rightarrow> operation option" where
  "operation_of c = find (\<lambda>op. operation_code op = c) all_operations"

lemma operation_of_code [simp]: "operation_of (operation_code op) = Some op"
  by (cases op) (simp_all add: operation_of_def all_operations_def)

lemma operation_of_numerals [simp]:
  "operation_of 0 = Some op_nop"
  "operation_of 1 = Some op_batch"
  "operation_of 2 = Some op_drain"
  "operation_of 3 = Some op_mem_move"
  "operation_of 4 = Some op_fill"
  "operation_of 5 = Some op_compare"
  "operation_of 6 = Some op_compare_pattern"
  "operation_of 7 = Some op_create_delta"
  "operation_of 8 = Some op_apply_delta"
  "operation_of 9 = Some op_dualcast"
  "operation_of 0x10 = Some op_crc"
  "operation_of 0x11 = Some op_copy_crc"
  "operation_of 0x12 = Some op_dif_check"
  "operation_of 0x13 = Some op_dif_insert"
  "operation_of 0x14 = Some op_dif_strip"
  "operation_of 0x15 = Some op_dif_update"
  "operation_of 0x20 = Some op_cache_flush"
  by (simp_all add: operation_of_def all_operations_def)

lemma operation_code_inject [simp]: "operation_code a = operation_code b \<longleftrightarrow> a = b"
  by (metis operation_of_code option.inject)

lemma operation_of_Some_iff: "operation_of c = Some op \<longleftrightarrow> operation_code op = c"
proof
  assume "operation_of c = Some op"
  then show "operation_code op = c"
    by (auto simp: operation_of_def find_Some_iff)
qed auto

lemma operation_of_None_iff: "operation_of c = None \<longleftrightarrow> c \<notin> range operation_code"
  by (metis image_iff not_None_eq operation_of_Some_iff rangeI)

text \<open>Enumerators are ordered by their codes.\<close>
instantiation operation :: linorder
begin

definition less_eq_operation :: "operation \<Rightarrow> operation \<Rightarrow> bool" where
  "less_eq_operation a b \<longleftrightarrow> operation_code a \<le> operation_code b"

definition less_operation :: "operation \<Rightarrow> operation \<Rightarrow> bool" where
  "less_operation a b \<longleftrightarrow> operation_code a < operation_code b"

instance
  by standard (auto simp: less_eq_operation_def less_operation_def order.strict_iff_order)

end

section \<open>Descriptor flags\<close>

datatype flag =
    flag_fence | flag_block_on_fault | flag_completion_record_address_valid
  | flag_request_completion_record | flag_request_completion_interrupt
  | flag_completion_record_steering_tag_selector | flag_check_result | flag_cache_control
  | flag_address_1_tc_selector | flag_address_2_tc_selector | flag_address_3_tc_selector
  | flag_completion_record_tc_selector | flag_strict_ordering | flag_destination_readback
  | flag_destination_steering_tag_selector

fun flag_value :: "flag \<Rightarrow> u16" where
  "flag_value flag_fence = 0b0000000000000001"
| "flag_value flag_block_on_fault = 0b0000000000000010"
| "flag_value flag_completion_record_address_valid = 0b0000000000000100"
| "flag_value flag_request_completion_record = 0b0000000000001000"
| "flag_value flag_request_completion_interrupt = 0b0000000000010000"
| "flag_value flag_completion_record_steering_tag_selector = 0b0000000000100000"
| "flag_value flag_check_result = 0b0000000010000000"
| "flag_value flag_cache_control = 0b0000000100000000"
| "flag_value flag_address_1_tc_selector = 0b0000001000000000"
| "flag_value flag_address_2_tc_selector = 0b0000010000000000"
| "flag_value flag_address_3_tc_selector = 0b0000100000000000"
| "flag_value flag_completion_record_tc_selector = 0b0001000000000000"
| "flag_value flag_strict_ordering = 0b0010000000000000"
| "flag_value flag_destination_readback = 0b0100000000000000"
| "flag_value flag_destination_steering_tag_selector = 0b1000000000000000"

text \<open>
  The per-operation flag enumerations: each takes a subset of \<open>flag\<close> with the same values,
  so it is modelled by the list of the flags it has.
\<close>
definition nop_flag :: "flag list" where
  "nop_flag = [flag_fence]"

definition batch_flag :: "flag list" where
  "batch_flag = [flag_address_1_tc_selector]"

definition drain_flag :: "flag list" where
  "drain_flag = [flag_address_1_tc_selector, flag_address_2_tc_selector]"

definition mem_move_flag :: "flag list" where
  "mem_move_flag =
    [flag_fence, flag_block_on_fault, flag_cache_control, flag_address_1_tc_selector,
     flag_address_2_tc_selector, flag_strict_ordering, flag_destination_readback,
     flag_destination_steering_tag_selector]"

definition fill_flag :: "flag list" where
  "fill_flag =
    [flag_fence, flag_block_on_fault, flag_cache_control, flag_address_2_tc_selector,
     flag_strict_ordering, flag_destination_readback, flag_destination_steering_tag_selector]"

definition compare_flag :: "flag list" where
  "compare_flag =
    [flag_fence, flag_block_on_fault, flag_check_result, flag_address_1_tc_selector,
     flag_address_2_tc_selector]"

definition compare_pattern_flag :: "flag list" where
  "compare_pattern_flag =
    [flag_fence, flag_block_on_fault, flag_check_result, flag_address_1_tc_selector]"

definition create_delta_flag :: "flag list" where
  "create_delta_flag =
    [flag_fence, flag_block_on_fault, flag_check_result, flag_cache_control,
     flag_address_1_tc_selector, flag_address_2_tc_selector, flag_address_3_tc_selector,
     flag_strict_ordering, flag_destination_readback, flag_destination_steering_tag_selector]"

definition apply_delta_flag :: "flag list" where
  "apply_delta_flag =
    [flag_fence, flag_block_on_fault, flag_cache_control, flag_address_1_tc_selector,
     flag_address_2_tc_selector, flag_strict_ordering, flag_destination_readback,
     flag_destination_steering_tag_selector]"

definition dualcast_flag :: "flag list" where
  "dualcast_flag =
    [flag_fence, flag_block_on_fault, flag_cache_control, flag_address_1_tc_selector,
     flag_address_2_tc_selector, flag_address_3_tc_selector, flag_strict_ordering,
     flag_destination_readback, flag_destination_steering_tag_selector]"

definition crc_flag :: "flag list" where
  "crc_flag =
    [flag_fence, flag_block_on_fault, flag_address_1_tc_selector, flag_address_3_tc_selector]"

definition copy_crc_flag :: "flag list" where
  "copy_crc_flag =
    [flag_fence, flag_block_on_fault, flag_cache_control, flag_address_1_tc_selector,
     flag_address_2_tc_selector, flag_address_3_tc_selector, flag_strict_ordering,
     flag_destination_readback, flag_destination_steering_tag_selector]"

definition dif_check_flag :: "flag list" where
  "dif_check_flag = [flag_fence, flag_block_on_fault, flag_address_1_tc_selector]"

definition dif_insert_flag :: "flag list" where
  "dif_insert_flag =
    [flag_fence, flag_block_on_fault, flag_cache_control, flag_address_1_tc_selector,
     flag_address_2_tc_selector, flag_strict_ordering, flag_destination_readback,
     flag_destination_steering_tag_selector]"

definition dif_strip_flag :: "flag list" where
  "dif_strip_flag =
    [flag_fence, flag_block_on_fault, flag_cache_control, flag_address_1_tc_selector,
     flag_address_2_tc_selector, flag_strict_ordering, flag_destination_readback,
     flag_destination_steering_tag_selector]"

definition dif_update_flag :: "flag list" where
  "dif_update_flag =
    [flag_fence, flag_block_on_fault, flag_cache_control, flag_address_1_tc_selector,
     flag_address_2_tc_selector, flag_strict_ordering, flag_destination_readback,
     flag_destination_steering_tag_selector]"

definition cache_flush_flag :: "flag list" where
  "cache_flush_flag =
    [flag_fence, flag_block_on_fault, flag_cache_control, flag_address_2_tc_selector,
     flag_strict_ordering, flag_destination_readback, flag_destination_steering_tag_selector]"

text \<open>\<open>intersects(lhs, rhs)\<close>: all bits of \<open>rhs\<close> are set in \<open>lhs\<close>.\<close>
definition intersects :: "'a::len word \<Rightarrow> 'a word \<Rightarrow> bool" where
  "intersects lhs rhs \<longleftrightarrow> lhs AND rhs = rhs"

section \<open>Operation specific flags and results\<close>

datatype compare_result = cmp_equal | cmp_not_equal

fun compare_result_value :: "compare_result \<Rightarrow> u8" where
  "compare_result_value cmp_equal = 0"
| "compare_result_value cmp_not_equal = 1"

datatype create_delta_result = delta_equal | delta_not_equal | delta_overflow

fun create_delta_result_value :: "create_delta_result \<Rightarrow> u8" where
  "create_delta_result_value delta_equal = 1"
| "create_delta_result_value delta_not_equal = 2"
| "create_delta_result_value delta_overflow = 4"

datatype drain_specific_flag =
    readback_address_1_valid | readback_address_2_valid
  | suppress_tc_a_implicit_readback | suppress_tc_b_implicit_readback

fun drain_specific_flag_value :: "drain_specific_flag \<Rightarrow> u8" where
  "drain_specific_flag_value readback_address_1_valid = 0b0001"
| "drain_specific_flag_value readback_address_2_valid = 0b0010"
| "drain_specific_flag_value suppress_tc_a_implicit_readback = 0b0100"
| "drain_specific_flag_value suppress_tc_b_implicit_readback = 0b1000"

datatype dualcast_specific_flag = destination_2_steering_tag_selector

fun dualcast_specific_flag_value :: "dualcast_specific_flag \<Rightarrow> u8" where
  "dualcast_specific_flag_value destination_2_steering_tag_selector = 0b1"

datatype crc_specific_flag =
    read_crc_seed | bypass_crc_inversion_and_reflection | bypass_data_reflection

fun crc_specific_flag_value :: "crc_specific_flag \<Rightarrow> u8" where
  "crc_specific_flag_value read_crc_seed = 0b001"
| "crc_specific_flag_value bypass_crc_inversion_and_reflection = 0b010"
| "crc_specific_flag_value bypass_data_reflection = 0b100"

datatype dif_specific_flag =
    block_size_512 | block_size_520 | block_size_4096 | block_size_4104
  | invert_crc_seed | invert_crc_result

fun dif_specific_flag_value :: "dif_specific_flag \<Rightarrow> u8" where
  "dif_specific_flag_value block_size_512 = 0b0000"
| "dif_specific_flag_value block_size_520 = 0b0001"
| "dif_specific_flag_value block_size_4096 = 0b0010"
| "dif_specific_flag_value block_size_4104 = 0b0011"
| "dif_specific_flag_value invert_crc_seed = 0b0100"
| "dif_specific_flag_value invert_crc_result = 0b1000"

datatype dif_source_flag =
    enable_all_f_detect_error | all_f_detect | app_tag_f_detect | app_and_ref_tag_f_detect
  | src_incrementing_app_tag_type | guard_check_disable | ref_tag_check_disable
  | src_fixed_ref_tag_type

fun dif_source_flag_value :: "dif_source_flag \<Rightarrow> u8" where
  "dif_source_flag_value enable_all_f_detect_error = 0b00000001"
| "dif_source_flag_value all_f_detect = 0b00000010"
| "dif_source_flag_value app_tag_f_detect = 0b00000100"
| "dif_source_flag_value app_and_ref_tag_f_detect = 0b00001000"
| "dif_source_flag_value src_incrementing_app_tag_type = 0b00010000"
| "dif_source_flag_value guard_check_disable = 0b00100000"
| "dif_source_flag_value ref_tag_check_disable = 0b01000000"
| "dif_source_flag_value src_fixed_ref_tag_type = 0b10000000"

datatype dif_destination_flag =
    app_tag_pass_through | dst_incrementing_app_tag_type | guard_field_pass_through
  | ref_tag_pass_through | dst_fixed_ref_tag_type

fun dif_destination_flag_value :: "dif_destination_flag \<Rightarrow> u8" where
  "dif_destination_flag_value app_tag_pass_through = 0b00001000"
| "dif_destination_flag_value dst_incrementing_app_tag_type = 0b00010000"
| "dif_destination_flag_value guard_field_pass_through = 0b00100000"
| "dif_destination_flag_value ref_tag_pass_through = 0b01000000"
| "dif_destination_flag_value dst_fixed_ref_tag_type = 0b10000000"

text \<open>The parameters of a data integrity field, \<open>struct dif_parameters\<close>.\<close>
record dif_parameters =
  ref_tag_seed :: u32
  app_tag_mask :: u16
  app_tag_seed :: u16

section \<open>Option masks\<close>

text \<open>
  \<open>options<options_t>\<close> holds a bit mask; the default constructor holds 0, the explicit one the
  given mask, \<open>enable<option>()\<close> adds the bits of an option, and the conversion operator
  reads the mask back. The mask itself is the model of the class.
\<close>
definition default_options :: "'a::len word" where
  "default_options = 0"

definition enable_option :: "'a::len word \<Rightarrow> 'a word \<Rightarrow> 'a word" where
  "enable_option option bit_mask = bit_mask OR option"

section \<open>Statuses\<close>

datatype validation_status =
    val_success | val_null_address | val_null_size | val_large_size | val_overlapping
  | val_misalignment | val_dif_strip_adjacent | val_wrong_size | val_wrong_delta_size
  | val_wrong_dif_size | val_wrong_dualcast_address | val_wrong_batch_size
  | val_unsupported_operation | val_error

datatype submission_status = sub_success | sub_queue_busy | sub_failure

text \<open>
  An object of \<open>enum class execution_status : status_t\<close> can hold any byte (the hardware writes
  it); \<open>unnamed_status\<close> stands for the values no enumerator names.
\<close>
datatype execution_status =
    processing | success | false_predicate_success | page_fault_during_processing
  | page_response_error | batch_error | batch_page_fault_error | offset_order_error
  | offset_overflow | dif_control_error | operation_error | flag_error
  | non_zero_reserved_field_error | invalid_transfer_size_error | descriptor_count_error
  | delta_size_error | buffers_overlap | dualcast_misalign_error | descriptor_list_align_error
  | invalid_interrupt_handle | page_fault_on_translation | completion_record_align_error
  | misalign_address_error | privilege_error | traffic_class_error | readback_translation_error
  | operation_readback_timeout | hardware_timeout | address_translation_error
  | unnamed_status u8

fun execution_status_value :: "execution_status \<Rightarrow> u8" where
  "execution_status_value processing = 0x00"
| "execution_status_value success = 0x01"
| "execution_status_value false_predicate_success = 0x02"
| "execution_status_value page_fault_during_processing = 0x03"
| "execution_status_value page_response_error = 0x04"
| "execution_status_value batch_error = 0x05"
| "execution_status_value batch_page_fault_error = 0x06"
| "execution_status_value offset_order_error = 0x07"
| "execution_status_value offset_overflow = 0x08"
| "execution_status_value dif_control_error = 0x09"
| "execution_status_value operation_error = 0x10"
| "execution_status_value flag_error = 0x11"
| "execution_status_value non_zero_reserved_field_error = 0x12"
| "execution_status_value invalid_transfer_size_error = 0x13"
| "execution_status_value descriptor_count_error = 0x14"
| "execution_status_value delta_size_error = 0x15"
| "execution_status_value buffers_overlap = 0x16"
| "execution_status_value dualcast_misalign_error = 0x17"
| "execution_status_value descriptor_list_align_error = 0x18"
| "execution_status_value invalid_interrupt_handle = 0x19"
| "execution_status_value page_fault_on_translation = 0x1a"
| "execution_status_value completion_record_align_error = 0x1b"
| "execution_status_value misalign_address_error = 0x1c"
| "execution_status_value privilege_error = 0x1d"
| "execution_status_value traffic_class_error = 0x1e"
| "execution_status_value readback_translation_error = 0x1f"
| "execution_status_value operation_readback_timeout = 0x20"
| "execution_status_value hardware_timeout = 0x21"
| "execution_status_value address_translation_error = 0x22"
| "execution_status_value (unnamed_status v) = v"

definition named_statuses :: "execution_status list" where
  "named_statuses =
    [processing, success, false_predicate_success, page_fault_during_processing,
     page_response_error, batch_error, batch_page_fault_error, offset_order_error,
     offset_overflow, dif_control_error, operation_error, flag_error,
     non_zero_reserved_field_error, invalid_transfer_size_error, descriptor_count_error,
     delta_size_error, buffers_overlap, dualcast_misalign_error, descriptor_list_align_error,
     invalid_interrupt_handle, page_fault_on_translation, completion_record_align_error,
     misalign_address_error, privilege_error, traffic_class_error, readback_translation_error,
     operation_readback_timeout, hardware_timeout, address_translation_error]"

text \<open>\<open>static_cast<execution_status>(byte)\<close>.\<close>
definition execution_status_of :: "u8 \<Rightarrow> execution_status" where
  "execution_status_of v =
     (case find (\<lambda>s. execution_status_value s = v) named_statuses of
        Some s \<Rightarrow> s | None \<Rightarrow> unnamed_status v)"

lemma execution_status_value_of [simp]: "execution_status_value (execution_status_of v) = v"
  by (auto simp: execution_status_of_def find_Some_iff split: option.split)

lemma execution_status_of_value [simp]:
  assumes "s \<in> set named_statuses"
  shows "execution_status_of (execution_status_value s) = s"
  by (cases s; use assms in \<open>simp add: named_statuses_def execution_status_of_def\<close>)

lemma success_is_named [simp]: "execution_status_of 1 = success"
  by (simp add: execution_status_of_def named_statuses_def)

section \<open>Laws of flags and options\<close>

lemma intersects_enable: "intersects (enable_option f m) f"
  by (auto simp: intersects_def enable_option_def bit_eq_iff bit_simps)

lemma intersects_enable_mono: "intersects m f \<Longrightarrow> intersects (enable_option g m) f"
  by (auto simp: intersects_def enable_option_def bit_eq_iff bit_simps)

text \<open>A flag value is one bit: its position.\<close>
fun flag_index :: "flag \<Rightarrow> nat" where
  "flag_index flag_fence = 0"
| "flag_index flag_block_on_fault = 1"
| "flag_index flag_completion_record_address_valid = 2"
| "flag_index flag_request_completion_record = 3"
| "flag_index flag_request_completion_interrupt = 4"
| "flag_index flag_completion_record_steering_tag_selector = 5"
| "flag_index flag_check_result = 7"
| "flag_index flag_cache_control = 8"
| "flag_index flag_address_1_tc_selector = 9"
| "flag_index flag_address_2_tc_selector = 10"
| "flag_index flag_address_3_tc_selector = 11"
| "flag_index flag_completion_record_tc_selector = 12"
| "flag_index flag_strict_ordering = 13"
| "flag_index flag_destination_readback = 14"
| "flag_index flag_destination_steering_tag_selector = 15"

lemma flag_value_index: "flag_value f = push_bit (flag_index f) 1"
  by (cases f) simp_all

lemma flag_index_less [simp]: "flag_index f < 16"
  by (cases f) simp_all

lemma flag_index_inject [simp]: "flag_index f = flag_index g \<longleftrightarrow> f = g"
  by (cases f) (cases g; simp)+

lemma bit_flag_value: "bit (flag_value f) n \<longleftrightarrow> n = flag_index f"
  using flag_index_less [of f] by (auto simp: flag_value_index bit_exp_iff)

lemma intersects_flag: "intersects m (flag_value f) \<longleftrightarrow> bit m (flag_index f)"
proof
  assume "intersects m (flag_value f)"
  then have "bit (m AND flag_value f) (flag_index f)"
    by (simp add: intersects_def bit_flag_value)
  then show "bit m (flag_index f)" by (simp add: bit_and_iff)
next
  assume "bit m (flag_index f)"
  then show "intersects m (flag_value f)"
    unfolding intersects_def
    by (intro bit_word_eqI) (auto simp: bit_and_iff bit_flag_value)
qed

text \<open>Enabling a flag leaves every other flag as it was.\<close>
lemma intersects_enable_flag:
  "intersects (enable_option (flag_value f) m) (flag_value g) \<longleftrightarrow> intersects m (flag_value g) \<or> f = g"
  unfolding intersects_flag
  by (auto simp: enable_option_def bit_or_iff bit_flag_value)

end
