(* ===== verification/DML_Views.thy ===== *)
theory DML_Views
  imports DML_Types
begin

text \<open>
  The typed views of \<open>core/descriptor_views.hpp\<close> and \<open>core/completion_record_views.hpp\<close>. A
  descriptor is its 64 bytes. An accessor of the sources returns a reference into those
  bytes, so it is modelled by two functions: \<open>x_f\<close> reads the field \<open>f\<close> through view \<open>x\<close> and
  \<open>set_x_f\<close> assigns it. A completion record lives in memory, because kernels (or the
  hardware) write it through its address: readers take the 32 bytes of the record, writers
  take its address and the memory. Subclasses rename fields of the base class; their
  accessors call the base accessors here as they do in the sources.
\<close>

named_theorems view_defs \<open>the accessors as fields at offsets\<close>

section \<open>Descriptors\<close>

type_synonym descriptor = "byte list"
type_synonym completion_record = "byte list"

text \<open>The constructors zero every byte.\<close>
definition new_descriptor :: descriptor where
  "new_descriptor = replicate 64 0"

definition new_completion_record :: completion_record where
  "new_completion_record = replicate 32 0"

definition wf_descriptor :: "descriptor \<Rightarrow> bool" where
  "wf_descriptor d \<longleftrightarrow> length d = 64"

lemma wf_new_descriptor [simp]: "wf_descriptor new_descriptor"
  by (simp add: wf_descriptor_def new_descriptor_def)

lemma length_new_descriptor [simp]: "length new_descriptor = 64"
  by (simp add: new_descriptor_def)

subsection \<open>\<open>any_descriptor\<close>\<close>

definition dsc_operation :: "descriptor \<Rightarrow> u8" where
  [view_defs]: "dsc_operation d = get_field 7 d"

definition set_dsc_operation :: "u8 \<Rightarrow> descriptor \<Rightarrow> descriptor" where
  [view_defs]: "set_dsc_operation v d = set_field 7 v d"

definition dsc_flags :: "descriptor \<Rightarrow> u16" where
  [view_defs]: "dsc_flags d = get_field 4 d"

definition set_dsc_flags :: "u16 \<Rightarrow> descriptor \<Rightarrow> descriptor" where
  [view_defs]: "set_dsc_flags v d = set_field 4 v d"

definition dsc_operation_specific_flags :: "descriptor \<Rightarrow> u8" where
  [view_defs]: "dsc_operation_specific_flags d = get_field 6 d"

definition set_dsc_operation_specific_flags :: "u8 \<Rightarrow> descriptor \<Rightarrow> descriptor" where
  [view_defs]: "set_dsc_operation_specific_flags v d = set_field 6 v d"

definition dsc_completion_record_address :: "descriptor \<Rightarrow> u64" where
  [view_defs]: "dsc_completion_record_address d = get_field 8 d"

definition set_dsc_completion_record_address :: "u64 \<Rightarrow> descriptor \<Rightarrow> descriptor" where
  [view_defs]: "set_dsc_completion_record_address v d = set_field 8 v d"

definition dsc_source_address :: "descriptor \<Rightarrow> u64" where
  [view_defs]: "dsc_source_address d = get_field 16 d"

definition set_dsc_source_address :: "u64 \<Rightarrow> descriptor \<Rightarrow> descriptor" where
  [view_defs]: "set_dsc_source_address v d = set_field 16 v d"

definition dsc_destination_address :: "descriptor \<Rightarrow> u64" where
  [view_defs]: "dsc_destination_address d = get_field 24 d"

definition set_dsc_destination_address :: "u64 \<Rightarrow> descriptor \<Rightarrow> descriptor" where
  [view_defs]: "set_dsc_destination_address v d = set_field 24 v d"

definition dsc_transfer_size :: "descriptor \<Rightarrow> u32" where
  [view_defs]: "dsc_transfer_size d = get_field 32 d"

definition set_dsc_transfer_size :: "u32 \<Rightarrow> descriptor \<Rightarrow> descriptor" where
  [view_defs]: "set_dsc_transfer_size v d = set_field 32 v d"

definition dsc_completion_interrupt_handle :: "descriptor \<Rightarrow> u16" where
  [view_defs]: "dsc_completion_interrupt_handle d = get_field 36 d"

definition set_dsc_completion_interrupt_handle :: "u16 \<Rightarrow> descriptor \<Rightarrow> descriptor" where
  [view_defs]: "set_dsc_completion_interrupt_handle v d = set_field 36 v d"


subsection \<open>\<open>batch_descriptor\<close>\<close>

definition batch_dsc_descriptor_list_address :: "descriptor \<Rightarrow> u64" where
  [view_defs]: "batch_dsc_descriptor_list_address d = dsc_source_address d"

definition set_batch_dsc_descriptor_list_address :: "u64 \<Rightarrow> descriptor \<Rightarrow> descriptor" where
  [view_defs]: "set_batch_dsc_descriptor_list_address v d = set_dsc_source_address v d"

definition batch_dsc_descriptors_count :: "descriptor \<Rightarrow> u32" where
  [view_defs]: "batch_dsc_descriptors_count d = dsc_transfer_size d"

definition set_batch_dsc_descriptors_count :: "u32 \<Rightarrow> descriptor \<Rightarrow> descriptor" where
  [view_defs]: "set_batch_dsc_descriptors_count v d = set_dsc_transfer_size v d"


subsection \<open>\<open>drain_descriptor\<close>\<close>

definition drain_dsc_readback_address_1 :: "descriptor \<Rightarrow> u64" where
  [view_defs]: "drain_dsc_readback_address_1 d = dsc_source_address d"

definition set_drain_dsc_readback_address_1 :: "u64 \<Rightarrow> descriptor \<Rightarrow> descriptor" where
  [view_defs]: "set_drain_dsc_readback_address_1 v d = set_dsc_source_address v d"

definition drain_dsc_readback_address_2 :: "descriptor \<Rightarrow> u64" where
  [view_defs]: "drain_dsc_readback_address_2 d = dsc_destination_address d"

definition set_drain_dsc_readback_address_2 :: "u64 \<Rightarrow> descriptor \<Rightarrow> descriptor" where
  [view_defs]: "set_drain_dsc_readback_address_2 v d = set_dsc_destination_address v d"


subsection \<open>\<open>fill_descriptor\<close>\<close>

definition fill_dsc_pattern :: "descriptor \<Rightarrow> u64" where
  [view_defs]: "fill_dsc_pattern d = dsc_source_address d"

definition set_fill_dsc_pattern :: "u64 \<Rightarrow> descriptor \<Rightarrow> descriptor" where
  [view_defs]: "set_fill_dsc_pattern v d = set_dsc_source_address v d"


subsection \<open>\<open>compare_descriptor\<close>\<close>

definition compare_dsc_source_1_address :: "descriptor \<Rightarrow> u64" where
  [view_defs]: "compare_dsc_source_1_address d = dsc_source_address d"

definition set_compare_dsc_source_1_address :: "u64 \<Rightarrow> descriptor \<Rightarrow> descriptor" where
  [view_defs]: "set_compare_dsc_source_1_address v d = set_dsc_source_address v d"

definition compare_dsc_source_2_address :: "descriptor \<Rightarrow> u64" where
  [view_defs]: "compare_dsc_source_2_address d = dsc_destination_address d"

definition set_compare_dsc_source_2_address :: "u64 \<Rightarrow> descriptor \<Rightarrow> descriptor" where
  [view_defs]: "set_compare_dsc_source_2_address v d = set_dsc_destination_address v d"

definition compare_dsc_expected_result :: "descriptor \<Rightarrow> u8" where
  [view_defs]: "compare_dsc_expected_result d = get_field 40 d"

definition set_compare_dsc_expected_result :: "u8 \<Rightarrow> descriptor \<Rightarrow> descriptor" where
  [view_defs]: "set_compare_dsc_expected_result v d = set_field 40 v d"


subsection \<open>\<open>compare_pattern_descriptor\<close>\<close>

definition compare_pattern_dsc_pattern :: "descriptor \<Rightarrow> u64" where
  [view_defs]: "compare_pattern_dsc_pattern d = dsc_destination_address d"

definition set_compare_pattern_dsc_pattern :: "u64 \<Rightarrow> descriptor \<Rightarrow> descriptor" where
  [view_defs]: "set_compare_pattern_dsc_pattern v d = set_dsc_destination_address v d"

definition compare_pattern_dsc_expected_result :: "descriptor \<Rightarrow> u8" where
  [view_defs]: "compare_pattern_dsc_expected_result d = get_field 40 d"

definition set_compare_pattern_dsc_expected_result :: "u8 \<Rightarrow> descriptor \<Rightarrow> descriptor" where
  [view_defs]: "set_compare_pattern_dsc_expected_result v d = set_field 40 v d"


subsection \<open>\<open>create_delta_descriptor\<close>\<close>

definition create_delta_dsc_source_1_address :: "descriptor \<Rightarrow> u64" where
  [view_defs]: "create_delta_dsc_source_1_address d = dsc_source_address d"

definition set_create_delta_dsc_source_1_address :: "u64 \<Rightarrow> descriptor \<Rightarrow> descriptor" where
  [view_defs]: "set_create_delta_dsc_source_1_address v d = set_dsc_source_address v d"

definition create_delta_dsc_source_2_address :: "descriptor \<Rightarrow> u64" where
  [view_defs]: "create_delta_dsc_source_2_address d = dsc_destination_address d"

definition set_create_delta_dsc_source_2_address :: "u64 \<Rightarrow> descriptor \<Rightarrow> descriptor" where
  [view_defs]: "set_create_delta_dsc_source_2_address v d = set_dsc_destination_address v d"

definition create_delta_dsc_delta_record_address :: "descriptor \<Rightarrow> u64" where
  [view_defs]: "create_delta_dsc_delta_record_address d = get_field 40 d"

definition set_create_delta_dsc_delta_record_address :: "u64 \<Rightarrow> descriptor \<Rightarrow> descriptor" where
  [view_defs]: "set_create_delta_dsc_delta_record_address v d = set_field 40 v d"

definition create_delta_dsc_maximum_delta_record_size :: "descriptor \<Rightarrow> u32" where
  [view_defs]: "create_delta_dsc_maximum_delta_record_size d = get_field 48 d"

definition set_create_delta_dsc_maximum_delta_record_size :: "u32 \<Rightarrow> descriptor \<Rightarrow> descriptor" where
  [view_defs]: "set_create_delta_dsc_maximum_delta_record_size v d = set_field 48 v d"

definition create_delta_dsc_expected_result_mask :: "descriptor \<Rightarrow> u8" where
  [view_defs]: "create_delta_dsc_expected_result_mask d = get_field 56 d"

definition set_create_delta_dsc_expected_result_mask :: "u8 \<Rightarrow> descriptor \<Rightarrow> descriptor" where
  [view_defs]: "set_create_delta_dsc_expected_result_mask v d = set_field 56 v d"


subsection \<open>\<open>apply_delta_descriptor\<close>\<close>

definition apply_delta_dsc_delta_record_address :: "descriptor \<Rightarrow> u64" where
  [view_defs]: "apply_delta_dsc_delta_record_address d = dsc_source_address d"

definition set_apply_delta_dsc_delta_record_address :: "u64 \<Rightarrow> descriptor \<Rightarrow> descriptor" where
  [view_defs]: "set_apply_delta_dsc_delta_record_address v d = set_dsc_source_address v d"

definition apply_delta_dsc_delta_record_size :: "descriptor \<Rightarrow> u32" where
  [view_defs]: "apply_delta_dsc_delta_record_size d = get_field 40 d"

definition set_apply_delta_dsc_delta_record_size :: "u32 \<Rightarrow> descriptor \<Rightarrow> descriptor" where
  [view_defs]: "set_apply_delta_dsc_delta_record_size v d = set_field 40 v d"


subsection \<open>\<open>dualcast_descriptor\<close>\<close>

definition dualcast_dsc_destination_1_address :: "descriptor \<Rightarrow> u64" where
  [view_defs]: "dualcast_dsc_destination_1_address d = dsc_destination_address d"

definition set_dualcast_dsc_destination_1_address :: "u64 \<Rightarrow> descriptor \<Rightarrow> descriptor" where
  [view_defs]: "set_dualcast_dsc_destination_1_address v d = set_dsc_destination_address v d"

definition dualcast_dsc_destination_2_address :: "descriptor \<Rightarrow> u64" where
  [view_defs]: "dualcast_dsc_destination_2_address d = get_field 40 d"

definition set_dualcast_dsc_destination_2_address :: "u64 \<Rightarrow> descriptor \<Rightarrow> descriptor" where
  [view_defs]: "set_dualcast_dsc_destination_2_address v d = set_field 40 v d"


subsection \<open>\<open>crc_descriptor\<close>\<close>

definition crc_dsc_crc_seed :: "descriptor \<Rightarrow> u32" where
  [view_defs]: "crc_dsc_crc_seed d = get_field 40 d"

definition set_crc_dsc_crc_seed :: "u32 \<Rightarrow> descriptor \<Rightarrow> descriptor" where
  [view_defs]: "set_crc_dsc_crc_seed v d = set_field 40 v d"

definition crc_dsc_crc_seed_address :: "descriptor \<Rightarrow> u64" where
  [view_defs]: "crc_dsc_crc_seed_address d = get_field 48 d"

definition set_crc_dsc_crc_seed_address :: "u64 \<Rightarrow> descriptor \<Rightarrow> descriptor" where
  [view_defs]: "set_crc_dsc_crc_seed_address v d = set_field 48 v d"


subsection \<open>\<open>copy_crc_descriptor\<close>\<close>

definition copy_crc_dsc_crc_seed :: "descriptor \<Rightarrow> u32" where
  [view_defs]: "copy_crc_dsc_crc_seed d = get_field 40 d"

definition set_copy_crc_dsc_crc_seed :: "u32 \<Rightarrow> descriptor \<Rightarrow> descriptor" where
  [view_defs]: "set_copy_crc_dsc_crc_seed v d = set_field 40 v d"

definition copy_crc_dsc_crc_seed_address :: "descriptor \<Rightarrow> u64" where
  [view_defs]: "copy_crc_dsc_crc_seed_address d = get_field 48 d"

definition set_copy_crc_dsc_crc_seed_address :: "u64 \<Rightarrow> descriptor \<Rightarrow> descriptor" where
  [view_defs]: "set_copy_crc_dsc_crc_seed_address v d = set_field 48 v d"


subsection \<open>\<open>dif_check_descriptor\<close>\<close>

definition dif_check_dsc_source_dif_flags :: "descriptor \<Rightarrow> u8" where
  [view_defs]: "dif_check_dsc_source_dif_flags d = get_field 40 d"

definition set_dif_check_dsc_source_dif_flags :: "u8 \<Rightarrow> descriptor \<Rightarrow> descriptor" where
  [view_defs]: "set_dif_check_dsc_source_dif_flags v d = set_field 40 v d"

definition dif_check_dsc_dif_flags :: "descriptor \<Rightarrow> u8" where
  [view_defs]: "dif_check_dsc_dif_flags d = get_field 42 d"

definition set_dif_check_dsc_dif_flags :: "u8 \<Rightarrow> descriptor \<Rightarrow> descriptor" where
  [view_defs]: "set_dif_check_dsc_dif_flags v d = set_field 42 v d"

definition dif_check_dsc_source_ref_tag :: "descriptor \<Rightarrow> u32" where
  [view_defs]: "dif_check_dsc_source_ref_tag d = get_field 48 d"

definition set_dif_check_dsc_source_ref_tag :: "u32 \<Rightarrow> descriptor \<Rightarrow> descriptor" where
  [view_defs]: "set_dif_check_dsc_source_ref_tag v d = set_field 48 v d"

definition dif_check_dsc_source_app_tag :: "descriptor \<Rightarrow> u16" where
  [view_defs]: "dif_check_dsc_source_app_tag d = get_field 54 d"

definition set_dif_check_dsc_source_app_tag :: "u16 \<Rightarrow> descriptor \<Rightarrow> descriptor" where
  [view_defs]: "set_dif_check_dsc_source_app_tag v d = set_field 54 v d"

definition dif_check_dsc_source_app_tag_mask :: "descriptor \<Rightarrow> u16" where
  [view_defs]: "dif_check_dsc_source_app_tag_mask d = get_field 52 d"

definition set_dif_check_dsc_source_app_tag_mask :: "u16 \<Rightarrow> descriptor \<Rightarrow> descriptor" where
  [view_defs]: "set_dif_check_dsc_source_app_tag_mask v d = set_field 52 v d"


subsection \<open>\<open>dif_insert_descriptor\<close>\<close>

definition dif_insert_dsc_destination_dif_flags :: "descriptor \<Rightarrow> u8" where
  [view_defs]: "dif_insert_dsc_destination_dif_flags d = get_field 41 d"

definition set_dif_insert_dsc_destination_dif_flags :: "u8 \<Rightarrow> descriptor \<Rightarrow> descriptor" where
  [view_defs]: "set_dif_insert_dsc_destination_dif_flags v d = set_field 41 v d"

definition dif_insert_dsc_dif_flags :: "descriptor \<Rightarrow> u8" where
  [view_defs]: "dif_insert_dsc_dif_flags d = get_field 42 d"

definition set_dif_insert_dsc_dif_flags :: "u8 \<Rightarrow> descriptor \<Rightarrow> descriptor" where
  [view_defs]: "set_dif_insert_dsc_dif_flags v d = set_field 42 v d"

definition dif_insert_dsc_destination_ref_tag :: "descriptor \<Rightarrow> u32" where
  [view_defs]: "dif_insert_dsc_destination_ref_tag d = get_field 56 d"

definition set_dif_insert_dsc_destination_ref_tag :: "u32 \<Rightarrow> descriptor \<Rightarrow> descriptor" where
  [view_defs]: "set_dif_insert_dsc_destination_ref_tag v d = set_field 56 v d"

definition dif_insert_dsc_destination_app_tag :: "descriptor \<Rightarrow> u16" where
  [view_defs]: "dif_insert_dsc_destination_app_tag d = get_field 62 d"

definition set_dif_insert_dsc_destination_app_tag :: "u16 \<Rightarrow> descriptor \<Rightarrow> descriptor" where
  [view_defs]: "set_dif_insert_dsc_destination_app_tag v d = set_field 62 v d"

definition dif_insert_dsc_destination_app_tag_mask :: "descriptor \<Rightarrow> u16" where
  [view_defs]: "dif_insert_dsc_destination_app_tag_mask d = get_field 60 d"

definition set_dif_insert_dsc_destination_app_tag_mask :: "u16 \<Rightarrow> descriptor \<Rightarrow> descriptor" where
  [view_defs]: "set_dif_insert_dsc_destination_app_tag_mask v d = set_field 60 v d"


subsection \<open>\<open>dif_strip_descriptor\<close>\<close>

definition dif_strip_dsc_source_dif_flags :: "descriptor \<Rightarrow> u8" where
  [view_defs]: "dif_strip_dsc_source_dif_flags d = get_field 40 d"

definition set_dif_strip_dsc_source_dif_flags :: "u8 \<Rightarrow> descriptor \<Rightarrow> descriptor" where
  [view_defs]: "set_dif_strip_dsc_source_dif_flags v d = set_field 40 v d"

definition dif_strip_dsc_dif_flags :: "descriptor \<Rightarrow> u8" where
  [view_defs]: "dif_strip_dsc_dif_flags d = get_field 42 d"

definition set_dif_strip_dsc_dif_flags :: "u8 \<Rightarrow> descriptor \<Rightarrow> descriptor" where
  [view_defs]: "set_dif_strip_dsc_dif_flags v d = set_field 42 v d"

definition dif_strip_dsc_source_ref_tag :: "descriptor \<Rightarrow> u32" where
  [view_defs]: "dif_strip_dsc_source_ref_tag d = get_field 48 d"

definition set_dif_strip_dsc_source_ref_tag :: "u32 \<Rightarrow> descriptor \<Rightarrow> descriptor" where
  [view_defs]: "set_dif_strip_dsc_source_ref_tag v d = set_field 48 v d"

definition dif_strip_dsc_source_app_tag :: "descriptor \<Rightarrow> u16" where
  [view_defs]: "dif_strip_dsc_source_app_tag d = get_field 54 d"

definition set_dif_strip_dsc_source_app_tag :: "u16 \<Rightarrow> descriptor \<Rightarrow> descriptor" where
  [view_defs]: "set_dif_strip_dsc_source_app_tag v d = set_field 54 v d"

definition dif_strip_dsc_source_app_tag_mask :: "descriptor \<Rightarrow> u16" where
  [view_defs]: "dif_strip_dsc_source_app_tag_mask d = get_field 52 d"

definition set_dif_strip_dsc_source_app_tag_mask :: "u16 \<Rightarrow> descriptor \<Rightarrow> descriptor" where
  [view_defs]: "set_dif_strip_dsc_source_app_tag_mask v d = set_field 52 v d"


subsection \<open>\<open>dif_update_descriptor\<close>\<close>

definition dif_update_dsc_source_dif_flags :: "descriptor \<Rightarrow> u8" where
  [view_defs]: "dif_update_dsc_source_dif_flags d = get_field 40 d"

definition set_dif_update_dsc_source_dif_flags :: "u8 \<Rightarrow> descriptor \<Rightarrow> descriptor" where
  [view_defs]: "set_dif_update_dsc_source_dif_flags v d = set_field 40 v d"

definition dif_update_dsc_destination_dif_flags :: "descriptor \<Rightarrow> u8" where
  [view_defs]: "dif_update_dsc_destination_dif_flags d = get_field 41 d"

definition set_dif_update_dsc_destination_dif_flags :: "u8 \<Rightarrow> descriptor \<Rightarrow> descriptor" where
  [view_defs]: "set_dif_update_dsc_destination_dif_flags v d = set_field 41 v d"

definition dif_update_dsc_dif_flags :: "descriptor \<Rightarrow> u8" where
  [view_defs]: "dif_update_dsc_dif_flags d = get_field 42 d"

definition set_dif_update_dsc_dif_flags :: "u8 \<Rightarrow> descriptor \<Rightarrow> descriptor" where
  [view_defs]: "set_dif_update_dsc_dif_flags v d = set_field 42 v d"

definition dif_update_dsc_source_ref_tag :: "descriptor \<Rightarrow> u32" where
  [view_defs]: "dif_update_dsc_source_ref_tag d = get_field 48 d"

definition set_dif_update_dsc_source_ref_tag :: "u32 \<Rightarrow> descriptor \<Rightarrow> descriptor" where
  [view_defs]: "set_dif_update_dsc_source_ref_tag v d = set_field 48 v d"

definition dif_update_dsc_source_app_tag :: "descriptor \<Rightarrow> u16" where
  [view_defs]: "dif_update_dsc_source_app_tag d = get_field 54 d"

definition set_dif_update_dsc_source_app_tag :: "u16 \<Rightarrow> descriptor \<Rightarrow> descriptor" where
  [view_defs]: "set_dif_update_dsc_source_app_tag v d = set_field 54 v d"

definition dif_update_dsc_source_app_tag_mask :: "descriptor \<Rightarrow> u16" where
  [view_defs]: "dif_update_dsc_source_app_tag_mask d = get_field 52 d"

definition set_dif_update_dsc_source_app_tag_mask :: "u16 \<Rightarrow> descriptor \<Rightarrow> descriptor" where
  [view_defs]: "set_dif_update_dsc_source_app_tag_mask v d = set_field 52 v d"

definition dif_update_dsc_destination_ref_tag :: "descriptor \<Rightarrow> u32" where
  [view_defs]: "dif_update_dsc_destination_ref_tag d = get_field 56 d"

definition set_dif_update_dsc_destination_ref_tag :: "u32 \<Rightarrow> descriptor \<Rightarrow> descriptor" where
  [view_defs]: "set_dif_update_dsc_destination_ref_tag v d = set_field 56 v d"

definition dif_update_dsc_destination_app_tag :: "descriptor \<Rightarrow> u16" where
  [view_defs]: "dif_update_dsc_destination_app_tag d = get_field 62 d"

definition set_dif_update_dsc_destination_app_tag :: "u16 \<Rightarrow> descriptor \<Rightarrow> descriptor" where
  [view_defs]: "set_dif_update_dsc_destination_app_tag v d = set_field 62 v d"

definition dif_update_dsc_destination_app_tag_mask :: "descriptor \<Rightarrow> u16" where
  [view_defs]: "dif_update_dsc_destination_app_tag_mask d = get_field 60 d"

definition set_dif_update_dsc_destination_app_tag_mask :: "u16 \<Rightarrow> descriptor \<Rightarrow> descriptor" where
  [view_defs]: "set_dif_update_dsc_destination_app_tag_mask v d = set_field 60 v d"

section \<open>Completion records\<close>

text \<open>The record object at an address, and the assignment of one of its fields.\<close>
definition record_at :: "mem \<Rightarrow> addr \<Rightarrow> completion_record" where
  "record_at m a = load_bytes m a 32"

definition put_record_field :: "addr \<Rightarrow> nat \<Rightarrow> 'a::len word \<Rightarrow> mem \<Rightarrow> mem" where
  "put_record_field a off v m = store m (a + word_of_nat off) v"

text \<open>\<open>core::get_completion_record(dsc)\<close>: the address of the record the descriptor names.\<close>
definition record_address :: "descriptor \<Rightarrow> addr" where
  "record_address d = dsc_completion_record_address d"

subsection \<open>\<open>any_completion_record\<close>\<close>

definition cr_status :: "completion_record \<Rightarrow> u8" where
  [view_defs]: "cr_status r = get_field 0 r"

definition set_cr_status :: "addr \<Rightarrow> u8 \<Rightarrow> mem \<Rightarrow> mem" where
  [view_defs]: "set_cr_status a v m = put_record_field a 0 v m"

definition cr_result :: "completion_record \<Rightarrow> u8" where
  [view_defs]: "cr_result r = get_field 1 r"

definition set_cr_result :: "addr \<Rightarrow> u8 \<Rightarrow> mem \<Rightarrow> mem" where
  [view_defs]: "set_cr_result a v m = put_record_field a 1 v m"

definition cr_bytes_completed :: "completion_record \<Rightarrow> u32" where
  [view_defs]: "cr_bytes_completed r = get_field 4 r"

definition set_cr_bytes_completed :: "addr \<Rightarrow> u32 \<Rightarrow> mem \<Rightarrow> mem" where
  [view_defs]: "set_cr_bytes_completed a v m = put_record_field a 4 v m"

definition cr_fault_address :: "completion_record \<Rightarrow> u64" where
  [view_defs]: "cr_fault_address r = get_field 8 r"

definition set_cr_fault_address :: "addr \<Rightarrow> u64 \<Rightarrow> mem \<Rightarrow> mem" where
  [view_defs]: "set_cr_fault_address a v m = put_record_field a 8 v m"


subsection \<open>\<open>batch_completion_record\<close>\<close>

definition batch_cr_descriptors_completed :: "completion_record \<Rightarrow> u32" where
  [view_defs]: "batch_cr_descriptors_completed r = cr_bytes_completed r"

definition set_batch_cr_descriptors_completed :: "addr \<Rightarrow> u32 \<Rightarrow> mem \<Rightarrow> mem" where
  [view_defs]: "set_batch_cr_descriptors_completed a v m = set_cr_bytes_completed a v m"


subsection \<open>\<open>create_delta_completion_record\<close>\<close>

definition create_delta_cr_delta_record_size :: "completion_record \<Rightarrow> u32" where
  [view_defs]: "create_delta_cr_delta_record_size r = get_field 16 r"

definition set_create_delta_cr_delta_record_size :: "addr \<Rightarrow> u32 \<Rightarrow> mem \<Rightarrow> mem" where
  [view_defs]: "set_create_delta_cr_delta_record_size a v m = put_record_field a 16 v m"


subsection \<open>\<open>crc_completion_record\<close>\<close>

definition crc_cr_crc_value :: "completion_record \<Rightarrow> u32" where
  [view_defs]: "crc_cr_crc_value r = get_field 16 r"

definition set_crc_cr_crc_value :: "addr \<Rightarrow> u32 \<Rightarrow> mem \<Rightarrow> mem" where
  [view_defs]: "set_crc_cr_crc_value a v m = put_record_field a 16 v m"


subsection \<open>\<open>dif_check_completion_record\<close>\<close>

definition dif_check_cr_dif_status :: "completion_record \<Rightarrow> u8" where
  [view_defs]: "dif_check_cr_dif_status r = cr_result r"

definition set_dif_check_cr_dif_status :: "addr \<Rightarrow> u8 \<Rightarrow> mem \<Rightarrow> mem" where
  [view_defs]: "set_dif_check_cr_dif_status a v m = set_cr_result a v m"

definition dif_check_cr_source_ref_tag :: "completion_record \<Rightarrow> u32" where
  [view_defs]: "dif_check_cr_source_ref_tag r = get_field 16 r"

definition set_dif_check_cr_source_ref_tag :: "addr \<Rightarrow> u32 \<Rightarrow> mem \<Rightarrow> mem" where
  [view_defs]: "set_dif_check_cr_source_ref_tag a v m = put_record_field a 16 v m"

definition dif_check_cr_source_app_tag :: "completion_record \<Rightarrow> u16" where
  [view_defs]: "dif_check_cr_source_app_tag r = get_field 22 r"

definition set_dif_check_cr_source_app_tag :: "addr \<Rightarrow> u16 \<Rightarrow> mem \<Rightarrow> mem" where
  [view_defs]: "set_dif_check_cr_source_app_tag a v m = put_record_field a 22 v m"

definition dif_check_cr_source_app_tag_mask :: "completion_record \<Rightarrow> u16" where
  [view_defs]: "dif_check_cr_source_app_tag_mask r = get_field 20 r"

definition set_dif_check_cr_source_app_tag_mask :: "addr \<Rightarrow> u16 \<Rightarrow> mem \<Rightarrow> mem" where
  [view_defs]: "set_dif_check_cr_source_app_tag_mask a v m = put_record_field a 20 v m"


subsection \<open>\<open>dif_insert_completion_record\<close>\<close>

definition dif_insert_cr_destination_ref_tag :: "completion_record \<Rightarrow> u32" where
  [view_defs]: "dif_insert_cr_destination_ref_tag r = get_field 24 r"

definition set_dif_insert_cr_destination_ref_tag :: "addr \<Rightarrow> u32 \<Rightarrow> mem \<Rightarrow> mem" where
  [view_defs]: "set_dif_insert_cr_destination_ref_tag a v m = put_record_field a 24 v m"

definition dif_insert_cr_destination_app_tag :: "completion_record \<Rightarrow> u16" where
  [view_defs]: "dif_insert_cr_destination_app_tag r = get_field 30 r"

definition set_dif_insert_cr_destination_app_tag :: "addr \<Rightarrow> u16 \<Rightarrow> mem \<Rightarrow> mem" where
  [view_defs]: "set_dif_insert_cr_destination_app_tag a v m = put_record_field a 30 v m"

definition dif_insert_cr_destination_app_tag_mask :: "completion_record \<Rightarrow> u16" where
  [view_defs]: "dif_insert_cr_destination_app_tag_mask r = get_field 28 r"

definition set_dif_insert_cr_destination_app_tag_mask :: "addr \<Rightarrow> u16 \<Rightarrow> mem \<Rightarrow> mem" where
  [view_defs]: "set_dif_insert_cr_destination_app_tag_mask a v m = put_record_field a 28 v m"


subsection \<open>\<open>dif_strip_completion_record\<close>\<close>

definition dif_strip_cr_dif_status :: "completion_record \<Rightarrow> u8" where
  [view_defs]: "dif_strip_cr_dif_status r = cr_result r"

definition set_dif_strip_cr_dif_status :: "addr \<Rightarrow> u8 \<Rightarrow> mem \<Rightarrow> mem" where
  [view_defs]: "set_dif_strip_cr_dif_status a v m = set_cr_result a v m"

definition dif_strip_cr_source_ref_tag :: "completion_record \<Rightarrow> u32" where
  [view_defs]: "dif_strip_cr_source_ref_tag r = get_field 16 r"

definition set_dif_strip_cr_source_ref_tag :: "addr \<Rightarrow> u32 \<Rightarrow> mem \<Rightarrow> mem" where
  [view_defs]: "set_dif_strip_cr_source_ref_tag a v m = put_record_field a 16 v m"

definition dif_strip_cr_source_app_tag :: "completion_record \<Rightarrow> u16" where
  [view_defs]: "dif_strip_cr_source_app_tag r = get_field 22 r"

definition set_dif_strip_cr_source_app_tag :: "addr \<Rightarrow> u16 \<Rightarrow> mem \<Rightarrow> mem" where
  [view_defs]: "set_dif_strip_cr_source_app_tag a v m = put_record_field a 22 v m"

definition dif_strip_cr_source_app_tag_mask :: "completion_record \<Rightarrow> u16" where
  [view_defs]: "dif_strip_cr_source_app_tag_mask r = get_field 20 r"

definition set_dif_strip_cr_source_app_tag_mask :: "addr \<Rightarrow> u16 \<Rightarrow> mem \<Rightarrow> mem" where
  [view_defs]: "set_dif_strip_cr_source_app_tag_mask a v m = put_record_field a 20 v m"


subsection \<open>\<open>dif_update_completion_record\<close>\<close>

definition dif_update_cr_dif_status :: "completion_record \<Rightarrow> u8" where
  [view_defs]: "dif_update_cr_dif_status r = cr_result r"

definition set_dif_update_cr_dif_status :: "addr \<Rightarrow> u8 \<Rightarrow> mem \<Rightarrow> mem" where
  [view_defs]: "set_dif_update_cr_dif_status a v m = set_cr_result a v m"

definition dif_update_cr_source_ref_tag :: "completion_record \<Rightarrow> u32" where
  [view_defs]: "dif_update_cr_source_ref_tag r = get_field 16 r"

definition set_dif_update_cr_source_ref_tag :: "addr \<Rightarrow> u32 \<Rightarrow> mem \<Rightarrow> mem" where
  [view_defs]: "set_dif_update_cr_source_ref_tag a v m = put_record_field a 16 v m"

definition dif_update_cr_source_app_tag :: "completion_record \<Rightarrow> u16" where
  [view_defs]: "dif_update_cr_source_app_tag r = get_field 22 r"

definition set_dif_update_cr_source_app_tag :: "addr \<Rightarrow> u16 \<Rightarrow> mem \<Rightarrow> mem" where
  [view_defs]: "set_dif_update_cr_source_app_tag a v m = put_record_field a 22 v m"

definition dif_update_cr_source_app_tag_mask :: "completion_record \<Rightarrow> u16" where
  [view_defs]: "dif_update_cr_source_app_tag_mask r = get_field 20 r"

definition set_dif_update_cr_source_app_tag_mask :: "addr \<Rightarrow> u16 \<Rightarrow> mem \<Rightarrow> mem" where
  [view_defs]: "set_dif_update_cr_source_app_tag_mask a v m = put_record_field a 20 v m"

definition dif_update_cr_destination_ref_tag :: "completion_record \<Rightarrow> u32" where
  [view_defs]: "dif_update_cr_destination_ref_tag r = get_field 24 r"

definition set_dif_update_cr_destination_ref_tag :: "addr \<Rightarrow> u32 \<Rightarrow> mem \<Rightarrow> mem" where
  [view_defs]: "set_dif_update_cr_destination_ref_tag a v m = put_record_field a 24 v m"

definition dif_update_cr_destination_app_tag :: "completion_record \<Rightarrow> u16" where
  [view_defs]: "dif_update_cr_destination_app_tag r = get_field 30 r"

definition set_dif_update_cr_destination_app_tag :: "addr \<Rightarrow> u16 \<Rightarrow> mem \<Rightarrow> mem" where
  [view_defs]: "set_dif_update_cr_destination_app_tag a v m = put_record_field a 30 v m"

definition dif_update_cr_destination_app_tag_mask :: "completion_record \<Rightarrow> u16" where
  [view_defs]: "dif_update_cr_destination_app_tag_mask r = get_field 28 r"

definition set_dif_update_cr_destination_app_tag_mask :: "addr \<Rightarrow> u16 \<Rightarrow> mem \<Rightarrow> mem" where
  [view_defs]: "set_dif_update_cr_destination_app_tag_mask a v m = put_record_field a 28 v m"

section \<open>Laws of the views\<close>

lemma get_field_new_descriptor [simp]: "get_field off new_descriptor = 0"
  by (simp add: get_field_def new_descriptor_def)

lemma wf_set_field:
  "wf_descriptor d \<Longrightarrow> off + LENGTH('a::len) div 8 \<le> 64 \<Longrightarrow> wf_descriptor (set_field off (v :: 'a word) d)"
  by (simp add: wf_descriptor_def)

lemma get_dsc_same:
  "wf_descriptor d \<Longrightarrow> off + LENGTH('a::len) div 8 \<le> 64 \<Longrightarrow> 8 dvd LENGTH('a) \<Longrightarrow>
   get_field off (set_field off (v :: 'a word) d) = v"
  by (simp add: wf_descriptor_def get_set_field_same)

lemma get_dsc_other:
  "wf_descriptor d \<Longrightarrow> o2 + LENGTH('b::len) div 8 \<le> 64 \<Longrightarrow>
   o1 + LENGTH('a::len) div 8 \<le> o2 \<or> o2 + LENGTH('b) div 8 \<le> o1 \<Longrightarrow>
   (get_field o1 (set_field o2 (v :: 'b word) d) :: 'a word) = get_field o1 d"
  by (simp add: wf_descriptor_def get_set_field_other)

text \<open>The laws of a descriptor's fields, with one well-formedness condition per step.\<close>
lemmas dsc_laws = view_defs get_dsc_same get_dsc_other wf_set_field

lemma field_view_descriptor:
  assumes "off + LENGTH('a::len) div 8 \<le> 64" "8 dvd LENGTH('a)"
  shows "field_view (get_field off :: descriptor \<Rightarrow> 'a word) (set_field off) wf_descriptor"
  using assms by unfold_locales (auto simp: wf_descriptor_def field_simps_dml)

text \<open>A field of the record in memory, as a field of the 32 bytes of the record.\<close>
lemma record_at_put_field [mem_simps]:
  assumes "off + LENGTH('a::len) div 8 \<le> 32"
  shows "record_at (put_record_field a off (v :: 'a word) m) a = set_field off v (record_at m a)"
proof (rule nth_equalityI)
  show "length (record_at (put_record_field a off v m) a) = length (set_field off v (record_at m a))"
    using assms by (simp add: record_at_def)
next
  fix i assume "i < length (record_at (put_record_field a off v m) a)"
  then have i: "i < 32" by (simp add: record_at_def)
  let ?n = "LENGTH('a) div 8"
  have off: "off < 2 ^ 64" "i < 2 ^ 64" using assms i by auto
  have diff: "a + word_of_nat i - (a + word_of_nat off) = (word_of_nat i - word_of_nat off :: addr)"
    by simp
  consider (before) "i < off" | (inside) "off \<le> i" "i < off + ?n" | (after) "off + ?n \<le> i"
    by linarith
  then show "record_at (put_record_field a off v m) a ! i = set_field off v (record_at m a) ! i"
  proof cases
    case before
    then have "\<not> unat (word_of_nat i - word_of_nat off :: addr) < ?n"
      using off assms by (simp add: unat_sub_if')
    with before i assms show ?thesis
      by (simp add: record_at_def put_record_field_def store_def store_bytes_def set_field_def nth_append)
  next
    case inside
    then have "unat (word_of_nat i - word_of_nat off :: addr) = i - off"
      using off by (simp add: unat_sub_if')
    with inside i assms show ?thesis
      by (simp add: record_at_def put_record_field_def store_def store_bytes_def set_field_def
          nth_append less_diff_conv2)
  next
    case after
    then have "unat (word_of_nat i - word_of_nat off :: addr) = i - off"
      using off by (simp add: unat_sub_if')
    moreover from after have "\<not> i - off < ?n" "\<not> i < off" by linarith+
    ultimately show ?thesis using after i assms
      by (simp add: record_at_def put_record_field_def store_def store_bytes_def set_field_def
          nth_append)
  qed
qed

lemma length_record_at [simp]: "length (record_at m a) = 32"
  by (simp add: record_at_def)

lemma put_record_field_outside [mem_simps]:
  assumes "off + LENGTH('a::len) div 8 \<le> 32" "\<not> in_region x a 32"
  shows "put_record_field a off (v :: 'a word) m x = m x"
proof -
  have "\<not> in_region x (a + word_of_nat off) (LENGTH('a) div 8)"
  proof
    assume "in_region x (a + word_of_nat off) (LENGTH('a) div 8)"
    then obtain i where i: "i < LENGTH('a) div 8" "x = a + word_of_nat off + word_of_nat i"
      by (rule in_regionE)
    then have "x = a + word_of_nat (off + i)" by simp
    moreover have "off + i < 32" using i assms by linarith
    ultimately have "in_region x a 32" by (simp del: of_nat_add)
    with assms(2) show False by contradiction
  qed
  then show ?thesis by (simp add: put_record_field_def mem_simps)
qed

lemma load_record_field:
  assumes "off + LENGTH('a::len) div 8 \<le> 32"
  shows "(get_field off (record_at m a) :: 'a word) = load m (a + word_of_nat off)"
proof -
  have "take (LENGTH('a) div 8) (drop off (record_at m a))
      = load_bytes m (a + word_of_nat off) (LENGTH('a) div 8)"
    using assms by (intro nth_equalityI) (auto simp: record_at_def add.assoc simp flip: of_nat_add)
  then show ?thesis by (simp add: get_field_def load_def)
qed

text \<open>The fields of a record in memory meet the same contract as the fields of a descriptor.\<close>
lemma field_view_record:
  assumes "off + LENGTH('a::len) div 8 \<le> 32" "8 dvd LENGTH('a)"
  shows "field_view (\<lambda>m. get_field off (record_at m a) :: 'a word) (put_record_field a off) (\<lambda>_. True)"
  using assms
  by unfold_locales (auto simp: load_record_field put_record_field_def mem_simps)

lemma record_at_cong:
  assumes "\<And>x. in_region x a 32 \<Longrightarrow> m x = m' x"
  shows "record_at m a = record_at m' a"
  unfolding record_at_def by (rule load_bytes_cong) (use assms in simp)

lemma record_status_byte: "cr_status (record_at m a) = m a"
proof -
  have "take 1 (record_at m a) = [m a]"
    by (simp add: record_at_def load_bytes_def upt_rec [of 0 32])
  then show ?thesis by (simp add: cr_status_def get_field_def)
qed

lemma record_result_byte: "cr_result (record_at m a) = m (a + 1)"
proof -
  have "take 1 (drop 1 (record_at m a)) = [m (a + 1)]"
    by (simp add: record_at_def load_bytes_def upt_rec [of 0 32] upt_rec [of "Suc 0" 32])
  then show ?thesis by (simp add: cr_result_def get_field_def)
qed

text \<open>Every accessor of \<open>any_descriptor\<close> keeps the contract of a field.\<close>
interpretation operation_view: field_view dsc_operation set_dsc_operation wf_descriptor
  unfolding view_defs [abs_def] by (rule field_view_descriptor) simp_all

interpretation flags_view: field_view dsc_flags set_dsc_flags wf_descriptor
  unfolding view_defs [abs_def] by (rule field_view_descriptor) simp_all

interpretation record_address_view:
  field_view dsc_completion_record_address set_dsc_completion_record_address wf_descriptor
  unfolding view_defs [abs_def] by (rule field_view_descriptor) simp_all

interpretation source_view: field_view dsc_source_address set_dsc_source_address wf_descriptor
  unfolding view_defs [abs_def] by (rule field_view_descriptor) simp_all

interpretation destination_view:
  field_view dsc_destination_address set_dsc_destination_address wf_descriptor
  unfolding view_defs [abs_def] by (rule field_view_descriptor) simp_all

interpretation size_view: field_view dsc_transfer_size set_dsc_transfer_size wf_descriptor
  unfolding view_defs [abs_def] by (rule field_view_descriptor) simp_all

interpretation source_size_pair:
  field_pair dsc_source_address set_dsc_source_address dsc_transfer_size set_dsc_transfer_size
    wf_descriptor
  by unfold_locales (auto simp: view_defs wf_descriptor_def field_simps_dml)

interpretation source_destination_pair:
  field_pair dsc_source_address set_dsc_source_address dsc_destination_address
    set_dsc_destination_address wf_descriptor
  by unfold_locales (auto simp: view_defs wf_descriptor_def field_simps_dml)

interpretation destination_size_pair:
  field_pair dsc_destination_address set_dsc_destination_address dsc_transfer_size
    set_dsc_transfer_size wf_descriptor
  by unfold_locales (auto simp: view_defs wf_descriptor_def field_simps_dml)

text \<open>The status, result and progress fields of the record at \<open>a\<close>.\<close>
interpretation status_view: field_view "\<lambda>m. cr_status (record_at m a)" "set_cr_status a" "\<lambda>_. True"
  for a
  unfolding view_defs [abs_def] by (rule field_view_record) simp_all

interpretation result_view: field_view "\<lambda>m. cr_result (record_at m a)" "set_cr_result a" "\<lambda>_. True"
  for a
  unfolding view_defs [abs_def] by (rule field_view_record) simp_all

interpretation completed_view:
  field_view "\<lambda>m. cr_bytes_completed (record_at m a)" "set_cr_bytes_completed a" "\<lambda>_. True"
  for a
  unfolding view_defs [abs_def] by (rule field_view_record) simp_all

lemmas view_laws = view_defs field_simps_dml wf_descriptor_def

end
