(* ===== verification/DML_Validation.thy ===== *)
theory DML_Validation
  imports DML_Views
begin

text \<open>
  Descriptor validation: the predicates of \<open>core/src/utils.hpp\<close> and the validators of
  \<open>core/src/validation.cpp\<close>, one definition per overload of \<open>validate\<close>, and what a successful
  validation guarantees to the kernels. \<open>address_t\<close> arithmetic is 64-bit and
  \<open>transfer_size_t\<close> arithmetic is 32-bit, as in the sources.
\<close>

section \<open>Predicates\<close>

definition any_equal_zero :: "'a::len word list \<Rightarrow> bool" where
  "any_equal_zero args = list_ex (\<lambda>v. v = 0) args"

definition overlaps :: "addr \<Rightarrow> addr \<Rightarrow> u32 \<Rightarrow> bool" where
  "overlaps lhs rhs sz \<longleftrightarrow>
     (lhs \<le> rhs \<and> lhs + ucast sz > rhs) \<or> (rhs \<le> lhs \<and> rhs + ucast sz > lhs)"

definition overlaps_sized :: "addr \<Rightarrow> u32 \<Rightarrow> addr \<Rightarrow> u32 \<Rightarrow> bool" where
  "overlaps_sized lhs lhs_size rhs rhs_size \<longleftrightarrow>
     (lhs \<le> rhs \<and> lhs + ucast lhs_size > rhs) \<or> (rhs \<le> lhs \<and> rhs + ucast rhs_size > lhs)"

definition any_misaligned :: "addr \<Rightarrow> addr list \<Rightarrow> bool" where
  "any_misaligned alignment args = list_ex (\<lambda>v. v mod alignment \<noteq> 0) args"

definition dif_block_sizes :: "u32 list" where
  "dif_block_sizes = [512, 520, 4096, 4104]"

text \<open>\<open>dif_block_sizes[flags & 0b11]\<close>\<close>
definition dif_block_size_of :: "u8 \<Rightarrow> u32" where
  "dif_block_size_of flags = dif_block_sizes ! unat (flags AND 0b11)"

section \<open>Validators\<close>

definition validate_nop :: "descriptor \<Rightarrow> validation_status" where
  "validate_nop d = val_success"

definition validate_drain :: "descriptor \<Rightarrow> validation_status" where
  "validate_drain d = val_success"

definition validate_mem_move :: "descriptor \<Rightarrow> validation_status" where
  "validate_mem_move d =
     (if any_equal_zero [dsc_source_address d, dsc_destination_address d] then val_null_address
      else if any_equal_zero [dsc_transfer_size d] then val_null_size
      else val_success)"

definition validate_fill :: "descriptor \<Rightarrow> validation_status" where
  "validate_fill d =
     (if any_equal_zero [dsc_destination_address d] then val_null_address
      else if any_equal_zero [dsc_transfer_size d] then val_null_size
      else val_success)"

definition validate_compare :: "descriptor \<Rightarrow> validation_status" where
  "validate_compare d =
     (if any_equal_zero [compare_dsc_source_1_address d, compare_dsc_source_2_address d]
      then val_null_address
      else if any_equal_zero [dsc_transfer_size d] then val_null_size
      else val_success)"

definition validate_compare_pattern :: "descriptor \<Rightarrow> validation_status" where
  "validate_compare_pattern d =
     (if any_equal_zero [dsc_source_address d] then val_null_address
      else if any_equal_zero [dsc_transfer_size d] then val_null_size
      else val_success)"

definition validate_create_delta :: "descriptor \<Rightarrow> validation_status" where
  "validate_create_delta d =
     (if any_equal_zero [create_delta_dsc_source_1_address d, create_delta_dsc_source_2_address d,
           create_delta_dsc_delta_record_address d]
      then val_null_address
      else if any_equal_zero [dsc_transfer_size d, create_delta_dsc_maximum_delta_record_size d]
      then val_null_size
      else if any_misaligned 8 [create_delta_dsc_source_1_address d,
           create_delta_dsc_source_2_address d, create_delta_dsc_delta_record_address d]
      then val_misalignment
      else if dsc_transfer_size d mod 8 \<noteq> 0 then val_wrong_size
      else if dsc_transfer_size d > 0x80000 then val_large_size
      else if create_delta_dsc_maximum_delta_record_size d mod 10 \<noteq> 0
           \<or> create_delta_dsc_maximum_delta_record_size d < 80
      then val_wrong_delta_size
      else val_success)"

definition validate_apply_delta :: "descriptor \<Rightarrow> validation_status" where
  "validate_apply_delta d =
     (if any_equal_zero [dsc_destination_address d, apply_delta_dsc_delta_record_address d]
      then val_null_address
      else if any_equal_zero [dsc_transfer_size d, apply_delta_dsc_delta_record_size d]
      then val_null_size
      else if overlaps_sized (apply_delta_dsc_delta_record_address d)
           (apply_delta_dsc_delta_record_size d) (dsc_destination_address d) (dsc_transfer_size d)
      then val_overlapping
      else if any_misaligned 8 [dsc_destination_address d, apply_delta_dsc_delta_record_address d]
      then val_misalignment
      else if dsc_transfer_size d mod 8 \<noteq> 0 then val_wrong_size
      else if dsc_transfer_size d > 0x80000 then val_large_size
      else if apply_delta_dsc_delta_record_size d mod 10 \<noteq> 0 then val_wrong_delta_size
      else val_success)"

definition validate_dualcast :: "descriptor \<Rightarrow> validation_status" where
  "validate_dualcast d =
     (if any_equal_zero [dsc_source_address d, dualcast_dsc_destination_1_address d,
           dualcast_dsc_destination_2_address d]
      then val_null_address
      else if any_equal_zero [dsc_transfer_size d] then val_null_size
      else if dualcast_dsc_destination_1_address d AND 0xFFF
           \<noteq> dualcast_dsc_destination_2_address d AND 0xFFF
      then val_wrong_dualcast_address
      else if overlaps (dsc_source_address d) (dualcast_dsc_destination_1_address d)
           (dsc_transfer_size d)
      then val_overlapping
      else if overlaps (dsc_source_address d) (dualcast_dsc_destination_2_address d)
           (dsc_transfer_size d)
      then val_overlapping
      else if overlaps (dualcast_dsc_destination_1_address d)
           (dualcast_dsc_destination_2_address d) (dsc_transfer_size d)
      then val_overlapping
      else val_success)"

definition validate_crc :: "descriptor \<Rightarrow> validation_status" where
  "validate_crc d =
     (if any_equal_zero [dsc_source_address d] then val_null_address
      else if any_equal_zero [dsc_transfer_size d] then val_null_size
      else val_success)"

definition validate_copy_crc :: "descriptor \<Rightarrow> validation_status" where
  "validate_copy_crc d =
     (if any_equal_zero [dsc_source_address d, dsc_destination_address d] then val_null_address
      else if any_equal_zero [dsc_transfer_size d] then val_null_size
      else if overlaps (dsc_source_address d) (dsc_destination_address d) (dsc_transfer_size d)
      then val_overlapping
      else val_success)"

definition validate_cache_flush :: "descriptor \<Rightarrow> validation_status" where
  "validate_cache_flush d =
     (if any_equal_zero [dsc_destination_address d] then val_null_address
      else if any_equal_zero [dsc_transfer_size d] then val_null_size
      else val_success)"

text \<open>\<open>sizeof(uint64_t)\<close> is a \<open>size_t\<close>: the remainder is computed in 64 bits.\<close>
definition validate_dif_check :: "descriptor \<Rightarrow> validation_status" where
  "validate_dif_check d =
     (let block_size = dif_block_size_of (dif_check_dsc_dif_flags d)
      in if any_equal_zero [dsc_source_address d] then val_null_address
      else if any_equal_zero [dsc_transfer_size d] then val_null_size
      else if (ucast (dsc_transfer_size d) :: u64) mod (ucast block_size + 8) \<noteq> 0
      then val_wrong_dif_size
      else val_success)"

definition validate_dif_insert :: "descriptor \<Rightarrow> validation_status" where
  "validate_dif_insert d =
     (let block_size = dif_block_size_of (dif_insert_dsc_dif_flags d);
          src_size = dsc_transfer_size d;
          dst_size = src_size + (src_size div block_size) * 8
      in if any_equal_zero [dsc_source_address d, dsc_destination_address d] then val_null_address
      else if any_equal_zero [dsc_transfer_size d] then val_null_size
      else if dsc_transfer_size d mod block_size \<noteq> 0 then val_wrong_dif_size
      else if overlaps_sized (dsc_source_address d) src_size (dsc_destination_address d) dst_size
      then val_overlapping
      else val_success)"

definition validate_dif_strip :: "descriptor \<Rightarrow> validation_status" where
  "validate_dif_strip d =
     (let block_size = dif_block_size_of (dif_strip_dsc_dif_flags d);
          src_size = dsc_transfer_size d;
          dst_size = src_size - (src_size div block_size) * 8
      in if any_equal_zero [dsc_source_address d, dsc_destination_address d] then val_null_address
      else if any_equal_zero [dsc_transfer_size d] then val_null_size
      else if (ucast (dsc_transfer_size d) :: u64) mod (ucast block_size + 8) \<noteq> 0
      then val_wrong_dif_size
      else if overlaps_sized (dsc_source_address d) src_size (dsc_destination_address d) dst_size
      then val_overlapping
      else if dsc_destination_address d < dsc_source_address d
           \<and> dsc_destination_address d + ucast dst_size \<le> dsc_source_address d
           \<and> dsc_source_address d \<le> dsc_destination_address d + ucast src_size
      then val_dif_strip_adjacent
      else val_success)"

definition validate_dif_update :: "descriptor \<Rightarrow> validation_status" where
  "validate_dif_update d =
     (let block_size = dif_block_size_of (dif_update_dsc_dif_flags d)
      in if any_equal_zero [dsc_source_address d, dsc_destination_address d] then val_null_address
      else if any_equal_zero [dsc_transfer_size d] then val_null_size
      else if (ucast (dsc_transfer_size d) :: u64) mod (ucast block_size + 8) \<noteq> 0
      then val_wrong_dif_size
      else if overlaps (dsc_source_address d) (dsc_destination_address d) (dsc_transfer_size d)
      then val_overlapping
      else val_success)"

definition validate_batch :: "descriptor \<Rightarrow> validation_status" where
  "validate_batch d =
     (if any_equal_zero [batch_dsc_descriptor_list_address d] then val_null_address
      else if batch_dsc_descriptors_count d < 4 then val_wrong_batch_size
      else val_success)"

definition validate :: "descriptor \<Rightarrow> validation_status" where
  "validate d =
     (case operation_of (dsc_operation d) of
        Some op_nop \<Rightarrow> validate_nop d
      | Some op_batch \<Rightarrow> validate_batch d
      | Some op_drain \<Rightarrow> validate_drain d
      | Some op_mem_move \<Rightarrow> validate_mem_move d
      | Some op_fill \<Rightarrow> validate_fill d
      | Some op_compare \<Rightarrow> validate_compare d
      | Some op_compare_pattern \<Rightarrow> validate_compare_pattern d
      | Some op_create_delta \<Rightarrow> validate_create_delta d
      | Some op_apply_delta \<Rightarrow> validate_apply_delta d
      | Some op_dualcast \<Rightarrow> validate_dualcast d
      | Some op_crc \<Rightarrow> validate_crc d
      | Some op_copy_crc \<Rightarrow> validate_copy_crc d
      | Some op_dif_check \<Rightarrow> validate_dif_check d
      | Some op_dif_insert \<Rightarrow> validate_dif_insert d
      | Some op_dif_strip \<Rightarrow> validate_dif_strip d
      | Some op_dif_update \<Rightarrow> validate_dif_update d
      | Some op_cache_flush \<Rightarrow> validate_cache_flush d
      | None \<Rightarrow> val_unsupported_operation)"

lemmas validate_op_defs =
  validate_nop_def validate_drain_def validate_mem_move_def validate_fill_def
  validate_compare_def validate_compare_pattern_def validate_create_delta_def
  validate_apply_delta_def validate_dualcast_def validate_crc_def validate_copy_crc_def
  validate_cache_flush_def validate_dif_check_def validate_dif_insert_def
  validate_dif_strip_def validate_dif_update_def validate_batch_def

section \<open>Block sizes\<close>

lemma dif_block_size_cases: "dif_block_size_of f \<in> {512, 520, 4096, 4104}"
proof -
  have "f AND 0b11 \<le> 0b11" by (rule word_and_le1)
  then have "unat (f AND 0b11) \<le> 3" by (simp add: word_le_nat_alt)
  then have "unat (f AND 0b11) = 0 \<or> unat (f AND 0b11) = 1 \<or> unat (f AND 0b11) = 2
      \<or> unat (f AND 0b11) = 3" by linarith
  then show ?thesis by (auto simp: dif_block_size_of_def dif_block_sizes_def)
qed

lemma unat_dif_block_size: "unat (dif_block_size_of f) \<in> {512, 520, 4096, 4104}"
  using dif_block_size_cases [of f] by auto

lemma unat_dif_block_size_bounds:
  "512 \<le> unat (dif_block_size_of f)" "unat (dif_block_size_of f) \<le> 4104"
  using unat_dif_block_size [of f] by auto

section \<open>Address ranges\<close>

lemma unat_addr_plus_size:
  "unat (a :: addr) + unat (n :: u32) < 2 ^ 64 \<Longrightarrow> unat (a + ucast n) = unat a + unat n"
  by (subst unat_add_lem [THEN iffD1]) simp_all

lemma overlaps_sized_nat:
  assumes "unat a + unat n < 2 ^ 64" "unat b + unat k < 2 ^ 64"
  shows "overlaps_sized a n b k \<longleftrightarrow>
    (unat a \<le> unat b \<and> unat b < unat a + unat n) \<or> (unat b \<le> unat a \<and> unat a < unat b + unat k)"
  using assms
  by (simp add: overlaps_sized_def word_le_nat_alt word_less_nat_alt unat_addr_plus_size)

lemma overlaps_eq_sized: "overlaps a b n = overlaps_sized a n b n"
  by (simp add: overlaps_def overlaps_sized_def)

lemma overlaps_sized_disjoint:
  assumes "unat a + unat n < 2 ^ 64" "unat b + unat k < 2 ^ 64" "0 < n" "0 < k"
  shows "overlaps_sized a n b k \<longleftrightarrow> \<not> disjoint_regions a (unat n) b (unat k)"
proof -
  have pos: "0 < unat n" "0 < unat k" using assms(3,4) by (simp_all add: word_less_nat_alt)
  have "disjoint_regions a (unat n) b (unat k)
      \<longleftrightarrow> unat a + unat n \<le> unat b \<or> unat b + unat k \<le> unat a"
    by (rule disjoint_no_wrap) (use assms pos in auto)
  then show ?thesis using overlaps_sized_nat [OF assms(1,2)] pos by auto
qed

section \<open>What the validators guarantee\<close>

text \<open>
  For buffers of positive size that do not reach the end of the address space, the
  overlap test on 64-bit addresses answers exactly whether the two byte ranges share an
  address.
\<close>
lemma overlaps_sized_exact:
  assumes "unat a + unat n < 2 ^ 64" "unat b + unat k < 2 ^ 64" "0 < n" "0 < k"
  shows "overlaps_sized a n b k \<longleftrightarrow> (\<exists>x. in_region x a (unat n) \<and> in_region x b (unat k))"
  using overlaps_sized_disjoint [OF assms] by (auto simp: disjoint_regions_def)

lemma validate_not_unsupported:
  "operation_of (dsc_operation d) = Some op \<Longrightarrow> validate d \<noteq> val_unsupported_operation"
  by (cases op; simp add: validate_def; simp add: validate_op_defs Let_def)

text \<open>
  Validation answers \<open>unsupported_operation\<close> exactly for the bytes that are no
  operation code; every known operation reaches its own validator.
\<close>
lemma validate_unsupported_iff:
  "validate d = val_unsupported_operation \<longleftrightarrow> dsc_operation d \<notin> range operation_code"
proof (cases "operation_of (dsc_operation d)")
  case None
  then have "validate d = val_unsupported_operation" by (simp add: validate_def)
  with None show ?thesis by (simp add: operation_of_None_iff)
next
  case (Some op)
  then have "validate d \<noteq> val_unsupported_operation"
    by (rule validate_not_unsupported)
  moreover from Some have "dsc_operation d \<in> range operation_code"
    by (metis operation_of_Some_iff rangeI)
  ultimately show ?thesis by simp
qed

lemma any_equal_zero_Cons [simp]: "any_equal_zero (v # vs) \<longleftrightarrow> v = 0 \<or> any_equal_zero vs"
  by (simp add: any_equal_zero_def)

lemma any_equal_zero_Nil [simp]: "\<not> any_equal_zero []"
  by (simp add: any_equal_zero_def)

lemma any_misaligned_Cons [simp]:
  "any_misaligned al (v # vs) \<longleftrightarrow> v mod al \<noteq> 0 \<or> any_misaligned al vs"
  by (simp add: any_misaligned_def)

lemma any_misaligned_Nil [simp]: "\<not> any_misaligned al []"
  by (simp add: any_misaligned_def)

text \<open>
  A descriptor accepted for Create Delta has a source length that is a positive
  multiple of 8 of at most 512 KB, so the index of every 8-byte block fits the 16-bit offset
  of a delta note, and a record capacity of at least eight notes that is a whole number of
  notes.
\<close>
lemma validate_create_delta_bounds:
  assumes "validate d = val_success" "dsc_operation d = operation_code op_create_delta"
  shows "unat (dsc_transfer_size d) mod 8 = 0 \<and> 0 < unat (dsc_transfer_size d) \<and>
    unat (dsc_transfer_size d) div 8 \<le> 2 ^ 16 \<and>
    unat (create_delta_dsc_maximum_delta_record_size d) mod 10 = 0 \<and>
    80 \<le> unat (create_delta_dsc_maximum_delta_record_size d)"
proof -
  have v: "validate_create_delta d = val_success"
    using assms by (simp add: validate_def)
  have size: "dsc_transfer_size d mod 8 = 0" "\<not> dsc_transfer_size d > 0x80000"
      "dsc_transfer_size d \<noteq> 0"
    and cap: "create_delta_dsc_maximum_delta_record_size d mod 10 = 0"
      "\<not> create_delta_dsc_maximum_delta_record_size d < 80"
    using v by (auto simp: validate_create_delta_def split: if_splits)
  have m8: "unat (dsc_transfer_size d) mod 8 = 0"
    using arg_cong [OF size(1), of unat] by (simp add: unat_mod)
  have m10: "unat (create_delta_dsc_maximum_delta_record_size d) mod 10 = 0"
    using arg_cong [OF cap(1), of unat] by (simp add: unat_mod)
  have "unat (dsc_transfer_size d) \<le> 0x80000" "80 \<le> unat (create_delta_dsc_maximum_delta_record_size d)"
    using size(2) cap(2) by (simp_all add: word_less_nat_alt word_le_nat_alt not_less)
  moreover have "0 < unat (dsc_transfer_size d)" using size(3) by (simp add: unat_gt_0)
  ultimately show ?thesis using m8 m10 by simp
qed

lemma unat_ucast_mod_eq_0:
  assumes "(ucast (n :: u32) :: u64) mod (ucast (b :: u32) + 8) = 0" "unat b \<le> 4104"
  shows "unat n mod (unat b + 8) = 0"
proof -
  have "unat (ucast b + 8 :: u64) = unat b + 8"
    using assms(2) by (subst unat_add_lem [THEN iffD1]) simp_all
  then show ?thesis using arg_cong [OF assms(1), of unat] by (simp add: unat_mod)
qed

text \<open>The destination size \<open>validate\<close> computes for DIF Strip never exceeds what is written.\<close>
lemma dif_strip_computed_size:
  assumes "unat n = q * (unat b + 8)" "512 \<le> unat b"
  shows "unat (n - (n div b) * 8 :: u32) \<le> q * unat b"
proof -
  have "q \<le> unat n div unat b"
    using assms by (simp add: add_mult_distrib2 mult.commute div_mult_self4)
  moreover have "unat ((n div b) * 8) = (unat n div unat b) * 8"
  proof -
    have "(unat n div unat b) * 8 \<le> unat n"
      using assms(2) by (metis div_times_less_eq_dividend le_trans mult_le_mono2 numeral_le_iff
          semiring_norm(68,71,72) order_trans)
    then show ?thesis
      using unat_u32_less [of n] by (simp add: unat_mult_lem [THEN iffD1] unat_div)
  qed
  moreover have "(unat n div unat b) * 8 \<le> unat n"
  proof -
    have "(unat n div unat b) * 8 \<le> (unat n div unat b) * unat b" using assms(2) by simp
    then show ?thesis using div_times_less_eq_dividend order_trans by blast
  qed
  ultimately show ?thesis using assms
    by (simp add: unat_sub_if' algebra_simps)
qed
text \<open>
  Claim C37: a descriptor accepted for DIF Strip never lets the operation overwrite its own
  source: with \<open>k\<close> protected blocks in the source, the \<open>k * block_size\<close> bytes written at the
  destination are disjoint from the source bytes. The destination size the validator
  computes is too small (it divides by the unprotected block size), and it is the adjacency
  test that closes the gap.
\<close>
theorem validate_dif_strip_disjoint:
  assumes "validate d = val_success" "dsc_operation d = operation_code op_dif_strip"
    and src: "unat (dsc_source_address d) + unat (dsc_transfer_size d) < 2 ^ 64"
    and dst: "unat (dsc_destination_address d) + unat (dsc_transfer_size d) < 2 ^ 64"
  shows "let b = unat (dif_block_size_of (dif_strip_dsc_dif_flags d));
             n = unat (dsc_transfer_size d)
         in n mod (b + 8) = 0 \<and>
            disjoint_regions (dsc_source_address d) n (dsc_destination_address d) ((n div (b + 8)) * b)"
proof -
  let ?n = "dsc_transfer_size d" and ?b = "dif_block_size_of (dif_strip_dsc_dif_flags d)"
  let ?s = "dsc_source_address d" and ?t = "dsc_destination_address d"
  let ?k = "?n - (?n div ?b) * 8" and ?q = "unat ?n div (unat ?b + 8)"
  have v: "validate_dif_strip d = val_success" using assms(1,2) by (simp add: validate_def)
  have n0: "?n \<noteq> 0" and m: "(ucast ?n :: u64) mod (ucast ?b + 8) = 0"
    and ov: "\<not> overlaps_sized ?s ?n ?t ?k"
    and adj: "\<not> (?t < ?s \<and> ?t + ucast ?k \<le> ?s \<and> ?s \<le> ?t + ucast ?n)"
    using v by (auto simp: validate_dif_strip_def Let_def split: if_splits)
  have mod: "unat ?n mod (unat ?b + 8) = 0"
    using unat_ucast_mod_eq_0 [OF m] unat_dif_block_size_bounds by blast
  then have nq: "unat ?n = ?q * (unat ?b + 8)" by (metis mod_0_imp_dvd dvd_div_mult_self)
  have b: "512 \<le> unat ?b" by (rule unat_dif_block_size_bounds)
  have k: "unat ?k \<le> ?q * unat ?b" by (rule dif_strip_computed_size [OF nq b])
  have qb: "?q * unat ?b \<le> unat ?n" using nq by (metis add_leD1 le_refl mult_le_mono2)
  have kdst: "unat ?t + unat ?k < 2 ^ 64" using k qb dst by linarith
  have "unat ?s + unat ?n \<le> unat ?t \<or> unat ?t + ?q * unat ?b \<le> unat ?s"
  proof (cases "unat ?t < unat ?s")
    case True
    then have "unat ?t + unat ?k \<le> unat ?s"
      using ov overlaps_sized_nat [OF src kdst] by auto
    then have "unat ?t + unat ?n < unat ?s"
      using adj True kdst dst
      by (simp add: word_less_nat_alt word_le_nat_alt unat_addr_plus_size)
    then show ?thesis using qb by linarith
  next
    case False
    moreover have "0 < unat ?n" using n0 by (simp add: unat_gt_0)
    ultimately show ?thesis using ov overlaps_sized_nat [OF src kdst] by auto
  qed
  then have "disjoint_regions ?s (unat ?n) ?t (?q * unat ?b)"
    using src dst qb by (auto simp: disjoint_regions_def in_region_no_wrap)
  then show ?thesis using mod by (simp add: Let_def)
qed

definition sample_dif_strip :: descriptor where
  "sample_dif_strip =
     set_dsc_operation 0x14 (set_dsc_source_address 0x9000 (set_dsc_destination_address 0x1000
       (set_dsc_transfer_size 1040 new_descriptor)))"

theorem validate_dif_strip_disjoint_witness:
  "disjoint_regions 0x9000 1040 0x1000 1024"
proof -
  have "validate sample_dif_strip = val_success"
    by (simp add: validate_def validate_dif_strip_def sample_dif_strip_def view_laws
        dif_block_size_of_def dif_block_sizes_def overlaps_sized_def)
  then show ?thesis
    using validate_dif_strip_disjoint [of sample_dif_strip]
    by (simp add: sample_dif_strip_def view_laws dif_block_size_of_def
        dif_block_sizes_def)
qed

end
