(* ===== verification/DML_Ref_Kernels.thy ===== *)
theory DML_Ref_Kernels
  imports DML_Validation
begin

text \<open>
  The portable kernels of \<open>core/src/sw_dispatcher/ref\<close>: memory move, fill, compare, compare
  with pattern, dualcast, CRC, and the cache line loops of \<open>cache_flush.c\<close>. Each loop of the
  C sources is a loop over the same indices here, on the byte memory; each kernel is proved
  equal to a loop-free specification.
\<close>

section \<open>Memory move (\<open>ref/mem_move.c\<close>)\<close>

definition own_copy_forward :: "addr \<Rightarrow> addr \<Rightarrow> u32 \<Rightarrow> mem \<Rightarrow> mem" where
  "own_copy_forward src dst transfer_size m =
     for_loop (unat transfer_size)
       (\<lambda>index m. m(dst + word_of_nat index := m (src + word_of_nat index))) m"

text \<open>The loop from \<open>last_index\<close> down to 1, then the assignment of index 0.\<close>
primrec copy_backward_from :: "addr \<Rightarrow> addr \<Rightarrow> nat \<Rightarrow> mem \<Rightarrow> mem" where
  "copy_backward_from src dst 0 m = m(dst := m src)"
| "copy_backward_from src dst (Suc i) m =
     copy_backward_from src dst i
       (m(dst + word_of_nat (Suc i) := m (src + word_of_nat (Suc i))))"

definition own_copy_backward :: "addr \<Rightarrow> addr \<Rightarrow> u32 \<Rightarrow> mem \<Rightarrow> mem" where
  "own_copy_backward src dst transfer_size m =
     copy_backward_from src dst (unat (transfer_size - 1)) m"

definition dml_ref_mem_move :: "addr \<Rightarrow> addr \<Rightarrow> u32 \<Rightarrow> mem \<Rightarrow> mem" where
  "dml_ref_mem_move src dst transfer_size m =
     (let src_begin = src; src_end = src + ucast transfer_size;
          dst_begin = dst; dst_end = dst + ucast transfer_size
      in if src_end \<le> dst_begin \<or> src_begin \<ge> dst_end
         then own_copy_forward src dst transfer_size m
         else if src_begin < dst_end \<and> src_end > dst_end
         then own_copy_forward src dst transfer_size m
         else if src_begin < dst_begin \<and> src_end > dst_begin
         then own_copy_backward src dst transfer_size m
         else m)"

section \<open>Fill (\<open>ref/fill.c\<close>)\<close>

definition dml_ref_fill_u64 :: "u64 \<Rightarrow> addr \<Rightarrow> u32 \<Rightarrow> mem \<Rightarrow> mem" where
  "dml_ref_fill_u64 pattern dst transfer_size m =
     (let pattern_bytes = bytes_of pattern
      in for_loop (unat transfer_size)
           (\<lambda>index m. m(dst + word_of_nat index := pattern_bytes ! (index mod 8))) m)"

section \<open>Compare (\<open>ref/compare.c\<close>)\<close>

text \<open>The loop returns the mismatch position and the value left in \<open>*result\<close>.\<close>
function compare_loop :: "addr \<Rightarrow> addr \<Rightarrow> nat \<Rightarrow> nat \<Rightarrow> mem \<Rightarrow> u32 \<times> u8" where
  "compare_loop src1 src2 index n m =
     (if index < n
      then if m (src1 + word_of_nat index) \<noteq> m (src2 + word_of_nat index)
           then (word_of_nat index, 1)
           else compare_loop src1 src2 (Suc index) n m
      else (0, 0))"
  by pat_completeness auto
termination
  by (relation "measure (\<lambda>(src1, src2, index, n, m). n - index)") auto

declare compare_loop.simps [simp del]

definition dml_ref_compare :: "addr \<Rightarrow> addr \<Rightarrow> u32 \<Rightarrow> mem \<Rightarrow> u32 \<times> u8" where
  "dml_ref_compare src1 src2 transfer_size m = compare_loop src1 src2 0 (unat transfer_size) m"

section \<open>Compare with pattern (\<open>ref/compare_pattern.c\<close>)\<close>

text \<open>The loop over whole patterns: the byte offset of the first one that differs.\<close>
function pattern_head_loop :: "u64 \<Rightarrow> addr \<Rightarrow> nat \<Rightarrow> nat \<Rightarrow> mem \<Rightarrow> u32 option" where
  "pattern_head_loop pattern src index head_size m =
     (if index < head_size
      then if load m (src + word_of_nat (8 * index)) \<noteq> pattern
           then Some (word_of_nat (index * 8))
           else pattern_head_loop pattern src (Suc index) head_size m
      else None)"
  by pat_completeness auto
termination
  by (relation "measure (\<lambda>(pattern, src, index, n, m). n - index)") auto

text \<open>The loop over the remaining bytes, against the leading bytes of the pattern.\<close>
function pattern_tail_loop ::
  "byte list \<Rightarrow> addr \<Rightarrow> nat \<Rightarrow> nat \<Rightarrow> nat \<Rightarrow> mem \<Rightarrow> u32 option" where
  "pattern_tail_loop pattern_u8 tail index tail_size head_bytes m =
     (if index < tail_size
      then if m (tail + word_of_nat index) \<noteq> pattern_u8 ! index
           then Some (word_of_nat (head_bytes + index))
           else pattern_tail_loop pattern_u8 tail (Suc index) tail_size head_bytes m
      else None)"
  by pat_completeness auto
termination
  by (relation "measure (\<lambda>(p, tail, index, n, h, m). n - index)") auto

declare pattern_head_loop.simps [simp del] pattern_tail_loop.simps [simp del]

definition dml_ref_compare_pattern :: "u64 \<Rightarrow> addr \<Rightarrow> u32 \<Rightarrow> mem \<Rightarrow> u32 \<times> u8" where
  "dml_ref_compare_pattern pattern src transfer_size m =
     (let head_size = unat transfer_size div 8;
          tail_size = unat transfer_size mod 8;
          tail = src + word_of_nat (8 * head_size)
      in case pattern_head_loop pattern src 0 head_size m of
           Some mismatch \<Rightarrow> (mismatch, 1)
         | None \<Rightarrow>
             (case pattern_tail_loop (bytes_of pattern) tail 0 tail_size (8 * head_size) m of
                Some mismatch \<Rightarrow> (mismatch, 1)
              | None \<Rightarrow> (0, 0)))"

section \<open>Dualcast (\<open>ref/dualcast.c\<close>)\<close>

definition dml_ref_dualcast :: "addr \<Rightarrow> addr \<Rightarrow> addr \<Rightarrow> u32 \<Rightarrow> mem \<Rightarrow> mem" where
  "dml_ref_dualcast src dst1 dst2 transfer_size m =
     for_loop (unat transfer_size)
       (\<lambda>index m.
          let m1 = m(dst1 + word_of_nat index := m (src + word_of_nat index))
          in m1(dst2 + word_of_nat index := m1 (src + word_of_nat index))) m"

section \<open>CRC (\<open>ref/crc.c\<close>)\<close>

definition reverse_u8 :: "u8 \<Rightarrow> u8" where
  "reverse_u8 byte0 =
     (let byte1 = push_bit 1 (byte0 AND 0x55) OR drop_bit 1 (byte0 AND 0xAA);
          byte2 = push_bit 2 (byte1 AND 0x33) OR drop_bit 2 (byte1 AND 0xCC);
          byte3 = push_bit 4 (byte2 AND 0x0F) OR drop_bit 4 (byte2 AND 0xF0)
      in byte3)"

definition calculate_crc_32u :: "u32 \<Rightarrow> u8 \<Rightarrow> u32 \<Rightarrow> u32" where
  "calculate_crc_32u crc_value data polynomial =
     for_loop 8
       (\<lambda>_ crc. if crc AND push_bit 31 1 \<noteq> 0 then push_bit 1 crc XOR polynomial
                else push_bit 1 crc)
       (crc_value XOR push_bit 24 (ucast data))"

definition dml_ref_crc_32u :: "addr \<Rightarrow> u32 \<Rightarrow> u32 \<Rightarrow> u32 \<Rightarrow> mem \<Rightarrow> u32" where
  "dml_ref_crc_32u src transfer_size crc_value polynomial m =
     for_loop (unat transfer_size)
       (\<lambda>byte crc. calculate_crc_32u crc (m (src + word_of_nat byte)) polynomial) crc_value"

definition dml_ref_crc_reflected_u32 :: "addr \<Rightarrow> u32 \<Rightarrow> u32 \<Rightarrow> u32 \<Rightarrow> mem \<Rightarrow> u32" where
  "dml_ref_crc_reflected_u32 src transfer_size crc_value polynomial m =
     for_loop (unat transfer_size)
       (\<lambda>byte crc. calculate_crc_32u crc (reverse_u8 (m (src + word_of_nat byte))) polynomial)
       crc_value"

section \<open>Cache lines (\<open>cache_flush/cache_flush.c\<close>)\<close>

text \<open>
  The cache line instructions do not change memory contents; the model of a loop is the
  sequence of instructions it issues.
\<close>
datatype cache_event = Clflush addr | Clflushopt addr | Clwb addr

definition dml_clflushopt :: "addr \<Rightarrow> u32 \<Rightarrow> cache_event list" where
  "dml_clflushopt dst transfer_size =
     map (\<lambda>i. Clflushopt (dst + word_of_nat (64 * i))) [0 ..< unat transfer_size div 64]"

definition dml_clflush :: "addr \<Rightarrow> u32 \<Rightarrow> cache_event list" where
  "dml_clflush dst transfer_size =
     map (\<lambda>i. Clflush (dst + word_of_nat (64 * i))) [0 ..< unat transfer_size div 64]"

definition dml_clwb :: "addr \<Rightarrow> u32 \<Rightarrow> cache_event list" where
  "dml_clwb dst transfer_size =
     map (\<lambda>i. Clwb (dst + word_of_nat (64 * i))) [0 ..< unat transfer_size div 64]"

definition dml_clwb_unsupported :: "addr \<Rightarrow> u32 \<Rightarrow> cache_event list" where
  "dml_clwb_unsupported dst transfer_size = []"

section \<open>Loops that write a region\<close>

text \<open>A loop that writes \<open>f i\<close> at offset \<open>i\<close> stores the bytes \<open>f 0, f 1, \<dots>\<close>.\<close>
lemma for_loop_store:
  "n \<le> 2 ^ 64 \<Longrightarrow>
   for_loop n (\<lambda>i m. m(dst + word_of_nat i := f i)) m = store_bytes m dst (map f [0 ..< n])"
  by (induction n) (simp_all add: store_bytes_snoc)

text \<open>A forward copy is right when no byte is overwritten before it is read.\<close>
lemma forward_copy_loop:
  assumes "n \<le> 2 ^ 64"
    and ahead: "\<And>i j. i < j \<Longrightarrow> j < n \<Longrightarrow> dst + word_of_nat i \<noteq> src + (word_of_nat j :: addr)"
  shows "for_loop n (\<lambda>i m. m(dst + word_of_nat i := m (src + word_of_nat i))) m
    = store_bytes m dst (load_bytes m src n)"
  using assms
proof (induction n)
  case 0
  then show ?case by simp
next
  case (Suc n)
  have "store_bytes m dst (load_bytes m src n) (src + word_of_nat n) = m (src + word_of_nat n)"
  proof (rule store_bytes_outside)
    show "\<not> in_region (src + word_of_nat n) dst (length (load_bytes m src n))"
    proof
      assume "in_region (src + word_of_nat n) dst (length (load_bytes m src n))"
      then obtain i where "i < n" "src + word_of_nat n = dst + word_of_nat i"
        by (auto elim: in_regionE)
      with Suc.prems(2) [of i n] show False by auto
    qed
  qed
  moreover have "for_loop n (\<lambda>i m. m(dst + word_of_nat i := m (src + word_of_nat i))) m
      = store_bytes m dst (load_bytes m src n)"
    using Suc.prems by (intro Suc.IH) auto
  ultimately show ?case
    using Suc.prems(1)
      store_bytes_snoc [of "load_bytes m src n" m dst "m (src + word_of_nat n)"]
    by (simp only: for_loop_Suc load_bytes_Suc length_load_bytes)
qed

text \<open>A backward copy is right when no byte is overwritten before it is read.\<close>
lemma backward_copy_loop:
  assumes "i < 2 ^ 64"
    and behind: "\<And>j k. j < k \<Longrightarrow> k \<le> i \<Longrightarrow> dst + word_of_nat k \<noteq> src + (word_of_nat j :: addr)"
  shows "copy_backward_from src dst i m = store_bytes m dst (load_bytes m src (Suc i))"
  using assms
proof (induction i arbitrary: m)
  case 0
  then show ?case using store_bytes_snoc [of "[]" m dst "m src"] by (simp add: load_bytes_Suc)
next
  case (Suc i)
  let ?x = "dst + word_of_nat (Suc i)" and ?b = "m (src + word_of_nat (Suc i))"
  have IH: "copy_backward_from src dst i (m(?x := ?b))
      = store_bytes (m(?x := ?b)) dst (load_bytes (m(?x := ?b)) src (Suc i))"
    using Suc.prems by (intro Suc.IH) (auto simp del: of_nat_Suc)
  have "load_bytes (m(?x := ?b)) src (Suc i) = load_bytes m src (Suc i)"
  proof (rule load_bytes_cong)
    fix j assume "j < Suc i"
    then have "?x \<noteq> src + word_of_nat j" by (rule Suc.prems(2)) simp
    then show "(m(?x := ?b)) (src + word_of_nat j) = m (src + word_of_nat j)" by auto
  qed
  moreover have "store_bytes (m(?x := ?b)) dst (load_bytes m src (Suc i))
      = (store_bytes m dst (load_bytes m src (Suc i)))(?x := ?b)"
    using Suc.prems(1) by (auto simp: store_bytes_def fun_eq_iff simp del: of_nat_Suc)
  moreover have "store_bytes m dst (load_bytes m src (Suc (Suc i)))
      = (store_bytes m dst (load_bytes m src (Suc i)))(?x := ?b)"
    using store_bytes_snoc [of "load_bytes m src (Suc i)" m dst ?b] Suc.prems(1)
    by (simp add: load_bytes_Suc [of m src "Suc i"] del: of_nat_Suc)
  ultimately show ?case using IH by simp
qed


lemma own_copy_forward_correct:
  assumes "unat src + unat n < 2 ^ 64" "unat dst + unat n < 2 ^ 64"
    and "unat dst \<le> unat src \<or> unat src + unat n \<le> unat dst"
  shows "own_copy_forward src dst n m = store_bytes m dst (load_bytes m src (unat n))"
  unfolding own_copy_forward_def
  using assms unat_u32_less_addr [of n] by (intro forward_copy_loop offset_neq) auto

lemma own_copy_backward_correct:
  assumes "unat src + unat n < 2 ^ 64" "unat dst + unat n < 2 ^ 64"
    and "unat src \<le> unat dst" "0 < unat n"
  shows "own_copy_backward src dst n m = store_bytes m dst (load_bytes m src (unat n))"
proof -
  have "Suc (unat (n - 1)) = unat n"
    using assms(4) by (simp add: unat_sub_if')
  moreover have "copy_backward_from src dst (unat (n - 1)) m
      = store_bytes m dst (load_bytes m src (Suc (unat (n - 1))))"
    using assms calculation unat_u32_less_addr [of n]
    by (intro backward_copy_loop offset_neq) auto
  ultimately show ?thesis by (simp add: own_copy_backward_def)
qed

text \<open>Whatever way the regions overlap, the move is that of \<open>memmove\<close>.\<close>
lemma dml_ref_mem_move_eq:
  assumes "unat src + unat n < 2 ^ 64" "unat dst + unat n < 2 ^ 64"
  shows "dml_ref_mem_move src dst n m = store_bytes m dst (load_bytes m src (unat n))"
proof (cases "src = dst")
  case True
  with assms show ?thesis
    by (simp add: dml_ref_mem_move_def own_copy_forward_correct store_bytes_load Let_def)
next
  case False
  then have "unat src \<noteq> unat dst" by (metis word_unat_eq_iff)
  with assms show ?thesis
    by (auto simp: dml_ref_mem_move_def Let_def word_le_nat_alt word_less_nat_alt
        unat_addr_plus_size own_copy_forward_correct own_copy_backward_correct)
qed

section \<open>Specifications of the other loops\<close>

text \<open>The bytes of a region filled with a repeated pattern.\<close>
definition pattern_bytes :: "u64 \<Rightarrow> nat \<Rightarrow> byte list" where
  "pattern_bytes pattern n = map (\<lambda>i. bytes_of pattern ! (i mod 8)) [0 ..< n]"

lemma length_pattern_bytes [simp]: "length (pattern_bytes p n) = n"
  by (simp add: pattern_bytes_def)

lemma dml_ref_fill_eq: "dml_ref_fill_u64 p dst n m = store_bytes m dst (pattern_bytes p (unat n))"
  unfolding dml_ref_fill_u64_def pattern_bytes_def Let_def
  using unat_u32_less_addr [of n] by (intro for_loop_store) simp

text \<open>The position of the first element that differs.\<close>
fun first_mismatch :: "'a list \<Rightarrow> 'a list \<Rightarrow> nat option" where
  "first_mismatch (x # xs) (y # ys) =
     (if x = y then map_option Suc (first_mismatch xs ys) else Some 0)"
| "first_mismatch _ _ = None"

lemma first_mismatch_None:
  "length xs = length ys \<Longrightarrow> first_mismatch xs ys = None \<longleftrightarrow> xs = ys"
  by (induction xs ys rule: first_mismatch.induct) auto

lemma first_mismatch_Some:
  "length xs = length ys \<Longrightarrow> first_mismatch xs ys = Some k \<longleftrightarrow>
     k < length xs \<and> xs ! k \<noteq> ys ! k \<and> take k xs = take k ys"
proof (induction xs ys arbitrary: k rule: first_mismatch.induct)
  case (1 x xs y ys)
  then show ?case by (cases k) auto
qed auto

text \<open>What a comparison reports about a mismatch position.\<close>
definition compare_outcome :: "nat option \<Rightarrow> u32 \<times> u8" where
  "compare_outcome r = (case r of None \<Rightarrow> (0, 0) | Some k \<Rightarrow> (word_of_nat k, 1))"

lemma compare_outcome_simps [simp]:
  "compare_outcome None = (0, 0)" "compare_outcome (Some k) = (word_of_nat k, 1)"
  by (simp_all add: compare_outcome_def)

lemma compare_loop_eq:
  "index \<le> n \<Longrightarrow> compare_loop a b index n m =
     compare_outcome (map_option (\<lambda>k. index + k)
       (first_mismatch (load_bytes m (a + word_of_nat index) (n - index))
          (load_bytes m (b + word_of_nat index) (n - index))))"
proof (induction a b index n m rule: compare_loop.induct)
  case (1 a b index n m)
  show ?case
  proof (cases "index < n")
    case False
    with 1 show ?thesis by (simp add: compare_loop.simps)
  next
    case True
    then obtain r where r: "n - index = Suc r" by (metis Suc_diff_Suc)
    then have "n - Suc index = r" by simp
    with True 1 r show ?thesis
      by (simp add: compare_loop.simps [of a b index] load_bytes_Cons option.map_comp o_def
          algebra_simps)
  qed
qed

lemma dml_ref_compare_eq:
  "dml_ref_compare a b n m =
     compare_outcome (first_mismatch (load_bytes m a (unat n)) (load_bytes m b (unat n)))"
  by (simp add: dml_ref_compare_def compare_loop_eq option.map_ident)

text \<open>Searches over an index range, the common shape of the comparison loops.\<close>
lemma find_upt_None: "find P [i ..< n] = None \<longleftrightarrow> (\<forall>j. i \<le> j \<and> j < n \<longrightarrow> \<not> P j)"
  by (auto simp: find_None_iff)

lemma find_upt_Some:
  "find P [i ..< n] = Some k \<longleftrightarrow> i \<le> k \<and> k < n \<and> P k \<and> (\<forall>j. i \<le> j \<and> j < k \<longrightarrow> \<not> P j)"
proof (induction "n - i" arbitrary: i)
  case 0
  then show ?case by auto
next
  case (Suc d)
  then have d: "d = n - Suc i" "i < n" by auto
  show ?case
  proof (cases "P i")
    case True
    with d show ?thesis by (auto simp: upt_conv_Cons le_less)
  next
    case False
    have "(\<forall>j. i \<le> j \<and> j < k \<longrightarrow> \<not> P j) \<longleftrightarrow> (\<forall>j. Suc i \<le> j \<and> j < k \<longrightarrow> \<not> P j)"
      using False by (metis Suc_leD le_antisym not_less_eq_eq)
    moreover have "P k \<Longrightarrow> i \<le> k \<longleftrightarrow> Suc i \<le> k" using False by (metis Suc_leD le_antisym not_less_eq_eq)
    ultimately show ?thesis using False d Suc.hyps(1) [of "Suc i"] by (auto simp: upt_conv_Cons)
  qed
qed

lemma first_mismatch_find:
  "first_mismatch (map f [0 ..< n]) (map g [0 ..< n]) = find (\<lambda>i. f i \<noteq> g i) [0 ..< n]"
proof (cases "first_mismatch (map f [0 ..< n]) (map g [0 ..< n])")
  case None
  moreover from this have "find (\<lambda>i. f i \<noteq> g i) [0 ..< n] = None"
    by (auto simp: first_mismatch_None find_None_iff list_eq_iff_nth_eq)
  ultimately show ?thesis by simp
next
  case (Some k)
  then have "find (\<lambda>i. f i \<noteq> g i) [0 ..< n] = Some k"
    by (auto simp: first_mismatch_Some find_upt_Some list_eq_iff_nth_eq)
  with Some show ?thesis by simp
qed

lemma pattern_head_loop_eq:
  "pattern_head_loop p src i h m =
     map_option (\<lambda>j. word_of_nat (8 * j)) (find (\<lambda>j. load m (src + word_of_nat (8 * j)) \<noteq> p) [i ..< h])"
proof (induction p src i h m rule: pattern_head_loop.induct)
  case (1 p src i h m)
  then show ?case by (simp add: pattern_head_loop.simps [of p src i] upt_rec [of i] mult.commute)
qed

lemma pattern_tail_loop_eq:
  "pattern_tail_loop bs tail i t hb m =
     map_option (\<lambda>j. word_of_nat (hb + j)) (find (\<lambda>j. m (tail + word_of_nat j) \<noteq> bs ! j) [i ..< t])"
proof (induction bs tail i t hb m rule: pattern_tail_loop.induct)
  case (1 bs tail i t hb m)
  then show ?case by (simp add: pattern_tail_loop.simps [of bs tail i] upt_rec [of i])
qed

lemma load_neq_iff:
  fixes p :: u64
  shows "load m a \<noteq> p \<longleftrightarrow> (\<exists>r<8. m (a + word_of_nat r) \<noteq> bytes_of p ! r)"
proof -
  have "load m a = p \<longleftrightarrow> load_bytes m a 8 = bytes_of p"
    using bytes_of_word_of [of "load_bytes m a 8", where 'a = 64] by (auto simp: load_def)
  then show ?thesis by (auto simp: list_eq_iff_nth_eq)
qed

text \<open>
  Where a mismatch is reported: exactly in the tail, at the start of the pattern-sized
  block that holds it before that.
\<close>
definition pattern_mismatch :: "nat \<Rightarrow> nat \<Rightarrow> nat" where
  "pattern_mismatch n k = (if k < 8 * (n div 8) then 8 * (k div 8) else k)"

text \<open>
  A search block by block, then through the tail, finds the block or the tail position of
  the first hit of the search element by element.
\<close>
lemma find_by_blocks:
  "(case find (\<lambda>j. \<exists>r<8. P (8 * j + r)) [0 ..< n div 8] of Some j \<Rightarrow> Some (8 * j)
    | None \<Rightarrow> map_option (\<lambda>j. 8 * (n div 8) + j) (find (\<lambda>j. P (8 * (n div 8) + j)) [0 ..< n mod 8]))
   = map_option (pattern_mismatch n) (find P [0 ..< n])"
proof -
  let ?h = "n div 8" and ?t = "n mod 8"
  define Q where "Q j \<longleftrightarrow> (\<exists>r<8. P (8 * j + r))" for j
  define R where "R j \<longleftrightarrow> P (8 * ?h + j)" for j
  have ht: "8 * ?h + ?t = n" by simp
  have notQ: "\<not> Q j" if "8 * j + 8 \<le> k" "\<And>i. i < k \<Longrightarrow> \<not> P i" for j k
    using that unfolding Q_def by (metis add_less_cancel_left less_le_trans)
  have "(case find Q [0 ..< ?h] of Some j \<Rightarrow> Some (8 * j)
    | None \<Rightarrow> map_option (\<lambda>j. 8 * ?h + j) (find R [0 ..< ?t])) = map_option (pattern_mismatch n) (find P [0 ..< n])"
  proof (cases "find P [0 ..< n]")
    case None
    then have "\<not> Q j" if "j < ?h" for j
      using notQ [of j n] that by (simp add: find_upt_None)
    moreover have "\<not> R j" if "j < ?t" for j
      using None that ht unfolding R_def find_upt_None
      by (metis add_less_cancel_left zero_le)
    ultimately have "find Q [0 ..< ?h] = None" "find R [0 ..< ?t] = None"
      by (simp_all add: find_upt_None)
    with None show ?thesis by simp
  next
    case (Some k)
    then have k: "k < n" "P k" and before: "\<And>j. j < k \<Longrightarrow> \<not> P j" by (auto simp: find_upt_Some)
    show ?thesis
    proof (cases "k < 8 * ?h")
      case True
      have "P (8 * (k div 8) + k mod 8)" using k(2) by simp
      then have "Q (k div 8)" unfolding Q_def by (metis mod_less_divisor zero_less_numeral)
      moreover have "\<not> Q j" if "j < k div 8" for j using that by (intro notQ [of j k] before) simp_all
      ultimately have "find Q [0 ..< ?h] = Some (k div 8)" using True by (auto simp: find_upt_Some)
      with Some True show ?thesis by (simp add: pattern_mismatch_def)
    next
      case False
      have "\<not> Q j" if "j < ?h" for j using that False by (intro notQ [of j k] before) simp_all
      then have "find Q [0 ..< ?h] = None" by (simp add: find_upt_None)
      moreover have "find R [0 ..< ?t] = Some (k - 8 * ?h)"
      proof -
        have "k - 8 * ?h < ?t" using False k(1) ht by linarith
        with False k(2) before show ?thesis by (auto simp: find_upt_Some R_def)
      qed
      ultimately show ?thesis using Some False by (simp add: pattern_mismatch_def)
    qed
  qed
  moreover have "Q = (\<lambda>j. \<exists>r<8. P (8 * j + r))" "R = (\<lambda>j. P (8 * ?h + j))"
    by (simp_all add: fun_eq_iff Q_def R_def)
  ultimately show ?thesis by (simp only:)
qed

lemma dml_ref_compare_pattern_eq:
  "dml_ref_compare_pattern p src n m =
     compare_outcome (map_option (pattern_mismatch (unat n))
       (first_mismatch (load_bytes m src (unat n)) (pattern_bytes p (unat n))))"
proof -
  let ?n = "unat n" and ?h = "unat n div 8" and ?t = "unat n mod 8"
  define P where "P k \<longleftrightarrow> m (src + word_of_nat k) \<noteq> bytes_of p ! (k mod 8)" for k
  have head: "(\<lambda>j. load m (src + word_of_nat (8 * j)) \<noteq> p) = (\<lambda>j. \<exists>r<8. P (8 * j + r))"
    by (auto simp: P_def load_neq_iff add.assoc fun_eq_iff)
  have "(m (src + word_of_nat (8 * ?h) + word_of_nat j) \<noteq> bytes_of p ! j) = P (8 * ?h + j)"
    if "j < ?t" for j
    using that by (simp add: P_def add.assoc)
  then have tail: "find (\<lambda>j. m (src + word_of_nat (8 * ?h) + word_of_nat j) \<noteq> bytes_of p ! j) [0 ..< ?t]
      = find (\<lambda>j. P (8 * ?h + j)) [0 ..< ?t]"
    by (intro find_cong) auto
  have "first_mismatch (load_bytes m src ?n) (pattern_bytes p ?n) = find P [0 ..< ?n]"
    unfolding load_bytes_def pattern_bytes_def P_def by (rule first_mismatch_find)
  moreover have "dml_ref_compare_pattern p src n m
      = compare_outcome (map_option (pattern_mismatch ?n) (find P [0 ..< ?n]))"
    unfolding dml_ref_compare_pattern_def Let_def pattern_head_loop_eq pattern_tail_loop_eq head tail
      find_by_blocks [symmetric]
    by (simp split: option.split)
  ultimately show ?thesis by simp
qed

section \<open>Dualcast and CRC\<close>

text \<open>With three disjoint regions, both destinations receive the source.\<close>
lemma dualcast_loop:
  assumes "n \<le> 2 ^ 64" "disjoint_regions src n dst1 n" "disjoint_regions src n dst2 n"
    and "disjoint_regions dst1 n dst2 n" "k \<le> n"
  shows "for_loop k
       (\<lambda>index m.
          let m1 = m(dst1 + word_of_nat index := m (src + word_of_nat index))
          in m1(dst2 + word_of_nat index := m1 (src + word_of_nat index))) m
    = store_bytes (store_bytes m dst1 (load_bytes m src k)) dst2 (load_bytes m src k)"
  using \<open>k \<le> n\<close>
proof (induction k)
  case 0
  then show ?case by simp
next
  case (Suc k)
  let ?s = "src + (word_of_nat k :: addr)" and ?d1 = "dst1 + (word_of_nat k :: addr)"
    and ?d2 = "dst2 + (word_of_nat k :: addr)" and ?L = "load_bytes m src k"
    and ?S = "store_bytes (store_bytes m dst1 (load_bytes m src k)) dst2 (load_bytes m src k)"
    and ?B = "\<lambda>index m.
          let m1 = m(dst1 + word_of_nat index := m (src + word_of_nat index))
          in m1(dst2 + word_of_nat index := m1 (src + word_of_nat index))"
  have k: "k < n" using Suc.prems by simp
  then have in_s: "in_region ?s src n" and in_1: "in_region ?d1 dst1 n"
    using assms(1) by simp_all
  have "\<not> in_region ?s dst1 k" "\<not> in_region ?s dst2 k"
    using disjoint_regionsD [OF assms(2) in_s] disjoint_regionsD [OF assms(3) in_s]
      in_region_mono k by (meson less_imp_le)+
  then have read: "store_bytes (store_bytes m dst1 ?L) dst2 ?L ?s = m ?s"
    by (simp add: store_bytes_outside)
  have "?s \<noteq> ?d1" using disjoint_regionsD [OF assms(2) in_s] in_1 by auto
  with read have "?B k ?S = ?S(?d1 := m ?s, ?d2 := m ?s)" by (simp add: Let_def)
  moreover have "for_loop k ?B m = ?S" using Suc.IH k by (rule_tac Suc.IH) simp
  ultimately have "for_loop (Suc k) ?B m = ?S(?d1 := m ?s, ?d2 := m ?s)"
    by (simp only: for_loop_Suc)
  moreover have "\<not> in_region ?d1 dst2 (Suc k)"
    using disjoint_regionsD [OF assms(4) in_1] in_region_mono Suc.prems by blast
  then have "store_bytes (M(?d1 := b)) dst2 ?L = (store_bytes M dst2 ?L)(?d1 := b)" for M b
    by (auto simp: store_bytes_def in_region_def fun_eq_iff)
  moreover have "store_bytes M dst1 (load_bytes m src (Suc k)) = (store_bytes M dst1 ?L)(?d1 := m ?s)"
    "store_bytes M dst2 (load_bytes m src (Suc k)) = (store_bytes M dst2 ?L)(?d2 := m ?s)" for M
    using store_bytes_snoc [of ?L] k assms(1) by (simp_all only: load_bytes_Suc length_load_bytes)
  ultimately show ?case by (simp only:)
qed

lemma dml_ref_dualcast_eq:
  assumes "disjoint_regions src (unat n) dst1 (unat n)" "disjoint_regions src (unat n) dst2 (unat n)"
    and "disjoint_regions dst1 (unat n) dst2 (unat n)"
  shows "dml_ref_dualcast src dst1 dst2 n m
    = store_bytes (store_bytes m dst1 (load_bytes m src (unat n))) dst2 (load_bytes m src (unat n))"
  unfolding dml_ref_dualcast_def
  using assms unat_u32_less_addr [of n] by (intro dualcast_loop [where n = "unat n"]) simp_all


subsection \<open>CRC\<close>

text \<open>The CRC of a byte string, continued from a value.\<close>
definition crc_bytes :: "u32 \<Rightarrow> byte list \<Rightarrow> u32 \<Rightarrow> u32" where
  "crc_bytes polynomial bs crc = fold (\<lambda>b c. calculate_crc_32u c b polynomial) bs crc"

lemma crc_bytes_append [simp]:
  "crc_bytes p (xs @ ys) crc = crc_bytes p ys (crc_bytes p xs crc)"
  by (simp add: crc_bytes_def)

lemma crc_bytes_loop:
  "for_loop n (\<lambda>i crc. calculate_crc_32u crc (f i) p) crc = crc_bytes p (map f [0 ..< n]) crc"
  by (simp add: for_loop_def crc_bytes_def fold_map o_def)

lemma dml_ref_crc_eq: "dml_ref_crc_32u src n crc p m = crc_bytes p (load_bytes m src (unat n)) crc"
  by (simp add: dml_ref_crc_32u_def crc_bytes_loop load_bytes_def)

lemma dml_ref_crc_reflected_eq:
  "dml_ref_crc_reflected_u32 src n crc p m
     = crc_bytes p (map reverse_u8 (load_bytes m src (unat n))) crc"
  by (simp add: dml_ref_crc_reflected_u32_def crc_bytes_loop load_bytes_def o_def)

text \<open>The three swaps reverse the bits of a byte.\<close>
lemma bit_reverse_u8: "i < 8 \<Longrightarrow> bit (reverse_u8 b) i = bit b (7 - i)"
proof -
  assume "i < 8"
  then have "i = 0 \<or> i = 1 \<or> i = 2 \<or> i = 3 \<or> i = 4 \<or> i = 5 \<or> i = 6 \<or> i = 7" by linarith
  then show ?thesis
    by (elim disjE)
      (simp_all add: reverse_u8_def Let_def bit_or_iff bit_and_iff bit_push_bit_iff
        bit_drop_bit_eq bit_double_iff del: push_bit_Suc drop_bit_Suc)
qed

lemma reverse_u8_involution [simp]: "reverse_u8 (reverse_u8 b) = b"
  by (rule bit_word_eqI) (simp add: bit_reverse_u8)

end
