(* ===== verification/DML_Delta.thy ===== *)
theory DML_Delta
  imports DML_Ref_Kernels
begin

text \<open>
  The delta kernels of \<open>core/src/sw_dispatcher/ref\<close>: \<open>create_delta.c\<close> writes one note (a 16-bit
  block index and the 64-bit block of the second source) per block that differs, until the
  delta record is full; \<open>apply_delta.c\<close> replays the notes. The loops are refined to a list of
  notes and its encoding, and the two kernels are shown to be inverse to each other.
\<close>

section \<open>The kernels\<close>

text \<open>
  The loop of \<open>dml_ref_create_delta\<close> from \<open>index\<close> on: the record size reached, the value of
  \<open>*result\<close> and the memory. \<open>size_t\<close> is 64 bits wide, the record size 32 bits.
\<close>
function create_delta_loop ::
  "addr \<Rightarrow> addr \<Rightarrow> addr \<Rightarrow> u32 \<Rightarrow> nat \<Rightarrow> nat \<Rightarrow> u32 \<Rightarrow> mem \<Rightarrow> u32 \<times> u8 \<times> mem" where
  "create_delta_loop src1 src2 delta_record delta_record_max_size index block_count
     delta_record_size m =
     (if index < block_count
      then
        let block1 = (load m (src1 + word_of_nat (8 * index)) :: u64);
            block2 = (load m (src2 + word_of_nat (8 * index)) :: u64)
        in if block1 \<noteq> block2
           then if ucast delta_record_size + 10 > (ucast delta_record_max_size :: u64)
                then (delta_record_size, 2, m)
                else
                  let delta_position = delta_record + ucast delta_record_size;
                      m1 = store m delta_position (word_of_nat index :: u16);
                      m2 = store m1 (delta_position + 2) block2
                  in create_delta_loop src1 src2 delta_record delta_record_max_size (Suc index)
                       block_count (delta_record_size + 10) m2
           else create_delta_loop src1 src2 delta_record delta_record_max_size (Suc index)
                  block_count delta_record_size m
      else (delta_record_size, (if delta_record_size \<noteq> 0 then 1 else 0), m))"
  by pat_completeness auto
termination
  by (relation "measure (\<lambda>(s1, s2, d, mx, index, n, sz, m). n - index)") auto

declare create_delta_loop.simps [simp del]

definition dml_ref_create_delta ::
  "addr \<Rightarrow> addr \<Rightarrow> u32 \<Rightarrow> addr \<Rightarrow> u32 \<Rightarrow> mem \<Rightarrow> u32 \<times> u8 \<times> mem" where
  "dml_ref_create_delta src1 src2 transfer_size delta_record delta_record_max_size m =
     create_delta_loop src1 src2 delta_record delta_record_max_size 0 (unat transfer_size div 8) 0 m"

definition dml_ref_apply_delta :: "addr \<Rightarrow> addr \<Rightarrow> u32 \<Rightarrow> mem \<Rightarrow> mem" where
  "dml_ref_apply_delta delta_record dst delta_record_size m =
     for_loop (unat delta_record_size div 10)
       (\<lambda>index m.
          let delta_note_position = delta_record + word_of_nat (10 * index);
              offset = (load m delta_note_position :: u16);
              data = (load m (delta_note_position + 2) :: u64)
          in store m (dst + 8 * ucast offset) data) m"

section \<open>Notes and their encoding\<close>

text \<open>A note: the index of a block and its new contents.\<close>
type_synonym delta_note = "nat \<times> u64"

definition delta_notes :: "mem \<Rightarrow> addr \<Rightarrow> addr \<Rightarrow> nat \<Rightarrow> nat \<Rightarrow> delta_note list" where
  "delta_notes m src1 src2 i n =
     map (\<lambda>j. (j, load m (src2 + word_of_nat (8 * j))))
       (filter (\<lambda>j. (load m (src1 + word_of_nat (8 * j)) :: u64) \<noteq> load m (src2 + word_of_nat (8 * j)))
          [i ..< n])"

definition encode_note :: "delta_note \<Rightarrow> byte list" where
  "encode_note x = bytes_of (word_of_nat (fst x) :: u16) @ bytes_of (snd x)"

definition encode_notes :: "delta_note list \<Rightarrow> byte list" where
  "encode_notes notes = concat (map encode_note notes)"

lemma length_encode_note [simp]: "length (encode_note x) = 10"
  by (simp add: encode_note_def)

lemma length_encode_notes [simp]: "length (encode_notes ns) = 10 * length ns"
  by (induction ns) (simp_all add: encode_notes_def)

lemma encode_notes_snoc [simp]: "encode_notes (ns @ [x]) = encode_notes ns @ encode_note x"
  by (simp add: encode_notes_def)

lemma encode_notes_Nil [simp]: "encode_notes [] = []"
  by (simp add: encode_notes_def)

lemma delta_notes_step:
  "i < n \<Longrightarrow> delta_notes m a b i n =
     (if (load m (a + word_of_nat (8 * i)) :: u64) \<noteq> load m (b + word_of_nat (8 * i))
      then (i, load m (b + word_of_nat (8 * i))) # delta_notes m a b (Suc i) n
      else delta_notes m a b (Suc i) n)"
  by (simp add: delta_notes_def upt_conv_Cons)

lemma delta_notes_done [simp]: "n \<le> i \<Longrightarrow> delta_notes m a b i n = []"
  by (simp add: delta_notes_def)

lemma store_note:
  assumes "10 * length pre + 10 \<le> 2 ^ 64"
  shows "store (store (store_bytes m a (encode_notes pre)) (a + word_of_nat (10 * length pre))
            (word_of_nat j :: u16)) (a + word_of_nat (10 * length pre) + 2) (b :: u64)
    = store_bytes m a (encode_notes (pre @ [(j, b)]))"
proof -
  let ?p = "encode_notes pre" and ?i = "bytes_of (word_of_nat j :: u16)"
  have "store_bytes (store_bytes m a ?p) (a + word_of_nat (10 * length pre)) ?i
      = store_bytes m a (?p @ ?i)"
    using store_bytes_append [of ?p ?i m a] assms by simp
  moreover have "store_bytes (store_bytes m a (?p @ ?i)) (a + word_of_nat (10 * length pre) + 2) (bytes_of b)
      = store_bytes m a ((?p @ ?i) @ bytes_of b)"
    using store_bytes_append [of "?p @ ?i" "bytes_of b" m a] assms by (simp add: ac_simps)
  ultimately show ?thesis by (simp add: store_def encode_note_def)
qed

section \<open>Creation refines to a list of notes\<close>

text \<open>What a run that may keep at most \<open>cap\<close> notes delivers.\<close>
definition delta_outcome :: "nat \<Rightarrow> addr \<Rightarrow> delta_note list \<Rightarrow> mem \<Rightarrow> u32 \<times> u8 \<times> mem" where
  "delta_outcome cap delta notes m =
     (let kept = take cap notes
      in (word_of_nat (10 * length kept),
          (if cap < length notes then 2 else if notes = [] then 0 else 1),
          store_bytes m delta (encode_notes kept)))"

lemma load_before_notes:
  assumes "disjoint_regions a k delta mx" "10 * length pre \<le> mx" "8 * i + 8 \<le> k" "k \<le> 2 ^ 64"
  shows "(load (store_bytes m delta (encode_notes pre)) (a + word_of_nat (8 * i)) :: u64)
    = load m (a + word_of_nat (8 * i))"
proof -
  have "disjoint_regions (a + word_of_nat (8 * i)) 8 delta (10 * length pre)"
    using disjoint_regions_part [OF disjoint_regions_mono [OF assms(1) order_refl assms(2)]] assms(3,4)
    by blast
  then show ?thesis by (simp add: load_def mem_simps)
qed

lemma delta_room:
  assumes "10 * k \<le> unat (mx :: u32)"
  shows "ucast (word_of_nat (10 * k) :: u32) + 10 > (ucast mx :: u64) \<longleftrightarrow> unat mx div 10 \<le> k"
proof -
  have "unat (word_of_nat (10 * k) :: u32) = 10 * k"
    using assms unat_u32_less [of mx] by (simp add: unat_of_nat del: of_nat_mult)
  then have "unat (ucast (word_of_nat (10 * k) :: u32) :: u64) = 10 * k"
    by (simp del: of_nat_mult)
  then have "unat (ucast (word_of_nat (10 * k) :: u32) + 10 :: u64) = 10 * k + 10"
    using assms unat_u32_less [of mx] by (subst unat_add_lem [THEN iffD1]) (simp_all del: of_nat_mult)
  then show ?thesis by (simp add: word_less_nat_alt del: of_nat_mult) linarith
qed

lemma create_delta_loop_eq:
  assumes "disjoint_regions a (8 * n) delta (unat mx)" "disjoint_regions b (8 * n) delta (unat mx)"
    and "8 * n \<le> 2 ^ 64" "length pre \<le> unat mx div 10"
  shows "create_delta_loop a b delta mx i n (word_of_nat (10 * length pre))
           (store_bytes m delta (encode_notes pre))
    = delta_outcome (unat mx div 10) delta (pre @ delta_notes m a b i n) m"
  using assms(4)
proof (induction "n - i" arbitrary: i pre)
  case 0
  have "(word_of_nat (10 * length pre) :: u32) = 0 \<longleftrightarrow> pre = []"
  proof -
    have "10 * length pre < 2 ^ 32" using 0 unat_u32_less [of mx] by simp
    then have "unat (word_of_nat (10 * length pre) :: u32) = 10 * length pre"
      by (simp add: unat_of_nat del: of_nat_mult)
    then show ?thesis by (metis length_0_conv mult_eq_0_iff of_nat_0 unat_0 zero_neq_numeral)
  qed
  with 0 show ?case by (simp add: create_delta_loop.simps delta_outcome_def)
next
  case (Suc d)
  let ?m = "store_bytes m delta (encode_notes pre)" and ?cap = "unat mx div 10"
  have i: "i < n" "d = n - Suc i" using Suc.hyps(2) by auto
  have fits: "10 * length pre \<le> unat mx" using Suc.prems by linarith
  have loads: "(load ?m (a + word_of_nat (8 * i)) :: u64) = load m (a + word_of_nat (8 * i))"
    "(load ?m (b + word_of_nat (8 * i)) :: u64) = load m (b + word_of_nat (8 * i))"
    using load_before_notes [OF assms(1) fits _ assms(3)] load_before_notes [OF assms(2) fits _ assms(3)] i(1)
    by simp_all
  show ?case
  proof (cases "(load m (a + word_of_nat (8 * i)) :: u64) = load m (b + word_of_nat (8 * i))")
    case True
    with i loads show ?thesis
      using Suc.hyps(1) [OF i(2) Suc.prems]
      by (simp add: create_delta_loop.simps [of _ _ _ _ i] delta_notes_step)
  next
    case diff: False
    show ?thesis
    proof (cases "?cap \<le> length pre")
      case True
      with Suc.prems have "length pre = ?cap" by simp
      with diff i loads delta_room [OF fits] show ?thesis
        by (simp add: create_delta_loop.simps [of _ _ _ _ i] delta_notes_step delta_outcome_def)
    next
      case False
      let ?note = "(i, load m (b + word_of_nat (8 * i)) :: u64)"
      have "10 * length pre + 10 \<le> unat mx" using False by linarith
      moreover have "ucast (word_of_nat (10 * length pre) :: u32) = (word_of_nat (10 * length pre) :: addr)"
        using fits unat_u32_less [of mx] by (intro ucast_word_of_nat) simp
      ultimately show ?thesis
        using Suc.hyps(1) [OF i(2), of "pre @ [?note]"] store_note [of pre m delta i]
          diff False i loads delta_room [OF fits] unat_u32_less_addr [of mx]
        by (simp add: create_delta_loop.simps [of _ _ _ _ i] delta_notes_step
            add.commute [of "10 :: u32"])
    qed
  qed
qed

text \<open>The kernel writes the leading notes that fit and says whether some did not.\<close>
lemma dml_ref_create_delta_eq:
  assumes "disjoint_regions a (unat n) delta (unat mx)" "disjoint_regions b (unat n) delta (unat mx)"
  shows "dml_ref_create_delta a b n delta mx m
    = delta_outcome (unat mx div 10) delta (delta_notes m a b 0 (unat n div 8)) m"
proof -
  have "8 * (unat n div 8) \<le> unat n" by simp
  with assms have "disjoint_regions a (8 * (unat n div 8)) delta (unat mx)"
    "disjoint_regions b (8 * (unat n div 8)) delta (unat mx)"
    by (auto intro: disjoint_regions_mono)
  then show ?thesis
    using create_delta_loop_eq [where pre = "[]"] unat_u32_less_addr [of n]
    by (simp add: dml_ref_create_delta_def)
qed

section \<open>Application replays the notes\<close>

definition apply_notes :: "addr \<Rightarrow> delta_note list \<Rightarrow> mem \<Rightarrow> mem" where
  "apply_notes dst notes m = fold (\<lambda>(j, b) m. store m (dst + word_of_nat (8 * j)) b) notes m"

lemma apply_notes_simps [simp]:
  "apply_notes dst [] m = m"
  "apply_notes dst ((j, b) # ns) m = apply_notes dst ns (store m (dst + word_of_nat (8 * j)) b)"
  by (simp_all add: apply_notes_def)

lemma apply_notes_snoc:
  "apply_notes dst (ns @ [(j, b)]) m = store (apply_notes dst ns m) (dst + word_of_nat (8 * j)) b"
  by (simp add: apply_notes_def)

text \<open>Distinct blocks of a region do not share bytes.\<close>
lemma blocks_disjoint:
  assumes "i \<noteq> j" "i < n" "j < n" "8 * n \<le> 2 ^ 64"
  shows "disjoint_regions (a + word_of_nat (8 * i)) 8 (a + word_of_nat (8 * j)) 8"
  using assms by (intro disjoint_parts) linarith+

lemma block_in_region:
  "8 * n \<le> 2 ^ 64 \<Longrightarrow> j < n \<Longrightarrow> in_region x (a + word_of_nat (8 * j)) 8 \<Longrightarrow> in_region x a (8 * n)"
  by (erule in_region_part) linarith+

lemma apply_notes_block:
  assumes "\<And>j b. (j, b) \<in> set ns \<Longrightarrow> j < n" "distinct (map fst ns)" "8 * n \<le> 2 ^ 64" "i < n"
  shows "load (apply_notes dst ns m) (dst + word_of_nat (8 * i))
    = (case map_of ns i of None \<Rightarrow> load m (dst + word_of_nat (8 * i)) | Some b \<Rightarrow> b)"
  using assms(1,2)
proof (induction ns arbitrary: m)
  case Nil
  then show ?case by simp
next
  case (Cons x ns)
  obtain j b where x: "x = (j, b)" by (cases x)
  with Cons.prems have j: "j < n" by auto
  have IH: "load (apply_notes dst ns (store m (dst + word_of_nat (8 * j)) b)) (dst + word_of_nat (8 * i))
      = (case map_of ns i of
           None \<Rightarrow> load (store m (dst + word_of_nat (8 * j)) b) (dst + word_of_nat (8 * i))
         | Some b \<Rightarrow> b)"
    using Cons.prems by (intro Cons.IH) auto
  show ?case
  proof (cases "i = j")
    case True
    with Cons.prems(2) x have "map_of ns i = None" by (auto simp: map_of_eq_None_iff)
    with IH True x show ?thesis by (simp add: mem_simps)
  next
    case False
    then have "load (store m (dst + word_of_nat (8 * j)) b) (dst + word_of_nat (8 * i))
        = (load m (dst + word_of_nat (8 * i)) :: u64)"
      using blocks_disjoint [OF False assms(4) j assms(3)] by (simp add: load_store_disjoint)
    with IH False x show ?thesis by (simp split: option.split)
  qed
qed

lemma apply_notes_outside:
  assumes "\<And>j b. (j, b) \<in> set ns \<Longrightarrow> j < n" "8 * n \<le> 2 ^ 64" "\<not> in_region x dst (8 * n)"
  shows "apply_notes dst ns m x = m x"
  using assms(1)
proof (induction ns arbitrary: m)
  case (Cons y ns)
  obtain j b where y: "y = (j, b)" by (cases y)
  with Cons.prems have "j < n" by auto
  then have "\<not> in_region x (dst + word_of_nat (8 * j)) 8"
    using assms(2,3) block_in_region by blast
  then have "store m (dst + word_of_nat (8 * j)) b x = m x" by (simp add: store_outside)
  with Cons.IH Cons.prems y show ?case by (metis apply_notes_simps(2) list.set_intros(2))
qed simp

lemma encode_notes_nth:
  "k < length ns \<Longrightarrow> take 10 (drop (10 * k) (encode_notes ns)) = encode_note (ns ! k)"
proof (induction ns arbitrary: k)
  case (Cons x ns)
  then show ?case by (cases k) (simp_all add: encode_notes_def)
qed simp

text \<open>The fields of a note in memory.\<close>
lemma load_note:
  assumes "load_bytes m delta (10 * length ns) = encode_notes ns" "k < length ns"
  shows "(load m (delta + word_of_nat (10 * k)) :: u16) = word_of_nat (fst (ns ! k))"
    and "(load m (delta + word_of_nat (10 * k) + 2) :: u64) = snd (ns ! k)"
proof -
  have all: "load_bytes m (delta + word_of_nat (10 * k)) 10 = encode_note (ns ! k)"
    using assms load_bytes_part [of "10 * k" 10 "10 * length ns" m delta] by (simp add: encode_notes_nth)
  have "load_bytes m (delta + word_of_nat (10 * k)) 2 = take 2 (encode_note (ns ! k))"
    "load_bytes m (delta + word_of_nat (10 * k) + 2) 8 = drop 2 (encode_note (ns ! k))"
    using load_bytes_part [of 0 2 10 m "delta + word_of_nat (10 * k)"]
      load_bytes_part [of 2 8 10 m "delta + word_of_nat (10 * k)"]
    by (simp_all add: all del: of_nat_mult)
  then show "(load m (delta + word_of_nat (10 * k)) :: u16) = word_of_nat (fst (ns ! k))"
    and "(load m (delta + word_of_nat (10 * k) + 2) :: u64) = snd (ns ! k)"
    by (simp_all add: load_def encode_note_def del: of_nat_mult)
qed

lemma dml_ref_apply_delta_eq:
  assumes enc: "load_bytes m delta (10 * length ns) = encode_notes ns"
    and idx: "\<And>j b. (j, b) \<in> set ns \<Longrightarrow> j < n" "n \<le> 65536"
    and sep: "disjoint_regions delta (10 * length ns) dst (8 * n)"
    and len: "unat sz = 10 * length ns"
  shows "dml_ref_apply_delta delta dst sz m = apply_notes dst ns m"
proof -
  let ?body = "\<lambda>index m.
          let delta_note_position = delta + word_of_nat (10 * index);
              offset = (load m delta_note_position :: u16);
              data = (load m (delta_note_position + 2) :: u64)
          in store m (dst + 8 * ucast offset) data"
  have small: "10 * length ns \<le> 2 ^ 64" "8 * n \<le> 2 ^ 64"
    using len unat_u32_less_addr [of sz] idx(2) by simp_all
  have "for_loop k ?body m = apply_notes dst (take k ns) m" if "k \<le> length ns" for k
    using that
  proof (induction k)
    case (Suc k)
    let ?M = "apply_notes dst (take k ns) m"
    have k: "k < length ns" using Suc.prems by simp
    obtain j b where jb: "ns ! k = (j, b)" by (cases "ns ! k")
    then have j: "j < n" using idx(1) [of j b] nth_mem [OF k] by simp
    have "load_bytes ?M delta (10 * length ns) = load_bytes m delta (10 * length ns)"
    proof (rule load_bytes_cong)
      fix i assume "i < 10 * length ns"
      then have "\<not> in_region (delta + word_of_nat i) dst (8 * n)"
        using small(1) by (intro disjoint_regionsD [OF sep]) simp
      then show "?M (delta + word_of_nat i) = m (delta + word_of_nat i)"
        using idx(1) small(2) by (intro apply_notes_outside [of _ n]) (auto dest: in_set_takeD)
    qed
    then have "load_bytes ?M delta (10 * length ns) = encode_notes ns" using enc by simp
    note loads = load_note [OF this k]
    have "unat (word_of_nat j :: u16) = j" using j idx(2) by (simp add: unat_of_nat)
    then have "8 * ucast (word_of_nat j :: u16) = (word_of_nat (8 * j) :: addr)"
      by (metis of_nat_mult of_nat_numeral of_nat_unat)
    with loads jb have "?body k ?M = store ?M (dst + word_of_nat (8 * j)) b"
      by (simp add: Let_def del: of_nat_mult)
    moreover have "take (Suc k) ns = take k ns @ [(j, b)]" using k jb by (simp add: take_Suc_conv_app_nth)
    ultimately show ?case using Suc by (simp only: for_loop_Suc apply_notes_snoc less_imp_le Suc_le_eq)
  qed simp
  from this [of "length ns"] show ?thesis by (simp add: dml_ref_apply_delta_def len)
qed

section \<open>The round trip\<close>

lemma set_delta_notes:
  "(j, b) \<in> set (delta_notes m s1 s2 i n) \<longleftrightarrow> i \<le> j \<and> j < n \<and>
     b = load m (s2 + word_of_nat (8 * j)) \<and> (load m (s1 + word_of_nat (8 * j)) :: u64) \<noteq> b"
  by (auto simp: delta_notes_def)

lemma distinct_delta_notes: "distinct (map fst (delta_notes m s1 s2 i n))"
  by (simp add: delta_notes_def o_def distinct_filter)

lemma blocks_equal_bytes:
  assumes "\<And>i. i < n \<Longrightarrow> (load m (a + word_of_nat (8 * i)) :: u64) = load m' (b + word_of_nat (8 * i))"
  shows "load_bytes m a (8 * n) = load_bytes m' b (8 * n)"
proof (rule load_bytes_cong)
  fix k assume "k < 8 * n"
  then have i: "k div 8 < n" by linarith
  have "bytes_of (load M c :: u64) = load_bytes M c 8" for M c
    unfolding load_def by (subst bytes_of_word_of) simp_all
  then have "load_bytes m (a + word_of_nat (8 * (k div 8))) 8 = load_bytes m' (b + word_of_nat (8 * (k div 8))) 8"
    using assms [OF i] by metis
  then have "load_bytes m (a + word_of_nat (8 * (k div 8))) 8 ! (k mod 8)
      = load_bytes m' (b + word_of_nat (8 * (k div 8))) 8 ! (k mod 8)" by simp
  then show "m (a + word_of_nat k) = m' (b + word_of_nat k)"
    by (simp add: add.assoc del: of_nat_mult flip: of_nat_add)
qed

lemma block_of_bytes:
  assumes "load_bytes m a (8 * n) = load_bytes m' b (8 * n)" "i < n"
  shows "(load m (a + word_of_nat (8 * i)) :: u64) = load m' (b + word_of_nat (8 * i))"
  using load_bytes_part [of "8 * i" 8 "8 * n" m a] load_bytes_part [of "8 * i" 8 "8 * n" m' b] assms
  by (simp add: load_def)

lemma map_of_delta_notes:
  "i < n \<Longrightarrow> map_of (delta_notes m s1 s2 0 n) i =
     (if (load m (s1 + word_of_nat (8 * i)) :: u64) \<noteq> load m (s2 + word_of_nat (8 * i))
      then Some (load m (s2 + word_of_nat (8 * i))) else None)"
proof (cases "(load m (s1 + word_of_nat (8 * i)) :: u64) = load m (s2 + word_of_nat (8 * i))")
  case True
  then have "i \<notin> fst ` set (delta_notes m s1 s2 0 n)" by (auto simp: set_delta_notes)
  with True show ?thesis by (simp add: map_of_eq_None_iff)
next
  case False
  assume "i < n"
  with False have "(i, load m (s2 + word_of_nat (8 * i))) \<in> set (delta_notes m s1 s2 0 n)"
    by (simp add: set_delta_notes)
  then have "map_of (delta_notes m s1 s2 0 n) i = Some (load m (s2 + word_of_nat (8 * i)))"
    using distinct_delta_notes by (rule map_of_is_SomeI [rotated])
  with False show ?thesis by simp
qed

text \<open>
  Claim C25: the delta record is at most as long as the caller allows, whole notes only, and the
  result tells apart equal sources (0, empty record), a complete record (1) and a record that
  did not hold every difference (2); outside the record nothing is written.
\<close>
theorem create_delta_result:
  assumes "disjoint_regions src1 (unat n) delta (unat mx)" "disjoint_regions src2 (unat n) delta (unat mx)"
    and "8 dvd unat n" "dml_ref_create_delta src1 src2 n delta mx m = (sz, r, m')"
  shows "unat sz \<le> unat mx \<and> 10 dvd unat sz
    \<and> (r = 0 \<longleftrightarrow> load_bytes m src1 (unat n) = load_bytes m src2 (unat n))
    \<and> (r = 0 \<longleftrightarrow> sz = 0 \<and> r \<noteq> 2)
    \<and> (r = 2 \<longleftrightarrow> unat mx div 10 < length (delta_notes m src1 src2 0 (unat n div 8)))
    \<and> (\<forall>x. \<not> in_region x delta (unat sz) \<longrightarrow> m' x = m x)"
proof -
  let ?ns = "delta_notes m src1 src2 0 (unat n div 8)" and ?cap = "unat mx div 10"
  have sz: "sz = word_of_nat (10 * length (take ?cap ?ns))"
    and r: "r = (if ?cap < length ?ns then 2 else if ?ns = [] then 0 else 1)"
    and m': "m' = store_bytes m delta (encode_notes (take ?cap ?ns))"
    using assms dml_ref_create_delta_eq [OF assms(1,2), of m] by (auto simp: delta_outcome_def Let_def)
  have "10 * length (take ?cap ?ns) \<le> unat mx" by simp
  then have usz: "unat sz = 10 * length (take ?cap ?ns)"
    using unat_u32_less [of mx] unfolding sz by (simp add: unat_of_nat del: of_nat_mult)
  have n8: "8 * (unat n div 8) = unat n" using assms(3) by simp
  have "?ns = [] \<longleftrightarrow> load_bytes m src1 (unat n) = load_bytes m src2 (unat n)"
  proof
    assume "?ns = []"
    then have "(load m (src1 + word_of_nat (8 * i)) :: u64) = load m (src2 + word_of_nat (8 * i))"
      if "i < unat n div 8" for i
      using that set_delta_notes [of i _ m src1 src2 0 "unat n div 8"] by auto
    then show "load_bytes m src1 (unat n) = load_bytes m src2 (unat n)"
      using blocks_equal_bytes [of "unat n div 8" m src1 m src2] n8 by simp
  next
    assume "load_bytes m src1 (unat n) = load_bytes m src2 (unat n)"
    then show "?ns = []"
      using block_of_bytes [of m src1 "unat n div 8" m src2] n8 by (simp add: delta_notes_def)
  qed
  then have "r = 0 \<longleftrightarrow> load_bytes m src1 (unat n) = load_bytes m src2 (unat n)" using r by auto
  moreover have "unat sz \<le> unat mx" "10 dvd unat sz" using usz by simp_all
  moreover have "r = 2 \<longleftrightarrow> ?cap < length ?ns" using r by auto
  moreover have "sz = 0 \<longleftrightarrow> ?cap = 0 \<or> ?ns = []" using usz by (auto simp: unat_eq_zero [symmetric] min_def)
  then have "r = 0 \<longleftrightarrow> sz = 0 \<and> r \<noteq> 2" using r by auto
  moreover have "\<forall>x. \<not> in_region x delta (unat sz) \<longrightarrow> m' x = m x"
    using usz by (simp add: m' store_bytes_outside)
  ultimately show ?thesis by blast
qed

text \<open>
  Claim C5: applying the record that \<open>create_delta\<close> produced for two sources to a copy of the
  first source turns the copy into the second source, and writes nowhere else. The size bound
  is the one the operation has in hardware: block indices are 16 bits wide.
\<close>
theorem delta_round_trip:
  assumes "disjoint_regions src1 (unat n) delta (unat mx)" "disjoint_regions src2 (unat n) delta (unat mx)"
    and "8 dvd unat n" "unat n \<le> 524288"
    and "dml_ref_create_delta src1 src2 n delta mx m = (sz, r, m')" "r \<noteq> 2"
    and "disjoint_regions delta (unat mx) dst (unat n)"
    and "load_bytes m' dst (unat n) = load_bytes m src1 (unat n)"
  shows "load_bytes (dml_ref_apply_delta delta dst sz m') dst (unat n) = load_bytes m src2 (unat n)
    \<and> (\<forall>x. \<not> in_region x dst (unat n) \<longrightarrow> dml_ref_apply_delta delta dst sz m' x = m' x)"
proof -
  let ?n = "unat n div 8"
  let ?ns = "delta_notes m src1 src2 0 ?n" and ?cap = "unat mx div 10"
  have n8: "8 * ?n = unat n" using assms(3) by simp
  have kept: "take ?cap ?ns = ?ns" and len: "length ?ns \<le> ?cap"
    and sz: "sz = word_of_nat (10 * length ?ns)" and m': "m' = store_bytes m delta (encode_notes ?ns)"
    using assms dml_ref_create_delta_eq [OF assms(1,2), of m]
    by (auto simp: delta_outcome_def Let_def split: if_splits)
  have usz: "unat sz = 10 * length ?ns"
    using len unat_u32_less [of mx] unfolding sz by (simp add: unat_of_nat del: of_nat_mult)
  have idx: "\<And>j b. (j, b) \<in> set ?ns \<Longrightarrow> j < ?n" by (simp add: set_delta_notes)
  have run: "dml_ref_apply_delta delta dst sz m' = apply_notes dst ?ns m'"
  proof (rule dml_ref_apply_delta_eq [OF _ idx _ _ usz])
    show "load_bytes m' delta (10 * length ?ns) = encode_notes ?ns"
      using usz unat_u32_less_addr [of sz] by (simp add: m' load_store_bytes_same)
    show "disjoint_regions delta (10 * length ?ns) dst (8 * ?n)"
      using len assms(7) n8 by (auto intro: disjoint_regions_mono)
  qed (use assms(4) in simp_all)
  have small: "8 * ?n \<le> 2 ^ 64" using n8 unat_u32_less_addr [of n] by simp
  have "load_bytes (apply_notes dst ?ns m') dst (8 * ?n) = load_bytes m src2 (8 * ?n)"
  proof (rule blocks_equal_bytes)
    fix i assume i: "i < ?n"
    have "(load m' (dst + word_of_nat (8 * i)) :: u64) = load m (src1 + word_of_nat (8 * i))"
      using block_of_bytes [of m' dst ?n m src1] assms(8) n8 i by simp
    then show "(load (apply_notes dst ?ns m') (dst + word_of_nat (8 * i)) :: u64)
        = load m (src2 + word_of_nat (8 * i))"
      using apply_notes_block [OF idx distinct_delta_notes small i, where dst = dst and m = m'] i
      by (simp add: map_of_delta_notes)
  qed
  moreover have "\<forall>x. \<not> in_region x dst (unat n) \<longrightarrow> apply_notes dst ?ns m' x = m' x"
    using apply_notes_outside [OF idx small, where dst = dst] n8 by simp
  ultimately show ?thesis using run n8 by simp
qed

subsection \<open>An example run\<close>

text \<open>Two blocks at 0x1000 and 0x2000 that differ in the second one.\<close>
definition delta_mem :: mem where
  "delta_mem = (\<lambda>a. if a = 0x2008 then 7 else 0)"

definition delta_mem_after :: mem where
  "delta_mem_after = store_bytes delta_mem 0x3000 (encode_notes [(1, 7)])"

lemma delta_mem_notes: "delta_notes delta_mem 0x1000 0x2000 0 2 = [(1, 7)]"
  by (simp add: delta_notes_def delta_mem_def load_def load_bytes_def upt_rec)

lemma delta_mem_regions:
  "disjoint_regions 0x1000 16 0x3000 80" "disjoint_regions 0x2000 16 0x3000 80"
  "disjoint_regions 0x3000 80 0x4000 16"
  by (simp_all add: disjoint_no_wrap)

lemma delta_mem_create:
  "dml_ref_create_delta 0x1000 0x2000 16 0x3000 80 delta_mem = (10, 1, delta_mem_after)"
  using dml_ref_create_delta_eq [of "0x1000" 16 "0x3000" 80 "0x2000" delta_mem] delta_mem_regions
  by (simp add: delta_mem_notes delta_outcome_def delta_mem_after_def)

theorem create_delta_result_witness:
  "dml_ref_create_delta 0x1000 0x2000 16 0x3000 80 delta_mem = (10, 1, delta_mem_after)
   \<and> delta_mem_after 0x2008 = 7"
proof -
  have "\<forall>x. \<not> in_region x 0x3000 (unat (10 :: u32)) \<longrightarrow> delta_mem_after x = delta_mem x"
    using create_delta_result [of "0x1000" 16 "0x3000" 80 "0x2000" delta_mem 10 1 delta_mem_after]
      delta_mem_regions delta_mem_create by simp
  moreover have "\<not> in_region 0x2008 0x3000 (unat (10 :: u32))"
    by (simp add: in_region_no_wrap)
  ultimately show ?thesis using delta_mem_create by (simp add: delta_mem_def)
qed

theorem delta_round_trip_witness:
  "load_bytes (dml_ref_apply_delta 0x3000 0x4000 10 delta_mem_after) 0x4000 16
     = load_bytes delta_mem 0x2000 16"
proof -
  have "load_bytes delta_mem_after 0x4000 16 = load_bytes delta_mem 0x4000 16"
    unfolding delta_mem_after_def
    by (rule load_store_bytes_disjoint) (simp_all add: disjoint_no_wrap)
  also have "\<dots> = load_bytes delta_mem 0x1000 16"
    by (simp add: load_bytes_def delta_mem_def upt_rec)
  finally have "load_bytes delta_mem_after 0x4000 16 = load_bytes delta_mem 0x1000 16" .
  then show ?thesis
    using delta_round_trip [of "0x1000" 16 "0x3000" 80 "0x2000" delta_mem 10 1 delta_mem_after "0x4000"]
      delta_mem_regions delta_mem_create by simp
qed

end
