(* ===== verification/DML_Defs.thy ===== *)
theory DML_Defs
  imports DML_Types
begin

text \<open>
  The public definitions of the job interface (\<open>include/dml/dmldefs.h\<close>): the status values,
  the DIF configuration, the job structure, the flag constants its users set, and the version
  structure. An enumeration
  field that the caller may set to any value (\<open>operation\<close>, \<open>block_size\<close>) keeps the machine
  integer it is stored as.
\<close>

section \<open>Status values\<close>

datatype dml_status =
  DML_STATUS_OK
  | DML_STATUS_FALSE_PREDICATE_OK
  | DML_STATUS_BEING_PROCESSED
  | DML_STATUS_INTERNAL_ERROR
  | DML_STATUS_NULL_POINTER_ERROR
  | DML_STATUS_LIMITS_ERROR
  | DML_STATUS_PATH_ERROR
  | DML_STATUS_HINT_ERROR
  | DML_STATUS_CRC_ALIGN_ERROR
  | DML_STATUS_BATCH_ERROR
  | DML_STATUS_DELTA_ASCENDT_ERROR
  | DML_STATUS_DELTA_OFFSET_ERROR
  | DML_STATUS_DIF_CHECK_ERROR
  | DML_STATUS_JOB_OPERATION_ERROR
  | DML_STATUS_JOB_FLAGS_ERROR
  | DML_STATUS_JOB_LENGTH_ERROR
  | DML_STATUS_BATCH_LIMITS_ERROR
  | DML_STATUS_DELTA_RECORD_SIZE_ERROR
  | DML_STATUS_OVERLAPPING_BUFFER_ERROR
  | DML_STATUS_DUALCAST_ALIGN_ERROR
  | DML_STATUS_DELTA_ALIGN_ERROR
  | DML_STATUS_DELTA_INPUT_SIZE_ERROR
  | DML_STATUS_MEMORY_OVERFLOW_ERROR
  | DML_STATUS_JOB_CORRUPTED
  | DML_STATUS_WORK_QUEUE_OVERFLOW_ERROR
  | DML_STATUS_PAGE_FAULT_ERROR
  | DML_STATUS_TC_A_NOT_AVAILABLE
  | DML_STATUS_TC_B_NOT_AVAILABLE
  | DML_STATUS_BATCH_TASK_INDEX_OVERFLOW
  | DML_STATUS_BATCH_SIZE_ERROR
  | DML_STATUS_DRAIN_PAGE_FAULT_ERROR
  | DML_STATUS_UNKNOWN_CACHE_SIZE_ERROR
  | DML_STATUS_DIF_STRIP_ADJACENT_ERROR
  | DML_STATUS_INTL_INVALID_PAGE_REQUEST
  | DML_STATUS_INTL_INVALID_RESERVED_FIELD
  | DML_STATUS_INTL_MISALIGNED_DESC_LA
  | DML_STATUS_INTL_INVALID_COMPLETION_HANDLE
  | DML_STATUS_INTL_PAGE_FAULT_ON_TRANSLATION
  | DML_STATUS_INTL_MISALIGNED_CR_ADDRESS
  | DML_STATUS_INTL_MISALIGNED_ADDRESS
  | DML_STATUS_INTL_PRIVILEGE_ERROR
  | DML_STATUS_INTL_TRAFFIC_CLASS_ERROR
  | DML_STATUS_INTL_READBACK_ADDRESS_PAGE_ERROR
  | DML_STATUS_INTL_HARDWARE_READBACK_TIMEOUT
  | DML_STATUS_INTL_HARDWARE_TIMEOUT
  | DML_STATUS_INTL_ADDRESS_TRANSLATION_ERROR
  | DML_STATUS_LIBACCEL_NOT_FOUND
  | DML_STATUS_LIBACCEL_ERROR
  | DML_STATUS_WORK_QUEUES_NOT_AVAILABLE

primrec dml_status_value :: "dml_status \<Rightarrow> nat" where
  "dml_status_value DML_STATUS_OK = 0"
| "dml_status_value DML_STATUS_FALSE_PREDICATE_OK = 1"
| "dml_status_value DML_STATUS_BEING_PROCESSED = 2"
| "dml_status_value DML_STATUS_INTERNAL_ERROR = 3"
| "dml_status_value DML_STATUS_NULL_POINTER_ERROR = 4"
| "dml_status_value DML_STATUS_LIMITS_ERROR = 5"
| "dml_status_value DML_STATUS_PATH_ERROR = 6"
| "dml_status_value DML_STATUS_HINT_ERROR = 7"
| "dml_status_value DML_STATUS_CRC_ALIGN_ERROR = 8"
| "dml_status_value DML_STATUS_BATCH_ERROR = 9"
| "dml_status_value DML_STATUS_DELTA_ASCENDT_ERROR = 10"
| "dml_status_value DML_STATUS_DELTA_OFFSET_ERROR = 11"
| "dml_status_value DML_STATUS_DIF_CHECK_ERROR = 12"
| "dml_status_value DML_STATUS_JOB_OPERATION_ERROR = 13"
| "dml_status_value DML_STATUS_JOB_FLAGS_ERROR = 14"
| "dml_status_value DML_STATUS_JOB_LENGTH_ERROR = 15"
| "dml_status_value DML_STATUS_BATCH_LIMITS_ERROR = 16"
| "dml_status_value DML_STATUS_DELTA_RECORD_SIZE_ERROR = 17"
| "dml_status_value DML_STATUS_OVERLAPPING_BUFFER_ERROR = 18"
| "dml_status_value DML_STATUS_DUALCAST_ALIGN_ERROR = 19"
| "dml_status_value DML_STATUS_DELTA_ALIGN_ERROR = 20"
| "dml_status_value DML_STATUS_DELTA_INPUT_SIZE_ERROR = 21"
| "dml_status_value DML_STATUS_MEMORY_OVERFLOW_ERROR = 22"
| "dml_status_value DML_STATUS_JOB_CORRUPTED = 23"
| "dml_status_value DML_STATUS_WORK_QUEUE_OVERFLOW_ERROR = 24"
| "dml_status_value DML_STATUS_PAGE_FAULT_ERROR = 25"
| "dml_status_value DML_STATUS_TC_A_NOT_AVAILABLE = 26"
| "dml_status_value DML_STATUS_TC_B_NOT_AVAILABLE = 27"
| "dml_status_value DML_STATUS_BATCH_TASK_INDEX_OVERFLOW = 28"
| "dml_status_value DML_STATUS_BATCH_SIZE_ERROR = 29"
| "dml_status_value DML_STATUS_DRAIN_PAGE_FAULT_ERROR = 30"
| "dml_status_value DML_STATUS_UNKNOWN_CACHE_SIZE_ERROR = 31"
| "dml_status_value DML_STATUS_DIF_STRIP_ADJACENT_ERROR = 32"
| "dml_status_value DML_STATUS_INTL_INVALID_PAGE_REQUEST = 33"
| "dml_status_value DML_STATUS_INTL_INVALID_RESERVED_FIELD = 34"
| "dml_status_value DML_STATUS_INTL_MISALIGNED_DESC_LA = 35"
| "dml_status_value DML_STATUS_INTL_INVALID_COMPLETION_HANDLE = 36"
| "dml_status_value DML_STATUS_INTL_PAGE_FAULT_ON_TRANSLATION = 37"
| "dml_status_value DML_STATUS_INTL_MISALIGNED_CR_ADDRESS = 38"
| "dml_status_value DML_STATUS_INTL_MISALIGNED_ADDRESS = 39"
| "dml_status_value DML_STATUS_INTL_PRIVILEGE_ERROR = 40"
| "dml_status_value DML_STATUS_INTL_TRAFFIC_CLASS_ERROR = 41"
| "dml_status_value DML_STATUS_INTL_READBACK_ADDRESS_PAGE_ERROR = 42"
| "dml_status_value DML_STATUS_INTL_HARDWARE_READBACK_TIMEOUT = 43"
| "dml_status_value DML_STATUS_INTL_HARDWARE_TIMEOUT = 44"
| "dml_status_value DML_STATUS_INTL_ADDRESS_TRANSLATION_ERROR = 45"
| "dml_status_value DML_STATUS_LIBACCEL_NOT_FOUND = 100"
| "dml_status_value DML_STATUS_LIBACCEL_ERROR = 101"
| "dml_status_value DML_STATUS_WORK_QUEUES_NOT_AVAILABLE = 102"

section \<open>Flag constants\<close>

subsection \<open>DIF flags (\<open>dml_dif_config_t.flags\<close>)\<close>

definition DML_DIF_FLAG_INVERT_CRC_SEED :: u32 where
  "DML_DIF_FLAG_INVERT_CRC_SEED = 0x040000"

definition DML_DIF_FLAG_INVERT_CRC_RESULT :: u32 where
  "DML_DIF_FLAG_INVERT_CRC_RESULT = 0x080000"

definition DML_DIF_FLAG_SRC_F_ENABLE_ERROR :: u32 where
  "DML_DIF_FLAG_SRC_F_ENABLE_ERROR = 0x000001"

definition DML_DIF_FLAG_SRC_F_DETECT_ALL :: u32 where
  "DML_DIF_FLAG_SRC_F_DETECT_ALL = 0x000002"

definition DML_DIF_FLAG_SRC_F_DETECT_APP_TAG :: u32 where
  "DML_DIF_FLAG_SRC_F_DETECT_APP_TAG = 0x000004"

definition DML_DIF_FLAG_SRC_F_DETECT_TAGS :: u32 where
  "DML_DIF_FLAG_SRC_F_DETECT_TAGS = 0x000008"

definition DML_DIF_FLAG_SRC_INC_APP_TAG :: u32 where
  "DML_DIF_FLAG_SRC_INC_APP_TAG = 0x000010"

definition DML_DIF_FLAG_SRC_GUARD_CHECK_DISABLE :: u32 where
  "DML_DIF_FLAG_SRC_GUARD_CHECK_DISABLE = 0x000020"

definition DML_DIF_FLAG_SRC_REF_TAG_CHECK_DISABLE :: u32 where
  "DML_DIF_FLAG_SRC_REF_TAG_CHECK_DISABLE = 0x000040"

definition DML_DIF_FLAG_SRC_FIX_REF_TAG :: u32 where
  "DML_DIF_FLAG_SRC_FIX_REF_TAG = 0x000080"

definition DML_DIF_FLAG_DST_PASS_APP_TAG :: u32 where
  "DML_DIF_FLAG_DST_PASS_APP_TAG = 0x000800"

definition DML_DIF_FLAG_DST_INC_APP_TAG :: u32 where
  "DML_DIF_FLAG_DST_INC_APP_TAG = 0x001000"

definition DML_DIF_FLAG_DST_PASS_GUARD :: u32 where
  "DML_DIF_FLAG_DST_PASS_GUARD = 0x002000"

definition DML_DIF_FLAG_DST_PASS_REF_TAG :: u32 where
  "DML_DIF_FLAG_DST_PASS_REF_TAG = 0x004000"

definition DML_DIF_FLAG_DST_FIX_REF_TAG :: u32 where
  "DML_DIF_FLAG_DST_FIX_REF_TAG = 0x008000"

lemmas dif_flag_values = DML_DIF_FLAG_INVERT_CRC_SEED_def DML_DIF_FLAG_INVERT_CRC_RESULT_def DML_DIF_FLAG_SRC_F_ENABLE_ERROR_def DML_DIF_FLAG_SRC_F_DETECT_ALL_def DML_DIF_FLAG_SRC_F_DETECT_APP_TAG_def DML_DIF_FLAG_SRC_F_DETECT_TAGS_def DML_DIF_FLAG_SRC_INC_APP_TAG_def DML_DIF_FLAG_SRC_GUARD_CHECK_DISABLE_def DML_DIF_FLAG_SRC_REF_TAG_CHECK_DISABLE_def DML_DIF_FLAG_SRC_FIX_REF_TAG_def DML_DIF_FLAG_DST_PASS_APP_TAG_def DML_DIF_FLAG_DST_INC_APP_TAG_def DML_DIF_FLAG_DST_PASS_GUARD_def DML_DIF_FLAG_DST_PASS_REF_TAG_def DML_DIF_FLAG_DST_FIX_REF_TAG_def

subsection \<open>What a failed DIF check reports\<close>

definition DML_DIF_CHECK_GUARD_MISMATCH :: u32 where
  "DML_DIF_CHECK_GUARD_MISMATCH = 0x01"

definition DML_DIF_CHECK_APPLICATION_TAG_MISMATCH :: u32 where
  "DML_DIF_CHECK_APPLICATION_TAG_MISMATCH = 0x02"

definition DML_DIF_CHECK_REFERENCE_TAG_MISMATCH :: u32 where
  "DML_DIF_CHECK_REFERENCE_TAG_MISMATCH = 0x04"

definition DML_DIF_CHECK_ALL_BITS_SET_DETECT_ERROR :: u32 where
  "DML_DIF_CHECK_ALL_BITS_SET_DETECT_ERROR = 0x08"

lemmas dif_check_values = DML_DIF_CHECK_GUARD_MISMATCH_def DML_DIF_CHECK_APPLICATION_TAG_MISMATCH_def DML_DIF_CHECK_REFERENCE_TAG_MISMATCH_def DML_DIF_CHECK_ALL_BITS_SET_DETECT_ERROR_def

section \<open>The job structure\<close>

text \<open>\<open>dml_dif_config_t\<close>.\<close>
record dml_dif_config =
  dif_flags :: u32
  source_reference_tag_seed :: u32
  source_application_tag_seed :: u16
  source_application_tag_mask :: u16
  destination_reference_tag_seed :: u32
  destination_application_tag_seed :: u16
  destination_application_tag_mask :: u16
  dif_block_size :: u32

text \<open>\<open>dml_job_t\<close>; pointers are addresses.\<close>
record dml_job =
  source_first_ptr :: addr
  source_second_ptr :: addr
  destination_first_ptr :: addr
  destination_second_ptr :: addr
  crc_checksum_ptr :: addr
  source_length :: u32
  destination_length :: u32
  job_offset :: u32
  job_pattern :: u64
  job_operation :: u32
  job_result :: u32
  job_expected_result :: u32
  job_flags :: u64
  dif_config :: dml_dif_config
  job_numa_id :: u32
  internal_data_ptr :: addr

text \<open>A job of zero bytes, as \<open>memset(&job, 0, sizeof(dml_job_t))\<close> leaves it.\<close>
definition zero_dif_config :: dml_dif_config where
  "zero_dif_config =
     \<lparr> dif_flags = 0, source_reference_tag_seed = 0, source_application_tag_seed = 0,
       source_application_tag_mask = 0, destination_reference_tag_seed = 0,
       destination_application_tag_seed = 0, destination_application_tag_mask = 0,
       dif_block_size = 0 \<rparr>"

definition zero_job :: dml_job where
  "zero_job =
     \<lparr> source_first_ptr = 0, source_second_ptr = 0, destination_first_ptr = 0,
       destination_second_ptr = 0, crc_checksum_ptr = 0, source_length = 0,
       destination_length = 0, job_offset = 0, job_pattern = 0, job_operation = 0,
       job_result = 0, job_expected_result = 0, job_flags = 0, dif_config = zero_dif_config,
       job_numa_id = 0, internal_data_ptr = 0 \<rparr>"

section \<open>The version of the library (\<open>dml_get_library_version.cpp\<close>)\<close>

record dml_library_version =
  lib_name :: "byte list"
  minimal_cpu_isa :: "byte list"
  build_date :: "byte list"
  lib_version :: "byte list"
  hw_minimal_version :: "byte list"
  lib_commit :: "byte list"
  lib_major :: u32
  lib_minor :: u32
  lib_patch :: u32

text \<open>An array of \<open>n\<close> bytes that is initialised with a string literal: the rest is zero.\<close>
definition c_array :: "nat \<Rightarrow> string \<Rightarrow> byte list" where
  "c_array n s = map of_char s @ replicate (n - length s) 0"

text \<open>The date, the version and the commit are those of the build.\<close>
definition dml_get_library_version :: "string \<Rightarrow> string \<Rightarrow> string \<Rightarrow> dml_library_version" where
  "dml_get_library_version date version revision = \<lparr>
     lib_name = c_array 30 ''Intel(R) DML Software Library'',
     minimal_cpu_isa = c_array 16 ''N/A'',
     build_date = c_array 15 date,
     lib_version = c_array 20 version,
     hw_minimal_version = c_array 30 ''DML 1.0'',
     lib_commit = c_array 12 revision,
     lib_major = 1, lib_minor = 1, lib_patch = 1 \<rparr>"

text \<open>Every text has the size of its array and ends with a zero byte; the name just fits.\<close>
lemma library_version_terminated:
  assumes "length date < 15" "length version < 20" "length revision < 12"
    and "v = dml_get_library_version date version revision"
  shows "map length [lib_name v, minimal_cpu_isa v, build_date v, lib_version v, hw_minimal_version v, lib_commit v]
      = [30, 16, 15, 20, 30, 12]
    \<and> (\<forall>field \<in> {lib_name v, minimal_cpu_isa v, build_date v, lib_version v, hw_minimal_version v, lib_commit v}.
        last field = 0)"
  using assms by (simp add: dml_get_library_version_def c_array_def)

end
