(* ===== verification/DML_Dif.thy ===== *)
theory DML_Dif
  imports DML_Defs DML_Ref_Kernels
begin

text \<open>
  Data integrity fields (\<open>core/src/dif_impl/dml_dif.c\<close>): every block of 512, 520, 4096 or 4104
  bytes is followed by an 8-byte field, a CRC16 of the block (guard tag), an application tag and
  a reference tag, each stored big-endian. The four operations check, insert, strip and update
  these fields. The loops are refined to a list of protected blocks: insertion writes exactly
  that list, checking accepts it, and stripping gives back the data.
\<close>

section \<open>The checksum and the byte order of tags\<close>

definition OWN_DIF_CRC_POLYNOMIAL :: u16 where
  "OWN_DIF_CRC_POLYNOMIAL = 0x8BB7"

definition own_dif_block_sizes :: "u32 list" where
  "own_dif_block_sizes = [512, 520, 4096, 4104]"

definition reverse_bytes_16u :: "u16 \<Rightarrow> u16" where
  "reverse_bytes_16u v = word_of [bytes_of v ! 1, bytes_of v ! 0]"

definition reverse_bytes_32u :: "u32 \<Rightarrow> u32" where
  "reverse_bytes_32u v = word_of [bytes_of v ! 3, bytes_of v ! 2, bytes_of v ! 1, bytes_of v ! 0]"

definition calculate_crc_16u :: "u16 \<Rightarrow> u8 \<Rightarrow> u16 \<Rightarrow> u16" where
  "calculate_crc_16u crc_value data polynomial =
     for_loop 8
       (\<lambda>_ crc. if crc AND push_bit 15 1 \<noteq> 0 then push_bit 1 crc XOR polynomial
                else push_bit 1 crc)
       (crc_value XOR push_bit 8 (ucast data))"

definition crc_16u :: "addr \<Rightarrow> u32 \<Rightarrow> u16 \<Rightarrow> u16 \<Rightarrow> mem \<Rightarrow> u16" where
  "crc_16u src transfer_size crc_value polynomial m =
     for_loop (unat transfer_size)
       (\<lambda>byte crc. calculate_crc_16u crc (m (src + word_of_nat byte)) polynomial) crc_value"

text \<open>The guard tag the three writers and the checker compute for the block at \<open>ptr\<close>.\<close>
definition dif_guard :: "u32 \<Rightarrow> addr \<Rightarrow> u32 \<Rightarrow> mem \<Rightarrow> u16" where
  "dif_guard flags ptr block_size m =
     (let crc_seed = (if flags AND DML_DIF_FLAG_INVERT_CRC_SEED \<noteq> 0 then 0xFFFF else 0);
          invert_crc_result = (flags AND DML_DIF_FLAG_INVERT_CRC_RESULT \<noteq> 0);
          crc = crc_16u ptr block_size crc_seed OWN_DIF_CRC_POLYNOMIAL m
      in reverse_bytes_16u (if invert_crc_result then NOT crc else crc))"

section \<open>Check\<close>

text \<open>The fields of \<open>own_dif_t\<close> at an address.\<close>
definition dif_guard_tag :: "mem \<Rightarrow> addr \<Rightarrow> u16" where
  "dif_guard_tag m dif_ptr = load m dif_ptr"

definition dif_application_tag :: "mem \<Rightarrow> addr \<Rightarrow> u16" where
  "dif_application_tag m dif_ptr = load m (dif_ptr + 2)"

definition dif_reference_tag :: "mem \<Rightarrow> addr \<Rightarrow> u32" where
  "dif_reference_tag m dif_ptr = load m (dif_ptr + 4)"

definition OWN_F_TAGS_DETECTED :: "mem \<Rightarrow> addr \<Rightarrow> u32 \<Rightarrow> bool" where
  "OWN_F_TAGS_DETECTED m dif_ptr flags \<longleftrightarrow>
     DML_DIF_FLAG_SRC_F_DETECT_TAGS AND flags \<noteq> 0 \<and> dif_application_tag m dif_ptr = 0xFFFF
     \<and> dif_reference_tag m dif_ptr = 0xFFFFFFFF"

definition OWN_F_APPLICATION_TAG_DETECTED :: "mem \<Rightarrow> addr \<Rightarrow> u32 \<Rightarrow> bool" where
  "OWN_F_APPLICATION_TAG_DETECTED m dif_ptr flags \<longleftrightarrow>
     DML_DIF_FLAG_SRC_F_DETECT_APP_TAG AND flags \<noteq> 0 \<and> dif_application_tag m dif_ptr = 0xFFFF"

text \<open>
  One iteration of the loop of \<open>dml_legacy_dif_check\<close>: the value stored in \<open>job->result\<close> when
  the block is rejected, 0 when it is accepted. \<open>application_tag_mask\<close> is the complemented mask.
\<close>
definition dif_check_block :: "u32 \<Rightarrow> u32 \<Rightarrow> u16 \<Rightarrow> addr \<Rightarrow> u16 \<Rightarrow> u32 \<Rightarrow> mem \<Rightarrow> u32" where
  "dif_check_block flags block_size application_tag_mask source_ptr application_tag reference_tag m =
     (let dif_ptr = source_ptr + ucast block_size;
          check_guard = (flags AND DML_DIF_FLAG_SRC_GUARD_CHECK_DISABLE = 0);
          check_reference_tag = (flags AND DML_DIF_FLAG_SRC_REF_TAG_CHECK_DISABLE = 0)
      in if DML_DIF_FLAG_SRC_F_DETECT_ALL AND flags \<noteq> 0
            \<and> DML_DIF_FLAG_SRC_F_ENABLE_ERROR AND flags \<noteq> 0
            \<and> (load m dif_ptr :: u64) = 0xFFFFFFFFFFFFFFFF
         then DML_DIF_CHECK_ALL_BITS_SET_DETECT_ERROR
         else if \<not> OWN_F_TAGS_DETECTED m dif_ptr flags
            \<and> \<not> OWN_F_APPLICATION_TAG_DETECTED m dif_ptr flags
         then
           (if check_guard \<and> dif_guard flags source_ptr block_size m \<noteq> dif_guard_tag m dif_ptr
            then DML_DIF_CHECK_GUARD_MISMATCH else 0)
           OR (if check_reference_tag
                  \<and> reverse_bytes_32u reference_tag \<noteq> dif_reference_tag m dif_ptr
               then DML_DIF_CHECK_REFERENCE_TAG_MISMATCH else 0)
           OR (if application_tag_mask \<noteq> 0xFFFF
                  \<and> reverse_bytes_16u (application_tag AND application_tag_mask)
                      \<noteq> dif_application_tag m dif_ptr
               then DML_DIF_CHECK_APPLICATION_TAG_MISMATCH else 0)
         else 0)"

text \<open>The loop from \<open>block\<close> on: the offset and the result of the block that fails, if any.\<close>
function dif_check_loop ::
  "dml_dif_config \<Rightarrow> u32 \<Rightarrow> nat \<Rightarrow> nat \<Rightarrow> addr \<Rightarrow> u16 \<Rightarrow> u32 \<Rightarrow> mem \<Rightarrow> (u32 \<times> u32) option" where
  "dif_check_loop cfg block_size block block_count source_ptr application_tag reference_tag m =
     (if block < block_count
      then
        let flags = dif_flags cfg;
            source_step = block_size + 8;
            ref_tag_update_value = (if flags AND DML_DIF_FLAG_SRC_FIX_REF_TAG \<noteq> 0 then 0 else 1);
            app_tag_update_value = (if flags AND DML_DIF_FLAG_SRC_INC_APP_TAG \<noteq> 0 then 1 else 0);
            application_tag_mask = NOT (source_application_tag_mask cfg);
            check_accumulator = dif_check_block flags block_size application_tag_mask source_ptr
              application_tag reference_tag m
        in if check_accumulator \<noteq> 0
           then Some (word_of_nat block * source_step, check_accumulator)
           else dif_check_loop cfg block_size (Suc block) block_count
                  (source_ptr + ucast source_step) (application_tag + app_tag_update_value)
                  (reference_tag + ref_tag_update_value) m
      else None)"
  by pat_completeness auto
termination
  by (relation "measure (\<lambda>(cfg, bs, block, n, p, a, r, m). n - block)") auto

declare dif_check_loop.simps [simp del]

definition dml_legacy_dif_check :: "dml_job \<Rightarrow> mem \<Rightarrow> dml_status \<times> dml_job" where
  "dml_legacy_dif_check job m =
     (let cfg = dif_config job;
          block_size = own_dif_block_sizes ! unat (dif_block_size cfg);
          source_step = block_size + 8;
          block_count = source_length job div source_step
      in case dif_check_loop cfg block_size 0 (unat block_count) (source_first_ptr job)
                (source_application_tag_seed cfg) (source_reference_tag_seed cfg) m of
           Some (off, res) \<Rightarrow>
             (DML_STATUS_DIF_CHECK_ERROR, job\<lparr>job_offset := off, job_result := res\<rparr>)
         | None \<Rightarrow> (DML_STATUS_OK, job\<lparr>job_result := 0\<rparr>))"

section \<open>Insert\<close>

text \<open>The variables of the writing loops: source, destination, tags and memory.\<close>
type_synonym dif_loop_state = "addr \<times> addr \<times> u16 \<times> u32 \<times> mem"

definition dif_insert_step :: "dml_dif_config \<Rightarrow> u32 \<Rightarrow> dif_loop_state \<Rightarrow> dif_loop_state" where
  "dif_insert_step cfg block_size st =
     (case st of (source_ptr, destination_ptr, application_tag, reference_tag, m) \<Rightarrow>
       let flags = dif_flags cfg;
           destination_step = block_size + 8;
           ref_tag_update_value = (if flags AND DML_DIF_FLAG_DST_FIX_REF_TAG \<noteq> 0 then 0 else 1);
           app_tag_update_value = (if flags AND DML_DIF_FLAG_DST_INC_APP_TAG \<noteq> 0 then 1 else 0);
           application_tag_mask = NOT (destination_application_tag_mask cfg);
           dif_ptr = destination_ptr + ucast block_size;
           m1 = dml_ref_mem_move source_ptr destination_ptr block_size m;
           guard = dif_guard flags destination_ptr block_size m1;
           m2 = store m1 (dif_ptr + 2)
                  (reverse_bytes_16u (application_tag AND application_tag_mask));
           m3 = store m2 (dif_ptr + 4) (reverse_bytes_32u reference_tag);
           m4 = store m3 dif_ptr guard
       in (source_ptr + ucast block_size, destination_ptr + ucast destination_step,
           application_tag + app_tag_update_value, reference_tag + ref_tag_update_value, m4))"

definition dml_legacy_dif_insert :: "dml_job \<Rightarrow> mem \<Rightarrow> dml_status \<times> mem" where
  "dml_legacy_dif_insert job m =
     (let cfg = dif_config job;
          block_size = own_dif_block_sizes ! unat (dif_block_size cfg);
          block_count = source_length job div block_size;
          (_, _, _, _, m') = for_loop (unat block_count) (\<lambda>_. dif_insert_step cfg block_size)
            (source_first_ptr job, destination_first_ptr job,
             destination_application_tag_seed cfg, destination_reference_tag_seed cfg, m)
      in (DML_STATUS_OK, m'))"

section \<open>Strip\<close>

definition dif_strip_step :: "u32 \<Rightarrow> addr \<times> addr \<times> mem \<Rightarrow> addr \<times> addr \<times> mem" where
  "dif_strip_step block_size st =
     (case st of (source_ptr, destination_ptr, m) \<Rightarrow>
       (source_ptr + ucast (block_size + 8), destination_ptr + ucast block_size,
        dml_ref_mem_move source_ptr destination_ptr block_size m))"

definition dml_legacy_dif_strip :: "dml_job \<Rightarrow> mem \<Rightarrow> dml_status \<times> dml_job \<times> mem" where
  "dml_legacy_dif_strip job m =
     (let cfg = dif_config job;
          block_size = own_dif_block_sizes ! unat (dif_block_size cfg);
          source_step = block_size + 8;
          block_count = source_length job div source_step;
          (status, job') = dml_legacy_dif_check job m
      in if status \<noteq> DML_STATUS_OK then (status, job', m)
         else
           let (_, _, m') = for_loop (unat block_count) (\<lambda>_. dif_strip_step block_size)
             (source_first_ptr job, destination_first_ptr job, m)
           in (DML_STATUS_OK, job', m'))"

section \<open>Update\<close>

definition dif_update_step :: "dml_dif_config \<Rightarrow> u32 \<Rightarrow> dif_loop_state \<Rightarrow> dif_loop_state" where
  "dif_update_step cfg block_size st =
     (case st of (source_ptr, destination_ptr, application_tag, reference_tag, m) \<Rightarrow>
       let flags = dif_flags cfg;
           step = block_size + 8;
           ref_tag_update_value = (if flags AND DML_DIF_FLAG_DST_FIX_REF_TAG \<noteq> 0 then 0 else 1);
           app_tag_update_value = (if flags AND DML_DIF_FLAG_DST_INC_APP_TAG \<noteq> 0 then 1 else 0);
           application_tag_mask = NOT (destination_application_tag_mask cfg);
           calculate_crc = (flags AND DML_DIF_FLAG_DST_PASS_GUARD = 0);
           calculate_application_tag = (flags AND DML_DIF_FLAG_DST_PASS_APP_TAG = 0);
           calculate_reference_tag = (flags AND DML_DIF_FLAG_DST_PASS_REF_TAG = 0);
           dif_ptr = destination_ptr + ucast block_size;
           m1 = dml_ref_mem_move source_ptr destination_ptr step m;
           m2 = (if calculate_crc then store m1 dif_ptr (dif_guard flags destination_ptr block_size m1)
                 else m1);
           m3 = (if calculate_application_tag
                 then store m2 (dif_ptr + 2)
                        (reverse_bytes_16u (application_tag AND application_tag_mask))
                 else m2);
           m4 = (if calculate_reference_tag
                 then store m3 (dif_ptr + 4) (reverse_bytes_32u reference_tag) else m3)
       in (source_ptr + ucast step, destination_ptr + ucast step,
           application_tag + app_tag_update_value, reference_tag + ref_tag_update_value, m4))"

definition dml_legacy_dif_update :: "dml_job \<Rightarrow> mem \<Rightarrow> dml_status \<times> dml_job \<times> mem" where
  "dml_legacy_dif_update job m =
     (let cfg = dif_config job;
          block_size = own_dif_block_sizes ! unat (dif_block_size cfg);
          step = block_size + 8;
          block_count = source_length job div step;
          (status, job') = dml_legacy_dif_check job m
      in if status \<noteq> DML_STATUS_OK then (status, job', m)
         else
           let (_, _, _, _, m') = for_loop (unat block_count) (\<lambda>_. dif_update_step cfg block_size)
             (source_first_ptr job, destination_first_ptr job,
              destination_application_tag_seed cfg, destination_reference_tag_seed cfg, m)
           in (DML_STATUS_OK, job', m'))"

section \<open>Protected blocks\<close>

text \<open>The guard tag of a block, as a function of its bytes.\<close>
definition guard_of :: "u32 \<Rightarrow> byte list \<Rightarrow> u16" where
  "guard_of flags data =
     (let crc_seed = (if flags AND DML_DIF_FLAG_INVERT_CRC_SEED \<noteq> 0 then 0xFFFF else 0);
          crc = fold (\<lambda>b c. calculate_crc_16u c b OWN_DIF_CRC_POLYNOMIAL) data crc_seed
      in reverse_bytes_16u (if flags AND DML_DIF_FLAG_INVERT_CRC_RESULT \<noteq> 0 then NOT crc else crc))"

lemma dif_guard_eq: "dif_guard flags ptr bs m = guard_of flags (load_bytes m ptr (unat bs))"
  by (simp add: dif_guard_def guard_of_def crc_16u_def for_loop_def load_bytes_def fold_map o_def Let_def)

text \<open>The tags of block \<open>j\<close> of the source and of the destination.\<close>
definition src_application_tag :: "dml_dif_config \<Rightarrow> nat \<Rightarrow> u16" where
  "src_application_tag cfg j = source_application_tag_seed cfg
     + word_of_nat j * (if dif_flags cfg AND DML_DIF_FLAG_SRC_INC_APP_TAG \<noteq> 0 then 1 else 0)"

definition src_reference_tag :: "dml_dif_config \<Rightarrow> nat \<Rightarrow> u32" where
  "src_reference_tag cfg j = source_reference_tag_seed cfg
     + word_of_nat j * (if dif_flags cfg AND DML_DIF_FLAG_SRC_FIX_REF_TAG \<noteq> 0 then 0 else 1)"

definition dst_application_tag :: "dml_dif_config \<Rightarrow> nat \<Rightarrow> u16" where
  "dst_application_tag cfg j = destination_application_tag_seed cfg
     + word_of_nat j * (if dif_flags cfg AND DML_DIF_FLAG_DST_INC_APP_TAG \<noteq> 0 then 1 else 0)"

definition dst_reference_tag :: "dml_dif_config \<Rightarrow> nat \<Rightarrow> u32" where
  "dst_reference_tag cfg j = destination_reference_tag_seed cfg
     + word_of_nat j * (if dif_flags cfg AND DML_DIF_FLAG_DST_FIX_REF_TAG \<noteq> 0 then 0 else 1)"

text \<open>The integrity field of block \<open>j\<close> with the given data, and the block followed by it.\<close>
definition dif_field :: "dml_dif_config \<Rightarrow> nat \<Rightarrow> byte list \<Rightarrow> byte list" where
  "dif_field cfg j data = bytes_of (guard_of (dif_flags cfg) data)
     @ bytes_of (reverse_bytes_16u (dst_application_tag cfg j AND NOT (destination_application_tag_mask cfg)))
     @ bytes_of (reverse_bytes_32u (dst_reference_tag cfg j))"

definition protected_blocks :: "dml_dif_config \<Rightarrow> (nat \<Rightarrow> byte list) \<Rightarrow> nat \<Rightarrow> byte list" where
  "protected_blocks cfg data n = concat (map (\<lambda>j. data j @ dif_field cfg j (data j)) [0 ..< n])"

lemma length_dif_field [simp]: "length (dif_field cfg j data) = 8"
  by (simp add: dif_field_def)

lemma length_concat_blocks:
  "(\<And>j. length (f j) = k) \<Longrightarrow> length (concat (map f [0 ..< n])) = n * k"
  by (induction n) simp_all

lemma nth_concat_block:
  assumes "\<And>j. length (f j) = k" "j < n"
  shows "take k (drop (j * k) (concat (map f [0 ..< n]))) = f j"
  using assms(2)
proof (induction n)
  case (Suc n)
  have len: "length (concat (map f [0 ..< n])) = n * k" using assms(1) by (rule length_concat_blocks)
  show ?case
  proof (cases "j = n")
    case True
    with len assms(1) show ?thesis by simp
  next
    case False
    with Suc.prems have j: "j < n" by simp
    then have "j * k + k \<le> n * k" by (metis Suc_leI add.commute mult_Suc mult_le_mono1)
    with len Suc.IH j show ?thesis by simp
  qed
qed simp

lemma length_protected_blocks:
  "(\<And>j. length (data j) = k) \<Longrightarrow> length (protected_blocks cfg data n) = n * (k + 8)"
  unfolding protected_blocks_def by (rule length_concat_blocks) simp

lemma protected_blocks_Suc:
  "protected_blocks cfg data (Suc n) = protected_blocks cfg data n @ data n @ dif_field cfg n (data n)"
  by (simp add: protected_blocks_def)

text \<open>The four sizes a block can have.\<close>
definition dif_sizes :: "u32 set" where
  "dif_sizes = {512, 520, 4096, 4104}"

lemma dif_sizes_bounds:
  "bs \<in> dif_sizes \<Longrightarrow> 0 < unat bs \<and> unat bs \<le> 4104 \<and> unat (bs + 8) = unat bs + 8"
  by (auto simp: dif_sizes_def)

lemma own_dif_block_sizes_nth: "unat b < 4 \<Longrightarrow> own_dif_block_sizes ! unat b \<in> dif_sizes"
proof -
  assume "unat b < 4"
  then have "unat b = 0 \<or> unat b = 1 \<or> unat b = 2 \<or> unat b = 3" by linarith
  then show ?thesis by (elim disjE) (simp_all add: own_dif_block_sizes_def dif_sizes_def)
qed

lemma addr_step: "a + word_of_nat (k * unat s) + ucast (s :: u32) = (a + word_of_nat (Suc k * unat s) :: addr)"
proof -
  have "ucast s = (word_of_nat (unat s) :: addr)" by simp
  then show ?thesis by (simp add: algebra_simps)
qed

section \<open>The check loop searches for the first bad block\<close>

text \<open>The verdict on block \<open>j\<close>.\<close>
definition dif_verdict :: "dml_dif_config \<Rightarrow> u32 \<Rightarrow> addr \<Rightarrow> mem \<Rightarrow> nat \<Rightarrow> u32" where
  "dif_verdict cfg bs src m j =
     dif_check_block (dif_flags cfg) bs (NOT (source_application_tag_mask cfg))
       (src + word_of_nat (j * unat (bs + 8))) (src_application_tag cfg j) (src_reference_tag cfg j) m"

lemma dif_check_loop_eq:
  "dif_check_loop cfg bs k n (src + word_of_nat (k * unat (bs + 8)))
      (src_application_tag cfg k) (src_reference_tag cfg k) m
    = map_option (\<lambda>j. (word_of_nat j * (bs + 8), dif_verdict cfg bs src m j))
        (find (\<lambda>j. dif_verdict cfg bs src m j \<noteq> 0) [k ..< n])"
proof (induction "n - k" arbitrary: k)
  case 0
  then show ?case by (simp add: dif_check_loop.simps)
next
  case (Suc d)
  then have k: "k < n" "d = n - Suc k" by auto
  have tags: "src_application_tag cfg k
        + (if dif_flags cfg AND DML_DIF_FLAG_SRC_INC_APP_TAG \<noteq> 0 then 1 else 0) = src_application_tag cfg (Suc k)"
    "src_reference_tag cfg k
        + (if dif_flags cfg AND DML_DIF_FLAG_SRC_FIX_REF_TAG \<noteq> 0 then 0 else 1) = src_reference_tag cfg (Suc k)"
    by (simp_all add: src_application_tag_def src_reference_tag_def)
  have "dif_check_loop cfg bs k n (src + word_of_nat (k * unat (bs + 8)))
      (src_application_tag cfg k) (src_reference_tag cfg k) m
    = (if dif_verdict cfg bs src m k \<noteq> 0
       then Some (word_of_nat k * (bs + 8), dif_verdict cfg bs src m k)
       else dif_check_loop cfg bs (Suc k) n (src + word_of_nat (Suc k * unat (bs + 8)))
              (src_application_tag cfg (Suc k)) (src_reference_tag cfg (Suc k)) m)"
    using k(1)
    by (simp only: dif_check_loop.simps [of cfg bs k] Let_def if_True dif_verdict_def tags addr_step)
  then show ?case using Suc.hyps(1) [OF k(2)] k(1) by (simp add: upt_conv_Cons)
qed

lemma dml_legacy_dif_check_eq:
  assumes "bs = own_dif_block_sizes ! unat (dif_block_size (dif_config job))"
    and "n = unat (source_length job) div unat (bs + 8)"
  shows "dml_legacy_dif_check job m =
    (case find (\<lambda>j. dif_verdict (dif_config job) bs (source_first_ptr job) m j \<noteq> 0) [0 ..< n] of
       Some j \<Rightarrow> (DML_STATUS_DIF_CHECK_ERROR,
          job\<lparr>job_offset := word_of_nat j * (bs + 8),
              job_result := dif_verdict (dif_config job) bs (source_first_ptr job) m j\<rparr>)
     | None \<Rightarrow> (DML_STATUS_OK, job\<lparr>job_result := 0\<rparr>))"
  using dif_check_loop_eq [of "dif_config job" bs 0 n "source_first_ptr job" m]
  by (simp add: dml_legacy_dif_check_def assms unat_div src_application_tag_def src_reference_tag_def
      Let_def split: option.split)

text \<open>A block followed by the field computed for it, with the tags the checker expects.\<close>
lemma dif_check_block_accepts:
  assumes mem: "load_bytes m ptr (unat bs + 8) = data @ bytes_of (guard_of flags data)
      @ bytes_of (reverse_bytes_16u (app AND msk)) @ bytes_of (reverse_bytes_32u ref)"
    and len: "length data = unat bs"
    and no_f: "DML_DIF_FLAG_SRC_F_DETECT_ALL AND flags = 0 \<or> DML_DIF_FLAG_SRC_F_ENABLE_ERROR AND flags = 0"
  shows "dif_check_block flags bs msk ptr app ref m = 0"
proof -
  let ?f = "ptr + ucast bs"
  let ?field = "bytes_of (guard_of flags data)
      @ bytes_of (reverse_bytes_16u (app AND msk)) @ bytes_of (reverse_bytes_32u ref)"
  have field: "load_bytes m ?f 8 = ?field"
    using load_bytes_part [of "unat bs" 8 "unat bs + 8" m ptr] mem len by simp
  have data: "load_bytes m ptr (unat bs) = data"
    using load_bytes_part [of 0 "unat bs" "unat bs + 8" m ptr] mem len by simp
  have "dif_guard_tag m ?f = guard_of flags data"
    using load_bytes_part [of 0 2 8 m ?f] field by (simp add: dif_guard_tag_def load_def)
  moreover have "dif_application_tag m ?f = reverse_bytes_16u (app AND msk)"
    using load_bytes_part [of 2 2 8 m ?f] field by (simp add: dif_application_tag_def load_def)
  moreover have "dif_reference_tag m ?f = reverse_bytes_32u ref"
    using load_bytes_part [of 4 4 8 m ?f] field by (simp add: dif_reference_tag_def load_def)
  moreover have "dif_guard flags ptr bs m = guard_of flags data" using data by (simp add: dif_guard_eq)
  moreover have "\<not> (DML_DIF_FLAG_SRC_F_DETECT_ALL AND flags \<noteq> 0
      \<and> DML_DIF_FLAG_SRC_F_ENABLE_ERROR AND flags \<noteq> 0 \<and> (load m ?f :: u64) = 0xFFFFFFFFFFFFFFFF)"
    using no_f by blast
  ultimately show ?thesis by (simp only: dif_check_block_def Let_def) simp
qed

section \<open>The writing loops\<close>

text \<open>Three stores write the integrity field.\<close>
lemma store_dif_field:
  "store (store (store m (p + 2) (a :: u16)) (p + 4) (r :: u32)) p (g :: u16)
    = store_bytes m p (bytes_of g @ bytes_of a @ bytes_of r)"
proof -
  have "store (store (store m (p + 2) a) (p + 4) r) p g = store (store (store m p g) (p + 2) a) (p + 4) r"
    using disjoint_parts [of 2 2 0 2 p] disjoint_parts [of 4 4 0 2 p]
    by (simp add: store_def store_bytes_commute)
  also have "\<dots> = store_bytes (store_bytes m p (bytes_of g @ bytes_of a)) (p + 4) (bytes_of r)"
    using store_bytes_append [of "bytes_of g" "bytes_of a" m p] by (simp add: store_def)
  also have "\<dots> = store_bytes m p ((bytes_of g @ bytes_of a) @ bytes_of r)"
    using store_bytes_append [of "bytes_of g @ bytes_of a" "bytes_of r" m p] by simp
  finally show ?thesis by simp
qed

text \<open>Data of block \<open>j\<close> in a stream of blocks of \<open>s\<close> bytes.\<close>
definition block_data :: "mem \<Rightarrow> addr \<Rightarrow> nat \<Rightarrow> nat \<Rightarrow> nat \<Rightarrow> byte list" where
  "block_data m src s k j = load_bytes m (src + word_of_nat (j * s)) k"

lemma length_block_data [simp]: "length (block_data m src s k j) = k"
  by (simp add: block_data_def)

text \<open>Source and destination of a stream operation: inside the address space and disjoint.\<close>
definition dif_buffers :: "addr \<Rightarrow> nat \<Rightarrow> addr \<Rightarrow> nat \<Rightarrow> bool" where
  "dif_buffers src n dst k \<longleftrightarrow>
     unat src + n < 2 ^ 64 \<and> unat dst + k < 2 ^ 64 \<and> disjoint_regions src n dst k"

text \<open>Moving block \<open>j\<close> while the first \<open>j\<close> destination blocks are written.\<close>
lemma move_block:
  assumes buf: "dif_buffers src (n * s) dst (n * t)" and j: "j < n"
    and sz: "unat sz \<le> s" "unat sz \<le> t" and pre: "length pre = j * t"
  shows "dml_ref_mem_move (src + word_of_nat (j * s)) (dst + word_of_nat (j * t)) sz (store_bytes m dst pre)
    = store_bytes m dst (pre @ block_data m src s (unat sz) j)"
proof -
  have js: "j * s + s \<le> n * s" "j * t + t \<le> n * t"
    using j by (metis Suc_leI add.commute mult_Suc mult_le_mono1)+
  then have lim: "unat src + (j * s + unat sz) < 2 ^ 64" "unat dst + (j * t + unat sz) < 2 ^ 64"
    using buf sz by (auto simp: dif_buffers_def)
  then have ends: "unat (src + word_of_nat (j * s)) = unat src + j * s"
    "unat (dst + word_of_nat (j * t)) = unat dst + j * t"
    by (simp_all add: unat_add_offset del: of_nat_mult)
  have "disjoint_regions (src + word_of_nat (j * s)) (unat sz) dst (j * t)"
  proof (rule disjoint_regions_part [where n = "n * s"])
    show "disjoint_regions src (n * s) dst (j * t)"
      using buf js by (auto simp: dif_buffers_def intro: disjoint_regions_mono)
  qed (use js sz buf in \<open>auto simp: dif_buffers_def\<close>)
  then have "load_bytes (store_bytes m dst pre) (src + word_of_nat (j * s)) (unat sz)
      = block_data m src s (unat sz) j"
    using pre unat_u32_less_addr [of sz] by (simp add: block_data_def load_store_bytes_disjoint del: of_nat_mult)
  moreover have "length pre + unat sz \<le> 2 ^ 64" using lim pre by simp
  ultimately show ?thesis
    using dml_ref_mem_move_eq [of "src + word_of_nat (j * s)" sz "dst + word_of_nat (j * t)"
        "store_bytes m dst pre"] lim ends pre
      store_bytes_append [of pre "block_data m src s (unat sz) j" m dst]
    by (simp add: add.assoc del: of_nat_mult)
qed

lemma dif_insert_loop:
  assumes bs: "bs \<in> dif_sizes" and k: "k \<le> n"
    and buf: "dif_buffers src (n * unat bs) dst (n * unat (bs + 8))"
  shows "for_loop k (\<lambda>_. dif_insert_step cfg bs)
      (src, dst, destination_application_tag_seed cfg, destination_reference_tag_seed cfg, m)
    = (src + word_of_nat (k * unat bs), dst + word_of_nat (k * unat (bs + 8)),
       dst_application_tag cfg k, dst_reference_tag cfg k,
       store_bytes m dst (protected_blocks cfg (block_data m src (unat bs) (unat bs)) k))"
  using k
proof (induction k)
  case 0
  then show ?case by (simp add: protected_blocks_def dst_application_tag_def dst_reference_tag_def)
next
  case (Suc k)
  let ?B = "unat bs" and ?S = "unat (bs + 8)" and ?d = "block_data m src (unat bs) (unat bs)"
  let ?P = "protected_blocks cfg ?d k"
  have S: "?S = ?B + 8" using dif_sizes_bounds [OF bs] by simp
  have lenP: "length ?P = k * ?S" using S by (simp add: length_protected_blocks)
  have "Suc k * ?S \<le> n * ?S" using Suc.prems by (rule mult_le_mono1)
  then have lim: "k * ?S + (?B + 8) < 2 ^ 64" using buf S by (simp add: dif_buffers_def)
  have mv: "dml_ref_mem_move (src + word_of_nat (k * ?B)) (dst + word_of_nat (k * ?S)) bs (store_bytes m dst ?P)
      = store_bytes m dst (?P @ ?d k)"
    using S Suc.prems lenP by (intro move_block [OF buf]) simp_all
  have data: "load_bytes (store_bytes m dst (?P @ ?d k)) (dst + word_of_nat (k * ?S)) ?B = ?d k"
    using load_bytes_part [of "k * ?S" ?B "k * ?S + ?B" "store_bytes m dst (?P @ ?d k)" dst] lenP lim
    by (simp add: load_store_bytes_same del: of_nat_mult)
  have ptr: "dst + word_of_nat (k * ?S) + ucast bs = dst + word_of_nat (length (?P @ ?d k))"
  proof -
    have "ucast bs = (word_of_nat ?B :: addr)" by simp
    then show ?thesis using lenP by (simp add: add.assoc)
  qed
  have field: "store_bytes (store_bytes m dst (?P @ ?d k)) (dst + word_of_nat (length (?P @ ?d k)))
      (dif_field cfg k (?d k)) = store_bytes m dst (protected_blocks cfg ?d (Suc k))"
    using store_bytes_append [of "?P @ ?d k" "dif_field cfg k (?d k)" m dst] lenP lim
    by (simp add: protected_blocks_Suc del: of_nat_add of_nat_mult)
  have IH: "for_loop k (\<lambda>_. dif_insert_step cfg bs)
      (src, dst, destination_application_tag_seed cfg, destination_reference_tag_seed cfg, m)
    = (src + word_of_nat (k * ?B), dst + word_of_nat (k * ?S),
       dst_application_tag cfg k, dst_reference_tag cfg k, store_bytes m dst ?P)"
    using Suc by simp
  have tags: "dst_application_tag cfg k
        + (if dif_flags cfg AND DML_DIF_FLAG_DST_INC_APP_TAG \<noteq> 0 then 1 else 0) = dst_application_tag cfg (Suc k)"
    "dst_reference_tag cfg k
        + (if dif_flags cfg AND DML_DIF_FLAG_DST_FIX_REF_TAG \<noteq> 0 then 0 else 1) = dst_reference_tag cfg (Suc k)"
    by (simp_all add: dst_application_tag_def dst_reference_tag_def)
  have "dif_insert_step cfg bs (src + word_of_nat (k * ?B), dst + word_of_nat (k * ?S),
       dst_application_tag cfg k, dst_reference_tag cfg k, store_bytes m dst ?P)
    = (src + word_of_nat (Suc k * ?B), dst + word_of_nat (Suc k * ?S),
       dst_application_tag cfg (Suc k), dst_reference_tag cfg (Suc k),
       store_bytes m dst (protected_blocks cfg ?d (Suc k)))"
    unfolding field [symmetric]
    by (simp only: dif_insert_step_def prod.case Let_def mv dif_guard_eq data store_dif_field
        tags addr_step ptr dif_field_def)
  then show ?case by (simp only: for_loop_Suc IH)
qed

lemma dml_legacy_dif_insert_eq:
  assumes "unat (dif_block_size (dif_config job)) < 4"
    and "bs = own_dif_block_sizes ! unat (dif_block_size (dif_config job))"
    and "n = unat (source_length job) div unat bs"
    and "dif_buffers (source_first_ptr job) (n * unat bs) (destination_first_ptr job) (n * unat (bs + 8))"
  shows "dml_legacy_dif_insert job m = (DML_STATUS_OK,
    store_bytes m (destination_first_ptr job)
      (protected_blocks (dif_config job) (block_data m (source_first_ptr job) (unat bs) (unat bs)) n))"
proof -
  have "bs \<in> dif_sizes" unfolding assms(2) by (rule own_dif_block_sizes_nth [OF assms(1)])
  then show ?thesis
    using dif_insert_loop [OF _ order_refl assms(4), of "dif_config job" m]
    by (simp add: dml_legacy_dif_insert_def assms(3) unat_div Let_def flip: assms(2))
qed

lemma dif_strip_loop:
  assumes bs: "bs \<in> dif_sizes" and k: "k \<le> n"
    and buf: "dif_buffers src (n * unat (bs + 8)) dst (n * unat bs)"
  shows "for_loop k (\<lambda>_. dif_strip_step bs) (src, dst, m)
    = (src + word_of_nat (k * unat (bs + 8)), dst + word_of_nat (k * unat bs),
       store_bytes m dst (concat (map (block_data m src (unat (bs + 8)) (unat bs)) [0 ..< k])))"
  using k
proof (induction k)
  case 0
  then show ?case by simp
next
  case (Suc k)
  let ?B = "unat bs" and ?S = "unat (bs + 8)" and ?d = "block_data m src (unat (bs + 8)) (unat bs)"
  let ?P = "concat (map ?d [0 ..< k])"
  have mv: "dml_ref_mem_move (src + word_of_nat (k * ?S)) (dst + word_of_nat (k * ?B)) bs (store_bytes m dst ?P)
      = store_bytes m dst (?P @ ?d k)"
    using Suc.prems dif_sizes_bounds [OF bs]
    by (intro move_block [OF buf]) (simp_all add: length_concat_blocks)
  have IH: "for_loop k (\<lambda>_. dif_strip_step bs) (src, dst, m)
    = (src + word_of_nat (k * ?S), dst + word_of_nat (k * ?B), store_bytes m dst ?P)"
    using Suc by simp
  have "dif_strip_step bs (src + word_of_nat (k * ?S), dst + word_of_nat (k * ?B), store_bytes m dst ?P)
    = (src + word_of_nat (Suc k * ?S), dst + word_of_nat (Suc k * ?B), store_bytes m dst (?P @ ?d k))"
    by (simp only: dif_strip_step_def prod.case mv addr_step)
  then show ?case by (simp only: for_loop_Suc IH upt_Suc_append zero_le map_append concat_append) simp
qed

text \<open>The blocks of a region, put together again.\<close>
lemma concat_block_data:
  "concat (map (block_data m src k k) [0 ..< n]) = load_bytes m src (n * k)"
proof (induction n)
  case (Suc n)
  then show ?case
    using load_bytes_add [of m src "n * k" k] by (simp add: block_data_def add.commute)
qed simp

section \<open>Round trips\<close>

text \<open>The checker is configured for what the inserter writes.\<close>
definition dif_configs_match :: "dml_dif_config \<Rightarrow> dml_dif_config \<Rightarrow> bool" where
  "dif_configs_match ins chk \<longleftrightarrow>
     dif_block_size chk = dif_block_size ins
     \<and> source_reference_tag_seed chk = destination_reference_tag_seed ins
     \<and> source_application_tag_seed chk = destination_application_tag_seed ins
     \<and> source_application_tag_mask chk = destination_application_tag_mask ins
     \<and> (dif_flags chk AND DML_DIF_FLAG_SRC_INC_APP_TAG = 0
         \<longleftrightarrow> dif_flags ins AND DML_DIF_FLAG_DST_INC_APP_TAG = 0)
     \<and> (dif_flags chk AND DML_DIF_FLAG_SRC_FIX_REF_TAG = 0
         \<longleftrightarrow> dif_flags ins AND DML_DIF_FLAG_DST_FIX_REF_TAG = 0)
     \<and> dif_flags chk AND DML_DIF_FLAG_INVERT_CRC_SEED = dif_flags ins AND DML_DIF_FLAG_INVERT_CRC_SEED
     \<and> dif_flags chk AND DML_DIF_FLAG_INVERT_CRC_RESULT = dif_flags ins AND DML_DIF_FLAG_INVERT_CRC_RESULT
     \<and> (DML_DIF_FLAG_SRC_F_DETECT_ALL AND dif_flags chk = 0
         \<or> DML_DIF_FLAG_SRC_F_ENABLE_ERROR AND dif_flags chk = 0)"

text \<open>Every block of an inserted stream is accepted.\<close>
lemma protected_blocks_accepted:
  assumes match: "dif_configs_match ins chk" and bs: "bs \<in> dif_sizes" and j: "j < n"
    and mem: "load_bytes m p (n * unat (bs + 8)) = protected_blocks ins data n"
    and len: "\<And>j. length (data j) = unat bs"
  shows "dif_verdict chk bs p m j = 0"
proof -
  let ?S = "unat (bs + 8)"
  have S: "?S = unat bs + 8" using dif_sizes_bounds [OF bs] by simp
  have "Suc j * ?S \<le> n * ?S" using j by (intro mult_le_mono1) simp
  then have "load_bytes m (p + word_of_nat (j * ?S)) ?S = take ?S (drop (j * ?S) (protected_blocks ins data n))"
    using load_bytes_part [of "j * ?S" ?S "n * ?S" m p] mem by (simp add: add.commute del: of_nat_mult)
  also have "\<dots> = data j @ dif_field ins j (data j)"
    unfolding protected_blocks_def using len S j by (intro nth_concat_block) simp_all
  finally have blk: "load_bytes m (p + word_of_nat (j * ?S)) (unat bs + 8) = data j @ dif_field ins j (data j)"
    using S by simp
  have "guard_of (dif_flags ins) (data j) = guard_of (dif_flags chk) (data j)"
    "dst_application_tag ins j = src_application_tag chk j" "dst_reference_tag ins j = src_reference_tag chk j"
    using match by (simp_all add: dif_configs_match_def guard_of_def src_application_tag_def
        dst_application_tag_def src_reference_tag_def dst_reference_tag_def)
  with blk match show ?thesis
    unfolding dif_verdict_def using len [of j]
    by (intro dif_check_block_accepts) (simp_all add: dif_field_def dif_configs_match_def del: of_nat_mult)
qed


text \<open>What an insertion wrote is accepted by a matching check.\<close>
lemma insert_check_ok:
  assumes "unat (dif_block_size (dif_config job)) < 4"
    and "bs = own_dif_block_sizes ! unat (dif_block_size (dif_config job))"
    and "n = unat (source_length job) div unat bs"
    and "dif_buffers (source_first_ptr job) (n * unat bs) (destination_first_ptr job) (n * unat (bs + 8))"
    and "dif_configs_match (dif_config job) (dif_config chk)"
    and "source_first_ptr chk = destination_first_ptr job"
    and "unat (source_length chk) = n * unat (bs + 8)"
    and "dml_legacy_dif_insert job m = (status, m')"
  shows "dml_legacy_dif_check chk m' = (DML_STATUS_OK, chk\<lparr>job_result := 0\<rparr>)"
proof -
  have bs: "bs \<in> dif_sizes" using own_dif_block_sizes_nth assms(1,2) by simp
  let ?data = "block_data m (source_first_ptr job) (unat bs) (unat bs)"
  have m': "m' = store_bytes m (destination_first_ptr job) (protected_blocks (dif_config job) ?data n)"
    using assms(8) dml_legacy_dif_insert_eq [OF assms(1-4), of m] by simp
  have "length (protected_blocks (dif_config job) ?data n) = n * unat (bs + 8)"
    using dif_sizes_bounds [OF bs] by (simp add: length_protected_blocks)
  then have "load_bytes m' (source_first_ptr chk) (n * unat (bs + 8)) = protected_blocks (dif_config job) ?data n"
    using assms(4,6) by (simp add: m' load_store_bytes_same dif_buffers_def)
  then have "dif_verdict (dif_config chk) bs (source_first_ptr chk) m' j = 0" if "j < n" for j
    using protected_blocks_accepted [OF assms(5) bs that, of m' "source_first_ptr chk" ?data]
    by simp
  then have "find (\<lambda>j. dif_verdict (dif_config chk) bs (source_first_ptr chk) m' j \<noteq> 0) [0 ..< n] = None"
    by (simp add: find_upt_None)
  moreover have "bs = own_dif_block_sizes ! unat (dif_block_size (dif_config chk))"
    "n = unat (source_length chk) div unat (bs + 8)"
    using assms(2,5,7) dif_sizes_bounds [OF bs] by (simp_all add: dif_configs_match_def)
  ultimately show ?thesis using dml_legacy_dif_check_eq [of bs chk n m'] by simp
qed

text \<open>
  Claim C17: a stream produced by DIF insert passes a DIF check configured with the tags and
  options of the insertion.
\<close>
theorem dif_check_accepts_insert:
  assumes "unat (dif_block_size (dif_config job)) < 4"
    and "bs = own_dif_block_sizes ! unat (dif_block_size (dif_config job))"
    and "n = unat (source_length job) div unat bs"
    and "dif_buffers (source_first_ptr job) (n * unat bs) (destination_first_ptr job) (n * unat (bs + 8))"
    and "dif_configs_match (dif_config job) (dif_config chk)"
    and "source_first_ptr chk = destination_first_ptr job"
    and "unat (source_length chk) = n * unat (bs + 8)"
    and "dml_legacy_dif_insert job m = (status, m')"
  shows "dml_legacy_dif_check chk m' = (DML_STATUS_OK, chk\<lparr>job_result := 0\<rparr>)"
  using assms by (rule insert_check_ok)

text \<open>
  Claim C9: DIF strip undoes DIF insert: stripping a stream that insert produced gives back the
  data of the source.
\<close>
theorem dif_strip_inverts_insert:
  assumes "unat (dif_block_size (dif_config job)) < 4"
    and "bs = own_dif_block_sizes ! unat (dif_block_size (dif_config job))"
    and "n = unat (source_length job) div unat bs"
    and "dif_buffers (source_first_ptr job) (n * unat bs) (destination_first_ptr job) (n * unat (bs + 8))"
    and "dif_configs_match (dif_config job) (dif_config chk)"
    and "source_first_ptr chk = destination_first_ptr job"
    and "unat (source_length chk) = n * unat (bs + 8)"
    and "dif_buffers (source_first_ptr chk) (n * unat (bs + 8)) (destination_first_ptr chk) (n * unat bs)"
    and "dml_legacy_dif_insert job m = (status, m')"
    and "dml_legacy_dif_strip chk m' = (status', chk', m'')"
  shows "status' = DML_STATUS_OK
    \<and> load_bytes m'' (destination_first_ptr chk) (n * unat bs) = load_bytes m (source_first_ptr job) (n * unat bs)"
proof -
  have bs: "bs \<in> dif_sizes" using own_dif_block_sizes_nth assms(1,2) by simp
  let ?src = "source_first_ptr job" and ?mid = "source_first_ptr chk" and ?dst = "destination_first_ptr chk"
  let ?data = "block_data m ?src (unat bs) (unat bs)"
  let ?S = "unat (bs + 8)"
  have S: "?S = unat bs + 8" using dif_sizes_bounds [OF bs] by simp
  have m': "m' = store_bytes m ?mid (protected_blocks (dif_config job) ?data n)"
    using assms(6,9) dml_legacy_dif_insert_eq [OF assms(1-4), of m] by simp
  have len: "length (protected_blocks (dif_config job) ?data n) = n * ?S"
    using S by (simp add: length_protected_blocks)
  have cfg: "own_dif_block_sizes ! unat (dif_block_size (dif_config chk)) = bs"
    "unat (source_length chk div (bs + 8)) = n"
    using assms(2,5,7) S by (simp_all add: dif_configs_match_def unat_div)
  have data: "block_data m' ?mid ?S (unat bs) j = ?data j" if "j < n" for j
  proof -
    have "j * ?S + ?S \<le> n * ?S" using that by (metis Suc_leI add.commute mult_Suc mult_le_mono1)
    then have "block_data m' ?mid ?S (unat bs) j
        = take (unat bs) (drop (j * ?S) (load_bytes m' ?mid (n * ?S)))"
      unfolding block_data_def using S by (intro load_bytes_part) simp
    also have "load_bytes m' ?mid (n * ?S) = protected_blocks (dif_config job) ?data n"
      using assms(8) len by (simp add: m' load_store_bytes_same dif_buffers_def)
    also have "take (unat bs) (drop (j * ?S) (protected_blocks (dif_config job) ?data n))
        = take (unat bs) (take ?S (drop (j * ?S) (protected_blocks (dif_config job) ?data n)))"
      using S by simp
    also have "\<dots> = take (unat bs) (?data j @ dif_field (dif_config job) j (?data j))"
      unfolding protected_blocks_def using S that by (subst nth_concat_block) simp_all
    finally show ?thesis by simp
  qed
  have "concat (map (block_data m' ?mid ?S (unat bs)) [0 ..< n]) = load_bytes m ?src (n * unat bs)"
    unfolding concat_block_data [symmetric] using data by (intro arg_cong [where f = concat] map_cong) auto
  moreover have "dml_legacy_dif_check chk m' = (DML_STATUS_OK, chk\<lparr>job_result := 0\<rparr>)"
    using assms by (intro insert_check_ok [of job bs n chk m status m']) simp_all
  ultimately have "m'' = store_bytes m' ?dst (load_bytes m ?src (n * unat bs)) \<and> status' = DML_STATUS_OK"
    using assms(10) dif_strip_loop [OF bs order_refl assms(8), of m'] cfg
    by (simp add: dml_legacy_dif_strip_def Let_def)
  then show ?thesis using assms(8) by (simp add: load_store_bytes_same dif_buffers_def)
qed

section \<open>Update\<close>

text \<open>
  The field update leaves behind: each tag is recomputed, or kept from the source when the
  corresponding pass flag is set.
\<close>
definition updated_field :: "dml_dif_config \<Rightarrow> nat \<Rightarrow> byte list \<Rightarrow> byte list \<Rightarrow> byte list" where
  "updated_field cfg j data old =
     (if dif_flags cfg AND DML_DIF_FLAG_DST_PASS_GUARD = 0 then take 2 (dif_field cfg j data)
      else take 2 old)
     @ (if dif_flags cfg AND DML_DIF_FLAG_DST_PASS_APP_TAG = 0
        then take 2 (drop 2 (dif_field cfg j data)) else take 2 (drop 2 old))
     @ (if dif_flags cfg AND DML_DIF_FLAG_DST_PASS_REF_TAG = 0
        then drop 4 (dif_field cfg j data) else drop 4 old)"

lemma length_updated_field [simp]: "length old = 8 \<Longrightarrow> length (updated_field cfg j data old) = 8"
  by (simp add: updated_field_def)

lemma store_three_parts:
  assumes "length xs = 2" "length ys = 2" "length zs = 4"
  shows "store_bytes (store_bytes (store_bytes m p xs) (p + 2) ys) (p + 4) zs = store_bytes m p (xs @ ys @ zs)"
  using store_bytes_append [of xs ys m p] store_bytes_append [of "xs @ ys" zs m p] assms by simp

lemma store_updated_field:
  fixes g a :: u16 and r :: u32
  shows "(let m2 = (if c1 then store m p g else m);
              m3 = (if c2 then store m2 (p + 2) a else m2)
          in if c3 then store m3 (p + 4) r else m3)
    = store_bytes m p ((if c1 then bytes_of g else load_bytes m p 2)
        @ (if c2 then bytes_of a else load_bytes m (p + 2) 2)
        @ (if c3 then bytes_of r else load_bytes m (p + 4) 4))"
proof -
  let ?x = "if c1 then bytes_of g else load_bytes m p 2" and ?y = "if c2 then bytes_of a else load_bytes m (p + 2) 2"
  have "load_bytes (store_bytes m p ?x) (p + 2) 2 = load_bytes m (p + 2) 2"
    using disjoint_parts [of 2 2 0 2 p] by (simp add: load_store_bytes_disjoint)
  moreover have "load_bytes (store_bytes (store_bytes m p ?x) (p + 2) ?y) (p + 4) 4 = load_bytes m (p + 4) 4"
    using disjoint_parts [of 4 4 0 2 p] disjoint_parts [of 4 4 2 2 p]
    by (simp add: load_store_bytes_disjoint)
  moreover have "(if c1 then store m p g else m) = store_bytes m p ?x"
    "(if c2 then store M (p + 2) a else M)
       = store_bytes M (p + 2) (if c2 then bytes_of a else load_bytes M (p + 2) 2)"
    "(if c3 then store M (p + 4) r else M)
       = store_bytes M (p + 4) (if c3 then bytes_of r else load_bytes M (p + 4) 4)" for M
    by (simp_all add: store_def store_bytes_load)
  moreover have "length ?x = 2" "length ?y = 2"
    "length (if c3 then bytes_of r else load_bytes m (p + 4) 4) = 4" by simp_all
  ultimately show ?thesis by (simp only: Let_def store_three_parts)
qed

lemma store_over_tail:
  assumes "length xs + length ys \<le> 2 ^ 64" "length ys = length zs"
  shows "store_bytes (store_bytes m a (xs @ ys)) (a + word_of_nat (length xs)) zs = store_bytes m a (xs @ zs)"
  using assms store_bytes_append [of xs ys m a] store_bytes_append [of xs zs m a]
    store_bytes_twice [of ys zs "store_bytes m a xs" "a + word_of_nat (length xs)"]
  by simp

text \<open>The blocks update writes for a stream of source blocks (data followed by a field).\<close>
definition updated_blocks :: "dml_dif_config \<Rightarrow> nat \<Rightarrow> (nat \<Rightarrow> byte list) \<Rightarrow> nat \<Rightarrow> byte list" where
  "updated_blocks cfg k blk n =
     concat (map (\<lambda>j. take k (blk j) @ updated_field cfg j (take k (blk j)) (drop k (blk j))) [0 ..< n])"

lemma dif_update_step_eq:
  assumes S: "unat (bs + 8) = unat bs + 8" and lenP: "length P = k * unat (bs + 8)"
    and lim: "k * unat (bs + 8) + unat (bs + 8) < 2 ^ 64"
    and blk: "length blk = unat (bs + 8)"
    and mv: "dml_ref_mem_move sp (dst + word_of_nat (k * unat (bs + 8))) (bs + 8) M = store_bytes m dst (P @ blk)"
  shows "dif_update_step cfg bs
      (sp, dst + word_of_nat (k * unat (bs + 8)), dst_application_tag cfg k, dst_reference_tag cfg k, M)
    = (sp + ucast (bs + 8), dst + word_of_nat (Suc k * unat (bs + 8)),
       dst_application_tag cfg (Suc k), dst_reference_tag cfg (Suc k),
       store_bytes m dst (P @ take (unat bs) blk
         @ updated_field cfg k (take (unat bs) blk) (drop (unat bs) blk)))"
proof -
  let ?S = "unat (bs + 8)" and ?B = "unat bs"
  let ?M1 = "store_bytes m dst (P @ blk)" and ?dp = "dst + word_of_nat (k * unat (bs + 8))"
  let ?p = "?dp + ucast bs" and ?data = "take (unat bs) blk" and ?old = "drop (unat bs) blk"
  have all: "load_bytes ?M1 dst (k * ?S + ?S) = P @ blk"
    using lenP blk lim by (intro load_store_bytes_same) simp_all
  have data: "load_bytes ?M1 ?dp ?B = ?data"
    using load_bytes_part [of "k * ?S" ?B "k * ?S + ?S" ?M1 dst] all lenP S by (simp del: of_nat_mult)
  have p: "?p = dst + word_of_nat (length (P @ ?data))"
  proof -
    have "ucast bs = (word_of_nat ?B :: addr)" by simp
    then show ?thesis using lenP blk S by (simp add: add.assoc)
  qed
  have old: "load_bytes ?M1 ?p 8 = ?old"
    using load_bytes_part [of "length (P @ ?data)" 8 "k * ?S + ?S" ?M1 dst] all lenP S blk
    unfolding p by (simp del: of_nat_mult of_nat_add)
  have parts: "load_bytes ?M1 ?p 2 = take 2 ?old" "load_bytes ?M1 (?p + 2) 2 = take 2 (drop 2 ?old)"
    "load_bytes ?M1 (?p + 4) 4 = drop 4 ?old"
    using load_bytes_part [of 0 2 8 ?M1 ?p] load_bytes_part [of 2 2 8 ?M1 ?p]
      load_bytes_part [of 4 4 8 ?M1 ?p] old blk S by simp_all
  have fields: "take 2 (dif_field cfg k ?data) = bytes_of (guard_of (dif_flags cfg) ?data)"
    "take 2 (drop 2 (dif_field cfg k ?data))
       = bytes_of (reverse_bytes_16u (dst_application_tag cfg k AND NOT (destination_application_tag_mask cfg)))"
    "drop 4 (dif_field cfg k ?data) = bytes_of (reverse_bytes_32u (dst_reference_tag cfg k))"
    by (simp_all add: dif_field_def)
  have tail: "store_bytes ?M1 ?p (updated_field cfg k ?data ?old)
      = store_bytes m dst (P @ ?data @ updated_field cfg k ?data ?old)"
    using store_over_tail [of "P @ ?data" ?old "updated_field cfg k ?data ?old" m dst] lenP blk S lim
    unfolding p by (simp del: of_nat_add)
  have tags: "dst_application_tag cfg k
        + (if dif_flags cfg AND DML_DIF_FLAG_DST_INC_APP_TAG \<noteq> 0 then 1 else 0) = dst_application_tag cfg (Suc k)"
    "dst_reference_tag cfg k
        + (if dif_flags cfg AND DML_DIF_FLAG_DST_FIX_REF_TAG \<noteq> 0 then 0 else 1) = dst_reference_tag cfg (Suc k)"
    by (simp_all add: dst_application_tag_def dst_reference_tag_def)
  show ?thesis
    unfolding tail [symmetric]
    by (simp only: dif_update_step_def prod.case Let_def mv dif_guard_eq data tags addr_step
        store_updated_field [unfolded Let_def] parts updated_field_def fields)
qed

lemma length_updated_blocks:
  "(\<And>j. length (blk j) = k + 8) \<Longrightarrow> length (updated_blocks cfg k blk n) = n * (k + 8)"
  unfolding updated_blocks_def by (rule length_concat_blocks) simp

lemma updated_blocks_Suc:
  "updated_blocks cfg k blk (Suc n) = updated_blocks cfg k blk n @ take k (blk n)
     @ updated_field cfg n (take k (blk n)) (drop k (blk n))"
  by (simp add: updated_blocks_def)

lemma dif_update_loop:
  assumes bs: "bs \<in> dif_sizes" and k: "k \<le> n"
    and buf: "dif_buffers src (n * unat (bs + 8)) dst (n * unat (bs + 8))"
  shows "for_loop k (\<lambda>_. dif_update_step cfg bs)
      (src, dst, destination_application_tag_seed cfg, destination_reference_tag_seed cfg, m)
    = (src + word_of_nat (k * unat (bs + 8)), dst + word_of_nat (k * unat (bs + 8)),
       dst_application_tag cfg k, dst_reference_tag cfg k,
       store_bytes m dst (updated_blocks cfg (unat bs) (block_data m src (unat (bs + 8)) (unat (bs + 8))) k))"
  using k
proof (induction k)
  case 0
  then show ?case by (simp add: updated_blocks_def dst_application_tag_def dst_reference_tag_def)
next
  case (Suc k)
  let ?S = "unat (bs + 8)" and ?d = "block_data m src (unat (bs + 8)) (unat (bs + 8))"
  let ?P = "updated_blocks cfg (unat bs) ?d k"
  have S: "?S = unat bs + 8" using dif_sizes_bounds [OF bs] by simp
  have lenP: "length ?P = k * ?S" using S by (simp add: length_updated_blocks)
  have "Suc k * ?S \<le> n * ?S" using Suc.prems by (rule mult_le_mono1)
  then have lim: "k * ?S + ?S < 2 ^ 64" using buf by (simp add: dif_buffers_def)
  have mv: "dml_ref_mem_move (src + word_of_nat (k * ?S)) (dst + word_of_nat (k * ?S)) (bs + 8) (store_bytes m dst ?P)
      = store_bytes m dst (?P @ ?d k)"
    using Suc.prems lenP by (intro move_block [OF buf]) simp_all
  have IH: "for_loop k (\<lambda>_. dif_update_step cfg bs)
      (src, dst, destination_application_tag_seed cfg, destination_reference_tag_seed cfg, m)
    = (src + word_of_nat (k * ?S), dst + word_of_nat (k * ?S),
       dst_application_tag cfg k, dst_reference_tag cfg k, store_bytes m dst ?P)"
    using Suc by simp
  show ?case
    unfolding updated_blocks_Suc addr_step [symmetric]
    by (simp only: for_loop_Suc IH dif_update_step_eq [OF S lenP lim length_block_data mv] addr_step)
qed

text \<open>
  Claim C32: when the source passes the check, DIF update copies every block and recomputes the
  tags of its field with the destination seeds, except those the pass flags keep; a source that
  fails the check leaves the memory alone.
\<close>
theorem dif_update_result:
  assumes "unat (dif_block_size (dif_config job)) < 4"
    and "bs = own_dif_block_sizes ! unat (dif_block_size (dif_config job))"
    and "n = unat (source_length job) div unat (bs + 8)"
    and "dif_buffers (source_first_ptr job) (n * unat (bs + 8)) (destination_first_ptr job) (n * unat (bs + 8))"
  shows "dml_legacy_dif_update job m =
    (let (status, job') = dml_legacy_dif_check job m
     in (status, job',
         if status = DML_STATUS_OK
         then store_bytes m (destination_first_ptr job)
                (updated_blocks (dif_config job) (unat bs)
                   (block_data m (source_first_ptr job) (unat (bs + 8)) (unat (bs + 8))) n)
         else m))"
proof -
  have "bs \<in> dif_sizes" unfolding assms(2) by (rule own_dif_block_sizes_nth [OF assms(1)])
  then show ?thesis
    using dif_update_loop [OF _ order_refl assms(4), of "dif_config job" m]
    by (cases "dml_legacy_dif_check job m")
      (simp add: dml_legacy_dif_update_def assms(3) unat_div Let_def flip: assms(2))
qed

section \<open>Example runs\<close>

text \<open>Two blocks of 512 bytes at 0x10000, protected at 0x20000.\<close>
definition sample_insert_job :: dml_job where
  "sample_insert_job = zero_job\<lparr>source_first_ptr := 0x10000, destination_first_ptr := 0x20000,
     source_length := 1024,
     dif_config := zero_dif_config\<lparr>destination_reference_tag_seed := 5\<rparr>\<rparr>"

definition sample_strip_job :: dml_job where
  "sample_strip_job = zero_job\<lparr>source_first_ptr := 0x20000, destination_first_ptr := 0x30000,
     source_length := 1040, dif_config := zero_dif_config\<lparr>source_reference_tag_seed := 5\<rparr>\<rparr>"

text \<open>A check of one zero block, without the guard, that expects reference tag 1.\<close>
definition sample_check_job :: dml_job where
  "sample_check_job = zero_job\<lparr>source_first_ptr := 0x10000, source_length := 520,
     dif_config := zero_dif_config\<lparr>source_reference_tag_seed := 1,
       dif_flags := DML_DIF_FLAG_SRC_GUARD_CHECK_DISABLE\<rparr>\<rparr>"

lemmas sample_job_defs = sample_insert_job_def sample_strip_job_def sample_check_job_def
  zero_job_def zero_dif_config_def own_dif_block_sizes_def

lemma sample_buffers:
  "dif_buffers 0x10000 1024 0x20000 1040" "dif_buffers 0x20000 1040 0x30000 1024"
  "dif_buffers 0x20000 1040 0x30000 1040"
  by (simp_all add: dif_buffers_def disjoint_no_wrap)

lemma sample_match: "dif_configs_match (dif_config sample_insert_job) (dif_config sample_strip_job)"
  by (simp add: dif_configs_match_def sample_job_defs)


theorem dif_check_accepts_insert_witness:
  "fst (dml_legacy_dif_check sample_strip_job (snd (dml_legacy_dif_insert sample_insert_job (\<lambda>a. ucast a))))
     = DML_STATUS_OK"
  using dif_check_accepts_insert [of sample_insert_job 512 2 sample_strip_job "\<lambda>a. ucast a",
      OF _ _ _ _ sample_match _ _ surjective_pairing] sample_buffers
  by (simp add: sample_job_defs)

theorem dif_strip_inverts_insert_witness:
  "load_bytes (snd (snd (dml_legacy_dif_strip sample_strip_job
       (snd (dml_legacy_dif_insert sample_insert_job (\<lambda>a. ucast a)))))) 0x30000 1024
     = load_bytes (\<lambda>a. ucast a) 0x10000 1024"
proof -
  obtain s m1 where 1: "dml_legacy_dif_insert sample_insert_job (\<lambda>a. ucast a) = (s, m1)" by force
  obtain s' j m2 where 2: "dml_legacy_dif_strip sample_strip_job m1 = (s', j, m2)"
    using prod_cases3 by blast
  show ?thesis
    using dif_strip_inverts_insert [of sample_insert_job 512 2 sample_strip_job, OF _ _ _ _ sample_match _ _ _ 1 2]
      sample_buffers 1 2
    by (simp add: sample_job_defs)
qed

theorem dif_update_result_witness:
  "fst (dml_legacy_dif_update sample_strip_job (\<lambda>_. 0)) = fst (dml_legacy_dif_check sample_strip_job (\<lambda>_. 0))"
  using dif_update_result [of sample_strip_job 512 2 "\<lambda>_. 0"] sample_buffers
  by (simp add: sample_job_defs split: prod.splits)

end
