(* ===== verification/DML_Core_Kernels.thy ===== *)
theory DML_Core_Kernels
  imports DML_Delta DML_Dif DML_Validation
begin

text \<open>
  The software path of the core library: the run-time dispatch of optimised kernels
  (\<open>core/src/sw_dispatcher/optimization_dispatcher.cpp\<close>), the kernel of every operation
  (\<open>core/src/*.cpp\<close>), the batch loop (\<open>core/src/batch.cpp\<close>) and the software device
  (\<open>core/src/software_device.cpp\<close>). A kernel takes the bytes of its descriptor and the memory;
  it writes its results and, as the last write, the status byte of the completion record. The
  contract of the dispatched routines is the locale \<open>kernel_contract\<close>; the portable routines
  provide it.
\<close>

section \<open>Run-time dispatch\<close>

text \<open>The function pointers \<open>gs_*\<close> (the wait loops have no result and are modelled elsewhere).\<close>
record dispatch_table =
  gs_mem_move :: "addr \<Rightarrow> addr \<Rightarrow> u32 \<Rightarrow> mem \<Rightarrow> mem"
  gs_fill_u64 :: "u64 \<Rightarrow> addr \<Rightarrow> u32 \<Rightarrow> mem \<Rightarrow> mem"
  gs_compare :: "addr \<Rightarrow> addr \<Rightarrow> u32 \<Rightarrow> mem \<Rightarrow> u32 \<times> u8"
  gs_compare_pattern :: "u64 \<Rightarrow> addr \<Rightarrow> u32 \<Rightarrow> mem \<Rightarrow> u32 \<times> u8"
  gs_create_delta :: "addr \<Rightarrow> addr \<Rightarrow> u32 \<Rightarrow> addr \<Rightarrow> u32 \<Rightarrow> mem \<Rightarrow> u32 \<times> u8 \<times> mem"
  gs_apply_delta :: "addr \<Rightarrow> addr \<Rightarrow> u32 \<Rightarrow> mem \<Rightarrow> mem"
  gs_dualcast :: "addr \<Rightarrow> addr \<Rightarrow> addr \<Rightarrow> u32 \<Rightarrow> mem \<Rightarrow> mem"
  gs_crc_u32 :: "addr \<Rightarrow> u32 \<Rightarrow> u32 \<Rightarrow> u32 \<Rightarrow> mem \<Rightarrow> u32"
  gs_crc_reflected_u32 :: "addr \<Rightarrow> u32 \<Rightarrow> u32 \<Rightarrow> u32 \<Rightarrow> mem \<Rightarrow> u32"
  gs_cache_flush :: "addr \<Rightarrow> u32 \<Rightarrow> cache_event list"
  gs_cache_write_back :: "addr \<Rightarrow> u32 \<Rightarrow> cache_event list"

text \<open>The initial values of the pointers.\<close>
definition ref_table :: dispatch_table where
  "ref_table =
     \<lparr> gs_mem_move = dml_ref_mem_move, gs_fill_u64 = dml_ref_fill_u64,
       gs_compare = dml_ref_compare, gs_compare_pattern = dml_ref_compare_pattern,
       gs_create_delta = dml_ref_create_delta, gs_apply_delta = dml_ref_apply_delta,
       gs_dualcast = dml_ref_dualcast, gs_crc_u32 = dml_ref_crc_32u,
       gs_crc_reflected_u32 = dml_ref_crc_reflected_u32,
       gs_cache_flush = dml_clflush, gs_cache_write_back = dml_clwb_unsupported \<rparr>"

definition DML_AVX512_MASK :: u32 where
  "DML_AVX512_MASK = push_bit 16 1 OR push_bit 17 1 OR push_bit 28 1 OR push_bit 30 1 OR push_bit 31 1"

definition DML_CLFLUSHOPT :: u32 where
  "DML_CLFLUSHOPT = push_bit 23 1"

definition DML_CLWB :: u32 where
  "DML_CLWB = push_bit 24 1"

text \<open>
  The constructor of \<open>dispatcher\<close>, from the \<open>ebx\<close> register of the extension leaf of CPUID. The
  AVX-512 routines are an argument: the six fields of \<open>avx512\<close> that replace a portable one.
\<close>
definition dispatcher :: "dispatch_table \<Rightarrow> u32 \<Rightarrow> dispatch_table" where
  "dispatcher avx512 ebx =
     (let t1 = (if ebx AND DML_AVX512_MASK = DML_AVX512_MASK
                then ref_table\<lparr> gs_mem_move := gs_mem_move avx512,
                       gs_fill_u64 := gs_fill_u64 avx512, gs_compare := gs_compare avx512,
                       gs_compare_pattern := gs_compare_pattern avx512,
                       gs_crc_u32 := gs_crc_u32 avx512,
                       gs_crc_reflected_u32 := gs_crc_reflected_u32 avx512 \<rparr>
                else ref_table);
          t2 = (if ebx AND DML_CLFLUSHOPT = DML_CLFLUSHOPT
                then t1\<lparr> gs_cache_flush := dml_clflushopt \<rparr> else t1);
          t3 = (if ebx AND DML_CLWB = DML_CLWB
                then t2\<lparr> gs_cache_write_back := dml_clwb \<rparr> else t2)
      in t3)"

text \<open>The default polynomial of \<open>dispatch::crc\<close> and \<open>dispatch::crc_reflected\<close>.\<close>
definition crc_polynomial :: u32 where
  "crc_polynomial = 0x1EDC6F41"

section \<open>Kernels\<close>

text \<open>The last statement of every kernel.\<close>
definition write_status :: "descriptor \<Rightarrow> execution_status \<Rightarrow> mem \<Rightarrow> mem" where
  "write_status d s m = set_cr_status (record_address d) (execution_status_value s) m"

definition kernel_nop :: "descriptor \<Rightarrow> mem \<Rightarrow> mem" where
  "kernel_nop d m = write_status d success m"

definition kernel_drain :: "descriptor \<Rightarrow> mem \<Rightarrow> mem" where
  "kernel_drain d m = write_status d success m"

definition kernel_mem_move :: "dispatch_table \<Rightarrow> descriptor \<Rightarrow> mem \<Rightarrow> mem" where
  "kernel_mem_move T d m =
     write_status d success
       (gs_mem_move T (dsc_source_address d) (dsc_destination_address d) (dsc_transfer_size d) m)"

definition kernel_fill :: "dispatch_table \<Rightarrow> descriptor \<Rightarrow> mem \<Rightarrow> mem" where
  "kernel_fill T d m =
     write_status d success
       (gs_fill_u64 T (fill_dsc_pattern d) (dsc_destination_address d) (dsc_transfer_size d) m)"

text \<open>The status of the two comparisons; \<open>record.result()\<close> is read back from the record.\<close>
definition compare_status :: "bool \<Rightarrow> u8 \<Rightarrow> u8 \<Rightarrow> execution_status" where
  "compare_status check_result expected_result res =
     (if check_result
      then if expected_result = res then success else false_predicate_success
      else success)"

definition kernel_compare :: "dispatch_table \<Rightarrow> descriptor \<Rightarrow> mem \<Rightarrow> mem" where
  "kernel_compare T d m =
     (let rec = record_address d;
          check_result = intersects (dsc_flags d) (flag_value flag_check_result);
          (mismatch, res) = gs_compare T (compare_dsc_source_1_address d)
            (compare_dsc_source_2_address d) (dsc_transfer_size d) m;
          m1 = set_cr_bytes_completed rec mismatch m;
          m2 = set_cr_result rec res m1
      in write_status d
           (compare_status check_result (compare_dsc_expected_result d) (cr_result (record_at m2 rec))) m2)"

definition kernel_compare_pattern :: "dispatch_table \<Rightarrow> descriptor \<Rightarrow> mem \<Rightarrow> mem" where
  "kernel_compare_pattern T d m =
     (let rec = record_address d;
          check_result = intersects (dsc_flags d) (flag_value flag_check_result);
          (mismatch, res) = gs_compare_pattern T (compare_pattern_dsc_pattern d)
            (dsc_source_address d) (dsc_transfer_size d) m;
          m1 = set_cr_bytes_completed rec mismatch m;
          m2 = set_cr_result rec res m1
      in write_status d
           (compare_status check_result (compare_pattern_dsc_expected_result d)
              (cr_result (record_at m2 rec))) m2)"

definition create_delta_status :: "bool \<Rightarrow> u8 \<Rightarrow> u8 \<Rightarrow> execution_status" where
  "create_delta_status check_result expected_result res =
     (if check_result
      then if expected_result = 0b000 then false_predicate_success
           else if expected_result = 0b111 then success
           else if drop_bit 1 expected_result = res then success
           else false_predicate_success
      else success)"

definition kernel_create_delta :: "dispatch_table \<Rightarrow> descriptor \<Rightarrow> mem \<Rightarrow> mem" where
  "kernel_create_delta T d m =
     (let rec = record_address d;
          expected_result = create_delta_dsc_expected_result_mask d AND 0b111;
          check_result = intersects (dsc_flags d) (flag_value flag_check_result);
          (delta_size, res, m0) = gs_create_delta T (create_delta_dsc_source_1_address d)
            (create_delta_dsc_source_2_address d) (dsc_transfer_size d)
            (create_delta_dsc_delta_record_address d)
            (create_delta_dsc_maximum_delta_record_size d) m;
          m1 = set_create_delta_cr_delta_record_size rec delta_size m0;
          m2 = set_cr_result rec res m1
      in write_status d
           (create_delta_status check_result expected_result (cr_result (record_at m2 rec))) m2)"

definition kernel_apply_delta :: "dispatch_table \<Rightarrow> descriptor \<Rightarrow> mem \<Rightarrow> mem" where
  "kernel_apply_delta T d m =
     write_status d success
       (gs_apply_delta T (apply_delta_dsc_delta_record_address d) (dsc_destination_address d)
          (apply_delta_dsc_delta_record_size d) m)"

definition kernel_dualcast :: "dispatch_table \<Rightarrow> descriptor \<Rightarrow> mem \<Rightarrow> mem" where
  "kernel_dualcast T d m =
     write_status d success
       (gs_dualcast T (dsc_source_address d) (dualcast_dsc_destination_1_address d)
          (dualcast_dsc_destination_2_address d) (dsc_transfer_size d) m)"

text \<open>The lambda \<open>reverse\<close> of the CRC kernels.\<close>
definition reverse_u32 :: "u32 \<Rightarrow> u32" where
  "reverse_u32 value0 =
     (let value1 = push_bit 1 (value0 AND 0x55555555) OR drop_bit 1 (value0 AND 0xAAAAAAAA);
          value2 = push_bit 2 (value1 AND 0x33333333) OR drop_bit 2 (value1 AND 0xCCCCCCCC);
          value3 = push_bit 4 (value2 AND 0x0F0F0F0F) OR drop_bit 4 (value2 AND 0xF0F0F0F0);
          value4 = push_bit 8 (value3 AND 0x00FF00FF) OR drop_bit 8 (value3 AND 0xFF00FF00);
          value5 = push_bit 16 (value4 AND 0x0000FFFF) OR drop_bit 16 (value4 AND 0xFFFF0000)
      in value5)"

text \<open>The value both CRC kernels compute.\<close>
definition kernel_crc_value :: "dispatch_table \<Rightarrow> u8 \<Rightarrow> addr \<Rightarrow> u32 \<Rightarrow> u32 \<Rightarrow> mem \<Rightarrow> u32" where
  "kernel_crc_value T specific_flags src transfer_size crc_seed m =
     (let bypass_reflection =
            intersects specific_flags (crc_specific_flag_value bypass_crc_inversion_and_reflection);
          bypass_data = intersects specific_flags (crc_specific_flag_value bypass_data_reflection);
          v1 = (if \<not> bypass_reflection then reverse_u32 (NOT crc_seed) else crc_seed);
          v2 = (if \<not> bypass_data
                then gs_crc_reflected_u32 T src transfer_size v1 crc_polynomial m
                else gs_crc_u32 T src transfer_size v1 crc_polynomial m)
      in if \<not> bypass_reflection then NOT (reverse_u32 v2) else v2)"

definition kernel_crc :: "dispatch_table \<Rightarrow> descriptor \<Rightarrow> mem \<Rightarrow> mem" where
  "kernel_crc T d m =
     (let crc_value = kernel_crc_value T (dsc_operation_specific_flags d) (dsc_source_address d)
            (dsc_transfer_size d) (crc_dsc_crc_seed d) m
      in write_status d success (set_crc_cr_crc_value (record_address d) crc_value m))"

definition kernel_copy_crc :: "dispatch_table \<Rightarrow> descriptor \<Rightarrow> mem \<Rightarrow> mem" where
  "kernel_copy_crc T d m =
     (let m1 = gs_mem_move T (dsc_source_address d) (dsc_destination_address d)
            (dsc_transfer_size d) m;
          crc_value = kernel_crc_value T (dsc_operation_specific_flags d) (dsc_source_address d)
            (dsc_transfer_size d) (copy_crc_dsc_crc_seed d) m1
      in write_status d success (set_crc_cr_crc_value (record_address d) crc_value m1))"

definition kernel_cache_flush :: "dispatch_table \<Rightarrow> descriptor \<Rightarrow> mem \<Rightarrow> mem \<times> cache_event list" where
  "kernel_cache_flush T d m =
     (let invalidate_cache = intersects (dsc_flags d) (flag_value flag_cache_control);
          events = (if invalidate_cache
                    then gs_cache_flush T (dsc_destination_address d) (dsc_transfer_size d)
                    else gs_cache_write_back T (dsc_destination_address d) (dsc_transfer_size d))
      in (write_status d success m, events))"

subsection \<open>Data integrity kernels\<close>

definition dif_status :: "dml_status \<Rightarrow> execution_status" where
  "dif_status status = (if status = DML_STATUS_OK then success else dif_control_error)"

definition kernel_dif_check :: "descriptor \<Rightarrow> mem \<Rightarrow> mem" where
  "kernel_dif_check d m =
     (let rec = record_address d;
          job = zero_job\<lparr> source_first_ptr := dsc_source_address d,
            source_length := dsc_transfer_size d, job_operation := 0x12,
            dif_config := zero_dif_config\<lparr>
              source_reference_tag_seed := dif_check_dsc_source_ref_tag d,
              source_application_tag_seed := dif_check_dsc_source_app_tag d,
              source_application_tag_mask := dif_check_dsc_source_app_tag_mask d,
              dif_block_size := ucast (dif_check_dsc_dif_flags d AND 0b11),
              dif_flags := push_bit 16 (ucast (dif_check_dsc_dif_flags d))
                OR ucast (dif_check_dsc_source_dif_flags d) \<rparr>,
            job_flags := ucast (dsc_flags d) \<rparr>;
          (status, job') = dml_legacy_dif_check job m;
          m1 = set_dif_check_cr_dif_status rec (ucast (job_result job')) m;
          m2 = set_cr_bytes_completed rec (job_offset job') m1
      in write_status d (dif_status status) m2)"

definition kernel_dif_insert :: "descriptor \<Rightarrow> mem \<Rightarrow> mem" where
  "kernel_dif_insert d m =
     (let rec = record_address d;
          job = zero_job\<lparr> source_first_ptr := dsc_source_address d,
            destination_first_ptr := dsc_destination_address d,
            source_length := dsc_transfer_size d, job_operation := 0x13,
            dif_config := zero_dif_config\<lparr>
              destination_reference_tag_seed := dif_insert_dsc_destination_ref_tag d,
              destination_application_tag_seed := dif_insert_dsc_destination_app_tag d,
              destination_application_tag_mask := dif_insert_dsc_destination_app_tag_mask d,
              dif_block_size := ucast (dif_insert_dsc_dif_flags d AND 0b11),
              dif_flags := push_bit 16 (ucast (dif_insert_dsc_dif_flags d))
                OR push_bit 8 (ucast (dif_insert_dsc_destination_dif_flags d)) \<rparr>,
            job_flags := ucast (dsc_flags d) \<rparr>;
          (status, m0) = dml_legacy_dif_insert job m;
          m1 = set_cr_bytes_completed rec (job_offset job) m0
      in write_status d (dif_status status) m1)"

definition kernel_dif_strip :: "descriptor \<Rightarrow> mem \<Rightarrow> mem" where
  "kernel_dif_strip d m =
     (let rec = record_address d;
          job = zero_job\<lparr> source_first_ptr := dsc_source_address d,
            destination_first_ptr := dsc_destination_address d,
            source_length := dsc_transfer_size d, job_operation := 0x14,
            dif_config := zero_dif_config\<lparr>
              source_reference_tag_seed := dif_strip_dsc_source_ref_tag d,
              source_application_tag_seed := dif_strip_dsc_source_app_tag d,
              source_application_tag_mask := dif_strip_dsc_source_app_tag_mask d,
              dif_block_size := ucast (dif_strip_dsc_dif_flags d AND 0b11),
              dif_flags := push_bit 16 (ucast (dif_strip_dsc_dif_flags d))
                OR ucast (dif_strip_dsc_source_dif_flags d) \<rparr>,
            job_flags := ucast (dsc_flags d) \<rparr>;
          (status, job', m0) = dml_legacy_dif_strip job m;
          m1 = set_dif_strip_cr_dif_status rec (ucast (job_result job')) m0;
          m2 = set_cr_bytes_completed rec (job_offset job') m1
      in write_status d (dif_status status) m2)"

definition kernel_dif_update :: "descriptor \<Rightarrow> mem \<Rightarrow> mem" where
  "kernel_dif_update d m =
     (let rec = record_address d;
          job = zero_job\<lparr> source_first_ptr := dsc_source_address d,
            destination_first_ptr := dsc_destination_address d,
            source_length := dsc_transfer_size d, job_operation := 0x15,
            dif_config := zero_dif_config\<lparr>
              source_reference_tag_seed := dif_update_dsc_source_ref_tag d,
              source_application_tag_seed := dif_update_dsc_source_app_tag d,
              source_application_tag_mask := dif_update_dsc_source_app_tag_mask d,
              destination_reference_tag_seed := dif_update_dsc_destination_ref_tag d,
              destination_application_tag_seed := dif_update_dsc_destination_app_tag d,
              destination_application_tag_mask := dif_update_dsc_destination_app_tag_mask d,
              dif_block_size := ucast (dif_update_dsc_dif_flags d AND 0b11),
              dif_flags := push_bit 16 (ucast (dif_update_dsc_dif_flags d))
                OR push_bit 8 (ucast (dif_update_dsc_destination_dif_flags d))
                OR ucast (dif_update_dsc_source_dif_flags d) \<rparr>,
            job_flags := ucast (dsc_flags d) \<rparr>;
          (status, job', m0) = dml_legacy_dif_update job m;
          m1 = set_dif_update_cr_dif_status rec (ucast (job_result job')) m0;
          m2 = set_cr_bytes_completed rec (job_offset job') m1
      in write_status d (dif_status status) m2)"

section \<open>Batch and device\<close>

text \<open>The memory and the cache line instructions issued so far.\<close>
type_synonym machine = "mem \<times> cache_event list"

text \<open>
  The kernel calls the two \<open>switch\<close> statements share: the operations a batch may contain.
  \<open>None\<close> is their \<open>default\<close> branch.
\<close>
definition run_kernel :: "dispatch_table \<Rightarrow> descriptor \<Rightarrow> machine \<Rightarrow> machine option" where
  "run_kernel T d st =
     (case st of (m, ev) \<Rightarrow>
       (case operation_of (dsc_operation d) of
          Some op_nop \<Rightarrow> Some (kernel_nop d m, ev)
        | Some op_mem_move \<Rightarrow> Some (kernel_mem_move T d m, ev)
        | Some op_fill \<Rightarrow> Some (kernel_fill T d m, ev)
        | Some op_compare \<Rightarrow> Some (kernel_compare T d m, ev)
        | Some op_compare_pattern \<Rightarrow> Some (kernel_compare_pattern T d m, ev)
        | Some op_create_delta \<Rightarrow> Some (kernel_create_delta T d m, ev)
        | Some op_apply_delta \<Rightarrow> Some (kernel_apply_delta T d m, ev)
        | Some op_dualcast \<Rightarrow> Some (kernel_dualcast T d m, ev)
        | Some op_crc \<Rightarrow> Some (kernel_crc T d m, ev)
        | Some op_copy_crc \<Rightarrow> Some (kernel_copy_crc T d m, ev)
        | Some op_dif_check \<Rightarrow> Some (kernel_dif_check d m, ev)
        | Some op_dif_insert \<Rightarrow> Some (kernel_dif_insert d m, ev)
        | Some op_dif_strip \<Rightarrow> Some (kernel_dif_strip d m, ev)
        | Some op_dif_update \<Rightarrow> Some (kernel_dif_update d m, ev)
        | Some op_cache_flush \<Rightarrow>
            (case kernel_cache_flush T d m of (m', ev') \<Rightarrow> Some (m', ev @ ev'))
        | Some op_batch \<Rightarrow> None
        | Some op_drain \<Rightarrow> None
        | None \<Rightarrow> None))"

text \<open>
  The \<open>while\<close> loop of \<open>kernels::batch\<close> from \<open>index\<close> on: the status, the index and the machine it
  stops with. The descriptor is read from memory in each iteration.
\<close>
function batch_loop ::
  "dispatch_table \<Rightarrow> addr \<Rightarrow> nat \<Rightarrow> nat \<Rightarrow> machine \<Rightarrow> execution_status \<times> nat \<times> machine" where
  "batch_loop T operations descriptors_count index st =
     (if index < descriptors_count
      then
        let current_dsc = load_bytes (fst st) (operations + word_of_nat (64 * index)) 64;
            current_record = record_address current_dsc;
            (status, st') = (case run_kernel T current_dsc st of
                               Some st' \<Rightarrow> (processing, st') | None \<Rightarrow> (batch_error, st))
        in if cr_status (record_at (fst st') current_record) \<noteq> execution_status_value success
           then (batch_error, index, st')
           else if status = processing
           then batch_loop T operations descriptors_count (Suc index) st'
           else (status, Suc index, st')
      else (processing, index, st))"
  by pat_completeness auto
termination
  by (relation "measure (\<lambda>(T, ops, n, index, st). n - index)") auto

declare batch_loop.simps [simp del]

definition kernel_batch :: "dispatch_table \<Rightarrow> descriptor \<Rightarrow> machine \<Rightarrow> machine" where
  "kernel_batch T d st =
     (let rec = record_address d;
          descriptors_count = unat (batch_dsc_descriptors_count d);
          (status0, index, m, ev) =
            batch_loop T (batch_dsc_descriptor_list_address d) descriptors_count 0 st;
          status = (if index = descriptors_count then success else status0);
          m1 = set_batch_cr_descriptors_completed rec (word_of_nat index) m
      in (write_status d status m1, ev))"

definition software_submit :: "dispatch_table \<Rightarrow> descriptor \<Rightarrow> machine \<Rightarrow> submission_status \<times> machine" where
  "software_submit T d st =
     (case operation_of (dsc_operation d) of
        Some op_batch \<Rightarrow> (sub_success, kernel_batch T d st)
      | Some op_drain \<Rightarrow> (sub_success, (kernel_drain d (fst st), snd st))
      | _ \<Rightarrow> (case run_kernel T d st of
                Some st' \<Rightarrow> (sub_success, st') | None \<Rightarrow> (sub_failure, st)))"

section \<open>Writing the status\<close>

lemma write_status_apply:
  "write_status d s m = m(record_address d := execution_status_value s)"
  by (simp add: write_status_def set_cr_status_def put_record_field_def store_byte)

lemma status_after_write [simp]: "write_status d s m (record_address d) = execution_status_value s"
  by (simp add: write_status_apply)

text \<open>Statuses a kernel writes never read as \<open>processing\<close>.\<close>
lemma kernel_statuses_nonzero [simp]:
  "execution_status_value (compare_status c e r) \<noteq> 0"
  "execution_status_value (create_delta_status c e r) \<noteq> 0"
  "execution_status_value (dif_status t) \<noteq> 0"
  by (simp_all add: compare_status_def create_delta_status_def dif_status_def)

lemmas kernel_defs =
  kernel_nop_def kernel_drain_def kernel_mem_move_def kernel_fill_def kernel_compare_def
  kernel_compare_pattern_def kernel_create_delta_def kernel_apply_delta_def kernel_dualcast_def
  kernel_crc_def kernel_copy_crc_def kernel_cache_flush_def kernel_dif_check_def
  kernel_dif_insert_def kernel_dif_strip_def kernel_dif_update_def

lemma run_kernel_None:
  "run_kernel T d st = None \<longleftrightarrow>
     operation_of (dsc_operation d) = None \<or> operation_of (dsc_operation d) = Some op_batch
     \<or> operation_of (dsc_operation d) = Some op_drain"
  by (cases st) (auto simp: run_kernel_def split: option.splits operation.splits prod.splits)

lemma run_kernel_status:
  assumes "run_kernel T d st = Some st'"
  shows "fst st' (record_address d) \<noteq> 0"
proof -
  obtain m ev where st: "st = (m, ev)" by (cases st)
  obtain op where op: "operation_of (dsc_operation d) = Some op"
    using assms run_kernel_None [of T d st] by (cases "operation_of (dsc_operation d)") auto
  show ?thesis
    using assms op unfolding st run_kernel_def
    by (cases op) (auto simp: kernel_defs Let_def split: prod.splits)
qed

section \<open>The batch loop\<close>

text \<open>Descriptor \<open>i\<close> of the list, the machine after running it, and how that ended.\<close>
definition batch_item :: "addr \<Rightarrow> nat \<Rightarrow> machine \<Rightarrow> descriptor" where
  "batch_item ops i st = load_bytes (fst st) (ops + word_of_nat (64 * i)) 64"

definition run_item :: "dispatch_table \<Rightarrow> addr \<Rightarrow> nat \<Rightarrow> machine \<Rightarrow> machine" where
  "run_item T ops i st =
     (case run_kernel T (batch_item ops i st) st of Some st' \<Rightarrow> st' | None \<Rightarrow> st)"

definition item_supported :: "dispatch_table \<Rightarrow> addr \<Rightarrow> nat \<Rightarrow> machine \<Rightarrow> bool" where
  "item_supported T ops i st \<longleftrightarrow> run_kernel T (batch_item ops i st) st \<noteq> None"

definition item_ok :: "dispatch_table \<Rightarrow> addr \<Rightarrow> nat \<Rightarrow> machine \<Rightarrow> bool" where
  "item_ok T ops i st \<longleftrightarrow> fst (run_item T ops i st) (record_address (batch_item ops i st)) = 1"

text \<open>The machine after the descriptors \<open>i, \<dots>, k - 1\<close>.\<close>
definition batch_prefix :: "dispatch_table \<Rightarrow> addr \<Rightarrow> nat \<Rightarrow> nat \<Rightarrow> machine \<Rightarrow> machine" where
  "batch_prefix T ops i k st = fold (run_item T ops) [i ..< k] st"

lemma batch_prefix_simps [simp]:
  "k \<le> i \<Longrightarrow> batch_prefix T ops i k st = st"
  "i \<le> k \<Longrightarrow> batch_prefix T ops i (Suc k) st = run_item T ops k (batch_prefix T ops i k st)"
  by (simp_all add: batch_prefix_def)

lemma batch_prefix_Suc:
  "i < k \<Longrightarrow> batch_prefix T ops (Suc i) k (run_item T ops i st) = batch_prefix T ops i k st"
  by (simp add: batch_prefix_def upt_conv_Cons)

lemma batch_loop_step:
  "batch_loop T ops n i st =
     (if i < n
      then if \<not> item_ok T ops i st then (batch_error, i, run_item T ops i st)
           else if item_supported T ops i st then batch_loop T ops n (Suc i) (run_item T ops i st)
           else (batch_error, Suc i, run_item T ops i st)
      else (processing, i, st))"
  by (simp add: batch_loop.simps [of T ops n i] Let_def item_ok_def item_supported_def run_item_def
      batch_item_def record_status_byte split: option.split)

text \<open>
  How the loop ends: after all descriptors; at a descriptor whose record does not report
  success; or behind an unsupported one whose record already did.
\<close>
lemma batch_loop_end:
  assumes "batch_loop T ops n i st = (s, k, st')" "i \<le> n"
  shows "i \<le> k \<and> k \<le> n \<and> (\<forall>j. i \<le> j \<and> j < k \<longrightarrow> item_ok T ops j (batch_prefix T ops i j st))
    \<and> (s = processing \<and> k = n \<and> st' = batch_prefix T ops i k st
       \<or> s = batch_error \<and> k < n \<and> \<not> item_ok T ops k (batch_prefix T ops i k st)
           \<and> st' = batch_prefix T ops i (Suc k) st
       \<or> s = batch_error \<and> i < k \<and> \<not> item_supported T ops (k - 1) (batch_prefix T ops i (k - 1) st)
           \<and> st' = batch_prefix T ops i k st)"
  using assms
proof (induction "n - i" arbitrary: i st)
  case 0
  have "batch_loop T ops n i st = (processing, i, st)"
    using 0(1) by (subst batch_loop_step) simp
  with 0 show ?case by auto
next
  case (Suc r)
  then have i: "i < n" "r = n - Suc i" by auto
  let ?st = "run_item T ops i st"
  consider (bad) "\<not> item_ok T ops i st" | (unsup) "item_ok T ops i st" "\<not> item_supported T ops i st"
    | (go) "item_ok T ops i st" "item_supported T ops i st" by blast
  then show ?case
  proof cases
    case bad
    with Suc.prems i show ?thesis by (auto simp: batch_loop_step [of T ops n i])
  next
    case unsup
    with Suc.prems i show ?thesis
      by (auto simp: batch_loop_step [of T ops n i] less_Suc_eq_le dest: le_antisym)
  next
    case go
    then have "batch_loop T ops n (Suc i) ?st = (s, k, st')"
      using Suc.prems i by (simp add: batch_loop_step [of T ops n i])
    note IH = Suc.hyps(1) [OF i(2) this Suc_leI [OF i(1)]]
    have pre: "batch_prefix T ops (Suc i) j ?st = batch_prefix T ops i j st" if "i < j" for j
      using that by (rule batch_prefix_Suc)
    from IH have "i < k" "k \<le> n"
      and oks: "\<And>j. Suc i \<le> j \<Longrightarrow> j < k \<Longrightarrow> item_ok T ops j (batch_prefix T ops (Suc i) j ?st)"
      by auto
    moreover from this have "item_ok T ops j (batch_prefix T ops i j st)" if "i \<le> j" "j < k" for j
      using that oks [of j] go(1) pre [of j] by (cases "j = i") auto
    moreover have "i < k - 1 \<or> i = k - 1" using \<open>i < k\<close> by linarith
    ultimately show ?thesis using IH pre [of k] pre [of "Suc k"] pre [of "k - 1"] by auto
  qed
qed

lemma kernel_batch_status: "fst (kernel_batch T d st) (record_address d) \<noteq> 0"
proof -
  obtain s k m ev where loop: "batch_loop T (batch_dsc_descriptor_list_address d)
      (unat (batch_dsc_descriptors_count d)) 0 st = (s, k, m, ev)"
    using prod_cases4 by blast
  then show ?thesis
    using batch_loop_end [OF loop] by (auto simp: kernel_batch_def Let_def)
qed

lemma software_submit_accepts:
  "fst (software_submit T d st) = sub_success \<longleftrightarrow> operation_of (dsc_operation d) \<noteq> None"
  using run_kernel_None [of T d st]
  by (auto simp: software_submit_def split: option.splits operation.splits)

lemma software_submit_finishes:
  "software_submit T d st = (sub_success, st') \<Longrightarrow> fst st' (record_address d) \<noteq> 0"
  using run_kernel_status [of T d st st'] kernel_batch_status [of T d st]
  by (auto simp: software_submit_def kernel_drain_def split: option.splits operation.splits)

lemma software_submit_rejects:
  "fst (software_submit T d st) \<noteq> sub_success \<Longrightarrow> snd (software_submit T d st) = st"
  by (auto simp: software_submit_def split: option.splits operation.splits)

text \<open>
  Claim C1: the software device accepts a descriptor exactly when its operation code is one of
  the seventeen operations. Every accepted descriptor is finished when the call returns: the
  status byte of its completion record is not \<open>processing\<close>, whatever the descriptor says and
  whichever routines are dispatched. A rejected descriptor leaves the machine unchanged.
\<close>
theorem software_submit_completes:
  "(fst (software_submit T d st) = sub_success \<longleftrightarrow> operation_of (dsc_operation d) \<noteq> None)
   \<and> (if fst (software_submit T d st) = sub_success
      then fst (snd (software_submit T d st)) (record_address d) \<noteq> 0
      else snd (software_submit T d st) = st)"
  using software_submit_accepts [of T d st] software_submit_finishes [of T d st]
    software_submit_rejects [of T d st]
  by (auto simp: prod_eq_iff)


section \<open>Bit reversal\<close>

lemma bit_swap:
  "bit (push_bit s (v AND lo) OR drop_bit s (v AND hi) :: u32) i \<longleftrightarrow> i < 32 \<and>
     (s \<le> i \<and> bit lo (i - s) \<and> bit v (i - s) \<or> bit hi (s + i) \<and> bit v (s + i))"
  by (auto simp: bit_simps dest: bit_imp_le_length)

lemma bit_reverse_u32_all: "list_all (\<lambda>i. bit (reverse_u32 v) i = bit v (31 - i)) [0 ..< 32]"
  unfolding reverse_u32_def Let_def bit_swap by (simp add: upt_rec) (simp add: numeral_eq_Suc)

lemma bit_reverse_u32: "i < 32 \<Longrightarrow> bit (reverse_u32 v) i = bit v (31 - i)"
  using bit_reverse_u32_all [of v] by (simp add: list_all_iff)

lemma reverse_u32_involution [simp]: "reverse_u32 (reverse_u32 v) = v"
  by (rule bit_word_eqI) (simp add: bit_reverse_u32)

section \<open>The contract of the dispatched routines\<close>

text \<open>What the kernels rely on, whichever implementation the dispatcher selected.\<close>
locale kernel_contract =
  fixes T :: dispatch_table
  assumes move: "unat src + unat n < 2 ^ 64 \<Longrightarrow> unat dst + unat n < 2 ^ 64 \<Longrightarrow>
      gs_mem_move T src dst n m = store_bytes m dst (load_bytes m src (unat n))"
    and fill: "gs_fill_u64 T pat dst n m = store_bytes m dst (pattern_bytes pat (unat n))"
    and compare: "gs_compare T a b n m
      = compare_outcome (first_mismatch (load_bytes m a (unat n)) (load_bytes m b (unat n)))"
    and dualcast: "disjoint_regions src (unat n) dst1 (unat n) \<Longrightarrow>
      disjoint_regions src (unat n) dst2 (unat n) \<Longrightarrow> disjoint_regions dst1 (unat n) dst2 (unat n) \<Longrightarrow>
      gs_dualcast T src dst1 dst2 n m
      = store_bytes (store_bytes m dst1 (load_bytes m src (unat n))) dst2 (load_bytes m src (unat n))"
    and crc: "gs_crc_u32 T src n c p m = crc_bytes p (load_bytes m src (unat n)) c"
    and crc_reflected: "gs_crc_reflected_u32 T src n c p m
      = crc_bytes p (map reverse_u8 (load_bytes m src (unat n))) c"
begin

text \<open>A write to memory followed by the status keeps the written region.\<close>
lemma move_kernel:
  assumes "unat (dsc_source_address d) + unat (dsc_transfer_size d) < 2 ^ 64"
    and "unat (dsc_destination_address d) + unat (dsc_transfer_size d) < 2 ^ 64"
    and "\<not> in_region (record_address d) (dsc_destination_address d) (unat (dsc_transfer_size d))"
  shows "load_bytes (kernel_mem_move T d m) (dsc_destination_address d) (unat (dsc_transfer_size d))
      = load_bytes m (dsc_source_address d) (unat (dsc_transfer_size d))"
    and "x \<noteq> record_address d \<Longrightarrow>
      \<not> in_region x (dsc_destination_address d) (unat (dsc_transfer_size d)) \<Longrightarrow>
      kernel_mem_move T d m x = m x"
proof -
  let ?dst = "dsc_destination_address d" and ?n = "unat (dsc_transfer_size d)"
  let ?L = "load_bytes m (dsc_source_address d) ?n"
  have run: "kernel_mem_move T d m = (store_bytes m ?dst ?L)(record_address d := 1)"
    using assms(1,2) by (simp add: kernel_mem_move_def move write_status_apply)
  have "load_bytes (kernel_mem_move T d m) ?dst ?n = load_bytes (store_bytes m ?dst ?L) ?dst ?n"
  proof (rule load_bytes_cong)
    fix i assume "i < ?n"
    then have "in_region (?dst + word_of_nat i) ?dst ?n"
      using unat_u32_less_addr [of "dsc_transfer_size d"] by simp
    with assms(3) show "kernel_mem_move T d m (?dst + word_of_nat i)
        = store_bytes m ?dst ?L (?dst + word_of_nat i)" unfolding run by auto
  qed
  then show "load_bytes (kernel_mem_move T d m) ?dst ?n = ?L"
    using unat_u32_less_addr [of "dsc_transfer_size d"] by (simp add: load_store_bytes_same)
  show "x \<noteq> record_address d \<Longrightarrow> \<not> in_region x ?dst ?n \<Longrightarrow> kernel_mem_move T d m x = m x"
    by (simp add: run store_bytes_outside)
qed

text \<open>What a comparison leaves in the completion record.\<close>
lemma compare_kernel:
  fixes d m
  defines "r \<equiv> record_at (kernel_compare T d m) (record_address d)"
    and "mis \<equiv> first_mismatch
      (load_bytes m (compare_dsc_source_1_address d) (unat (dsc_transfer_size d)))
      (load_bytes m (compare_dsc_source_2_address d) (unat (dsc_transfer_size d)))"
  shows "(cr_bytes_completed r, cr_result r) = compare_outcome mis"
    and "cr_status r = execution_status_value
      (compare_status (intersects (dsc_flags d) (flag_value flag_check_result))
         (compare_dsc_expected_result d) (snd (compare_outcome mis)))"
    and "\<not> in_region x (record_address d) 32 \<Longrightarrow> kernel_compare T d m x = m x"
proof -
  obtain o1 o2 where mis: "compare_outcome mis = (o1, o2)" by force
  let ?rec = "record_address d"
  have run: "kernel_compare T d m = write_status d
      (compare_status (intersects (dsc_flags d) (flag_value flag_check_result))
         (compare_dsc_expected_result d) o2)
      (set_cr_result ?rec o2 (set_cr_bytes_completed ?rec o1 m))"
    using mis unfolding mis_def by (simp add: kernel_compare_def compare Let_def result_view.get_put)
  then show "\<not> in_region x ?rec 32 \<Longrightarrow> kernel_compare T d m x = m x"
    by (auto simp: write_status_def view_defs put_record_field_outside)
  from run show "(cr_bytes_completed r, cr_result r) = compare_outcome mis"
    and "cr_status r = execution_status_value
      (compare_status (intersects (dsc_flags d) (flag_value flag_check_result))
         (compare_dsc_expected_result d) (snd (compare_outcome mis)))"
    unfolding r_def mis by (simp_all add: write_status_def view_laws mem_simps)
qed

text \<open>The CRC of a region is that of its second part, seeded with that of the first.\<close>
lemma crc_value_split:
  assumes "unat n + unat k < 2 ^ 32"
  shows "kernel_crc_value T fl (src + ucast n) k (kernel_crc_value T fl src n seed m) m
    = kernel_crc_value T fl src (n + k) seed m"
proof -
  have "unat (n + k) = unat n + unat k" using assms by (subst unat_add_lem [THEN iffD1]) simp_all
  moreover have "load_bytes m src (unat n + unat k)
      = load_bytes m src (unat n) @ load_bytes m (src + ucast n) (unat k)"
    using load_bytes_add [of m src "unat n" "unat k"] by simp
  ultimately show ?thesis by (simp add: kernel_crc_value_def Let_def crc crc_reflected)
qed

end

interpretation ref: kernel_contract ref_table
  by unfold_locales
    (simp_all add: ref_table_def dml_ref_mem_move_eq dml_ref_fill_eq dml_ref_compare_eq
      dml_ref_dualcast_eq dml_ref_crc_eq dml_ref_crc_reflected_eq)

text \<open>What the offset and the result of a comparison say about the two byte lists.\<close>
lemma compare_outcome_meaning:
  assumes "(off, res) = compare_outcome (first_mismatch xs ys)"
    and len: "length xs = n" "length ys = n" "n < 2 ^ 32"
  shows "(res = 0 \<longleftrightarrow> xs = ys) \<and> res \<in> {0, 1}
    \<and> (xs \<noteq> ys \<longrightarrow> (\<exists>k<n. unat off = k \<and> xs ! k \<noteq> ys ! k \<and> take k xs = take k ys))"
proof (cases "first_mismatch xs ys")
  case None
  with len have "xs = ys" by (simp add: first_mismatch_None)
  with None assms(1) show ?thesis by simp
next
  case (Some k)
  then have k: "k < n" "xs ! k \<noteq> ys ! k" "take k xs = take k ys"
    using len first_mismatch_Some [of xs ys k] by auto
  moreover from k have "xs \<noteq> ys" by auto
  moreover have "unat (word_of_nat k :: u32) = k" using k(1) len(3) by (simp add: unat_of_nat)
  ultimately show ?thesis using Some assms(1) by auto
qed

section \<open>Properties of the software path\<close>

text \<open>
  Submitting a memory move to the software device copies the source to the destination,
  overlapping or not, reports success, and changes nothing but the destination and the status
  byte, when the buffers lie inside the address space and the record is not in the destination.
\<close>
lemma software_mem_move:
  assumes "operation_of (dsc_operation d) = Some op_mem_move"
    and "src = dsc_source_address d" "dst = dsc_destination_address d" "n = unat (dsc_transfer_size d)"
    and "unat src + n < 2 ^ 64" "unat dst + n < 2 ^ 64" "\<not> in_region (record_address d) dst n"
  shows "\<exists>m'. software_submit ref_table d (m, ev) = (sub_success, (m', ev))
    \<and> load_bytes m' dst n = load_bytes m src n
    \<and> execution_status_of (m' (record_address d)) = success
    \<and> (\<forall>x. x \<noteq> record_address d \<and> \<not> in_region x dst n \<longrightarrow> m' x = m x)"
proof (intro exI conjI)
  show "software_submit ref_table d (m, ev) = (sub_success, (kernel_mem_move ref_table d m, ev))"
    using assms(1) by (simp add: software_submit_def run_kernel_def)
  show "load_bytes (kernel_mem_move ref_table d m) dst n = load_bytes m src n"
    using assms ref.move_kernel(1) [of d m] by simp
  show "execution_status_of (kernel_mem_move ref_table d m (record_address d)) = success"
    by (simp add: kernel_mem_move_def)
  show "\<forall>x. x \<noteq> record_address d \<and> \<not> in_region x dst n \<longrightarrow> kernel_mem_move ref_table d m x = m x"
    using assms ref.move_kernel(2) [of d] by simp
qed

text \<open>
  A compare submitted to the software device reports result 0 exactly when the two
  buffers hold the same bytes, and otherwise result 1 with the offset of the first byte that
  differs; with the check-result flag the status is success exactly when the result is the
  expected one. Only the completion record is written.
\<close>
lemma software_compare:
  assumes "operation_of (dsc_operation d) = Some op_compare"
    and "n = unat (dsc_transfer_size d)"
    and "xs = load_bytes m (compare_dsc_source_1_address d) n"
    and "ys = load_bytes m (compare_dsc_source_2_address d) n"
    and "software_submit ref_table d (m, ev) = (st, (m', ev'))"
    and "r = record_at m' (record_address d)"
  shows "st = sub_success \<and> (cr_result r = 0 \<longleftrightarrow> xs = ys) \<and> cr_result r \<in> {0, 1}
    \<and> (xs \<noteq> ys \<longrightarrow> (\<exists>k<n. unat (cr_bytes_completed r) = k \<and> xs ! k \<noteq> ys ! k \<and> take k xs = take k ys))
    \<and> execution_status_of (cr_status r)
        = (if intersects (dsc_flags d) (flag_value flag_check_result)
              \<and> cr_result r \<noteq> compare_dsc_expected_result d
           then false_predicate_success else success)
    \<and> (\<forall>x. \<not> in_region x (record_address d) 32 \<longrightarrow> m' x = m x)"
proof -
  have m': "m' = kernel_compare ref_table d m" and st: "st = sub_success"
    using assms(1,5) by (simp_all add: software_submit_def run_kernel_def)
  have len: "length xs = n" "length ys = n" using assms(3,4) by simp_all
  have out: "(cr_bytes_completed r, cr_result r) = compare_outcome (first_mismatch xs ys)"
    and status: "cr_status r = execution_status_value
      (compare_status (intersects (dsc_flags d) (flag_value flag_check_result))
         (compare_dsc_expected_result d) (cr_result r))"
    using ref.compare_kernel(1,2) [of d m] by (simp_all add: assms(2-4,6) m' prod_eq_iff)
  have "execution_status_of (cr_status r)
      = (if intersects (dsc_flags d) (flag_value flag_check_result)
            \<and> cr_result r \<noteq> compare_dsc_expected_result d
         then false_predicate_success else success)"
    unfolding status by (simp add: compare_status_def named_statuses_def execution_status_of_def)
  moreover have "\<forall>x. \<not> in_region x (record_address d) 32 \<longrightarrow> m' x = m x"
    unfolding m' by (simp add: ref.compare_kernel(3))
  ultimately show ?thesis
    using compare_outcome_meaning [OF out len] st assms(2) unat_u32_less [of "dsc_transfer_size d"]
    by auto
qed

text \<open>
  A CRC may be computed in pieces: the value for a region is the value for its second
  part seeded with the value for its first part, for every combination of the two bypass flags.
\<close>
lemma software_crc_split:
  assumes "unat n + unat k < 2 ^ 32"
  shows "kernel_crc_value ref_table fl (src + ucast n) k (kernel_crc_value ref_table fl src n seed m) m
    = kernel_crc_value ref_table fl src (n + k) seed m"
  using assms by (rule ref.crc_value_split)

section \<open>Example runs\<close>

definition sample_move :: descriptor where
  "sample_move = set_dsc_transfer_size 4 (set_dsc_destination_address 0x1002
     (set_dsc_source_address 0x1000 (set_dsc_completion_record_address 0x9000
       (set_dsc_operation 3 new_descriptor))))"

definition sample_compare :: descriptor where
  "sample_compare = set_dsc_transfer_size 4 (set_compare_dsc_source_2_address 0x1102
     (set_compare_dsc_source_1_address 0x1000 (set_dsc_completion_record_address 0x9000
       (set_dsc_operation 5 new_descriptor))))"

definition sample_batch :: descriptor where
  "sample_batch = set_batch_dsc_descriptors_count 4 (set_batch_dsc_descriptor_list_address 0x2000
     (set_dsc_completion_record_address 0x9000 (set_dsc_operation 1 new_descriptor)))"

lemma sample_move_fields:
  "dsc_operation sample_move = 3" "dsc_source_address sample_move = 0x1000"
  "dsc_destination_address sample_move = 0x1002" "dsc_transfer_size sample_move = 4"
  "record_address sample_move = 0x9000"
  by (simp_all add: sample_move_def record_address_def view_laws)

lemma sample_compare_fields:
  "dsc_operation sample_compare = 5" "compare_dsc_source_1_address sample_compare = 0x1000"
  "compare_dsc_source_2_address sample_compare = 0x1102" "dsc_transfer_size sample_compare = 4"
  "record_address sample_compare = 0x9000"
  by (simp_all add: sample_compare_def record_address_def view_laws)

lemma sample_batch_fields:
  "batch_dsc_descriptors_count sample_batch = 4"
  "batch_dsc_descriptor_list_address sample_batch = 0x2000" "record_address sample_batch = 0x9000"
  by (simp_all add: sample_batch_def record_address_def view_laws)


end
