(* ===== verification/DML_Make_Descriptor.thy ===== *)
theory DML_Make_Descriptor
  imports DML_Core_Kernels
begin

text \<open>
  Construction of descriptors (\<open>middle_layer/src/make_descriptor.cpp\<close>) and their connection to a
  completion record (\<open>rebind\<close> of \<open>core_interconnect.cpp\<close>). Option classes are their bit masks.
  Every constructor is shown to write each field it is given, to leave the flags of the completion
  record to \<open>rebind\<close>, and to produce a descriptor the validator and the kernels read back.
\<close>

section \<open>Constructors\<close>

definition make_nop_descriptor ::
  "u16 \<Rightarrow> descriptor" where
  "make_nop_descriptor options =
     (let d0 = new_descriptor;
          d1 = set_dsc_operation (operation_code op_nop) d0;
          d2 = set_dsc_flags options d1
      in d2)"

definition make_drain_descriptor ::
  "u64 \<Rightarrow> u64 \<Rightarrow> u16 \<Rightarrow> u8 \<Rightarrow> descriptor" where
  "make_drain_descriptor readback_address_1 readback_address_2 options specific_options =
     (let d0 = new_descriptor;
          d1 = set_dsc_operation (operation_code op_drain) d0;
          d2 = set_drain_dsc_readback_address_1 readback_address_1 d1;
          d3 = set_drain_dsc_readback_address_2 readback_address_2 d2;
          d4 = set_dsc_flags options d3;
          d5 = set_dsc_operation_specific_flags specific_options d4
      in d5)"

definition make_mem_move_descriptor ::
  "addr \<Rightarrow> addr \<Rightarrow> u32 \<Rightarrow> u16 \<Rightarrow> descriptor" where
  "make_mem_move_descriptor src dst sz options =
     (let d0 = new_descriptor;
          d1 = set_dsc_operation (operation_code op_mem_move) d0;
          d2 = set_dsc_source_address src d1;
          d3 = set_dsc_destination_address dst d2;
          d4 = set_dsc_transfer_size sz d3;
          d5 = set_dsc_flags options d4
      in d5)"

definition make_fill_descriptor ::
  "u64 \<Rightarrow> addr \<Rightarrow> u32 \<Rightarrow> u16 \<Rightarrow> descriptor" where
  "make_fill_descriptor pattern dst sz options =
     (let d0 = new_descriptor;
          d1 = set_dsc_operation (operation_code op_fill) d0;
          d2 = set_fill_dsc_pattern pattern d1;
          d3 = set_dsc_destination_address dst d2;
          d4 = set_dsc_transfer_size sz d3;
          d5 = set_dsc_flags options d4
      in d5)"

definition make_dualcast_descriptor ::
  "addr \<Rightarrow> addr \<Rightarrow> addr \<Rightarrow> u32 \<Rightarrow> u16 \<Rightarrow> u8 \<Rightarrow> descriptor" where
  "make_dualcast_descriptor src dst1 dst2 sz options specific_options =
     (let d0 = new_descriptor;
          d1 = set_dsc_operation (operation_code op_dualcast) d0;
          d2 = set_dsc_source_address src d1;
          d3 = set_dualcast_dsc_destination_1_address dst1 d2;
          d4 = set_dualcast_dsc_destination_2_address dst2 d3;
          d5 = set_dsc_transfer_size sz d4;
          d6 = set_dsc_flags options d5;
          d7 = set_dsc_operation_specific_flags specific_options d6
      in d7)"

definition make_compare_descriptor ::
  "addr \<Rightarrow> addr \<Rightarrow> u32 \<Rightarrow> u16 \<Rightarrow> u8 \<Rightarrow> descriptor" where
  "make_compare_descriptor src1 src2 sz options expected_result =
     (let d0 = new_descriptor;
          d1 = set_dsc_operation (operation_code op_compare) d0;
          d2 = set_compare_dsc_source_1_address src1 d1;
          d3 = set_compare_dsc_source_2_address src2 d2;
          d4 = set_dsc_transfer_size sz d3;
          d5 = set_dsc_flags options d4;
          d6 = set_compare_dsc_expected_result expected_result d5
      in d6)"

definition make_compare_pattern_descriptor ::
  "u64 \<Rightarrow> addr \<Rightarrow> u32 \<Rightarrow> u16 \<Rightarrow> u8 \<Rightarrow> descriptor" where
  "make_compare_pattern_descriptor pattern src sz options expected_result =
     (let d0 = new_descriptor;
          d1 = set_dsc_operation (operation_code op_compare_pattern) d0;
          d2 = set_compare_pattern_dsc_pattern pattern d1;
          d3 = set_dsc_source_address src d2;
          d4 = set_dsc_transfer_size sz d3;
          d5 = set_dsc_flags options d4;
          d6 = set_compare_pattern_dsc_expected_result expected_result d5
      in d6)"

definition make_crc_descriptor ::
  "addr \<Rightarrow> u32 \<Rightarrow> u32 \<Rightarrow> u16 \<Rightarrow> u8 \<Rightarrow> descriptor" where
  "make_crc_descriptor src sz crc_seed options specific_options =
     (let d0 = new_descriptor;
          d1 = set_dsc_operation (operation_code op_crc) d0;
          d2 = set_dsc_source_address src d1;
          d3 = set_dsc_transfer_size sz d2;
          d4 = set_dsc_flags options d3;
          d5 = set_dsc_operation_specific_flags specific_options d4;
          d6 = set_crc_dsc_crc_seed crc_seed d5
      in d6)"

definition make_copy_crc_descriptor ::
  "addr \<Rightarrow> addr \<Rightarrow> u32 \<Rightarrow> u32 \<Rightarrow> u16 \<Rightarrow> u8 \<Rightarrow> descriptor" where
  "make_copy_crc_descriptor src dst sz crc_seed options specific_options =
     (let d0 = new_descriptor;
          d1 = set_dsc_operation (operation_code op_copy_crc) d0;
          d2 = set_dsc_source_address src d1;
          d3 = set_dsc_destination_address dst d2;
          d4 = set_dsc_transfer_size sz d3;
          d5 = set_dsc_flags options d4;
          d6 = set_dsc_operation_specific_flags specific_options d5;
          d7 = set_copy_crc_dsc_crc_seed crc_seed d6
      in d7)"

definition make_create_delta_descriptor ::
  "addr \<Rightarrow> addr \<Rightarrow> u32 \<Rightarrow> addr \<Rightarrow> u32 \<Rightarrow> u16 \<Rightarrow> u8 \<Rightarrow> descriptor" where
  "make_create_delta_descriptor src1 src2 sz delta_record delta_max_size options expected_result =
     (let d0 = new_descriptor;
          d1 = set_dsc_operation (operation_code op_create_delta) d0;
          d2 = set_create_delta_dsc_source_1_address src1 d1;
          d3 = set_create_delta_dsc_source_2_address src2 d2;
          d4 = set_create_delta_dsc_delta_record_address delta_record d3;
          d5 = set_dsc_transfer_size sz d4;
          d6 = set_create_delta_dsc_maximum_delta_record_size delta_max_size d5;
          d7 = set_dsc_flags options d6;
          d8 = set_create_delta_dsc_expected_result_mask expected_result d7
      in d8)"

definition make_apply_delta_descriptor ::
  "addr \<Rightarrow> u32 \<Rightarrow> addr \<Rightarrow> u32 \<Rightarrow> u16 \<Rightarrow> descriptor" where
  "make_apply_delta_descriptor delta_record delta_size dst sz options =
     (let d0 = new_descriptor;
          d1 = set_dsc_operation (operation_code op_apply_delta) d0;
          d2 = set_apply_delta_dsc_delta_record_address delta_record d1;
          d3 = set_dsc_destination_address dst d2;
          d4 = set_dsc_transfer_size sz d3;
          d5 = set_apply_delta_dsc_delta_record_size delta_size d4;
          d6 = set_dsc_flags options d5
      in d6)"

definition make_cache_flush_descriptor ::
  "addr \<Rightarrow> u32 \<Rightarrow> u16 \<Rightarrow> descriptor" where
  "make_cache_flush_descriptor dst sz options =
     (let d0 = new_descriptor;
          d1 = set_dsc_operation (operation_code op_cache_flush) d0;
          d2 = set_dsc_destination_address dst d1;
          d3 = set_dsc_transfer_size sz d2;
          d4 = set_dsc_flags options d3
      in d4)"

definition make_dif_check_descriptor ::
  "addr \<Rightarrow> u32 \<Rightarrow> dif_parameters \<Rightarrow> u16 \<Rightarrow> u8 \<Rightarrow> u8 \<Rightarrow> descriptor" where
  "make_dif_check_descriptor src transfer_size src_parameters options specific_options source_options =
     (let d0 = new_descriptor;
          d1 = set_dsc_operation (operation_code op_dif_check) d0;
          d2 = set_dsc_source_address src d1;
          d3 = set_dsc_transfer_size transfer_size d2;
          d4 = set_dsc_flags options d3;
          d5 = set_dif_check_dsc_dif_flags specific_options d4;
          d6 = set_dif_check_dsc_source_dif_flags source_options d5;
          d7 = set_dif_check_dsc_source_ref_tag (ref_tag_seed src_parameters) d6;
          d8 = set_dif_check_dsc_source_app_tag (app_tag_seed src_parameters) d7;
          d9 = set_dif_check_dsc_source_app_tag_mask (app_tag_mask src_parameters) d8
      in d9)"

definition make_dif_insert_descriptor ::
  "addr \<Rightarrow> addr \<Rightarrow> u32 \<Rightarrow> dif_parameters \<Rightarrow> u16 \<Rightarrow> u8 \<Rightarrow> u8 \<Rightarrow> descriptor" where
  "make_dif_insert_descriptor src dst transfer_size dst_parameters options specific_options destination_options =
     (let d0 = new_descriptor;
          d1 = set_dsc_operation (operation_code op_dif_insert) d0;
          d2 = set_dsc_source_address src d1;
          d3 = set_dsc_destination_address dst d2;
          d4 = set_dsc_transfer_size transfer_size d3;
          d5 = set_dsc_flags options d4;
          d6 = set_dif_insert_dsc_dif_flags specific_options d5;
          d7 = set_dif_insert_dsc_destination_dif_flags destination_options d6;
          d8 = set_dif_insert_dsc_destination_ref_tag (ref_tag_seed dst_parameters) d7;
          d9 = set_dif_insert_dsc_destination_app_tag (app_tag_seed dst_parameters) d8;
          d10 = set_dif_insert_dsc_destination_app_tag_mask (app_tag_mask dst_parameters) d9
      in d10)"

definition make_dif_strip_descriptor ::
  "addr \<Rightarrow> addr \<Rightarrow> u32 \<Rightarrow> dif_parameters \<Rightarrow> u16 \<Rightarrow> u8 \<Rightarrow> u8 \<Rightarrow> descriptor" where
  "make_dif_strip_descriptor src dst transfer_size src_parameters options specific_options source_options =
     (let d0 = new_descriptor;
          d1 = set_dsc_operation (operation_code op_dif_strip) d0;
          d2 = set_dsc_source_address src d1;
          d3 = set_dsc_destination_address dst d2;
          d4 = set_dsc_transfer_size transfer_size d3;
          d5 = set_dsc_flags options d4;
          d6 = set_dif_strip_dsc_dif_flags specific_options d5;
          d7 = set_dif_strip_dsc_source_dif_flags source_options d6;
          d8 = set_dif_strip_dsc_source_ref_tag (ref_tag_seed src_parameters) d7;
          d9 = set_dif_strip_dsc_source_app_tag (app_tag_seed src_parameters) d8;
          d10 = set_dif_strip_dsc_source_app_tag_mask (app_tag_mask src_parameters) d9
      in d10)"

definition make_dif_update_descriptor ::
  "addr \<Rightarrow> addr \<Rightarrow> u32 \<Rightarrow> dif_parameters \<Rightarrow> dif_parameters \<Rightarrow> u16 \<Rightarrow> u8 \<Rightarrow> u8 \<Rightarrow> u8 \<Rightarrow> descriptor" where
  "make_dif_update_descriptor src dst transfer_size src_parameters dst_parameters options specific_options source_options destination_options =
     (let d0 = new_descriptor;
          d1 = set_dsc_operation (operation_code op_dif_update) d0;
          d2 = set_dsc_source_address src d1;
          d3 = set_dsc_destination_address dst d2;
          d4 = set_dsc_transfer_size transfer_size d3;
          d5 = set_dsc_flags options d4;
          d6 = set_dif_update_dsc_dif_flags specific_options d5;
          d7 = set_dif_update_dsc_source_dif_flags source_options d6;
          d8 = set_dif_update_dsc_source_ref_tag (ref_tag_seed src_parameters) d7;
          d9 = set_dif_update_dsc_source_app_tag (app_tag_seed src_parameters) d8;
          d10 = set_dif_update_dsc_source_app_tag_mask (app_tag_mask src_parameters) d9;
          d11 = set_dif_update_dsc_destination_dif_flags destination_options d10;
          d12 = set_dif_update_dsc_destination_ref_tag (ref_tag_seed dst_parameters) d11;
          d13 = set_dif_update_dsc_destination_app_tag (app_tag_seed dst_parameters) d12;
          d14 = set_dif_update_dsc_destination_app_tag_mask (app_tag_mask dst_parameters) d13
      in d14)"

definition make_batch_descriptor ::
  "addr \<Rightarrow> u32 \<Rightarrow> u16 \<Rightarrow> descriptor" where
  "make_batch_descriptor src count options =
     (let d0 = new_descriptor;
          d1 = set_dsc_operation (operation_code op_batch) d0;
          d2 = set_batch_dsc_descriptor_list_address src d1;
          d3 = set_batch_dsc_descriptors_count count d2;
          d4 = set_dsc_flags options d3
      in d4)"

lemmas make_descriptor_defs = make_nop_descriptor_def
  make_drain_descriptor_def
  make_mem_move_descriptor_def
  make_fill_descriptor_def
  make_dualcast_descriptor_def
  make_compare_descriptor_def
  make_compare_pattern_descriptor_def
  make_crc_descriptor_def
  make_copy_crc_descriptor_def
  make_create_delta_descriptor_def
  make_apply_delta_descriptor_def
  make_cache_flush_descriptor_def
  make_dif_check_descriptor_def
  make_dif_insert_descriptor_def
  make_dif_strip_descriptor_def
  make_dif_update_descriptor_def
  make_batch_descriptor_def

section \<open>Every field reads back what the constructor was given\<close>

lemma make_nop_descriptor_fields [simp]:
  "wf_descriptor (make_nop_descriptor options)"
  "dsc_operation (make_nop_descriptor options) = operation_code op_nop"
  "dsc_flags (make_nop_descriptor options) = options"
  "record_address (make_nop_descriptor options) = 0"
  by (simp_all add: make_nop_descriptor_def Let_def record_address_def dsc_laws)

lemma make_drain_descriptor_fields [simp]:
  "wf_descriptor (make_drain_descriptor readback_address_1 readback_address_2 options specific_options)"
  "dsc_operation (make_drain_descriptor readback_address_1 readback_address_2 options specific_options) = operation_code op_drain"
  "drain_dsc_readback_address_1 (make_drain_descriptor readback_address_1 readback_address_2 options specific_options) = readback_address_1"
  "drain_dsc_readback_address_2 (make_drain_descriptor readback_address_1 readback_address_2 options specific_options) = readback_address_2"
  "dsc_flags (make_drain_descriptor readback_address_1 readback_address_2 options specific_options) = options"
  "dsc_operation_specific_flags (make_drain_descriptor readback_address_1 readback_address_2 options specific_options) = specific_options"
  "record_address (make_drain_descriptor readback_address_1 readback_address_2 options specific_options) = 0"
  by (simp_all add: make_drain_descriptor_def Let_def record_address_def dsc_laws)

lemma make_mem_move_descriptor_fields [simp]:
  "wf_descriptor (make_mem_move_descriptor src dst sz options)"
  "dsc_operation (make_mem_move_descriptor src dst sz options) = operation_code op_mem_move"
  "dsc_source_address (make_mem_move_descriptor src dst sz options) = src"
  "dsc_destination_address (make_mem_move_descriptor src dst sz options) = dst"
  "dsc_transfer_size (make_mem_move_descriptor src dst sz options) = sz"
  "dsc_flags (make_mem_move_descriptor src dst sz options) = options"
  "record_address (make_mem_move_descriptor src dst sz options) = 0"
  by (simp_all add: make_mem_move_descriptor_def Let_def record_address_def dsc_laws)

lemma make_fill_descriptor_fields [simp]:
  "wf_descriptor (make_fill_descriptor pattern dst sz options)"
  "dsc_operation (make_fill_descriptor pattern dst sz options) = operation_code op_fill"
  "fill_dsc_pattern (make_fill_descriptor pattern dst sz options) = pattern"
  "dsc_destination_address (make_fill_descriptor pattern dst sz options) = dst"
  "dsc_transfer_size (make_fill_descriptor pattern dst sz options) = sz"
  "dsc_flags (make_fill_descriptor pattern dst sz options) = options"
  "record_address (make_fill_descriptor pattern dst sz options) = 0"
  by (simp_all add: make_fill_descriptor_def Let_def record_address_def dsc_laws)

lemma make_dualcast_descriptor_fields [simp]:
  "wf_descriptor (make_dualcast_descriptor src dst1 dst2 sz options specific_options)"
  "dsc_operation (make_dualcast_descriptor src dst1 dst2 sz options specific_options) = operation_code op_dualcast"
  "dsc_source_address (make_dualcast_descriptor src dst1 dst2 sz options specific_options) = src"
  "dualcast_dsc_destination_1_address (make_dualcast_descriptor src dst1 dst2 sz options specific_options) = dst1"
  "dualcast_dsc_destination_2_address (make_dualcast_descriptor src dst1 dst2 sz options specific_options) = dst2"
  "dsc_transfer_size (make_dualcast_descriptor src dst1 dst2 sz options specific_options) = sz"
  "dsc_flags (make_dualcast_descriptor src dst1 dst2 sz options specific_options) = options"
  "dsc_operation_specific_flags (make_dualcast_descriptor src dst1 dst2 sz options specific_options) = specific_options"
  "record_address (make_dualcast_descriptor src dst1 dst2 sz options specific_options) = 0"
  by (simp_all add: make_dualcast_descriptor_def Let_def record_address_def dsc_laws)

lemma make_compare_descriptor_fields [simp]:
  "wf_descriptor (make_compare_descriptor src1 src2 sz options expected_result)"
  "dsc_operation (make_compare_descriptor src1 src2 sz options expected_result) = operation_code op_compare"
  "compare_dsc_source_1_address (make_compare_descriptor src1 src2 sz options expected_result) = src1"
  "compare_dsc_source_2_address (make_compare_descriptor src1 src2 sz options expected_result) = src2"
  "dsc_transfer_size (make_compare_descriptor src1 src2 sz options expected_result) = sz"
  "dsc_flags (make_compare_descriptor src1 src2 sz options expected_result) = options"
  "compare_dsc_expected_result (make_compare_descriptor src1 src2 sz options expected_result) = expected_result"
  "record_address (make_compare_descriptor src1 src2 sz options expected_result) = 0"
  by (simp_all add: make_compare_descriptor_def Let_def record_address_def dsc_laws)

lemma make_compare_pattern_descriptor_fields [simp]:
  "wf_descriptor (make_compare_pattern_descriptor pattern src sz options expected_result)"
  "dsc_operation (make_compare_pattern_descriptor pattern src sz options expected_result) = operation_code op_compare_pattern"
  "compare_pattern_dsc_pattern (make_compare_pattern_descriptor pattern src sz options expected_result) = pattern"
  "dsc_source_address (make_compare_pattern_descriptor pattern src sz options expected_result) = src"
  "dsc_transfer_size (make_compare_pattern_descriptor pattern src sz options expected_result) = sz"
  "dsc_flags (make_compare_pattern_descriptor pattern src sz options expected_result) = options"
  "compare_pattern_dsc_expected_result (make_compare_pattern_descriptor pattern src sz options expected_result) = expected_result"
  "record_address (make_compare_pattern_descriptor pattern src sz options expected_result) = 0"
  by (simp_all add: make_compare_pattern_descriptor_def Let_def record_address_def dsc_laws)

lemma make_crc_descriptor_fields [simp]:
  "wf_descriptor (make_crc_descriptor src sz crc_seed options specific_options)"
  "dsc_operation (make_crc_descriptor src sz crc_seed options specific_options) = operation_code op_crc"
  "dsc_source_address (make_crc_descriptor src sz crc_seed options specific_options) = src"
  "dsc_transfer_size (make_crc_descriptor src sz crc_seed options specific_options) = sz"
  "dsc_flags (make_crc_descriptor src sz crc_seed options specific_options) = options"
  "dsc_operation_specific_flags (make_crc_descriptor src sz crc_seed options specific_options) = specific_options"
  "crc_dsc_crc_seed (make_crc_descriptor src sz crc_seed options specific_options) = crc_seed"
  "record_address (make_crc_descriptor src sz crc_seed options specific_options) = 0"
  by (simp_all add: make_crc_descriptor_def Let_def record_address_def dsc_laws)

lemma make_copy_crc_descriptor_fields [simp]:
  "wf_descriptor (make_copy_crc_descriptor src dst sz crc_seed options specific_options)"
  "dsc_operation (make_copy_crc_descriptor src dst sz crc_seed options specific_options) = operation_code op_copy_crc"
  "dsc_source_address (make_copy_crc_descriptor src dst sz crc_seed options specific_options) = src"
  "dsc_destination_address (make_copy_crc_descriptor src dst sz crc_seed options specific_options) = dst"
  "dsc_transfer_size (make_copy_crc_descriptor src dst sz crc_seed options specific_options) = sz"
  "dsc_flags (make_copy_crc_descriptor src dst sz crc_seed options specific_options) = options"
  "dsc_operation_specific_flags (make_copy_crc_descriptor src dst sz crc_seed options specific_options) = specific_options"
  "copy_crc_dsc_crc_seed (make_copy_crc_descriptor src dst sz crc_seed options specific_options) = crc_seed"
  "record_address (make_copy_crc_descriptor src dst sz crc_seed options specific_options) = 0"
  by (simp_all add: make_copy_crc_descriptor_def Let_def record_address_def dsc_laws)

lemma make_create_delta_descriptor_fields [simp]:
  "wf_descriptor (make_create_delta_descriptor src1 src2 sz delta_record delta_max_size options expected_result)"
  "dsc_operation (make_create_delta_descriptor src1 src2 sz delta_record delta_max_size options expected_result) = operation_code op_create_delta"
  "create_delta_dsc_source_1_address (make_create_delta_descriptor src1 src2 sz delta_record delta_max_size options expected_result) = src1"
  "create_delta_dsc_source_2_address (make_create_delta_descriptor src1 src2 sz delta_record delta_max_size options expected_result) = src2"
  "create_delta_dsc_delta_record_address (make_create_delta_descriptor src1 src2 sz delta_record delta_max_size options expected_result) = delta_record"
  "dsc_transfer_size (make_create_delta_descriptor src1 src2 sz delta_record delta_max_size options expected_result) = sz"
  "create_delta_dsc_maximum_delta_record_size (make_create_delta_descriptor src1 src2 sz delta_record delta_max_size options expected_result) = delta_max_size"
  "dsc_flags (make_create_delta_descriptor src1 src2 sz delta_record delta_max_size options expected_result) = options"
  "create_delta_dsc_expected_result_mask (make_create_delta_descriptor src1 src2 sz delta_record delta_max_size options expected_result) = expected_result"
  "record_address (make_create_delta_descriptor src1 src2 sz delta_record delta_max_size options expected_result) = 0"
  by (simp_all add: make_create_delta_descriptor_def Let_def record_address_def dsc_laws)

lemma make_apply_delta_descriptor_fields [simp]:
  "wf_descriptor (make_apply_delta_descriptor delta_record delta_size dst sz options)"
  "dsc_operation (make_apply_delta_descriptor delta_record delta_size dst sz options) = operation_code op_apply_delta"
  "apply_delta_dsc_delta_record_address (make_apply_delta_descriptor delta_record delta_size dst sz options) = delta_record"
  "dsc_destination_address (make_apply_delta_descriptor delta_record delta_size dst sz options) = dst"
  "dsc_transfer_size (make_apply_delta_descriptor delta_record delta_size dst sz options) = sz"
  "apply_delta_dsc_delta_record_size (make_apply_delta_descriptor delta_record delta_size dst sz options) = delta_size"
  "dsc_flags (make_apply_delta_descriptor delta_record delta_size dst sz options) = options"
  "record_address (make_apply_delta_descriptor delta_record delta_size dst sz options) = 0"
  by (simp_all add: make_apply_delta_descriptor_def Let_def record_address_def dsc_laws)

lemma make_cache_flush_descriptor_fields [simp]:
  "wf_descriptor (make_cache_flush_descriptor dst sz options)"
  "dsc_operation (make_cache_flush_descriptor dst sz options) = operation_code op_cache_flush"
  "dsc_destination_address (make_cache_flush_descriptor dst sz options) = dst"
  "dsc_transfer_size (make_cache_flush_descriptor dst sz options) = sz"
  "dsc_flags (make_cache_flush_descriptor dst sz options) = options"
  "record_address (make_cache_flush_descriptor dst sz options) = 0"
  by (simp_all add: make_cache_flush_descriptor_def Let_def record_address_def dsc_laws)

lemma make_dif_check_descriptor_fields [simp]:
  "wf_descriptor (make_dif_check_descriptor src transfer_size src_parameters options specific_options source_options)"
  "dsc_operation (make_dif_check_descriptor src transfer_size src_parameters options specific_options source_options) = operation_code op_dif_check"
  "dsc_source_address (make_dif_check_descriptor src transfer_size src_parameters options specific_options source_options) = src"
  "dsc_transfer_size (make_dif_check_descriptor src transfer_size src_parameters options specific_options source_options) = transfer_size"
  "dsc_flags (make_dif_check_descriptor src transfer_size src_parameters options specific_options source_options) = options"
  "dif_check_dsc_dif_flags (make_dif_check_descriptor src transfer_size src_parameters options specific_options source_options) = specific_options"
  "dif_check_dsc_source_dif_flags (make_dif_check_descriptor src transfer_size src_parameters options specific_options source_options) = source_options"
  "dif_check_dsc_source_ref_tag (make_dif_check_descriptor src transfer_size src_parameters options specific_options source_options) = ref_tag_seed src_parameters"
  "dif_check_dsc_source_app_tag (make_dif_check_descriptor src transfer_size src_parameters options specific_options source_options) = app_tag_seed src_parameters"
  "dif_check_dsc_source_app_tag_mask (make_dif_check_descriptor src transfer_size src_parameters options specific_options source_options) = app_tag_mask src_parameters"
  "record_address (make_dif_check_descriptor src transfer_size src_parameters options specific_options source_options) = 0"
  by (simp_all add: make_dif_check_descriptor_def Let_def record_address_def dsc_laws)

lemma make_dif_insert_descriptor_fields [simp]:
  "wf_descriptor (make_dif_insert_descriptor src dst transfer_size dst_parameters options specific_options destination_options)"
  "dsc_operation (make_dif_insert_descriptor src dst transfer_size dst_parameters options specific_options destination_options) = operation_code op_dif_insert"
  "dsc_source_address (make_dif_insert_descriptor src dst transfer_size dst_parameters options specific_options destination_options) = src"
  "dsc_destination_address (make_dif_insert_descriptor src dst transfer_size dst_parameters options specific_options destination_options) = dst"
  "dsc_transfer_size (make_dif_insert_descriptor src dst transfer_size dst_parameters options specific_options destination_options) = transfer_size"
  "dsc_flags (make_dif_insert_descriptor src dst transfer_size dst_parameters options specific_options destination_options) = options"
  "dif_insert_dsc_dif_flags (make_dif_insert_descriptor src dst transfer_size dst_parameters options specific_options destination_options) = specific_options"
  "dif_insert_dsc_destination_dif_flags (make_dif_insert_descriptor src dst transfer_size dst_parameters options specific_options destination_options) = destination_options"
  "dif_insert_dsc_destination_ref_tag (make_dif_insert_descriptor src dst transfer_size dst_parameters options specific_options destination_options) = ref_tag_seed dst_parameters"
  "dif_insert_dsc_destination_app_tag (make_dif_insert_descriptor src dst transfer_size dst_parameters options specific_options destination_options) = app_tag_seed dst_parameters"
  "dif_insert_dsc_destination_app_tag_mask (make_dif_insert_descriptor src dst transfer_size dst_parameters options specific_options destination_options) = app_tag_mask dst_parameters"
  "record_address (make_dif_insert_descriptor src dst transfer_size dst_parameters options specific_options destination_options) = 0"
  by (simp_all add: make_dif_insert_descriptor_def Let_def record_address_def dsc_laws)

lemma make_dif_strip_descriptor_fields [simp]:
  "wf_descriptor (make_dif_strip_descriptor src dst transfer_size src_parameters options specific_options source_options)"
  "dsc_operation (make_dif_strip_descriptor src dst transfer_size src_parameters options specific_options source_options) = operation_code op_dif_strip"
  "dsc_source_address (make_dif_strip_descriptor src dst transfer_size src_parameters options specific_options source_options) = src"
  "dsc_destination_address (make_dif_strip_descriptor src dst transfer_size src_parameters options specific_options source_options) = dst"
  "dsc_transfer_size (make_dif_strip_descriptor src dst transfer_size src_parameters options specific_options source_options) = transfer_size"
  "dsc_flags (make_dif_strip_descriptor src dst transfer_size src_parameters options specific_options source_options) = options"
  "dif_strip_dsc_dif_flags (make_dif_strip_descriptor src dst transfer_size src_parameters options specific_options source_options) = specific_options"
  "dif_strip_dsc_source_dif_flags (make_dif_strip_descriptor src dst transfer_size src_parameters options specific_options source_options) = source_options"
  "dif_strip_dsc_source_ref_tag (make_dif_strip_descriptor src dst transfer_size src_parameters options specific_options source_options) = ref_tag_seed src_parameters"
  "dif_strip_dsc_source_app_tag (make_dif_strip_descriptor src dst transfer_size src_parameters options specific_options source_options) = app_tag_seed src_parameters"
  "dif_strip_dsc_source_app_tag_mask (make_dif_strip_descriptor src dst transfer_size src_parameters options specific_options source_options) = app_tag_mask src_parameters"
  "record_address (make_dif_strip_descriptor src dst transfer_size src_parameters options specific_options source_options) = 0"
  by (simp_all add: make_dif_strip_descriptor_def Let_def record_address_def dsc_laws)

lemma make_dif_update_descriptor_fields [simp]:
  "wf_descriptor (make_dif_update_descriptor src dst transfer_size src_parameters dst_parameters options specific_options source_options destination_options)"
  "dsc_operation (make_dif_update_descriptor src dst transfer_size src_parameters dst_parameters options specific_options source_options destination_options) = operation_code op_dif_update"
  "dsc_source_address (make_dif_update_descriptor src dst transfer_size src_parameters dst_parameters options specific_options source_options destination_options) = src"
  "dsc_destination_address (make_dif_update_descriptor src dst transfer_size src_parameters dst_parameters options specific_options source_options destination_options) = dst"
  "dsc_transfer_size (make_dif_update_descriptor src dst transfer_size src_parameters dst_parameters options specific_options source_options destination_options) = transfer_size"
  "dsc_flags (make_dif_update_descriptor src dst transfer_size src_parameters dst_parameters options specific_options source_options destination_options) = options"
  "dif_update_dsc_dif_flags (make_dif_update_descriptor src dst transfer_size src_parameters dst_parameters options specific_options source_options destination_options) = specific_options"
  "dif_update_dsc_source_dif_flags (make_dif_update_descriptor src dst transfer_size src_parameters dst_parameters options specific_options source_options destination_options) = source_options"
  "dif_update_dsc_source_ref_tag (make_dif_update_descriptor src dst transfer_size src_parameters dst_parameters options specific_options source_options destination_options) = ref_tag_seed src_parameters"
  "dif_update_dsc_source_app_tag (make_dif_update_descriptor src dst transfer_size src_parameters dst_parameters options specific_options source_options destination_options) = app_tag_seed src_parameters"
  "dif_update_dsc_source_app_tag_mask (make_dif_update_descriptor src dst transfer_size src_parameters dst_parameters options specific_options source_options destination_options) = app_tag_mask src_parameters"
  "dif_update_dsc_destination_dif_flags (make_dif_update_descriptor src dst transfer_size src_parameters dst_parameters options specific_options source_options destination_options) = destination_options"
  "dif_update_dsc_destination_ref_tag (make_dif_update_descriptor src dst transfer_size src_parameters dst_parameters options specific_options source_options destination_options) = ref_tag_seed dst_parameters"
  "dif_update_dsc_destination_app_tag (make_dif_update_descriptor src dst transfer_size src_parameters dst_parameters options specific_options source_options destination_options) = app_tag_seed dst_parameters"
  "dif_update_dsc_destination_app_tag_mask (make_dif_update_descriptor src dst transfer_size src_parameters dst_parameters options specific_options source_options destination_options) = app_tag_mask dst_parameters"
  "record_address (make_dif_update_descriptor src dst transfer_size src_parameters dst_parameters options specific_options source_options destination_options) = 0"
  by (simp_all add: make_dif_update_descriptor_def Let_def record_address_def dsc_laws)

lemma make_batch_descriptor_fields [simp]:
  "wf_descriptor (make_batch_descriptor src count options)"
  "dsc_operation (make_batch_descriptor src count options) = operation_code op_batch"
  "batch_dsc_descriptor_list_address (make_batch_descriptor src count options) = src"
  "batch_dsc_descriptors_count (make_batch_descriptor src count options) = count"
  "dsc_flags (make_batch_descriptor src count options) = options"
  "record_address (make_batch_descriptor src count options) = 0"
  by (simp_all add: make_batch_descriptor_def Let_def record_address_def dsc_laws)

section \<open>Connecting the completion record\<close>

definition completion_record_flags :: u16 where
  "completion_record_flags = flag_value flag_completion_record_address_valid
     OR flag_value flag_request_completion_record"

text \<open>\<open>rebind(dsc, record)\<close>, with the address of the record.\<close>
definition rebind :: "descriptor \<Rightarrow> addr \<Rightarrow> descriptor" where
  "rebind d rec =
     (let d1 = set_dsc_completion_record_address rec d
      in set_dsc_flags (dsc_flags d1 OR completion_record_flags) d1)"

lemma wf_rebind [simp]: "wf_descriptor d \<Longrightarrow> wf_descriptor (rebind d rec)"
  by (simp add: rebind_def Let_def flags_view.wf_put record_address_view.wf_put)

lemma record_address_rebind [simp]: "wf_descriptor d \<Longrightarrow> record_address (rebind d rec) = rec"
  by (simp add: rebind_def record_address_def Let_def dsc_laws)

lemma dsc_flags_rebind [simp]:
  "wf_descriptor d \<Longrightarrow> dsc_flags (rebind d rec) = dsc_flags d OR completion_record_flags"
  by (simp add: rebind_def Let_def dsc_laws)

text \<open>A field outside the flags and the record address.\<close>
lemma get_field_rebind:
  assumes "wf_descriptor d"
    and "off + LENGTH('a::len) div 8 \<le> 4 \<or> 6 \<le> off \<and> off + LENGTH('a) div 8 \<le> 8 \<or> 16 \<le> off"
  shows "(get_field off (rebind d rec) :: 'a word) = get_field off d"
  using assms by (auto simp: rebind_def Let_def dsc_laws)

text \<open>Every other accessor.\<close>
lemma rebind_fields [simp]:
  assumes "wf_descriptor d"
  shows
    "dsc_operation (rebind d rec) = dsc_operation d"
    "dsc_operation_specific_flags (rebind d rec) = dsc_operation_specific_flags d"
    "dsc_source_address (rebind d rec) = dsc_source_address d"
    "dsc_destination_address (rebind d rec) = dsc_destination_address d"
    "dsc_transfer_size (rebind d rec) = dsc_transfer_size d"
    "dsc_completion_interrupt_handle (rebind d rec) = dsc_completion_interrupt_handle d"
    "batch_dsc_descriptor_list_address (rebind d rec) = batch_dsc_descriptor_list_address d"
    "batch_dsc_descriptors_count (rebind d rec) = batch_dsc_descriptors_count d"
    "drain_dsc_readback_address_1 (rebind d rec) = drain_dsc_readback_address_1 d"
    "drain_dsc_readback_address_2 (rebind d rec) = drain_dsc_readback_address_2 d"
    "fill_dsc_pattern (rebind d rec) = fill_dsc_pattern d"
    "compare_dsc_source_1_address (rebind d rec) = compare_dsc_source_1_address d"
    "compare_dsc_source_2_address (rebind d rec) = compare_dsc_source_2_address d"
    "compare_dsc_expected_result (rebind d rec) = compare_dsc_expected_result d"
    "compare_pattern_dsc_pattern (rebind d rec) = compare_pattern_dsc_pattern d"
    "compare_pattern_dsc_expected_result (rebind d rec) = compare_pattern_dsc_expected_result d"
    "create_delta_dsc_source_1_address (rebind d rec) = create_delta_dsc_source_1_address d"
    "create_delta_dsc_source_2_address (rebind d rec) = create_delta_dsc_source_2_address d"
    "create_delta_dsc_delta_record_address (rebind d rec) = create_delta_dsc_delta_record_address d"
    "create_delta_dsc_maximum_delta_record_size (rebind d rec) = create_delta_dsc_maximum_delta_record_size d"
    "create_delta_dsc_expected_result_mask (rebind d rec) = create_delta_dsc_expected_result_mask d"
    "apply_delta_dsc_delta_record_address (rebind d rec) = apply_delta_dsc_delta_record_address d"
    "apply_delta_dsc_delta_record_size (rebind d rec) = apply_delta_dsc_delta_record_size d"
    "dualcast_dsc_destination_1_address (rebind d rec) = dualcast_dsc_destination_1_address d"
    "dualcast_dsc_destination_2_address (rebind d rec) = dualcast_dsc_destination_2_address d"
    "crc_dsc_crc_seed (rebind d rec) = crc_dsc_crc_seed d"
    "crc_dsc_crc_seed_address (rebind d rec) = crc_dsc_crc_seed_address d"
    "copy_crc_dsc_crc_seed (rebind d rec) = copy_crc_dsc_crc_seed d"
    "copy_crc_dsc_crc_seed_address (rebind d rec) = copy_crc_dsc_crc_seed_address d"
    "dif_check_dsc_source_dif_flags (rebind d rec) = dif_check_dsc_source_dif_flags d"
    "dif_check_dsc_dif_flags (rebind d rec) = dif_check_dsc_dif_flags d"
    "dif_check_dsc_source_ref_tag (rebind d rec) = dif_check_dsc_source_ref_tag d"
    "dif_check_dsc_source_app_tag (rebind d rec) = dif_check_dsc_source_app_tag d"
    "dif_check_dsc_source_app_tag_mask (rebind d rec) = dif_check_dsc_source_app_tag_mask d"
    "dif_insert_dsc_destination_dif_flags (rebind d rec) = dif_insert_dsc_destination_dif_flags d"
    "dif_insert_dsc_dif_flags (rebind d rec) = dif_insert_dsc_dif_flags d"
    "dif_insert_dsc_destination_ref_tag (rebind d rec) = dif_insert_dsc_destination_ref_tag d"
    "dif_insert_dsc_destination_app_tag (rebind d rec) = dif_insert_dsc_destination_app_tag d"
    "dif_insert_dsc_destination_app_tag_mask (rebind d rec) = dif_insert_dsc_destination_app_tag_mask d"
    "dif_strip_dsc_source_dif_flags (rebind d rec) = dif_strip_dsc_source_dif_flags d"
    "dif_strip_dsc_dif_flags (rebind d rec) = dif_strip_dsc_dif_flags d"
    "dif_strip_dsc_source_ref_tag (rebind d rec) = dif_strip_dsc_source_ref_tag d"
    "dif_strip_dsc_source_app_tag (rebind d rec) = dif_strip_dsc_source_app_tag d"
    "dif_strip_dsc_source_app_tag_mask (rebind d rec) = dif_strip_dsc_source_app_tag_mask d"
    "dif_update_dsc_source_dif_flags (rebind d rec) = dif_update_dsc_source_dif_flags d"
    "dif_update_dsc_destination_dif_flags (rebind d rec) = dif_update_dsc_destination_dif_flags d"
    "dif_update_dsc_dif_flags (rebind d rec) = dif_update_dsc_dif_flags d"
    "dif_update_dsc_source_ref_tag (rebind d rec) = dif_update_dsc_source_ref_tag d"
    "dif_update_dsc_source_app_tag (rebind d rec) = dif_update_dsc_source_app_tag d"
    "dif_update_dsc_source_app_tag_mask (rebind d rec) = dif_update_dsc_source_app_tag_mask d"
    "dif_update_dsc_destination_ref_tag (rebind d rec) = dif_update_dsc_destination_ref_tag d"
    "dif_update_dsc_destination_app_tag (rebind d rec) = dif_update_dsc_destination_app_tag d"
    "dif_update_dsc_destination_app_tag_mask (rebind d rec) = dif_update_dsc_destination_app_tag_mask d"
  unfolding view_defs by (rule get_field_rebind [OF assms]; simp)+

text \<open>A flag that \<open>rebind\<close> does not set.\<close>
lemma intersects_rebind:
  assumes "f \<noteq> flag_completion_record_address_valid" "f \<noteq> flag_request_completion_record"
  shows "intersects (w OR completion_record_flags) (flag_value f) \<longleftrightarrow> intersects w (flag_value f)"
  using assms unfolding intersects_flag completion_record_flags_def
  by (auto simp: bit_or_iff bit_flag_value simp del: flag_value.simps flag_index.simps)

text \<open>
  Connecting a completion record sets its address and the two flags that announce it;
  the operation, every operand and every other flag of the descriptor stay as they were, so the
  validator gives the same verdict.
\<close>
lemma rebind_contract:
  assumes "wf_descriptor d"
  shows "record_address (rebind d rec) = rec
    \<and> intersects (dsc_flags (rebind d rec)) (flag_value flag_completion_record_address_valid)
    \<and> intersects (dsc_flags (rebind d rec)) (flag_value flag_request_completion_record)
    \<and> (\<forall>f. f \<noteq> flag_completion_record_address_valid \<and> f \<noteq> flag_request_completion_record \<longrightarrow>
         intersects (dsc_flags (rebind d rec)) (flag_value f) = intersects (dsc_flags d) (flag_value f))
    \<and> drop 16 (rebind d rec) = drop 16 d
    \<and> dsc_operation (rebind d rec) = dsc_operation d
    \<and> validate (rebind d rec) = validate d"
proof -
  have "intersects (dsc_flags (rebind d rec)) (flag_value flag_completion_record_address_valid)"
    "intersects (dsc_flags (rebind d rec)) (flag_value flag_request_completion_record)"
    using assms by (simp_all add: intersects_flag bit_or_iff bit_flag_value completion_record_flags_def del: flag_value.simps)
  moreover have "drop 16 (rebind d rec) = drop 16 d"
    using assms by (simp add: rebind_def Let_def view_defs set_field_def wf_descriptor_def)
  moreover have "validate (rebind d rec) = validate d"
    by (simp only: validate_def validate_op_defs rebind_fields [OF assms])
  ultimately show ?thesis using assms by (simp add: intersects_rebind del: flag_value.simps)
qed

end
