(* ===== verification/DML_Continuation.thy ===== *)
theory DML_Continuation
  imports DML_Make_Descriptor
begin

text \<open>
  Continuation after a page fault (\<open>middle_layer/src/partial_completion.hpp\<close> and
  \<open>middle_layer/src/accumulate_records.hpp\<close>): the automatic path narrows a descriptor to the part
  the hardware has not processed, runs it in software, and adds up the two completion records.
  The loops that zero a record in both files act on a local copy (\<open>auto record = ...\<close>), so they
  change nothing and have no counterpart here.
\<close>

section \<open>Narrowing the descriptor\<close>

definition update_mem_move_for_continuation :: "descriptor \<Rightarrow> mem \<Rightarrow> descriptor" where
  "update_mem_move_for_continuation d m =
     (let r = record_at m (record_address d);
          d1 = (if 0 = cr_result r
                then let e1 = set_dsc_source_address (dsc_source_address d + ucast (cr_bytes_completed r)) d;
                         e2 = set_dsc_destination_address
                                (dsc_destination_address e1 + ucast (cr_bytes_completed r)) e1
                     in e2
                else d);
          d2 = set_dsc_transfer_size (dsc_transfer_size d1 - cr_bytes_completed r) d1
      in d2)"

definition update_fill_for_continuation :: "descriptor \<Rightarrow> mem \<Rightarrow> descriptor" where
  "update_fill_for_continuation d m =
     (let r = record_at m (record_address d);
          d1 = set_dsc_transfer_size (dsc_transfer_size d - cr_bytes_completed r) d;
          d2 = set_dsc_destination_address (dsc_destination_address d1 + ucast (cr_bytes_completed r)) d1
      in d2)"

definition update_compare_for_continuation :: "descriptor \<Rightarrow> mem \<Rightarrow> descriptor" where
  "update_compare_for_continuation d m =
     (let r = record_at m (record_address d);
          d1 = set_dsc_transfer_size (dsc_transfer_size d - cr_bytes_completed r) d;
          d2 = set_compare_dsc_source_1_address (compare_dsc_source_1_address d1 + ucast (cr_bytes_completed r)) d1;
          d3 = set_compare_dsc_source_2_address (compare_dsc_source_2_address d2 + ucast (cr_bytes_completed r)) d2
      in d3)"

definition update_compare_pattern_for_continuation :: "descriptor \<Rightarrow> mem \<Rightarrow> descriptor" where
  "update_compare_pattern_for_continuation d m =
     (let r = record_at m (record_address d);
          d1 = set_dsc_transfer_size (dsc_transfer_size d - cr_bytes_completed r) d;
          d2 = set_dsc_source_address (dsc_source_address d1 + ucast (cr_bytes_completed r)) d1
      in d2)"

definition update_create_delta_for_continuation :: "descriptor \<Rightarrow> mem \<Rightarrow> descriptor" where
  "update_create_delta_for_continuation d m =
     (let r = record_at m (record_address d);
          d1 = set_dsc_transfer_size (dsc_transfer_size d - cr_bytes_completed r) d;
          d2 = set_create_delta_dsc_source_1_address (create_delta_dsc_source_1_address d1 + ucast (cr_bytes_completed r)) d1;
          d3 = set_create_delta_dsc_source_2_address (create_delta_dsc_source_2_address d2 + ucast (cr_bytes_completed r)) d2;
          d4 = set_create_delta_dsc_maximum_delta_record_size (create_delta_dsc_maximum_delta_record_size d3 - create_delta_cr_delta_record_size r) d3;
          d5 = set_create_delta_dsc_delta_record_address (create_delta_dsc_delta_record_address d4 + ucast (create_delta_cr_delta_record_size r)) d4
      in d5)"

definition update_apply_delta_for_continuation :: "descriptor \<Rightarrow> mem \<Rightarrow> descriptor" where
  "update_apply_delta_for_continuation d m =
     (let r = record_at m (record_address d);
          d1 = set_apply_delta_dsc_delta_record_size (apply_delta_dsc_delta_record_size d - cr_bytes_completed r) d;
          d2 = set_apply_delta_dsc_delta_record_address (apply_delta_dsc_delta_record_address d1 + ucast (cr_bytes_completed r)) d1
      in d2)"

definition update_dualcast_for_continuation :: "descriptor \<Rightarrow> mem \<Rightarrow> descriptor" where
  "update_dualcast_for_continuation d m =
     (let r = record_at m (record_address d);
          d1 = set_dualcast_dsc_destination_1_address (dualcast_dsc_destination_1_address d + ucast (cr_bytes_completed r)) d;
          d2 = set_dualcast_dsc_destination_2_address (dualcast_dsc_destination_2_address d1 + ucast (cr_bytes_completed r)) d1;
          d3 = set_dsc_source_address (dsc_source_address d2 + ucast (cr_bytes_completed r)) d2;
          d4 = set_dsc_transfer_size (dsc_transfer_size d3 - cr_bytes_completed r) d3
      in d4)"

definition update_crc_for_continuation :: "descriptor \<Rightarrow> mem \<Rightarrow> descriptor" where
  "update_crc_for_continuation d m =
     (let r = record_at m (record_address d);
          d1 = set_crc_dsc_crc_seed (crc_cr_crc_value r) d;
          d2 = set_dsc_source_address (dsc_source_address d1 + ucast (cr_bytes_completed r)) d1;
          d3 = set_dsc_transfer_size (dsc_transfer_size d2 - cr_bytes_completed r) d2
      in d3)"

definition update_copy_crc_for_continuation :: "descriptor \<Rightarrow> mem \<Rightarrow> descriptor" where
  "update_copy_crc_for_continuation d m =
     (let r = record_at m (record_address d);
          d1 = set_copy_crc_dsc_crc_seed (crc_cr_crc_value r) d;
          d2 = set_dsc_source_address (dsc_source_address d1 + ucast (cr_bytes_completed r)) d1;
          d3 = set_dsc_destination_address (dsc_destination_address d2 + ucast (cr_bytes_completed r)) d2;
          d4 = set_dsc_transfer_size (dsc_transfer_size d3 - cr_bytes_completed r) d3
      in d4)"

definition update_dif_check_for_continuation :: "descriptor \<Rightarrow> mem \<Rightarrow> descriptor" where
  "update_dif_check_for_continuation d m =
     (let r = record_at m (record_address d);
          d1 = set_dif_check_dsc_source_app_tag (dif_check_cr_source_app_tag r) d;
          d2 = set_dif_check_dsc_source_ref_tag (dif_check_cr_source_ref_tag r) d1;
          d3 = set_dsc_source_address (dsc_source_address d2 + ucast (cr_bytes_completed r)) d2;
          d4 = set_dsc_transfer_size (dsc_transfer_size d3 - cr_bytes_completed r) d3
      in d4)"

definition update_dif_insert_for_continuation :: "descriptor \<Rightarrow> mem \<Rightarrow> descriptor" where
  "update_dif_insert_for_continuation d m =
     (let r = record_at m (record_address d);
          d1 = set_dif_insert_dsc_destination_app_tag (dif_insert_cr_destination_app_tag r) d;
          d2 = set_dif_insert_dsc_destination_ref_tag (dif_insert_cr_destination_ref_tag r) d1;
          d3 = set_dsc_source_address (dsc_source_address d2 + ucast (cr_bytes_completed r)) d2;
          d4 = set_dsc_destination_address (dsc_destination_address d3 + ucast (cr_bytes_completed r)) d3;
          d5 = set_dsc_transfer_size (dsc_transfer_size d4 - cr_bytes_completed r) d4
      in d5)"

definition update_dif_strip_for_continuation :: "descriptor \<Rightarrow> mem \<Rightarrow> descriptor" where
  "update_dif_strip_for_continuation d m =
     (let r = record_at m (record_address d);
          d1 = set_dif_strip_dsc_source_app_tag (dif_strip_cr_source_app_tag r) d;
          d2 = set_dif_strip_dsc_source_ref_tag (dif_strip_cr_source_ref_tag r) d1;
          d3 = set_dsc_source_address (dsc_source_address d2 + ucast (cr_bytes_completed r)) d2;
          d4 = set_dsc_destination_address (dsc_destination_address d3 + ucast (cr_bytes_completed r)) d3;
          d5 = set_dsc_transfer_size (dsc_transfer_size d4 - cr_bytes_completed r) d4
      in d5)"

definition update_dif_update_for_continuation :: "descriptor \<Rightarrow> mem \<Rightarrow> descriptor" where
  "update_dif_update_for_continuation d m =
     (let r = record_at m (record_address d);
          d1 = set_dif_update_dsc_source_app_tag (dif_update_cr_source_app_tag r) d;
          d2 = set_dif_update_dsc_source_app_tag (dif_update_cr_source_app_tag r) d1;
          d3 = set_dif_update_dsc_destination_app_tag (dif_update_cr_destination_app_tag r) d2;
          d4 = set_dif_update_dsc_destination_ref_tag (dif_update_cr_destination_ref_tag r) d3;
          d5 = set_dif_update_dsc_source_ref_tag (dif_update_cr_source_ref_tag r) d4;
          d6 = set_dsc_source_address (dsc_source_address d5 + ucast (cr_bytes_completed r)) d5;
          d7 = set_dsc_destination_address (dsc_destination_address d6 + ucast (cr_bytes_completed r)) d6;
          d8 = set_dsc_transfer_size (dsc_transfer_size d7 - cr_bytes_completed r) d7
      in d8)"

definition update_cache_flush_for_continuation :: "descriptor \<Rightarrow> mem \<Rightarrow> descriptor" where
  "update_cache_flush_for_continuation d m =
     (let r = record_at m (record_address d);
          d1 = set_dsc_destination_address (dsc_destination_address d + ucast (cr_bytes_completed r)) d;
          d2 = set_dsc_transfer_size (dsc_transfer_size d1 - cr_bytes_completed r) d1
      in d2)"

definition update_for_continuation :: "descriptor \<Rightarrow> mem \<Rightarrow> descriptor" where
  "update_for_continuation d m =
     (case operation_of (dsc_operation d) of
        None \<Rightarrow> d
      | Some op_nop \<Rightarrow> d
      | Some op_drain \<Rightarrow> d
      | Some op_batch \<Rightarrow> d
      | Some op_mem_move \<Rightarrow> update_mem_move_for_continuation d m
      | Some op_fill \<Rightarrow> update_fill_for_continuation d m
      | Some op_compare \<Rightarrow> update_compare_for_continuation d m
      | Some op_compare_pattern \<Rightarrow> update_compare_pattern_for_continuation d m
      | Some op_create_delta \<Rightarrow> update_create_delta_for_continuation d m
      | Some op_apply_delta \<Rightarrow> update_apply_delta_for_continuation d m
      | Some op_dualcast \<Rightarrow> update_dualcast_for_continuation d m
      | Some op_crc \<Rightarrow> update_crc_for_continuation d m
      | Some op_copy_crc \<Rightarrow> update_copy_crc_for_continuation d m
      | Some op_dif_check \<Rightarrow> update_dif_check_for_continuation d m
      | Some op_dif_insert \<Rightarrow> update_dif_insert_for_continuation d m
      | Some op_dif_strip \<Rightarrow> update_dif_strip_for_continuation d m
      | Some op_dif_update \<Rightarrow> update_dif_update_for_continuation d m
      | Some op_cache_flush \<Rightarrow> update_cache_flush_for_continuation d m)"

section \<open>Accumulating the records\<close>

definition accumulate_records_mem_move :: "descriptor \<Rightarrow> completion_record \<Rightarrow> mem \<Rightarrow> mem" where
  "accumulate_records_mem_move d prev m =
     (let a = record_address d
      in set_cr_bytes_completed a (cr_bytes_completed (record_at m a) + cr_bytes_completed prev) m)"

definition accumulate_records_fill :: "descriptor \<Rightarrow> completion_record \<Rightarrow> mem \<Rightarrow> mem" where
  "accumulate_records_fill d prev m =
     (let a = record_address d
      in set_cr_bytes_completed a (cr_bytes_completed (record_at m a) + cr_bytes_completed prev) m)"

definition accumulate_records_compare :: "descriptor \<Rightarrow> completion_record \<Rightarrow> mem \<Rightarrow> mem" where
  "accumulate_records_compare d prev m =
     (let a = record_address d
      in set_cr_bytes_completed a (cr_bytes_completed prev) m)"

definition accumulate_records_compare_pattern :: "descriptor \<Rightarrow> completion_record \<Rightarrow> mem \<Rightarrow> mem" where
  "accumulate_records_compare_pattern d prev m =
     (let a = record_address d
      in set_cr_bytes_completed a (cr_bytes_completed (record_at m a) + cr_bytes_completed prev) m)"

text \<open>
  The loop over the notes of the continued run: it adds the blocks already compared to every
  block index. The loop ends after as many steps as the record has notes; the argument bounds
  the steps by that number.
\<close>
primrec shift_offsets :: "nat \<Rightarrow> addr \<Rightarrow> addr \<Rightarrow> u32 \<Rightarrow> mem \<Rightarrow> mem" where
  "shift_offsets 0 delta_record_addr end_delta_record blocks m = m"
| "shift_offsets (Suc fuel) delta_record_addr end_delta_record blocks m =
     (if delta_record_addr < end_delta_record
      then shift_offsets fuel (delta_record_addr + 10) end_delta_record blocks
             (store m delta_record_addr (load m delta_record_addr + ucast blocks :: u16))
      else m)"

definition accumulate_records_create_delta :: "descriptor \<Rightarrow> completion_record \<Rightarrow> mem \<Rightarrow> mem" where
  "accumulate_records_create_delta d prev m =
     (let a = record_address d;
          m1 = set_cr_bytes_completed a (cr_bytes_completed (record_at m a) + cr_bytes_completed prev) m;
          partial_blocks_completed = cr_bytes_completed prev div 8;
          delta = create_delta_dsc_delta_record_address d;
          delta_size = create_delta_cr_delta_record_size (record_at m1 a);
          end_delta_record = delta + ucast delta_size;
          m2 = shift_offsets ((unat delta_size + 9) div 10) delta end_delta_record
                 partial_blocks_completed m1
      in set_create_delta_cr_delta_record_size a
           (create_delta_cr_delta_record_size (record_at m2 a) + create_delta_cr_delta_record_size prev) m2)"

definition accumulate_records_apply_delta :: "descriptor \<Rightarrow> completion_record \<Rightarrow> mem \<Rightarrow> mem" where
  "accumulate_records_apply_delta d prev m =
     (let a = record_address d
      in set_cr_bytes_completed a (cr_bytes_completed (record_at m a) + cr_bytes_completed prev) m)"

definition accumulate_records_dualcast :: "descriptor \<Rightarrow> completion_record \<Rightarrow> mem \<Rightarrow> mem" where
  "accumulate_records_dualcast d prev m =
     (let a = record_address d
      in set_cr_bytes_completed a (cr_bytes_completed (record_at m a) + cr_bytes_completed prev) m)"

definition accumulate_records_crc :: "descriptor \<Rightarrow> completion_record \<Rightarrow> mem \<Rightarrow> mem" where
  "accumulate_records_crc d prev m =
     (let a = record_address d
      in set_cr_bytes_completed a (cr_bytes_completed (record_at m a) + cr_bytes_completed prev) m)"

definition accumulate_records_copy_crc :: "descriptor \<Rightarrow> completion_record \<Rightarrow> mem \<Rightarrow> mem" where
  "accumulate_records_copy_crc d prev m =
     (let a = record_address d
      in set_cr_bytes_completed a (cr_bytes_completed (record_at m a) + cr_bytes_completed prev) m)"

definition accumulate_records_dif_check :: "descriptor \<Rightarrow> completion_record \<Rightarrow> mem \<Rightarrow> mem" where
  "accumulate_records_dif_check d prev m =
     (let a = record_address d
      in set_cr_bytes_completed a (cr_bytes_completed (record_at m a) + cr_bytes_completed prev) m)"

definition accumulate_records_dif_insert :: "descriptor \<Rightarrow> completion_record \<Rightarrow> mem \<Rightarrow> mem" where
  "accumulate_records_dif_insert d prev m =
     (let a = record_address d
      in set_cr_bytes_completed a (cr_bytes_completed (record_at m a) + cr_bytes_completed prev) m)"

definition accumulate_records_dif_strip :: "descriptor \<Rightarrow> completion_record \<Rightarrow> mem \<Rightarrow> mem" where
  "accumulate_records_dif_strip d prev m =
     (let a = record_address d
      in set_cr_bytes_completed a (cr_bytes_completed (record_at m a) + cr_bytes_completed prev) m)"

definition accumulate_records_dif_update :: "descriptor \<Rightarrow> completion_record \<Rightarrow> mem \<Rightarrow> mem" where
  "accumulate_records_dif_update d prev m =
     (let a = record_address d
      in set_cr_bytes_completed a (cr_bytes_completed (record_at m a) + cr_bytes_completed prev) m)"

definition accumulate_records_cache_flush :: "descriptor \<Rightarrow> completion_record \<Rightarrow> mem \<Rightarrow> mem" where
  "accumulate_records_cache_flush d prev m =
     (let a = record_address d
      in set_cr_bytes_completed a (cr_bytes_completed (record_at m a) + cr_bytes_completed prev) m)"

definition accumulate_records :: "descriptor \<Rightarrow> completion_record \<Rightarrow> mem \<Rightarrow> mem" where
  "accumulate_records d prev m =
     (case operation_of (dsc_operation d) of
        None \<Rightarrow> m
      | Some op_nop \<Rightarrow> m
      | Some op_drain \<Rightarrow> m
      | Some op_batch \<Rightarrow> m
      | Some op_mem_move \<Rightarrow> accumulate_records_mem_move d prev m
      | Some op_fill \<Rightarrow> accumulate_records_fill d prev m
      | Some op_compare \<Rightarrow> accumulate_records_compare d prev m
      | Some op_compare_pattern \<Rightarrow> accumulate_records_compare_pattern d prev m
      | Some op_create_delta \<Rightarrow> accumulate_records_create_delta d prev m
      | Some op_apply_delta \<Rightarrow> accumulate_records_apply_delta d prev m
      | Some op_dualcast \<Rightarrow> accumulate_records_dualcast d prev m
      | Some op_crc \<Rightarrow> accumulate_records_crc d prev m
      | Some op_copy_crc \<Rightarrow> accumulate_records_copy_crc d prev m
      | Some op_dif_check \<Rightarrow> accumulate_records_dif_check d prev m
      | Some op_dif_insert \<Rightarrow> accumulate_records_dif_insert d prev m
      | Some op_dif_strip \<Rightarrow> accumulate_records_dif_strip d prev m
      | Some op_dif_update \<Rightarrow> accumulate_records_dif_update d prev m
      | Some op_cache_flush \<Rightarrow> accumulate_records_cache_flush d prev m)"

end
