(* ===== verification/DML_Hardware.thy ===== *)
theory DML_Hardware
  imports DML_Core_Kernels
begin

text \<open>
  Submission to the accelerator (\<open>core/src/hardware_device.cpp\<close>, \<open>core/src/hw_dispatcher/hw_device.cpp\<close>
  and \<open>hw_queue.cpp\<close>): the portal of a work queue, the search for a free queue of a device, and
  the search for a device on the requested NUMA node. The \<open>ENQCMD\<close> instruction is an argument: it
  takes a portal address and a descriptor, may change the state of the environment, and yields
  the retry flag.
\<close>

section \<open>Work queues\<close>

definition OWN_PAGE_MASK :: addr where
  "OWN_PAGE_MASK = 0x0FFF"

datatype supported_memory_type = durable | non_durable

record hw_queue =
  hw_version :: u32
  hw_priority :: int
  memory_type :: supported_memory_type
  portal_mask :: addr
  portal_offset :: addr

definition set_portal_ptr :: "addr \<Rightarrow> hw_queue \<Rightarrow> hw_queue" where
  "set_portal_ptr value_ptr q =
     q\<lparr> portal_offset := value_ptr AND OWN_PAGE_MASK,
        portal_mask := value_ptr AND NOT OWN_PAGE_MASK \<rparr>"

text \<open>The portal to use now, and the queue with its offset advanced.\<close>
definition get_portal_ptr :: "hw_queue \<Rightarrow> addr \<times> hw_queue" where
  "get_portal_ptr q =
     (let off = push_bit 6 (portal_offset q) AND OWN_PAGE_MASK
      in (off OR portal_mask q, q\<lparr> portal_offset := portal_offset q + 1 \<rparr>))"

type_synonym 'h enqcmd = "addr \<Rightarrow> descriptor \<Rightarrow> 'h \<Rightarrow> bool \<times> 'h"

text \<open>\<open>hw_queue::enqueue_descriptor\<close>: the retry flag, the queue and the environment.\<close>
definition hw_queue_enqueue :: "'h enqcmd \<Rightarrow> descriptor \<Rightarrow> hw_queue \<Rightarrow> 'h \<Rightarrow> bool \<times> hw_queue \<times> 'h" where
  "hw_queue_enqueue enqcmd d q h =
     (let (portal, q') = get_portal_ptr q;
          (retry, h') = enqcmd portal d h
      in (retry, q', h'))"

section \<open>Devices\<close>

record hw_device =
  working_queues :: "hw_queue list"
  queue_count :: nat
  gen_cap_register :: u64
  numa_node_id :: u64
  version_major :: u32
  version_minor :: u32

text \<open>The indices the two loops of \<open>hw_device::enqueue_descriptor\<close> visit.\<close>
definition probe_order :: "nat \<Rightarrow> nat \<Rightarrow> nat list" where
  "probe_order n_queues last_wq_idx = [last_wq_idx + 1 ..< n_queues] @ [0 ..< last_wq_idx + 1]"

fun try_queues :: "'h enqcmd \<Rightarrow> descriptor \<Rightarrow> nat list \<Rightarrow> hw_queue list \<Rightarrow> 'h
    \<Rightarrow> nat option \<times> hw_queue list \<times> 'h" where
  "try_queues enqcmd d [] queues h = (None, queues, h)"
| "try_queues enqcmd d (idx # rest) queues h =
     (let (retry, q', h') = hw_queue_enqueue enqcmd d (queues ! idx) h;
          queues' = queues[idx := q']
      in if \<not> retry then (Some idx, queues', h') else try_queues enqcmd d rest queues' h')"

text \<open>
  \<open>hw_device::enqueue_descriptor\<close>. \<open>last_wq_idx\<close> is a \<open>static thread_local\<close> variable of the
  function: one per thread, for all devices, initialised by the first call.
\<close>
definition hw_device_enqueue :: "'h enqcmd \<Rightarrow> descriptor \<Rightarrow> hw_device \<Rightarrow> nat option \<Rightarrow> 'h
    \<Rightarrow> dml_status \<times> hw_device \<times> nat option \<times> 'h" where
  "hw_device_enqueue enqcmd d device last_wq_idx h =
     (let n_queues = queue_count device;
          last = (case last_wq_idx of None \<Rightarrow> n_queues - 1 | Some l \<Rightarrow> l);
          (found, queues, h') = try_queues enqcmd d (probe_order n_queues last) (working_queues device) h;
          device' = device\<lparr> working_queues := queues \<rparr>
      in case found of
           Some idx \<Rightarrow> (DML_STATUS_OK, device', Some idx, h')
         | None \<Rightarrow> (DML_STATUS_WORK_QUEUE_OVERFLOW_ERROR, device', Some last, h'))"

section \<open>The hardware device\<close>

record 'h hw_state =
  devices :: "hw_device list"
  hw_support :: bool
  last_wq_idx :: "nat option"
  current_device_idx :: nat
  hw_env :: 'h

text \<open>\<open>enqueue(device, dsc)\<close>: the completion record is cleared before the submission.\<close>
definition hw_enqueue :: "'h enqcmd \<Rightarrow> nat \<Rightarrow> descriptor \<Rightarrow> 'h hw_state \<Rightarrow> mem
    \<Rightarrow> submission_status \<times> 'h hw_state \<times> mem" where
  "hw_enqueue enqcmd idx d S m =
     (let m' = store_bytes m (record_address d) (replicate 32 0);
          (status, device', last', h') =
            hw_device_enqueue enqcmd d (devices S ! idx) (last_wq_idx S) (hw_env S);
          S' = S\<lparr> devices := (devices S)[idx := device'], last_wq_idx := last', hw_env := h' \<rparr>
      in (if status = DML_STATUS_OK then sub_success else sub_failure, S', m'))"

text \<open>The loop of \<open>hardware_device::submit\<close>; the count is that of the devices not tried yet.\<close>
primrec hw_submit_loop :: "'h enqcmd \<Rightarrow> u64 \<Rightarrow> descriptor \<Rightarrow> nat \<Rightarrow> 'h hw_state \<Rightarrow> mem
    \<Rightarrow> submission_status \<times> 'h hw_state \<times> mem" where
  "hw_submit_loop enqcmd own_numa_id d 0 S m = (sub_queue_busy, S, m)"
| "hw_submit_loop enqcmd own_numa_id d (Suc untried) S m =
     (let device_count = length (devices S);
          idx = current_device_idx S mod device_count;
          S1 = S\<lparr> current_device_idx := (current_device_idx S + 1) mod device_count \<rparr>
      in if own_numa_id \<noteq> numa_node_id (devices S ! idx)
         then hw_submit_loop enqcmd own_numa_id d untried S1 m
         else
           let (status, S2, m2) = hw_enqueue enqcmd idx d S1 m
           in if status \<noteq> sub_success then hw_submit_loop enqcmd own_numa_id d untried S2 m2
              else (status, S2, m2))"

text \<open>\<open>util::get_numa_id\<close>, from the value of \<open>TSC_AUX\<close>.\<close>
definition get_numa_id :: "u32 \<Rightarrow> u32" where
  "get_numa_id tsc_aux = drop_bit 12 tsc_aux"

definition hardware_submit :: "'h enqcmd \<Rightarrow> u32 \<Rightarrow> descriptor \<Rightarrow> u32 \<Rightarrow> 'h hw_state \<Rightarrow> mem
    \<Rightarrow> submission_status \<times> 'h hw_state \<times> mem" where
  "hardware_submit enqcmd tsc_aux d requested_numa S m =
     (let own_numa_id = (if requested_numa = 0xFFFFFFFF then get_numa_id tsc_aux else requested_numa)
      in if hw_support S
         then hw_submit_loop enqcmd (ucast own_numa_id) d (length (devices S)) S m
         else (sub_failure, S, m))"

section \<open>Portals\<close>

lemma get_portal_mask [simp]: "portal_mask (snd (get_portal_ptr q)) = portal_mask q"
  by (simp add: get_portal_ptr_def Let_def)

lemma bit_page_mask: "bit OWN_PAGE_MASK i \<longleftrightarrow> i < 12"
proof -
  have m: "OWN_PAGE_MASK = mask 12" by (simp add: OWN_PAGE_MASK_def mask_eq_exp_minus_1)
  show ?thesis unfolding m by (auto simp: bit_mask_iff)
qed

text \<open>
  Every portal a queue hands out lies on the page that was mapped for it, at a multiple
  of 64 bytes, however many submissions went before.
\<close>
lemma portal_in_page:
  assumes "q = ((\<lambda>q. snd (get_portal_ptr q)) ^^ k) (set_portal_ptr region q0)"
  shows "fst (get_portal_ptr q) AND NOT OWN_PAGE_MASK = region AND NOT OWN_PAGE_MASK
    \<and> 64 dvd unat (fst (get_portal_ptr q) AND OWN_PAGE_MASK)"
proof -
  have m: "portal_mask q = region AND NOT OWN_PAGE_MASK"
    unfolding assms by (induction k) (simp_all add: set_portal_ptr_def)
  have "fst (get_portal_ptr q) AND NOT OWN_PAGE_MASK = region AND NOT OWN_PAGE_MASK"
    unfolding get_portal_ptr_def Let_def fst_conv m
    by (rule bit_word_eqI) (auto simp: bit_simps bit_page_mask)
  moreover have "take_bit 6 (fst (get_portal_ptr q) AND OWN_PAGE_MASK) = 0"
    unfolding get_portal_ptr_def Let_def fst_conv m
    by (rule bit_word_eqI) (auto simp: bit_simps bit_page_mask)
  then have "unat (fst (get_portal_ptr q) AND OWN_PAGE_MASK) mod 2 ^ 6 = 0"
    by (metis take_bit_eq_mod unsigned_0 unsigned_take_bit_eq)
  ultimately show ?thesis by (simp add: mod_eq_0_iff_dvd)
qed

section \<open>Finding a queue\<close>

lemma set_probe_order: "set (probe_order n l) = {l + 1 ..< n} \<union> {0 .. l}"
  by (auto simp: probe_order_def)

lemma distinct_probe_order: "distinct (probe_order n l)"
  by (auto simp: probe_order_def)

text \<open>
  A device probes each of its queues exactly once, starting behind the last one used,
  exactly when the remembered index is one of its own queues. The index is shared by all devices
  of a thread: after a submission to a device with more queues it can be out of range, and then
  queues beyond the last initialised one are probed too.
\<close>
lemma probe_order_in_range:
  assumes "0 < n"
  shows "(l < n \<longleftrightarrow> set (probe_order n l) = {0 ..< n}) \<and> distinct (probe_order n l)
    \<and> (n \<le> l \<longrightarrow> l \<in> set (probe_order n l))"
  using assms by (auto simp: set_probe_order distinct_probe_order)

lemma try_queues_length:
  "try_queues enqcmd d order qs h = (r, qs', h') \<Longrightarrow> length qs' = length qs"
  by (induction order arbitrary: qs h) (auto simp: Let_def split: prod.splits if_splits)

lemma try_queues_found:
  "try_queues enqcmd d order qs h = (Some i, qs', h') \<Longrightarrow> i \<in> set order"
  by (induction order arbitrary: qs h) (auto simp: Let_def split: prod.splits if_splits)

text \<open>
  While the remembered index belongs to the device, a submission probes initialised
  queues only, the index it remembers afterwards belongs to the device again, and the status tells
  whether a queue accepted the descriptor.
\<close>
lemma hw_device_enqueue_in_range:
  assumes "0 < queue_count dev" "queue_count dev \<le> length (working_queues dev)"
    and "case l of None \<Rightarrow> True | Some i \<Rightarrow> i < queue_count dev"
    and "hw_device_enqueue enqcmd d dev l h = (status, dev', l', h')"
  shows "(\<exists>i < queue_count dev. l' = Some i) \<and> queue_count dev' = queue_count dev
    \<and> length (working_queues dev') = length (working_queues dev)
    \<and> status \<in> {DML_STATUS_OK, DML_STATUS_WORK_QUEUE_OVERFLOW_ERROR}"
proof -
  let ?last = "case l of None \<Rightarrow> queue_count dev - 1 | Some i \<Rightarrow> i"
  have last: "?last < queue_count dev" using assms(1,3) by (auto split: option.splits)
  obtain found qs h1 where probe: "try_queues enqcmd d (probe_order (queue_count dev) ?last)
      (working_queues dev) h = (found, qs, h1)" using prod_cases3 by blast
  have "i < queue_count dev" if "found = Some i" for i
    using try_queues_found [of enqcmd d "probe_order (queue_count dev) ?last" "working_queues dev" h i qs h1]
      probe that last by (auto simp: set_probe_order)
  moreover have "length qs = length (working_queues dev)" using try_queues_length [OF probe] by simp
  ultimately show ?thesis
    using assms(4) probe last by (auto simp: hw_device_enqueue_def Let_def split: option.splits)
qed

section \<open>Finding a device\<close>

text \<open>
  A hardware submission with no device on the requested NUMA node is refused as busy,
  and one without hardware support as failed; in both cases the completion record, the queues and
  the device are left untouched, so the software path may still run the descriptor.
\<close>
lemma hardware_submit_refused:
  assumes "own = (if requested = 0xFFFFFFFF then get_numa_id tsc else requested)"
    and "\<not> hw_support S \<or> (\<forall>dev \<in> set (devices S). numa_node_id dev \<noteq> ucast own)"
    and "hardware_submit enqcmd tsc d requested S m = (status, S', m')"
  shows "status = (if hw_support S then sub_queue_busy else sub_failure)
    \<and> m' = m \<and> devices S' = devices S \<and> hw_env S' = hw_env S"
proof -
  have loop: "k \<le> length (devices R) \<Longrightarrow> devices R = devices S \<Longrightarrow> hw_env R = hw_env S \<Longrightarrow>
      \<exists>R'. hw_submit_loop enqcmd (ucast own) d k R m = (sub_queue_busy, R', m)
        \<and> devices R' = devices S \<and> hw_env R' = hw_env S"
    if "\<forall>dev \<in> set (devices S). numa_node_id dev \<noteq> ucast own" for k R
  proof (induction k arbitrary: R)
    case (Suc k)
    let ?i = "current_device_idx R mod length (devices S)"
    have "0 < length (devices S)" using Suc.prems by auto
    then have "?i < length (devices S)" by (rule mod_less_divisor)
    then have "numa_node_id (devices S ! ?i) \<noteq> ucast own" using that by auto
    then show ?case
      using Suc.prems Suc.IH [of "R\<lparr> current_device_idx := (current_device_idx R + 1) mod length (devices S) \<rparr>"]
      by (auto simp: Let_def)
  qed auto
  show ?thesis
  proof (cases "hw_support S")
    case True
    with assms(2) obtain S1 where "hw_submit_loop enqcmd (ucast own) d (length (devices S)) S m
        = (sub_queue_busy, S1, m)" "devices S1 = devices S" "hw_env S1 = hw_env S"
      using loop [of "length (devices S)" S] by auto
    with True assms(1,3) show ?thesis by (simp add: hardware_submit_def Let_def split: if_splits)
  next
    case False
    with assms(3) show ?thesis by (simp add: hardware_submit_def)
  qed
qed

text \<open>One device on NUMA node 1.\<close>
definition sample_hw :: "unit hw_state" where
  "sample_hw = \<lparr>devices = [\<lparr>working_queues = [], queue_count = 0, gen_cap_register = 0,
       numa_node_id = 1, version_major = 1, version_minor = 0\<rparr>],
     hw_support = True, last_wq_idx = None, current_device_idx = 0, hw_env = ()\<rparr>"

end
