(* ===== verification/DML_Interconnect.thy ===== *)
theory DML_Interconnect
  imports DML_Continuation DML_Hardware
begin

text \<open>
  The execution paths (\<open>middle_layer/src/core_interconnect.cpp\<close>, \<open>ml/execution_path.hpp\<close>,
  \<open>middle_layer/src/result.cpp\<close>) and the wait loops (\<open>core/src/sw_dispatcher/wait/wait.cpp\<close>):
  validation, submission, waiting and polling for the software, the hardware and the automatic
  path. A wait observes memory over time: a trace gives the memory at each read of the status
  byte, so that a loop that never sees a non-zero status does not return.
\<close>

section \<open>Waiting\<close>

type_synonym trace = "nat \<Rightarrow> mem"

text \<open>\<open>dml_wait_busy_poll\<close>: the read at which the loop ends.\<close>
partial_function (option) dml_wait_busy_poll :: "trace \<Rightarrow> addr \<Rightarrow> nat \<Rightarrow> nat option" where
  "dml_wait_busy_poll tr pointer i =
     (if tr i pointer = 0 then dml_wait_busy_poll tr pointer (Suc i) else Some i)"

text \<open>\<open>dml_wait_umwait\<close>: \<open>UMONITOR\<close> and \<open>UMWAIT\<close> only delay the next read.\<close>
partial_function (option) dml_wait_umwait :: "trace \<Rightarrow> addr \<Rightarrow> nat \<Rightarrow> nat option" where
  "dml_wait_umwait tr pointer i =
     (if tr i pointer = 0 then dml_wait_umwait tr pointer (Suc i) else Some i)"

section \<open>The software path\<close>

definition software_validate :: "descriptor \<Rightarrow> validation_status" where
  "software_validate d = validate d"

definition software_finished :: "descriptor \<Rightarrow> mem \<Rightarrow> bool" where
  "software_finished d m \<longleftrightarrow> record_at m (record_address d) ! 0 \<noteq> 0"

definition software_wait :: "trace \<Rightarrow> descriptor \<Rightarrow> bool \<Rightarrow> nat \<Rightarrow> nat option" where
  "software_wait tr d umwait i =
     (if software_finished d (tr i) then Some i
      else if umwait then dml_wait_umwait tr (record_address d) i
      else dml_wait_busy_poll tr (record_address d) i)"

section \<open>The automatic path\<close>

text \<open>\<open>hardware::validate\<close>, \<open>hardware::wait\<close> and \<open>hardware::finished\<close> call the software ones.\<close>
definition automatic_validate :: "descriptor \<Rightarrow> validation_status" where
  "automatic_validate d = software_validate d"

definition automatic_submit :: "dispatch_table \<Rightarrow> 'h enqcmd \<Rightarrow> u32 \<Rightarrow> descriptor \<Rightarrow> u32
    \<Rightarrow> 'h hw_state \<Rightarrow> machine \<Rightarrow> submission_status \<times> 'h hw_state \<times> machine" where
  "automatic_submit T enqcmd tsc_aux d requested_numa S st =
     (let (status, S', m') = hardware_submit enqcmd tsc_aux d requested_numa S (fst st)
      in if status \<noteq> sub_success
         then let (status', st') = software_submit T d (m', snd st) in (status', S', st')
         else (status, S', (m', snd st)))"

definition is_page_fault :: "u8 \<Rightarrow> bool" where
  "is_page_fault status \<longleftrightarrow>
     status AND 0x7f = execution_status_value page_fault_during_processing"

text \<open>
  The continuation in \<open>automatic::wait\<close> and \<open>automatic::finished\<close>: clone the record, narrow the
  descriptor, run it in software, wait, add up the records. \<open>None\<close> when the wait does not return.
\<close>
definition continue_in_software :: "dispatch_table \<Rightarrow> descriptor \<Rightarrow> bool \<Rightarrow> machine
    \<Rightarrow> (descriptor \<times> machine) option" where
  "continue_in_software T d umwait st =
     (let prev_record = record_at (fst st) (record_address d);
          d' = update_for_continuation d (fst st);
          (_, st') = software_submit T d' st
      in case software_wait (\<lambda>_. fst st') d' umwait 0 of
           None \<Rightarrow> None
         | Some _ \<Rightarrow> Some (d', (accumulate_records d' prev_record (fst st'), snd st')))"

definition automatic_wait :: "dispatch_table \<Rightarrow> trace \<Rightarrow> descriptor \<Rightarrow> bool \<Rightarrow> cache_event list
    \<Rightarrow> (descriptor \<times> machine) option" where
  "automatic_wait T tr d umwait ev =
     (case software_wait tr d umwait 0 of
        None \<Rightarrow> None
      | Some i \<Rightarrow>
          if is_page_fault (cr_status (record_at (tr i) (record_address d)))
          then continue_in_software T d umwait (tr i, ev)
          else Some (d, (tr i, ev)))"

definition automatic_finished :: "dispatch_table \<Rightarrow> descriptor \<Rightarrow> machine
    \<Rightarrow> (bool \<times> descriptor \<times> machine) option" where
  "automatic_finished T d st =
     (let is_finished = software_finished d (fst st)
      in if is_finished \<and> is_page_fault (cr_status (record_at (fst st) (record_address d)))
         then (case continue_in_software T d True st of
                 None \<Rightarrow> None
               | Some (d', st') \<Rightarrow> Some (software_finished d' (fst st'), d', st'))
         else Some (is_finished, d, st))"

section \<open>Execution (\<open>ml/execution_path.hpp\<close>)\<close>

datatype execution_path = software | hardware | automatic

text \<open>
  The surroundings of the library: the dispatched routines, the \<open>ENQCMD\<close> instruction, the value
  of \<open>TSC_AUX\<close>, how devices and other threads change memory as time passes, and where a
  temporary task is placed on the stack.
\<close>
record 'h platform =
  pf_table :: dispatch_table
  pf_enqcmd :: "'h enqcmd"
  pf_tsc_aux :: u32
  pf_progress :: "nat \<Rightarrow> mem \<Rightarrow> mem"
  pf_stack :: addr

text \<open>What the reads of a wait loop that starts with memory \<open>m\<close> see.\<close>
definition observe :: "'h platform \<Rightarrow> mem \<Rightarrow> trace" where
  "observe pf m i = (if i = 0 then m else pf_progress pf i m)"

type_synonym 'h sys = "'h hw_state \<times> machine"

text \<open>\<open>software::validate\<close>, \<open>hardware::validate\<close> and \<open>automatic::validate\<close>.\<close>
definition path_validate :: "execution_path \<Rightarrow> descriptor \<Rightarrow> validation_status" where
  "path_validate path d =
     (case path of software \<Rightarrow> software_validate d | hardware \<Rightarrow> software_validate d
      | automatic \<Rightarrow> automatic_validate d)"

text \<open>\<open>software::submit\<close>, \<open>hardware::submit\<close> and \<open>automatic::submit\<close>.\<close>
definition path_submit :: "'h platform \<Rightarrow> execution_path \<Rightarrow> descriptor \<Rightarrow> u32 \<Rightarrow> 'h sys
    \<Rightarrow> submission_status \<times> 'h sys" where
  "path_submit pf path d numa_id sys =
     (case sys of (S, st) \<Rightarrow>
       (case path of
          software \<Rightarrow> (let (status, st') = software_submit (pf_table pf) d st in (status, (S, st')))
        | hardware \<Rightarrow>
            (let (status, S', m') = hardware_submit (pf_enqcmd pf) (pf_tsc_aux pf) d numa_id S (fst st)
             in (status, (S', (m', snd st))))
        | automatic \<Rightarrow>
            automatic_submit (pf_table pf) (pf_enqcmd pf) (pf_tsc_aux pf) d numa_id S st))"

text \<open>
  The three \<open>wait\<close> and \<open>finished\<close> functions on the descriptor at address \<open>a\<close>. The automatic path
  may narrow the descriptor, which is then written back.
\<close>
definition path_wait :: "'h platform \<Rightarrow> execution_path \<Rightarrow> addr \<Rightarrow> bool \<Rightarrow> machine \<Rightarrow> machine option" where
  "path_wait pf path a umwait st =
     (let d = load_bytes (fst st) a 64; tr = observe pf (fst st)
      in if path = automatic
         then (case automatic_wait (pf_table pf) tr d umwait (snd st) of
                 None \<Rightarrow> None
               | Some (d', (m', ev')) \<Rightarrow> Some (store_bytes m' a d', ev'))
         else (case software_wait tr d umwait 0 of
                 None \<Rightarrow> None | Some i \<Rightarrow> Some (tr i, snd st)))"

definition path_finished :: "'h platform \<Rightarrow> execution_path \<Rightarrow> addr \<Rightarrow> machine
    \<Rightarrow> (bool \<times> machine) option" where
  "path_finished pf path a st =
     (let d = load_bytes (fst st) a 64
      in if path = automatic
         then (case automatic_finished (pf_table pf) d st of
                 None \<Rightarrow> None
               | Some (fin, d', (m', ev')) \<Rightarrow> Some (fin, (store_bytes m' a d', ev')))
         else Some (software_finished d (fst st), st))"

text \<open>\<open>submit\<close> and \<open>execute\<close> on the task whose descriptor is at \<open>a\<close>: the two statuses.\<close>
definition ml_submit :: "'h platform \<Rightarrow> execution_path \<Rightarrow> addr \<Rightarrow> u32 \<Rightarrow> 'h sys
    \<Rightarrow> validation_status \<times> submission_status \<times> 'h sys" where
  "ml_submit pf path a numa_id sys =
     (let d = load_bytes (fst (snd sys)) a 64; status = path_validate path d
      in if status \<noteq> val_success then (status, sub_failure, sys)
         else let (sub, sys') = path_submit pf path d numa_id sys in (val_success, sub, sys'))"

definition ml_execute :: "'h platform \<Rightarrow> execution_path \<Rightarrow> addr \<Rightarrow> u32 \<Rightarrow> 'h sys
    \<Rightarrow> (validation_status \<times> submission_status \<times> 'h sys) option" where
  "ml_execute pf path a numa_id sys =
     (case ml_submit pf path a numa_id sys of (val, sub, (S, st)) \<Rightarrow>
        if (val, sub) \<noteq> (val_success, sub_success) then Some (val, sub, (S, st))
        else case path_wait pf path a False st of
               None \<Rightarrow> None | Some st' \<Rightarrow> Some (val, sub, (S, st')))"

section \<open>Results (\<open>middle_layer/src/result.cpp\<close>)\<close>

definition get_status :: "completion_record \<Rightarrow> execution_status" where
  "get_status r = execution_status_of (0b111111 AND cr_status r)"

definition get_result :: "completion_record \<Rightarrow> u8" where
  "get_result r = cr_result r"

definition get_bytes_completed :: "completion_record \<Rightarrow> u32" where
  "get_bytes_completed r = cr_bytes_completed r"

definition get_delta_record_size :: "completion_record \<Rightarrow> u32" where
  "get_delta_record_size r = create_delta_cr_delta_record_size r"

definition get_crc_value :: "completion_record \<Rightarrow> u32" where
  "get_crc_value r = crc_cr_crc_value r"

section \<open>Waits end with the first non-zero status\<close>

lemma record_first_byte: "record_at m a ! 0 = m a"
  by (simp add: record_at_def)

lemma software_finished_iff: "software_finished d m \<longleftrightarrow> m (record_address d) \<noteq> 0"
  by (simp add: software_finished_def record_first_byte)

lemma busy_poll_returns:
  "tr (i + k) p \<noteq> 0 \<Longrightarrow> (\<And>j. j < k \<Longrightarrow> tr (i + j) p = 0) \<Longrightarrow> dml_wait_busy_poll tr p i = Some (i + k)"
proof (induction k arbitrary: i)
  case 0
  then show ?case by (simp add: dml_wait_busy_poll.simps)
next
  case (Suc k)
  have "dml_wait_busy_poll tr p (Suc i) = Some (Suc i + k)"
  proof (rule Suc.IH)
    show "tr (Suc i + k) p \<noteq> 0" using Suc.prems(1) by simp
    show "tr (Suc i + j) p = 0" if "j < k" for j using Suc.prems(2) [of "Suc j"] that by simp
  qed
  moreover have "tr i p = 0" using Suc.prems(2) [of 0] by simp
  ultimately show ?case by (simp add: dml_wait_busy_poll.simps [of tr p i])
qed

lemma umwait_returns:
  "tr (i + k) p \<noteq> 0 \<Longrightarrow> (\<And>j. j < k \<Longrightarrow> tr (i + j) p = 0) \<Longrightarrow> dml_wait_umwait tr p i = Some (i + k)"
proof (induction k arbitrary: i)
  case 0
  then show ?case by (simp add: dml_wait_umwait.simps)
next
  case (Suc k)
  have "dml_wait_umwait tr p (Suc i) = Some (Suc i + k)"
  proof (rule Suc.IH)
    show "tr (Suc i + k) p \<noteq> 0" using Suc.prems(1) by simp
    show "tr (Suc i + j) p = 0" if "j < k" for j using Suc.prems(2) [of "Suc j"] that by simp
  qed
  moreover have "tr i p = 0" using Suc.prems(2) [of 0] by simp
  ultimately show ?case by (simp add: dml_wait_umwait.simps [of tr p i])
qed

lemma software_wait_finished: "software_finished d (tr i) \<Longrightarrow> software_wait tr d u i = Some i"
  by (simp add: software_wait_def)

text \<open>
  Claim C36: a wait returns as soon as the completion record of the descriptor has a non-zero
  status, at the first read that sees it, in both wait modes.
\<close>
theorem software_wait_returns:
  assumes "\<exists>k. tr k (record_address d) \<noteq> 0"
  shows "software_wait tr d umwait 0 = Some (LEAST k. tr k (record_address d) \<noteq> 0)"
proof -
  define p where "p = record_address d"
  obtain k where k: "k = (LEAST k. tr k p \<noteq> 0)" by blast
  have nz: "tr k p \<noteq> 0" unfolding k using assms unfolding p_def by (rule LeastI_ex)
  have before: "tr j p = 0" if "j < k" for j
    using that unfolding k by (auto dest: not_less_Least)
  have "software_wait tr d umwait 0 = Some k"
  proof (cases "k = 0")
    case True
    with nz show ?thesis by (simp add: software_wait_def software_finished_iff p_def)
  next
    case False
    with before [of 0] have "\<not> software_finished d (tr 0)" by (simp add: software_finished_iff p_def)
    then show ?thesis
      using busy_poll_returns [of tr 0 k p] umwait_returns [of tr 0 k p] nz before
      unfolding software_wait_def p_def by simp
  qed
  then show ?thesis using k p_def by simp
qed

theorem software_wait_returns_witness:
  "software_wait (\<lambda>i _. of_nat i) sample_move False 0 = Some (LEAST k. (of_nat k :: byte) \<noteq> 0)"
  using software_wait_returns [of "\<lambda>i _. of_nat i" sample_move False] by (metis of_nat_1 zero_neq_one)

section \<open>Submission on the automatic path\<close>

text \<open>
  The automatic path accepts every descriptor with a known operation: whatever the
  accelerators answer, the descriptor is either with the hardware or already executed in software,
  in which case its completion record has a final status.
\<close>
lemma automatic_submit_accepts:
  assumes "operation_of (dsc_operation d) \<noteq> None"
    and "automatic_submit T enqcmd tsc d numa S st = (status, S', st')"
  shows "status = sub_success
    \<and> (fst (hardware_submit enqcmd tsc d numa S (fst st)) \<noteq> sub_success \<longrightarrow> fst st' (record_address d) \<noteq> 0)"
proof -
  obtain hs S1 m1 where hw: "hardware_submit enqcmd tsc d numa S (fst st) = (hs, S1, m1)"
    using prod_cases3 by blast
  obtain ss st2 where sw: "software_submit T d (m1, snd st) = (ss, st2)"
    by (cases "software_submit T d (m1, snd st)") blast
  have "ss = sub_success" using software_submit_accepts [of T d "(m1, snd st)"] assms(1) sw by simp
  then show ?thesis
    using assms(2) hw sw software_submit_finishes [of T d "(m1, snd st)" st2]
    by (auto simp: automatic_submit_def Let_def split: if_splits)
qed

section \<open>Continuation after a page fault\<close>

lemma continue_in_software_eq:
  assumes "software_submit T (update_for_continuation d m) (m, ev) = (sub_success, (m1, ev1))"
  shows "continue_in_software T d u (m, ev) = Some (update_for_continuation d m,
    (accumulate_records (update_for_continuation d m) (record_at m (record_address d)) m1, ev1))"
  using software_submit_finishes [OF assms] assms
  by (simp add: continue_in_software_def Let_def software_wait_def software_finished_iff)

lemma update_mem_move_fields:
  assumes "wf_descriptor d" "operation_of (dsc_operation d) = Some op_mem_move"
    and "r = record_at m (record_address d)" "cr_result r = 0"
  defines "d' \<equiv> update_for_continuation d m"
  shows "dsc_operation d' = dsc_operation d" "record_address d' = record_address d"
    "dsc_source_address d' = dsc_source_address d + ucast (cr_bytes_completed r)"
    "dsc_destination_address d' = dsc_destination_address d + ucast (cr_bytes_completed r)"
    "dsc_transfer_size d' = dsc_transfer_size d - cr_bytes_completed r"
  using assms(1-4) unfolding d'_def
  by (simp_all add: update_for_continuation_def update_mem_move_for_continuation_def Let_def
      record_address_def dsc_laws)


lemma update_crc_fields:
  assumes "wf_descriptor d" "operation_of (dsc_operation d) = Some op_crc"
    and "r = record_at m (record_address d)"
  defines "d' \<equiv> update_for_continuation d m"
  shows "dsc_operation d' = dsc_operation d" "record_address d' = record_address d"
    "dsc_operation_specific_flags d' = dsc_operation_specific_flags d"
    "crc_dsc_crc_seed d' = crc_cr_crc_value r"
    "dsc_source_address d' = dsc_source_address d + ucast (cr_bytes_completed r)"
    "dsc_transfer_size d' = dsc_transfer_size d - cr_bytes_completed r"
  using assms(1-3) unfolding d'_def
  by (simp_all add: update_for_continuation_def update_crc_for_continuation_def Let_def
      record_address_def dsc_laws)

text \<open>
  Claim C34: a CRC interrupted by a page fault is finished by the automatic path with the value of
  the whole region, when the record at the fault holds the value of the bytes completed so far.
\<close>
theorem crc_continuation:
  assumes d: "wf_descriptor d" "operation_of (dsc_operation d) = Some op_crc"
    and r: "r = record_at m (record_address d)" "k = cr_bytes_completed r" "k \<le> dsc_transfer_size d"
    and fl: "fl = dsc_operation_specific_flags d" "src = dsc_source_address d" "seed = crc_dsc_crc_seed d"
    and part: "crc_cr_crc_value r = kernel_crc_value ref_table fl src k seed m"
  shows "\<exists>d' m'. continue_in_software ref_table d u (m, ev) = Some (d', (m', ev))
    \<and> get_crc_value (record_at m' (record_address d))
        = kernel_crc_value ref_table fl src (dsc_transfer_size d) seed m
    \<and> get_status (record_at m' (record_address d)) = success"
proof -
  let ?rec = "record_address d" and ?d = "update_for_continuation d m"
  let ?m1 = "kernel_crc ref_table (update_for_continuation d m) m"
  let ?m2 = "set_cr_bytes_completed ?rec (cr_bytes_completed (record_at ?m1 ?rec) + cr_bytes_completed r) ?m1"
  note f = update_crc_fields [OF d r(1)]
  have "k + (dsc_transfer_size d - k) = dsc_transfer_size d" by simp
  moreover have "unat k + unat (dsc_transfer_size d - k) < 2 ^ 32"
    using r(3) unat_u32_less [of "dsc_transfer_size d"] by (simp add: unat_sub_if' word_le_nat_alt)
  ultimately have val: "kernel_crc_value ref_table fl (src + ucast k) (dsc_transfer_size d - k)
      (kernel_crc_value ref_table fl src k seed m) m
    = kernel_crc_value ref_table fl src (dsc_transfer_size d) seed m"
    using ref.crc_value_split [of k "dsc_transfer_size d - k" fl src seed m] by simp
  have run: "continue_in_software ref_table d u (m, ev) = Some (?d, (?m2, ev))"
    using continue_in_software_eq [of ref_table d m ev ?m1 ev u] d(2) f(1,2) r(1)
    by (simp add: software_submit_def run_kernel_def accumulate_records_def
        accumulate_records_crc_def Let_def)
  have m1: "?m1 = write_status ?d success (set_crc_cr_crc_value ?rec
      (kernel_crc_value ref_table fl src (dsc_transfer_size d) seed m) m)"
    using f r(2) fl part val by (simp add: kernel_crc_def Let_def)
  have "crc_cr_crc_value (record_at ?m2 ?rec) = kernel_crc_value ref_table fl src (dsc_transfer_size d) seed m"
    "cr_status (record_at ?m2 ?rec) = 1"
    unfolding m1 write_status_def f(2) by (simp_all add: view_laws mem_simps)
  then show ?thesis using run by (auto simp: get_crc_value_def get_status_def)
qed

lemma update_compare_fields:
  assumes "wf_descriptor d" "operation_of (dsc_operation d) = Some op_compare"
    and "r = record_at m (record_address d)"
  defines "d' \<equiv> update_for_continuation d m"
  shows "dsc_operation d' = dsc_operation d" "record_address d' = record_address d"
    "compare_dsc_source_1_address d' = compare_dsc_source_1_address d + ucast (cr_bytes_completed r)"
    "compare_dsc_source_2_address d' = compare_dsc_source_2_address d + ucast (cr_bytes_completed r)"
    "dsc_transfer_size d' = dsc_transfer_size d - cr_bytes_completed r"
  using assms(1-3) unfolding d'_def
  by (simp_all add: update_for_continuation_def update_compare_for_continuation_def Let_def
      record_address_def dsc_laws)

text \<open>
  Claim C35: a compare interrupted by a page fault ends with the right result: not equal exactly
  when the buffers differ, when the bytes compared so far were equal. The progress field however
  is set to the bytes completed before the fault, so when the buffers differ it is not the offset
  of the first difference unless that is where the fault happened.
\<close>
theorem compare_continuation:
  assumes d: "wf_descriptor d" "operation_of (dsc_operation d) = Some op_compare"
    and r: "r = record_at m (record_address d)" "k = cr_bytes_completed r" "k \<le> dsc_transfer_size d"
    and n: "n = unat (dsc_transfer_size d)"
    and xs: "xs = load_bytes m (compare_dsc_source_1_address d) n"
      "ys = load_bytes m (compare_dsc_source_2_address d) n"
    and same: "take (unat k) xs = take (unat k) ys"
    and run: "continue_in_software ref_table d u (m, ev) = Some (d', (m', ev'))"
  shows "(get_result (record_at m' (record_address d)) = 0 \<longleftrightarrow> xs = ys)
    \<and> get_bytes_completed (record_at m' (record_address d)) = k"
proof -
  let ?rec = "record_address d" and ?d = "update_for_continuation d m" and ?n' = "n - unat k"
  let ?m1 = "kernel_compare ref_table (update_for_continuation d m) m"
  note f = update_compare_fields [OF d r(1)]
  have n': "unat (dsc_transfer_size ?d) = ?n'"
    using n r(2,3) f(5) by (simp add: unat_sub_if' word_le_nat_alt)
  have kn: "unat k \<le> n" using r(3) n by (simp add: word_le_nat_alt)
  have tails: "load_bytes m (compare_dsc_source_1_address ?d) ?n' = drop (unat k) xs"
    "load_bytes m (compare_dsc_source_2_address ?d) ?n' = drop (unat k) ys"
    using load_bytes_part [of "unat k" ?n' n m "compare_dsc_source_1_address d"]
      load_bytes_part [of "unat k" ?n' n m "compare_dsc_source_2_address d"] kn f(3,4) r(2) xs
    by simp_all
  have res: "(cr_bytes_completed (record_at ?m1 ?rec), cr_result (record_at ?m1 ?rec))
      = compare_outcome (first_mismatch (drop (unat k) xs) (drop (unat k) ys))"
    using ref.compare_kernel(1) [of ?d m] f(2) n' tails by simp
  have m': "m' = set_cr_bytes_completed ?rec k ?m1"
    using run continue_in_software_eq [of ref_table d m ev ?m1 ev u] d(2) f(1,2) r(1,2)
    by (auto simp: software_submit_def run_kernel_def accumulate_records_def
        accumulate_records_compare_def Let_def)
  have "cr_result (record_at m' ?rec) = cr_result (record_at ?m1 ?rec)" "cr_bytes_completed (record_at m' ?rec) = k"
    unfolding m' by (simp_all add: view_laws mem_simps)
  moreover have "cr_result (record_at ?m1 ?rec) = 0 \<longleftrightarrow> drop (unat k) xs = drop (unat k) ys"
    using res first_mismatch_None [of "drop (unat k) xs" "drop (unat k) ys"] xs
    by (cases "first_mismatch (drop (unat k) xs) (drop (unat k) ys)") auto
  moreover have "drop (unat k) xs = drop (unat k) ys \<longleftrightarrow> xs = ys"
    using same by (metis append_take_drop_id)
  ultimately show ?thesis by (simp add: get_result_def get_bytes_completed_def)
qed

section \<open>Example runs\<close>

text \<open>Memory at a page fault: the record at 0x9000 reports two bytes completed.\<close>
definition fault_mem :: mem where
  "fault_mem = (\<lambda>a. if a = 0x9004 then 2 else 0)"

lemma fault_record:
  "cr_bytes_completed (record_at fault_mem 0x9000) = 2" "cr_result (record_at fault_mem 0x9000) = 0"
  by (simp_all add: cr_bytes_completed_def load_record_field load_def load_bytes_def fault_mem_def
      upt_rec record_result_byte)

lemma fault_bytes:
  "load_bytes fault_mem 0x1000 2 = [0, 0]" "load_bytes fault_mem 0x1002 2 = [0, 0]"
  "load_bytes fault_mem 0x1000 4 = [0, 0, 0, 0]" "load_bytes fault_mem 0x1102 4 = [0, 0, 0, 0]"
  by (simp_all add: load_bytes_def fault_mem_def upt_rec)

lemma wf_samples: "wf_descriptor sample_move" "wf_descriptor sample_compare"
  by (simp_all add: sample_move_def sample_compare_def dsc_laws)


theorem compare_continuation_witness:
  "\<exists>d' m'. continue_in_software ref_table sample_compare True (fault_mem, []) = Some (d', (m', []))
    \<and> get_result (record_at m' 0x9000) = 0 \<and> get_bytes_completed (record_at m' 0x9000) = 2"
proof -
  let ?d = "update_for_continuation sample_compare fault_mem"
  have op: "operation_of (dsc_operation sample_compare) = Some op_compare" by (simp add: sample_compare_fields)
  have "software_submit ref_table ?d (fault_mem, []) = (sub_success, (kernel_compare ref_table ?d fault_mem, []))"
    using update_compare_fields(1) [OF wf_samples(2) op refl] op
    by (simp add: software_submit_def run_kernel_def)
  from continue_in_software_eq [OF this, of True] obtain d' m' where
    run: "continue_in_software ref_table sample_compare True (fault_mem, []) = Some (d', (m', []))" by blast
  then show ?thesis
    using compare_continuation [OF wf_samples(2) op refl refl _ refl refl refl _ run]
    by (simp add: sample_compare_fields fault_record fault_bytes)
qed

definition sample_crc :: descriptor where
  "sample_crc = set_dsc_transfer_size 4 (set_dsc_source_address 0x1000
     (set_dsc_completion_record_address 0x9000 (set_dsc_operation 0x10 new_descriptor)))"

theorem crc_continuation_witness:
  "\<exists>d' m'. continue_in_software ref_table sample_crc True (\<lambda>_. 0, []) = Some (d', (m', []))
    \<and> get_crc_value (record_at m' 0x9000) = kernel_crc_value ref_table 0 0x1000 4 0 (\<lambda>_. 0)"
proof -
  have f: "wf_descriptor sample_crc" "dsc_operation sample_crc = 0x10" "record_address sample_crc = 0x9000"
    "dsc_transfer_size sample_crc = 4" "dsc_source_address sample_crc = 0x1000" "crc_dsc_crc_seed sample_crc = 0"
    "dsc_operation_specific_flags sample_crc = 0"
    by (simp_all add: sample_crc_def record_address_def dsc_laws)
  have z: "get_field off (record_at (\<lambda>_. 0) a) = (0 :: u32)" if "off + 4 \<le> 32" for off a
    using that by (simp add: load_record_field load_def load_bytes_def upt_rec)
  have "kernel_crc_value ref_table 0 0x1000 0 0 (\<lambda>_. 0) = 0"
    by (simp add: kernel_crc_value_def ref_table_def dml_ref_crc_reflected_u32_def intersects_def)
  then show ?thesis
    using crc_continuation [OF f(1) _ refl refl _ refl refl refl, of "\<lambda>_. 0" True "[]"]
    by (auto simp: f z crc_cr_crc_value_def cr_bytes_completed_def)
qed

end
