(* ===== verification/DML_Task.thy ===== *)
theory DML_Task
  imports DML_Interconnect
begin

text \<open>
  Tasks (\<open>ml/task.hpp\<close>, \<open>ml/view.hpp\<close>, \<open>ml/make_task.hpp\<close>): a descriptor together with its
  completion record. A task on the stack has its record 64 bytes behind its descriptor, and
  every move of a task connects the descriptor with the record at the new place. The locale
  \<open>task_slot\<close> is the contract of a place for a task in memory: what a later reader finds there.
\<close>

section \<open>Alignment (\<open>c_api/include/utils.hpp\<close>)\<close>

definition align :: "addr \<Rightarrow> addr" where
  "align pointer =
     (let offset = pointer AND (64 - 1);
          offset' = (if offset \<noteq> 0 then 64 - offset else offset)
      in pointer + offset')"

section \<open>Tasks\<close>

record task =
  task_descriptor :: descriptor
  task_record :: completion_record

text \<open>\<open>task(dsc, allocator)\<close> for a task object at address \<open>a\<close>; a fresh record is zero.\<close>
definition new_task :: "addr \<Rightarrow> descriptor \<Rightarrow> task" where
  "new_task a d = \<lparr> task_descriptor = rebind d (a + 64), task_record = new_completion_record \<rparr>"

text \<open>
  \<open>task_view::operator=\<close>: copy the descriptor, copy the record, connect the two at their new
  addresses.
\<close>
definition assign_view :: "addr \<Rightarrow> addr \<Rightarrow> task \<Rightarrow> mem \<Rightarrow> mem" where
  "assign_view dsc rec t m =
     (let m1 = store_bytes m dsc (task_descriptor t);
          m2 = store_bytes m1 rec (task_record t)
      in store_bytes m2 dsc (rebind (load_bytes m2 dsc 64) rec))"

text \<open>\<open>task::operator=(task&&)\<close> for the task object at \<open>a\<close>.\<close>
definition assign_task :: "addr \<Rightarrow> task \<Rightarrow> mem \<Rightarrow> mem" where
  "assign_task a t m = assign_view a (a + 64) t m"

section \<open>Making tasks\<close>

definition make_nop_task ::
  "addr \<Rightarrow> u16 \<Rightarrow> task" where
  "make_nop_task a options =
     new_task a (make_nop_descriptor options)"

definition make_drain_task ::
  "addr \<Rightarrow> u64 \<Rightarrow> u64 \<Rightarrow> u16 \<Rightarrow> u8 \<Rightarrow> task" where
  "make_drain_task a readback_address_1 readback_address_2 options specific_options =
     new_task a (make_drain_descriptor readback_address_1 readback_address_2 options specific_options)"

definition make_mem_move_task ::
  "addr \<Rightarrow> addr \<Rightarrow> addr \<Rightarrow> u32 \<Rightarrow> u16 \<Rightarrow> task" where
  "make_mem_move_task a src dst sz options =
     new_task a (make_mem_move_descriptor src dst sz options)"

definition make_fill_task ::
  "addr \<Rightarrow> u64 \<Rightarrow> addr \<Rightarrow> u32 \<Rightarrow> u16 \<Rightarrow> task" where
  "make_fill_task a pattern dst sz options =
     new_task a (make_fill_descriptor pattern dst sz options)"

definition make_dualcast_task ::
  "addr \<Rightarrow> addr \<Rightarrow> addr \<Rightarrow> addr \<Rightarrow> u32 \<Rightarrow> u16 \<Rightarrow> u8 \<Rightarrow> task" where
  "make_dualcast_task a src dst1 dst2 sz options specific_options =
     new_task a (make_dualcast_descriptor src dst1 dst2 sz options specific_options)"

definition make_compare_task ::
  "addr \<Rightarrow> addr \<Rightarrow> addr \<Rightarrow> u32 \<Rightarrow> u16 \<Rightarrow> u8 \<Rightarrow> task" where
  "make_compare_task a src1 src2 sz options expected_result =
     new_task a (make_compare_descriptor src1 src2 sz options expected_result)"

definition make_compare_pattern_task ::
  "addr \<Rightarrow> u64 \<Rightarrow> addr \<Rightarrow> u32 \<Rightarrow> u16 \<Rightarrow> u8 \<Rightarrow> task" where
  "make_compare_pattern_task a pattern src sz options expected_result =
     new_task a (make_compare_pattern_descriptor pattern src sz options expected_result)"

definition make_crc_task ::
  "addr \<Rightarrow> addr \<Rightarrow> u32 \<Rightarrow> u32 \<Rightarrow> u16 \<Rightarrow> u8 \<Rightarrow> task" where
  "make_crc_task a src sz crc_seed options specific_options =
     new_task a (make_crc_descriptor src sz crc_seed options specific_options)"

definition make_copy_crc_task ::
  "addr \<Rightarrow> addr \<Rightarrow> addr \<Rightarrow> u32 \<Rightarrow> u32 \<Rightarrow> u16 \<Rightarrow> u8 \<Rightarrow> task" where
  "make_copy_crc_task a src dst sz crc_seed options specific_options =
     new_task a (make_copy_crc_descriptor src dst sz crc_seed options specific_options)"

definition make_create_delta_task ::
  "addr \<Rightarrow> addr \<Rightarrow> addr \<Rightarrow> u32 \<Rightarrow> addr \<Rightarrow> u32 \<Rightarrow> u16 \<Rightarrow> u8 \<Rightarrow> task" where
  "make_create_delta_task a src1 src2 sz delta_record delta_max_size options expected_result =
     new_task a (make_create_delta_descriptor src1 src2 sz delta_record delta_max_size options expected_result)"

definition make_apply_delta_task ::
  "addr \<Rightarrow> addr \<Rightarrow> u32 \<Rightarrow> addr \<Rightarrow> u32 \<Rightarrow> u16 \<Rightarrow> task" where
  "make_apply_delta_task a delta_record delta_size dst sz options =
     new_task a (make_apply_delta_descriptor delta_record delta_size dst sz options)"

definition make_cache_flush_task ::
  "addr \<Rightarrow> addr \<Rightarrow> u32 \<Rightarrow> u16 \<Rightarrow> task" where
  "make_cache_flush_task a dst sz options =
     new_task a (make_cache_flush_descriptor dst sz options)"

definition make_dif_check_task ::
  "addr \<Rightarrow> addr \<Rightarrow> u32 \<Rightarrow> dif_parameters \<Rightarrow> u16 \<Rightarrow> u8 \<Rightarrow> u8 \<Rightarrow> task" where
  "make_dif_check_task a src transfer_size src_parameters options specific_options source_options =
     new_task a (make_dif_check_descriptor src transfer_size src_parameters options specific_options source_options)"

definition make_dif_insert_task ::
  "addr \<Rightarrow> addr \<Rightarrow> addr \<Rightarrow> u32 \<Rightarrow> dif_parameters \<Rightarrow> u16 \<Rightarrow> u8 \<Rightarrow> u8 \<Rightarrow> task" where
  "make_dif_insert_task a src dst transfer_size dst_parameters options specific_options destination_options =
     new_task a (make_dif_insert_descriptor src dst transfer_size dst_parameters options specific_options destination_options)"

definition make_dif_strip_task ::
  "addr \<Rightarrow> addr \<Rightarrow> addr \<Rightarrow> u32 \<Rightarrow> dif_parameters \<Rightarrow> u16 \<Rightarrow> u8 \<Rightarrow> u8 \<Rightarrow> task" where
  "make_dif_strip_task a src dst transfer_size src_parameters options specific_options source_options =
     new_task a (make_dif_strip_descriptor src dst transfer_size src_parameters options specific_options source_options)"

definition make_dif_update_task ::
  "addr \<Rightarrow> addr \<Rightarrow> addr \<Rightarrow> u32 \<Rightarrow> dif_parameters \<Rightarrow> dif_parameters \<Rightarrow> u16 \<Rightarrow> u8 \<Rightarrow> u8 \<Rightarrow> u8 \<Rightarrow> task" where
  "make_dif_update_task a src dst transfer_size src_parameters dst_parameters options specific_options source_options destination_options =
     new_task a (make_dif_update_descriptor src dst transfer_size src_parameters dst_parameters options specific_options source_options destination_options)"

definition make_batch_task ::
  "addr \<Rightarrow> addr \<Rightarrow> u32 \<Rightarrow> u16 \<Rightarrow> task" where
  "make_batch_task a src count options =
     new_task a (make_batch_descriptor src count options)"

lemmas make_task_defs =
  make_nop_task_def
  make_drain_task_def
  make_mem_move_task_def
  make_fill_task_def
  make_dualcast_task_def
  make_compare_task_def
  make_compare_pattern_task_def
  make_crc_task_def
  make_copy_crc_task_def
  make_create_delta_task_def
  make_apply_delta_task_def
  make_cache_flush_task_def
  make_dif_check_task_def
  make_dif_insert_task_def
  make_dif_strip_task_def
  make_dif_update_task_def
  make_batch_task_def

definition wf_task :: "task \<Rightarrow> bool" where
  "wf_task t \<longleftrightarrow> wf_descriptor (task_descriptor t) \<and> task_record t = new_completion_record"

lemma wf_new_task [simp]: "wf_descriptor d \<Longrightarrow> wf_task (new_task a d)"
  by (simp add: wf_task_def new_task_def)

lemma length_new_completion_record [simp]: "length new_completion_record = 32"
  by (simp add: new_completion_record_def)

section \<open>Connecting twice\<close>

lemma nth_set_field:
  assumes "off + LENGTH('a::len) div 8 \<le> length xs" "i < length xs"
  shows "set_field off (v :: 'a word) xs ! i
    = (if off \<le> i \<and> i < off + LENGTH('a) div 8 then bytes_of v ! (i - off) else xs ! i)"
  using assms by (auto simp: set_field_def nth_append min_def less_diff_conv2)

lemma set_field_commute:
  assumes "off1 + LENGTH('a::len) div 8 \<le> off2" "off2 + LENGTH('b::len) div 8 \<le> length xs"
  shows "set_field off1 (v :: 'a word) (set_field off2 (w :: 'b word) xs)
    = set_field off2 w (set_field off1 v xs)"
  using assms by (intro nth_equalityI) (simp_all add: nth_set_field)

lemma rebind_rebind [simp]:
  assumes "wf_descriptor d"
  shows "rebind (rebind d r1) r2 = rebind d r2"
proof -
  have len: "length d = 64" using assms by (simp add: wf_descriptor_def)
  let ?f = "dsc_flags d OR completion_record_flags"
  have e: "rebind d r = set_dsc_flags ?f (set_dsc_completion_record_address r d)" for r
    using assms by (simp add: rebind_def Let_def dsc_laws)
  have "rebind (rebind d r1) r2
      = set_dsc_flags ?f (set_dsc_completion_record_address r2 (rebind d r1))"
    using assms dsc_flags_rebind [OF assms, of r1]
    by (simp add: rebind_def [of "rebind d r1"] Let_def dsc_laws or.assoc)
  also have "\<dots> = set_dsc_flags ?f (set_dsc_completion_record_address r2 d)"
    unfolding e using len
    by (simp add: view_defs set_field_commute [symmetric] set_set_field_same)
  finally show ?thesis by (simp add: e)
qed

lemma task_descriptor_rebind:
  "wf_descriptor d \<Longrightarrow> rebind (task_descriptor (new_task a d)) r = rebind d r"
  by (simp add: new_task_def)

section \<open>A place for a task\<close>

text \<open>Room for a descriptor and a record that do not overlap.\<close>
locale task_slot =
  fixes dsc rec :: addr
  assumes apart: "disjoint_regions dsc 64 rec 32"
begin

lemma assign_descriptor:
  assumes "wf_task t"
  shows "load_bytes (assign_view dsc rec t m) dsc 64 = rebind (task_descriptor t) rec"
proof -
  have len: "length (task_descriptor t) = 64" "length (task_record t) = 32"
    using assms by (simp_all add: wf_task_def wf_descriptor_def)
  have "load_bytes (store_bytes (store_bytes m dsc (task_descriptor t)) rec (task_record t)) dsc 64
      = task_descriptor t"
    using len apart load_store_bytes_same [of "task_descriptor t" 64 m dsc]
    by (simp add: load_store_bytes_disjoint disjoint_regions_sym)
  moreover have "length (rebind (task_descriptor t) rec) = 64"
    using assms wf_rebind [of "task_descriptor t" rec] by (simp add: wf_task_def wf_descriptor_def)
  ultimately show ?thesis
    using load_store_bytes_same [of "rebind (task_descriptor t) rec" 64]
    by (simp add: assign_view_def Let_def)
qed

lemma assign_record:
  assumes "wf_task t"
  shows "record_at (assign_view dsc rec t m) rec = new_completion_record"
proof -
  let ?m2 = "store_bytes (store_bytes m dsc (task_descriptor t)) rec (task_record t)"
  have "length (rebind (load_bytes ?m2 dsc 64) rec) = 64"
    using wf_rebind [of "load_bytes ?m2 dsc 64" rec] by (simp add: wf_descriptor_def)
  then have "load_bytes (assign_view dsc rec t m) rec 32 = load_bytes ?m2 rec 32"
    using apart unfolding assign_view_def Let_def by (intro load_store_bytes_disjoint) (simp_all add: disjoint_regions_sym)
  then show ?thesis
    using assms load_store_bytes_same [of "task_record t" 32] by (simp add: record_at_def wf_task_def)
qed

lemma assign_elsewhere:
  assumes "wf_task t" "\<not> in_region x dsc 64" "\<not> in_region x rec 32"
  shows "assign_view dsc rec t m x = m x"
proof -
  let ?m2 = "store_bytes (store_bytes m dsc (task_descriptor t)) rec (task_record t)"
  have "length (rebind (load_bytes ?m2 dsc 64) rec) = 64"
    using wf_rebind [of "load_bytes ?m2 dsc 64" rec] by (simp add: wf_descriptor_def)
  then show ?thesis
    using assms by (simp add: assign_view_def Let_def wf_task_def wf_descriptor_def store_bytes_outside)
qed

end

lemma task_object_apart: "disjoint_regions a 64 (a + 64) 32"
  using disjoint_parts [of 0 64 64 32 a] by simp

text \<open>A task object is such a place.\<close>
interpretation object: task_slot a "a + 64" for a
  by unfold_locales (rule task_object_apart)

text \<open>
  An array of such places: the slots of the indices that are in use do not overlap, so that
  writing one of them leaves what the others hold.
\<close>
locale task_array =
  fixes dsc rec :: "'i \<Rightarrow> addr" and used :: "'i \<Rightarrow> bool"
  assumes descriptors_apart: "used i \<Longrightarrow> used j \<Longrightarrow> i \<noteq> j \<Longrightarrow> disjoint_regions (dsc i) 64 (dsc j) 64"
    and records_apart: "used i \<Longrightarrow> used j \<Longrightarrow> i \<noteq> j \<Longrightarrow> disjoint_regions (rec i) 32 (rec j) 32"
    and descriptor_record_apart: "used i \<Longrightarrow> used j \<Longrightarrow> disjoint_regions (dsc i) 64 (rec j) 32"
begin

lemma slot: "used i \<Longrightarrow> task_slot (dsc i) (rec i)"
  by unfold_locales (rule descriptor_record_apart)

lemma others_kept:
  assumes "used i" "used j" "i \<noteq> j"
    and frame: "\<And>x. \<not> in_region x (dsc j) 64 \<Longrightarrow> \<not> in_region x (rec j) 32 \<Longrightarrow> m' x = m x"
  shows "load_bytes m' (dsc i) 64 = load_bytes m (dsc i) 64" "record_at m' (rec i) = record_at m (rec i)"
proof -
  show "load_bytes m' (dsc i) 64 = load_bytes m (dsc i) 64"
  proof (rule load_bytes_cong, rule frame)
    fix k assume "k < (64 :: nat)"
    then have x: "in_region (dsc i + word_of_nat k) (dsc i) 64" by simp
    show "\<not> in_region (dsc i + word_of_nat k) (dsc j) 64"
      using descriptors_apart [OF assms(1-3)] x by (rule disjoint_regionsD)
    show "\<not> in_region (dsc i + word_of_nat k) (rec j) 32"
      using descriptor_record_apart [OF assms(1,2)] x by (rule disjoint_regionsD)
  qed
  show "record_at m' (rec i) = record_at m (rec i)"
  proof (rule record_at_cong, rule frame)
    fix x assume x: "in_region x (rec i) 32"
    show "\<not> in_region x (dsc j) 64"
      using descriptor_record_apart [OF assms(2,1)] x by (rule disjoint_regionsD2)
    show "\<not> in_region x (rec j) 32" using records_apart [OF assms(1-3)] x by (rule disjoint_regionsD)
  qed
qed

end

section \<open>Alignment to 64 bytes\<close>

lemma align_nat:
  assumes "unat p + 63 < 2 ^ 64"
  shows "unat (align p) = unat p + (if unat p mod 64 = 0 then 0 else 64 - unat p mod 64)"
proof -
  let ?o = "p AND 63" and ?r = "unat p mod 64"
  have "p AND 63 = take_bit 6 p"
    using take_bit_eq_mask [of 6 p] by (simp add: mask_eq_exp_minus_1)
  then have o: "unat ?o = ?r" by (simp add: unat_mod take_bit_eq_mod)
  have small: "?r < 64" by simp
  show ?thesis
  proof (cases "?r = 0")
    case True
    then have "?o = 0" using o by (simp add: unat_eq_0)
    with True show ?thesis by (simp add: align_def Let_def)
  next
    case False
    then have "?o \<noteq> 0" using o by auto
    moreover have sub: "unat (64 - ?o) = 64 - ?r"
      using o small by (simp add: unat_sub_if' word_le_nat_alt)
    moreover have "64 - ?r \<le> 63" using False by linarith
    then have "unat (p + (64 - ?o)) = unat p + (64 - ?r)"
      using assms sub by (subst unat_add_lem [THEN iffD1]) simp_all
    ultimately show ?thesis using False by (simp add: align_def Let_def)
  qed
qed

lemma align_bounds:
  assumes "unat p + 63 < 2 ^ 64"
  shows "unat p \<le> unat (align p)" "unat (align p) \<le> unat p + 63" "unat (align p) mod 64 = 0"
proof -
  let ?r = "unat p mod 64"
  have r: "?r < 64" "unat p = 64 * (unat p div 64) + ?r" by simp_all
  show "unat p \<le> unat (align p)" using align_nat [OF assms] by simp
  show "unat (align p) \<le> unat p + 63" using align_nat [OF assms] by auto
  show "unat (align p) mod 64 = 0"
  proof (cases "?r = 0")
    case False
    have "unat (align p) = unat p + (64 - ?r)" using align_nat [OF assms] False by simp
    moreover obtain q r where qr: "r = ?r" "r < 64" "unat p = 64 * q + r"
      using r by blast
    ultimately have "unat (align p) = 64 * q + r + (64 - r)" by metis
    also have "\<dots> = 64 * (q + 1)" using qr(2) by simp
    finally show ?thesis by simp
  qed (use align_nat [OF assms] in simp)
qed

end
