(* ===== verification/DML_Job_API.thy ===== *)
theory DML_Job_API
  imports DML_Task
begin

text \<open>
  The job API (\<open>c_api/dml.cpp\<close> and the headers of \<open>c_api/include\<close>): the view of a job, the checks
  before submission, the translation of a job into a task, submission, waiting and polling on
  the path of the job, the results written back, and the functions of the C interface. A job is
  a value of \<open>dml_job\<close>; its hidden state (the task and the path) lives in memory, at
  \<open>internal_data_ptr\<close>: the descriptor at offset 0, the completion record at 64, the path at 128.
  A function that takes a job pointer takes the address and the job stored there.
\<close>

section \<open>Enumerations of \<open>dmldefs.h\<close>\<close>

datatype dml_operation =
    DML_OP_NOP | DML_OP_BATCH | DML_OP_DRAIN | DML_OP_MEM_MOVE | DML_OP_FILL | DML_OP_COMPARE
  | DML_OP_COMPARE_PATTERN | DML_OP_DELTA_CREATE | DML_OP_DELTA_APPLY | DML_OP_DUALCAST
  | DML_OP_CRC | DML_OP_COPY_CRC | DML_OP_DIF_CHECK | DML_OP_DIF_INSERT | DML_OP_DIF_STRIP
  | DML_OP_DIF_UPDATE | DML_OP_CACHE_FLUSH

primrec dml_operation_value :: "dml_operation \<Rightarrow> u32" where
  "dml_operation_value DML_OP_NOP = 0x00"
| "dml_operation_value DML_OP_BATCH = 0x01"
| "dml_operation_value DML_OP_DRAIN = 0x02"
| "dml_operation_value DML_OP_MEM_MOVE = 0x03"
| "dml_operation_value DML_OP_FILL = 0x04"
| "dml_operation_value DML_OP_COMPARE = 0x05"
| "dml_operation_value DML_OP_COMPARE_PATTERN = 0x06"
| "dml_operation_value DML_OP_DELTA_CREATE = 0x07"
| "dml_operation_value DML_OP_DELTA_APPLY = 0x08"
| "dml_operation_value DML_OP_DUALCAST = 0x09"
| "dml_operation_value DML_OP_CRC = 0x10"
| "dml_operation_value DML_OP_COPY_CRC = 0x11"
| "dml_operation_value DML_OP_DIF_CHECK = 0x12"
| "dml_operation_value DML_OP_DIF_INSERT = 0x13"
| "dml_operation_value DML_OP_DIF_STRIP = 0x14"
| "dml_operation_value DML_OP_DIF_UPDATE = 0x15"
| "dml_operation_value DML_OP_CACHE_FLUSH = 0x20"

definition dml_operations :: "dml_operation list" where
  "dml_operations =
     [DML_OP_NOP, DML_OP_BATCH, DML_OP_DRAIN, DML_OP_MEM_MOVE, DML_OP_FILL, DML_OP_COMPARE,
      DML_OP_COMPARE_PATTERN, DML_OP_DELTA_CREATE, DML_OP_DELTA_APPLY, DML_OP_DUALCAST,
      DML_OP_CRC, DML_OP_COPY_CRC, DML_OP_DIF_CHECK, DML_OP_DIF_INSERT, DML_OP_DIF_STRIP,
      DML_OP_DIF_UPDATE, DML_OP_CACHE_FLUSH]"

text \<open>The enumerator a value names, for the \<open>switch\<close> statements; \<open>None\<close> is their default.\<close>
definition dml_operation_of :: "u32 \<Rightarrow> dml_operation option" where
  "dml_operation_of v = find (\<lambda>x. dml_operation_value x = v) dml_operations"

definition DML_PATH_AUTO :: u32 where "DML_PATH_AUTO = 0"
definition DML_PATH_SW :: u32 where "DML_PATH_SW = 1"
definition DML_PATH_HW :: u32 where "DML_PATH_HW = 2"

definition DML_FLAG_COPY_ONLY :: u16 where
  "DML_FLAG_COPY_ONLY = 0x20"

section \<open>The job view (\<open>job_view.hpp\<close>)\<close>

definition view_operation :: "dml_job \<Rightarrow> dml_operation option" where
  "view_operation job = dml_operation_of (job_operation job)"

definition view_expected_result :: "dml_job \<Rightarrow> u8" where
  "view_expected_result job = ucast (job_expected_result job)"

definition view_flags :: "dml_job \<Rightarrow> u16" where
  "view_flags job = ucast (job_flags job AND 0xFFFF)"

definition view_specific_flags :: "dml_job \<Rightarrow> u8" where
  "view_specific_flags job = ucast (drop_bit 16 (job_flags job) AND 0xFF)"

definition view_dif_src_flags :: "dml_job \<Rightarrow> u8" where
  "view_dif_src_flags job = ucast (dif_flags (dif_config job) AND 0xFF)"

definition view_dif_dst_flags :: "dml_job \<Rightarrow> u8" where
  "view_dif_dst_flags job = ucast (drop_bit 8 (dif_flags (dif_config job)) AND 0xFF)"

definition view_dif_flags :: "dml_job \<Rightarrow> u8" where
  "view_dif_flags job =
     ucast (drop_bit 16 (dif_flags (dif_config job)) AND 0xFF OR dif_block_size (dif_config job))"

text \<open>The three source and the three destination tag parameters, as the callers group them.\<close>
definition view_src_parameters :: "dml_job \<Rightarrow> dif_parameters" where
  "view_src_parameters job =
     \<lparr> ref_tag_seed = source_reference_tag_seed (dif_config job),
       app_tag_mask = source_application_tag_mask (dif_config job),
       app_tag_seed = source_application_tag_seed (dif_config job) \<rparr>"

definition view_dst_parameters :: "dml_job \<Rightarrow> dif_parameters" where
  "view_dst_parameters job =
     \<lparr> ref_tag_seed = destination_reference_tag_seed (dif_config job),
       app_tag_mask = destination_application_tag_mask (dif_config job),
       app_tag_seed = destination_application_tag_seed (dif_config job) \<rparr>"

definition view_set_offset :: "u32 \<Rightarrow> dml_job \<Rightarrow> dml_job" where
  "view_set_offset v job = job\<lparr> job_offset := v \<rparr>"

definition view_set_result :: "u8 \<Rightarrow> dml_job \<Rightarrow> dml_job" where
  "view_set_result v job = job\<lparr> job_result := ucast v \<rparr>"

definition view_set_crc :: "u32 \<Rightarrow> dml_job \<Rightarrow> mem \<Rightarrow> mem" where
  "view_set_crc v job m = store m (crc_checksum_ptr job) v"

definition view_set_destination_length :: "u32 \<Rightarrow> dml_job \<Rightarrow> dml_job" where
  "view_set_destination_length v job = job\<lparr> destination_length := v \<rparr>"

definition view_set_flags :: "u16 \<Rightarrow> dml_job \<Rightarrow> dml_job" where
  "view_set_flags v job = job\<lparr> job_flags := (job_flags job AND 0x0000) OR ucast v \<rparr>"

text \<open>\<open>state()\<close>: the task and the path behind \<open>internal_data_ptr\<close>.\<close>
definition state_descriptor :: "dml_job \<Rightarrow> mem \<Rightarrow> descriptor" where
  "state_descriptor job m = load_bytes m (internal_data_ptr job) 64"

definition state_record :: "dml_job \<Rightarrow> mem \<Rightarrow> completion_record" where
  "state_record job m = record_at m (internal_data_ptr job + 64)"

definition state_path :: "dml_job \<Rightarrow> mem \<Rightarrow> execution_path option" where
  "state_path job m =
     (let path = (load m (internal_data_ptr job + 128) :: u32)
      in if path = DML_PATH_SW then Some software
         else if path = DML_PATH_HW then Some hardware
         else if path = DML_PATH_AUTO then Some automatic
         else None)"

text \<open>\<open>sizeof(dml_job_t)\<close>, \<open>sizeof(dml::state)\<close> and \<open>get_job_size()\<close> on the 64-bit ABI.\<close>
definition sizeof_job :: nat where "sizeof_job = 120"
definition sizeof_state :: nat where "sizeof_state = 192"
definition get_job_size :: nat where "get_job_size = sizeof_job + sizeof_state + 64"

section \<open>Checks before submission (\<open>range_check.hpp\<close>)\<close>

definition range_check_mem_move :: "addr \<Rightarrow> addr \<Rightarrow> u32 \<Rightarrow> u16 \<Rightarrow> dml_status" where
  "range_check_mem_move src1 dst1 src_size flags =
     (if flags AND DML_FLAG_COPY_ONLY \<noteq> 0
      then if src1 \<le> dst1 \<and> src1 + ucast src_size > dst1
           then DML_STATUS_OVERLAPPING_BUFFER_ERROR
           else DML_STATUS_OK
      else DML_STATUS_OK)"

definition range_check_crc :: "addr \<Rightarrow> dml_status" where
  "range_check_crc crc_ptr = (if crc_ptr = 0 then DML_STATUS_NULL_POINTER_ERROR else DML_STATUS_OK)"

definition range_check_copy_crc :: "addr \<Rightarrow> dml_status" where
  "range_check_copy_crc crc_ptr =
     (if crc_ptr = 0 then DML_STATUS_NULL_POINTER_ERROR else DML_STATUS_OK)"

definition range_check :: "dml_job \<Rightarrow> dml_status" where
  "range_check job =
     (case view_operation job of
        Some DML_OP_MEM_MOVE \<Rightarrow> range_check_mem_move (source_first_ptr job)
          (destination_first_ptr job) (source_length job) (view_flags job)
      | Some DML_OP_CRC \<Rightarrow> range_check_crc (crc_checksum_ptr job)
      | Some DML_OP_COPY_CRC \<Rightarrow> range_check_copy_crc (crc_checksum_ptr job)
      | Some _ \<Rightarrow> DML_STATUS_OK
      | None \<Rightarrow> DML_STATUS_JOB_OPERATION_ERROR)"

section \<open>From a job to a task (\<open>make_task.hpp\<close>)\<close>

text \<open>The seed and the specific options both CRC branches use.\<close>
definition job_crc_seed :: "dml_job \<Rightarrow> mem \<Rightarrow> u32" where
  "job_crc_seed job m =
     (if intersects (view_specific_flags job) (crc_specific_flag_value read_crc_seed)
      then load m (crc_checksum_ptr job) else 0)"

definition job_crc_options :: "dml_job \<Rightarrow> u8" where
  "job_crc_options job =
     (let erase = 0xFF XOR crc_specific_flag_value read_crc_seed
      in view_specific_flags job AND erase)"

text \<open>\<open>make_task(job)\<close> for a task placed at \<open>a\<close>; memory is read for the CRC seed.\<close>
definition make_task :: "addr \<Rightarrow> dml_job \<Rightarrow> mem \<Rightarrow> task" where
  "make_task a job m =
     (case view_operation job of
        Some DML_OP_NOP \<Rightarrow> make_nop_task a (view_flags job)
      | Some DML_OP_BATCH \<Rightarrow>
          make_batch_task a (align (destination_first_ptr job)) (destination_length job div (64 + 32))
            (view_flags job)
      | Some DML_OP_DRAIN \<Rightarrow>
          make_drain_task a (destination_first_ptr job) (destination_second_ptr job)
            (view_flags job) (view_specific_flags job)
      | Some DML_OP_MEM_MOVE \<Rightarrow>
          make_mem_move_task a (source_first_ptr job) (destination_first_ptr job)
            (source_length job) (view_flags job)
      | Some DML_OP_FILL \<Rightarrow>
          make_fill_task a (job_pattern job) (destination_first_ptr job) (destination_length job)
            (view_flags job)
      | Some DML_OP_DUALCAST \<Rightarrow>
          make_dualcast_task a (source_first_ptr job) (destination_first_ptr job)
            (destination_second_ptr job) (source_length job) (view_flags job)
            (view_specific_flags job)
      | Some DML_OP_COMPARE \<Rightarrow>
          make_compare_task a (source_first_ptr job) (source_second_ptr job) (source_length job)
            (view_flags job) (view_expected_result job)
      | Some DML_OP_COMPARE_PATTERN \<Rightarrow>
          make_compare_pattern_task a (job_pattern job) (source_first_ptr job) (source_length job)
            (view_flags job) (view_expected_result job)
      | Some DML_OP_CRC \<Rightarrow>
          make_crc_task a (source_first_ptr job) (source_length job) (job_crc_seed job m)
            (view_flags job) (job_crc_options job)
      | Some DML_OP_COPY_CRC \<Rightarrow>
          make_copy_crc_task a (source_first_ptr job) (destination_first_ptr job)
            (source_length job) (job_crc_seed job m) (view_flags job) (job_crc_options job)
      | Some DML_OP_DELTA_CREATE \<Rightarrow>
          make_create_delta_task a (source_first_ptr job) (source_second_ptr job)
            (source_length job) (destination_first_ptr job) (destination_length job)
            (view_flags job) (view_expected_result job)
      | Some DML_OP_DELTA_APPLY \<Rightarrow>
          make_apply_delta_task a (source_first_ptr job) (source_length job)
            (destination_first_ptr job) (destination_length job) (view_flags job)
      | Some DML_OP_DIF_CHECK \<Rightarrow>
          make_dif_check_task a (source_first_ptr job) (source_length job)
            (view_src_parameters job) (view_flags job) (view_dif_flags job)
            (view_dif_src_flags job)
      | Some DML_OP_DIF_INSERT \<Rightarrow>
          make_dif_insert_task a (source_first_ptr job) (destination_first_ptr job)
            (source_length job) (view_dst_parameters job) (view_flags job) (view_dif_flags job)
            (view_dif_dst_flags job)
      | Some DML_OP_DIF_STRIP \<Rightarrow>
          make_dif_strip_task a (source_first_ptr job) (destination_first_ptr job)
            (source_length job) (view_src_parameters job) (view_flags job) (view_dif_flags job)
            (view_dif_src_flags job)
      | Some DML_OP_DIF_UPDATE \<Rightarrow>
          make_dif_update_task a (source_first_ptr job) (destination_first_ptr job)
            (source_length job) (view_src_parameters job) (view_dst_parameters job)
            (view_flags job) (view_dif_flags job) (view_dif_src_flags job)
            (view_dif_dst_flags job)
      | Some DML_OP_CACHE_FLUSH \<Rightarrow>
          make_cache_flush_task a (destination_first_ptr job) (destination_length job)
            (view_flags job)
      | None \<Rightarrow> make_nop_task a (view_flags job))"

section \<open>Statuses of the job API (\<open>status.hpp\<close>)\<close>

text \<open>The three overloads of \<open>to_own_status\<close>.\<close>
fun to_own_execution_status :: "execution_status \<Rightarrow> dml_status" where
  "to_own_execution_status success = DML_STATUS_OK"
| "to_own_execution_status false_predicate_success = DML_STATUS_FALSE_PREDICATE_OK"
| "to_own_execution_status page_fault_during_processing = DML_STATUS_PAGE_FAULT_ERROR"
| "to_own_execution_status page_response_error = DML_STATUS_INTL_INVALID_PAGE_REQUEST"
| "to_own_execution_status batch_error = DML_STATUS_BATCH_ERROR"
| "to_own_execution_status batch_page_fault_error = DML_STATUS_PAGE_FAULT_ERROR"
| "to_own_execution_status offset_order_error = DML_STATUS_DELTA_ASCENDT_ERROR"
| "to_own_execution_status offset_overflow = DML_STATUS_DELTA_OFFSET_ERROR"
| "to_own_execution_status dif_control_error = DML_STATUS_DIF_CHECK_ERROR"
| "to_own_execution_status operation_error = DML_STATUS_JOB_OPERATION_ERROR"
| "to_own_execution_status flag_error = DML_STATUS_JOB_FLAGS_ERROR"
| "to_own_execution_status non_zero_reserved_field_error = DML_STATUS_INTL_INVALID_RESERVED_FIELD"
| "to_own_execution_status invalid_transfer_size_error = DML_STATUS_JOB_LENGTH_ERROR"
| "to_own_execution_status descriptor_count_error = DML_STATUS_BATCH_SIZE_ERROR"
| "to_own_execution_status delta_size_error = DML_STATUS_DELTA_INPUT_SIZE_ERROR"
| "to_own_execution_status buffers_overlap = DML_STATUS_OVERLAPPING_BUFFER_ERROR"
| "to_own_execution_status dualcast_misalign_error = DML_STATUS_DUALCAST_ALIGN_ERROR"
| "to_own_execution_status descriptor_list_align_error = DML_STATUS_INTL_MISALIGNED_DESC_LA"
| "to_own_execution_status invalid_interrupt_handle = DML_STATUS_INTL_INVALID_COMPLETION_HANDLE"
| "to_own_execution_status page_fault_on_translation = DML_STATUS_INTL_PAGE_FAULT_ON_TRANSLATION"
| "to_own_execution_status completion_record_align_error = DML_STATUS_INTL_MISALIGNED_CR_ADDRESS"
| "to_own_execution_status misalign_address_error = DML_STATUS_INTL_MISALIGNED_ADDRESS"
| "to_own_execution_status privilege_error = DML_STATUS_INTL_PRIVILEGE_ERROR"
| "to_own_execution_status traffic_class_error = DML_STATUS_INTL_TRAFFIC_CLASS_ERROR"
| "to_own_execution_status readback_translation_error = DML_STATUS_INTL_READBACK_ADDRESS_PAGE_ERROR"
| "to_own_execution_status operation_readback_timeout = DML_STATUS_INTL_HARDWARE_READBACK_TIMEOUT"
| "to_own_execution_status hardware_timeout = DML_STATUS_INTL_HARDWARE_TIMEOUT"
| "to_own_execution_status address_translation_error = DML_STATUS_INTL_ADDRESS_TRANSLATION_ERROR"
| "to_own_execution_status processing = DML_STATUS_INTERNAL_ERROR"
| "to_own_execution_status (unnamed_status v) = DML_STATUS_INTERNAL_ERROR"

fun to_own_submission_status :: "submission_status \<Rightarrow> dml_status" where
  "to_own_submission_status sub_success = DML_STATUS_OK"
| "to_own_submission_status sub_queue_busy = DML_STATUS_WORK_QUEUES_NOT_AVAILABLE"
| "to_own_submission_status sub_failure = DML_STATUS_LIBACCEL_NOT_FOUND"

fun to_own_validation_status :: "validation_status \<Rightarrow> dml_status" where
  "to_own_validation_status val_success = DML_STATUS_OK"
| "to_own_validation_status val_null_address = DML_STATUS_NULL_POINTER_ERROR"
| "to_own_validation_status val_null_size = DML_STATUS_JOB_LENGTH_ERROR"
| "to_own_validation_status val_wrong_size = DML_STATUS_DELTA_INPUT_SIZE_ERROR"
| "to_own_validation_status val_overlapping = DML_STATUS_OVERLAPPING_BUFFER_ERROR"
| "to_own_validation_status val_misalignment = DML_STATUS_DELTA_ALIGN_ERROR"
| "to_own_validation_status val_large_size = DML_STATUS_DELTA_INPUT_SIZE_ERROR"
| "to_own_validation_status val_wrong_delta_size = DML_STATUS_DELTA_RECORD_SIZE_ERROR"
| "to_own_validation_status val_wrong_dualcast_address = DML_STATUS_DUALCAST_ALIGN_ERROR"
| "to_own_validation_status val_wrong_batch_size = DML_STATUS_BATCH_SIZE_ERROR"
| "to_own_validation_status val_wrong_dif_size = DML_STATUS_JOB_LENGTH_ERROR"
| "to_own_validation_status val_dif_strip_adjacent = DML_STATUS_DIF_STRIP_ADJACENT_ERROR"
| "to_own_validation_status val_unsupported_operation = DML_STATUS_JOB_OPERATION_ERROR"
| "to_own_validation_status val_error = DML_STATUS_INTERNAL_ERROR"

section \<open>Results (\<open>write_result.hpp\<close>)\<close>

text \<open>The status every \<open>write_result_*\<close> function returns.\<close>
definition state_status :: "dml_job \<Rightarrow> mem \<Rightarrow> dml_status" where
  "state_status job m = to_own_execution_status (get_status (state_record job m))"

text \<open>Nop, batch, drain, fill, dualcast, apply delta and cache flush only report the status.\<close>
definition write_result_status :: "dml_job \<Rightarrow> mem \<Rightarrow> dml_status \<times> dml_job \<times> mem" where
  "write_result_status job m = (state_status job m, job, m)"

definition write_result_mem_move :: "dml_job \<Rightarrow> mem \<Rightarrow> dml_status \<times> dml_job \<times> mem" where
  "write_result_mem_move job m =
     (state_status job m, view_set_result (get_result (state_record job m)) job, m)"

definition write_result_crc :: "dml_job \<Rightarrow> mem \<Rightarrow> dml_status \<times> dml_job \<times> mem" where
  "write_result_crc job m =
     (let m' = view_set_crc (get_crc_value (state_record job m)) job m
      in (state_status job m', job, m'))"

text \<open>Compare, compare pattern, DIF check, DIF strip and DIF update report offset and result.\<close>
definition write_result_compare :: "dml_job \<Rightarrow> mem \<Rightarrow> dml_status \<times> dml_job \<times> mem" where
  "write_result_compare job m =
     (let j1 = view_set_offset (get_bytes_completed (state_record job m)) job;
          j2 = view_set_result (get_result (state_record job m)) j1
      in (state_status job m, j2, m))"

definition write_result_create_delta :: "dml_job \<Rightarrow> mem \<Rightarrow> dml_status \<times> dml_job \<times> mem" where
  "write_result_create_delta job m =
     (let j1 = view_set_destination_length (get_delta_record_size (state_record job m)) job;
          j2 = view_set_result (get_result (state_record job m)) j1;
          j3 = view_set_offset (ucast (load m (destination_first_ptr job) :: u16)) j2
      in (state_status job m, j3, m))"

definition write_result_dif_insert :: "dml_job \<Rightarrow> mem \<Rightarrow> dml_status \<times> dml_job \<times> mem" where
  "write_result_dif_insert job m =
     (state_status job m, view_set_offset (get_bytes_completed (state_record job m)) job, m)"

definition write_result :: "dml_job \<Rightarrow> mem \<Rightarrow> dml_status \<times> dml_job \<times> mem" where
  "write_result job m =
     (case view_operation job of
        Some DML_OP_NOP \<Rightarrow> write_result_status job m
      | Some DML_OP_BATCH \<Rightarrow> write_result_status job m
      | Some DML_OP_DRAIN \<Rightarrow> write_result_status job m
      | Some DML_OP_MEM_MOVE \<Rightarrow> write_result_mem_move job m
      | Some DML_OP_FILL \<Rightarrow> write_result_status job m
      | Some DML_OP_DUALCAST \<Rightarrow> write_result_status job m
      | Some DML_OP_CRC \<Rightarrow> write_result_crc job m
      | Some DML_OP_COPY_CRC \<Rightarrow> write_result_crc job m
      | Some DML_OP_COMPARE \<Rightarrow> write_result_compare job m
      | Some DML_OP_COMPARE_PATTERN \<Rightarrow> write_result_compare job m
      | Some DML_OP_DELTA_CREATE \<Rightarrow> write_result_create_delta job m
      | Some DML_OP_DELTA_APPLY \<Rightarrow> write_result_status job m
      | Some DML_OP_DIF_CHECK \<Rightarrow> write_result_compare job m
      | Some DML_OP_DIF_INSERT \<Rightarrow> write_result_dif_insert job m
      | Some DML_OP_DIF_STRIP \<Rightarrow> write_result_compare job m
      | Some DML_OP_DIF_UPDATE \<Rightarrow> write_result_compare job m
      | Some DML_OP_CACHE_FLUSH \<Rightarrow> write_result_status job m
      | None \<Rightarrow> (DML_STATUS_JOB_OPERATION_ERROR, job, m))"

section \<open>Submission, waiting and polling (\<open>impl.hpp\<close>)\<close>

text \<open>\<open>wait(job, umwait)\<close>; a path of no known value skips the \<open>switch\<close>.\<close>
definition job_wait :: "'h platform \<Rightarrow> dml_job \<Rightarrow> bool \<Rightarrow> machine
    \<Rightarrow> (dml_status \<times> dml_job \<times> machine) option" where
  "job_wait pf job umwait st =
     (case (case state_path job (fst st) of
              Some path \<Rightarrow> path_wait pf path (internal_data_ptr job) umwait st
            | None \<Rightarrow> Some st) of
        None \<Rightarrow> None
      | Some (m', ev') \<Rightarrow>
          let (status, job', m'') = write_result job m' in Some (status, job', (m'', ev')))"

text \<open>\<open>check(job)\<close>.\<close>
definition job_check :: "'h platform \<Rightarrow> dml_job \<Rightarrow> machine
    \<Rightarrow> (dml_status \<times> dml_job \<times> machine) option" where
  "job_check pf job st =
     (case (case state_path job (fst st) of
              Some path \<Rightarrow> path_finished pf path (internal_data_ptr job) st
            | None \<Rightarrow> Some (False, st)) of
        None \<Rightarrow> None
      | Some (finished, (m', ev')) \<Rightarrow>
          if finished
          then let (status, job', m'') = write_result job m' in Some (status, job', (m'', ev'))
          else Some (DML_STATUS_BEING_PROCESSED, job, (m', ev')))"

text \<open>\<open>submit(job)\<close>: the status, the job (its copy-only flag is consumed) and the system.\<close>
definition job_submit :: "'h platform \<Rightarrow> dml_job \<Rightarrow> 'h sys \<Rightarrow> dml_status \<times> dml_job \<times> 'h sys" where
  "job_submit pf job sys =
     (case sys of (S, m, ev) \<Rightarrow>
       if range_check job \<noteq> DML_STATUS_OK then (range_check job, job, sys)
       else
         let job1 = (if view_operation job = Some DML_OP_MEM_MOVE
                        \<and> view_flags job AND DML_FLAG_COPY_ONLY \<noteq> 0
                     then view_set_flags (view_flags job AND NOT DML_FLAG_COPY_ONLY) job else job);
             a = internal_data_ptr job1;
             m1 = assign_task a (make_task (pf_stack pf) job1 m) m;
             (validation, submission, sys') =
               (case state_path job1 m1 of
                  Some path \<Rightarrow> ml_submit pf path a (job_numa_id job1) (S, m1, ev)
                | None \<Rightarrow> (val_error, sub_failure, (S, m1, ev)))
         in (if validation \<noteq> val_success then to_own_validation_status validation
             else if submission \<noteq> sub_success then to_own_submission_status submission
             else DML_STATUS_OK, job1, sys'))"

text \<open>\<open>execute(job, umwait)\<close>.\<close>
definition job_execute :: "'h platform \<Rightarrow> dml_job \<Rightarrow> bool \<Rightarrow> 'h sys
    \<Rightarrow> (dml_status \<times> dml_job \<times> 'h sys) option" where
  "job_execute pf job umwait sys =
     (case job_submit pf job sys of (status, job1, (S, st)) \<Rightarrow>
        if status \<noteq> DML_STATUS_OK then Some (status, job1, (S, st))
        else case job_wait pf job1 umwait st of
               None \<Rightarrow> None
             | Some (status', job2, st') \<Rightarrow> Some (status', job2, (S, st')))"

section \<open>The C interface (\<open>dml.cpp\<close>)\<close>

definition CHECK_PATH :: "u32 \<Rightarrow> bool" where
  "CHECK_PATH p \<longleftrightarrow> p = DML_PATH_AUTO \<or> p = DML_PATH_SW \<or> p = DML_PATH_HW"

text \<open>The status and the value stored at \<open>job_size_ptr\<close>, if any.\<close>
definition dml_get_job_size :: "u32 \<Rightarrow> addr \<Rightarrow> dml_status \<times> u32 option" where
  "dml_get_job_size path job_size_ptr =
     (if job_size_ptr = 0 then (DML_STATUS_NULL_POINTER_ERROR, None)
      else if \<not> CHECK_PATH path then (DML_STATUS_PATH_ERROR, None)
      else (DML_STATUS_OK, Some (word_of_nat get_job_size)))"

text \<open>
  The memory behind the job is cleared, the state is placed at the next multiple of 64 and
  constructed (a zero task), and the path is stored in it.
\<close>
definition dml_init_job :: "u32 \<Rightarrow> addr \<Rightarrow> dml_job \<Rightarrow> mem \<Rightarrow> dml_status \<times> dml_job \<times> mem" where
  "dml_init_job path job_ptr job m =
     (if job_ptr = 0 then (DML_STATUS_NULL_POINTER_ERROR, job, m)
      else if \<not> CHECK_PATH path then (DML_STATUS_PATH_ERROR, job, m)
      else
        let m1 = store_bytes m job_ptr (replicate get_job_size 0);
            a = align (job_ptr + word_of_nat sizeof_job);
            job' = zero_job\<lparr> job_numa_id := 0xFFFFFFFF, internal_data_ptr := a \<rparr>;
            m2 = store_bytes m1 a (replicate sizeof_state 0);
            m3 = store m2 (a + 128) path
        in (DML_STATUS_OK, job', m3))"

definition dml_execute_job :: "'h platform \<Rightarrow> addr \<Rightarrow> dml_job \<Rightarrow> u32 \<Rightarrow> 'h sys
    \<Rightarrow> (dml_status \<times> dml_job \<times> 'h sys) option" where
  "dml_execute_job pf job_ptr job wait_mode sys =
     (if job_ptr = 0 then Some (DML_STATUS_NULL_POINTER_ERROR, job, sys)
      else job_execute pf job (wait_mode \<noteq> 0) sys)"

definition dml_submit_job :: "'h platform \<Rightarrow> addr \<Rightarrow> dml_job \<Rightarrow> 'h sys
    \<Rightarrow> dml_status \<times> dml_job \<times> 'h sys" where
  "dml_submit_job pf job_ptr job sys =
     (if job_ptr = 0 then (DML_STATUS_NULL_POINTER_ERROR, job, sys) else job_submit pf job sys)"

definition dml_check_job :: "'h platform \<Rightarrow> addr \<Rightarrow> dml_job \<Rightarrow> machine
    \<Rightarrow> (dml_status \<times> dml_job \<times> machine) option" where
  "dml_check_job pf job_ptr job st =
     (if job_ptr = 0 then Some (DML_STATUS_NULL_POINTER_ERROR, job, st) else job_check pf job st)"

definition dml_wait_job :: "'h platform \<Rightarrow> addr \<Rightarrow> dml_job \<Rightarrow> u32 \<Rightarrow> machine
    \<Rightarrow> (dml_status \<times> dml_job \<times> machine) option" where
  "dml_wait_job pf job_ptr job wait_mode st =
     (if job_ptr = 0 then Some (DML_STATUS_NULL_POINTER_ERROR, job, st)
      else job_wait pf job (wait_mode \<noteq> 0) st)"

text \<open>The destructor of a stack task does nothing.\<close>
definition dml_finalize_job :: "addr \<Rightarrow> dml_job \<Rightarrow> dml_status \<times> dml_job" where
  "dml_finalize_job job_ptr job =
     (if job_ptr = 0 then (DML_STATUS_NULL_POINTER_ERROR, job) else (DML_STATUS_OK, job))"

end
