(* ===== verification/DML_Job_Execution.thy ===== *)
theory DML_Job_Execution
  imports DML_Job_API
begin

text \<open>
  What the functions of the job API do to a job, its hidden state and the memory of the caller.
  The locale \<open>synchronous_path\<close> is what submission and waiting promise on a path that finishes
  an operation before \<open>submit\<close> returns; the software path provides it, and so does the automatic
  path on a machine without an accelerator. On such a path, executing a job amounts to running
  the software device once on the descriptor of the job and translating the completion record.
\<close>

section \<open>Operations and statuses\<close>

lemma dml_operation_of_value [simp]: "dml_operation_of (dml_operation_value x) = Some x"
  by (cases x) (simp_all add: dml_operation_of_def dml_operations_def)

lemma dml_operation_of_Some: "dml_operation_of v = Some x \<longleftrightarrow> v = dml_operation_value x"
proof
  assume "dml_operation_of v = Some x"
  then show "v = dml_operation_value x" by (auto simp: dml_operation_of_def find_Some_iff)
qed simp

lemma view_operation_iff:
  "view_operation job = Some x \<longleftrightarrow> job_operation job = dml_operation_value x"
  by (simp add: view_operation_def dml_operation_of_Some)

lemma to_own_execution_ok: "to_own_execution_status s = DML_STATUS_OK \<longleftrightarrow> s = success"
  by (cases s) simp_all

lemma to_own_submission_ok: "to_own_submission_status s = DML_STATUS_OK \<longleftrightarrow> s = sub_success"
  by (cases s) simp_all

lemma to_own_validation_ok: "to_own_validation_status s = DML_STATUS_OK \<longleftrightarrow> s = val_success"
  by (cases s) simp_all

section \<open>The descriptor of a job\<close>

text \<open>The code of the operation in the descriptor; an unknown operation becomes a nop.\<close>
definition job_opcode :: "dml_job \<Rightarrow> u8" where
  "job_opcode job =
     (case view_operation job of Some x \<Rightarrow> ucast (dml_operation_value x) | None \<Rightarrow> 0)"

lemma make_task_shape:
  shows wf_make_task [simp]: "wf_task (make_task a job m)"
    and make_task_opcode [simp]: "dsc_operation (task_descriptor (make_task a job m)) = job_opcode job"
    and make_task_place: "task_descriptor (make_task a job m)
      = rebind (task_descriptor (make_task b job m)) (a + 64)"
proof -
  consider (none) "view_operation job = None" | (op) x where "view_operation job = Some x" by auto
  then show "wf_task (make_task a job m)"
    "dsc_operation (task_descriptor (make_task a job m)) = job_opcode job"
    "task_descriptor (make_task a job m) = rebind (task_descriptor (make_task b job m)) (a + 64)"
    by (cases; simp add: make_task_def make_task_defs job_opcode_def new_task_def wf_task_def;
        case_tac x; simp)+
qed

lemma rebind_make_task:
  "rebind (task_descriptor (make_task a job m)) r = rebind (task_descriptor (make_task b job m)) r"
  using make_task_place [of a job m b] wf_make_task [of b job m] by (simp add: wf_task_def)

lemma job_opcode_known: "operation_of (job_opcode job) \<noteq> None"
proof (cases "view_operation job")
  case (Some x)
  then show ?thesis by (cases x) (simp_all add: job_opcode_def)
qed (simp add: job_opcode_def)

text \<open>
  Claim C33: every job, also one with an unknown operation, becomes a well-formed task: a descriptor
  of 64 bytes that carries a known operation code, that of the job when it has one, with a zero
  record; where the temporary task is placed does not matter once it is connected with a record.
\<close>
theorem make_task_wellformed:
  "wf_task (make_task a job m)
   \<and> operation_of (dsc_operation (task_descriptor (make_task a job m))) \<noteq> None
   \<and> dsc_operation (task_descriptor (make_task a job m))
       = (case view_operation job of Some x \<Rightarrow> ucast (dml_operation_value x) | None \<Rightarrow> operation_code op_nop)
   \<and> rebind (task_descriptor (make_task a job m)) r = rebind (task_descriptor (make_task b job m)) r"
proof -
  have "job_opcode job
      = (case view_operation job of Some x \<Rightarrow> ucast (dml_operation_value x) | None \<Rightarrow> operation_code op_nop)"
    by (cases "view_operation job") (simp_all add: job_opcode_def)
  then show ?thesis
    using job_opcode_known [of job] rebind_make_task [of a job m r b] by (simp only: make_task_shape simp_thms)
qed

text \<open>The descriptor in the hidden state of a job once its task has been made.\<close>
definition job_descriptor :: "dml_job \<Rightarrow> mem \<Rightarrow> descriptor" where
  "job_descriptor job m = rebind (task_descriptor (make_task 0 job m)) (internal_data_ptr job + 64)"

lemma wf_job_descriptor [simp]: "wf_descriptor (job_descriptor job m)"
  using wf_make_task [of 0 job m] by (simp add: job_descriptor_def wf_task_def)

lemma job_descriptor_record [simp]:
  "record_address (job_descriptor job m) = internal_data_ptr job + 64"
  using wf_make_task [of 0 job m] by (simp add: job_descriptor_def wf_task_def)

lemma job_descriptor_opcode [simp]: "dsc_operation (job_descriptor job m) = job_opcode job"
  using wf_make_task [of 0 job m] by (simp add: job_descriptor_def wf_task_def)

section \<open>The hidden state of a job\<close>

text \<open>The memory after the task of the job has been moved into its state.\<close>
definition prepared :: "'h platform \<Rightarrow> dml_job \<Rightarrow> mem \<Rightarrow> mem" where
  "prepared pf job m = assign_task (internal_data_ptr job) (make_task (pf_stack pf) job m) m"

lemma prepared_descriptor:
  "load_bytes (prepared pf job m) (internal_data_ptr job) 64 = job_descriptor job m"
  using object.assign_descriptor [OF wf_make_task, of "internal_data_ptr job" "pf_stack pf" job m m]
    rebind_make_task [of "pf_stack pf" job m _ 0]
  by (simp add: prepared_def assign_task_def job_descriptor_def)

lemma prepared_record:
  "record_at (prepared pf job m) (internal_data_ptr job + 64) = new_completion_record"
  using object.assign_record [OF wf_make_task, of "internal_data_ptr job" "pf_stack pf" job m m]
  by (simp add: prepared_def assign_task_def)

lemma in_state_part:
  assumes "in_region x (a + word_of_nat i) n" "i + n \<le> 96"
  shows "in_region x a 96"
  using assms(1) by (rule in_region_part) (use assms(2) in simp_all)

lemma prepared_elsewhere:
  assumes "\<not> in_region x (internal_data_ptr job) 96"
  shows "prepared pf job m x = m x"
proof -
  have "\<not> in_region x (internal_data_ptr job) 64"
    using assms in_state_part [of x "internal_data_ptr job" 0 64] by auto
  moreover have "\<not> in_region x (internal_data_ptr job + 64) 32"
    using assms in_state_part [of x "internal_data_ptr job" 64 32] by auto
  ultimately show ?thesis
    unfolding prepared_def assign_task_def by (intro object.assign_elsewhere wf_make_task)
qed

lemma path_outside_task: "in_region x (a + 128) 4 \<Longrightarrow> \<not> in_region x a 96"
  using disjoint_parts [of 0 96 128 4 a] by (auto simp: disjoint_regions_def)

lemma state_path_cong:
  assumes "\<And>x. in_region x (internal_data_ptr job + 128) 4 \<Longrightarrow> m x = m' x"
  shows "state_path job m = state_path job m'"
proof -
  have "load_bytes m (internal_data_ptr job + 128) 4 = load_bytes m' (internal_data_ptr job + 128) 4"
    by (rule load_bytes_cong) (use assms in simp)
  then show ?thesis by (simp add: state_path_def load_def)
qed

lemma state_path_prepared [simp]: "state_path job (prepared pf job m) = state_path job m"
  by (rule state_path_cong) (simp add: path_outside_task prepared_elsewhere)

text \<open>What \<open>submit\<close> does to the flags of a copy-only move.\<close>
definition consumed :: "dml_job \<Rightarrow> dml_job" where
  "consumed job =
     (if view_operation job = Some DML_OP_MEM_MOVE \<and> view_flags job AND DML_FLAG_COPY_ONLY \<noteq> 0
      then view_set_flags (view_flags job AND NOT DML_FLAG_COPY_ONLY) job else job)"

lemma consumed_fields [simp]:
  "internal_data_ptr (consumed job) = internal_data_ptr job"
  "view_operation (consumed job) = view_operation job"
  "source_first_ptr (consumed job) = source_first_ptr job"
  "destination_first_ptr (consumed job) = destination_first_ptr job"
  "source_length (consumed job) = source_length job"
  "job_numa_id (consumed job) = job_numa_id job"
  "state_path (consumed job) m = state_path job m"
  by (simp_all add: consumed_def view_set_flags_def view_operation_def state_path_def)

lemma consumed_other: "view_operation job \<noteq> Some DML_OP_MEM_MOVE \<Longrightarrow> consumed job = job"
  by (simp add: consumed_def)

lemma job_submit_eq:
  "job_submit pf job (S, m, ev) =
     (if range_check job \<noteq> DML_STATUS_OK then (range_check job, job, (S, m, ev))
      else case (case state_path job m of
                   Some path \<Rightarrow> ml_submit pf path (internal_data_ptr job) (job_numa_id job)
                     (S, prepared pf (consumed job) m, ev)
                 | None \<Rightarrow> (val_error, sub_failure, (S, prepared pf (consumed job) m, ev))) of
             (validation, submission, sys') \<Rightarrow>
               (if validation \<noteq> val_success then to_own_validation_status validation
                else if submission \<noteq> sub_success then to_own_submission_status submission
                else DML_STATUS_OK, consumed job, sys'))"
proof -
  have "state_path (consumed job) (prepared pf (consumed job) m) = state_path job m"
    by (simp only: state_path_prepared consumed_fields)
  then show ?thesis
    unfolding job_submit_def prod.case consumed_def [symmetric] Let_def
    unfolding consumed_fields prepared_def consumed_fields by simp
qed

section \<open>Paths that finish at once\<close>

text \<open>The status bytes the software device writes.\<close>
definition software_codes :: "u8 set" where
  "software_codes = {1, 2, 5, 9}"

lemma kernel_codes [simp]:
  "1 \<in> software_codes" "5 \<in> software_codes"
  "execution_status_value (compare_status c e r) \<in> software_codes"
  "execution_status_value (create_delta_status c e r) \<in> software_codes"
  "execution_status_value (dif_status t) \<in> software_codes"
  by (simp_all add: compare_status_def create_delta_status_def dif_status_def software_codes_def)

lemma run_kernel_code:
  assumes "run_kernel T d st = Some st'"
  shows "fst st' (record_address d) \<in> software_codes"
proof -
  obtain m ev where st: "st = (m, ev)" by (cases st)
  obtain op where op: "operation_of (dsc_operation d) = Some op"
    using assms run_kernel_None [of T d st] by (cases "operation_of (dsc_operation d)") auto
  show ?thesis
    using assms op unfolding st run_kernel_def
    by (cases op) (auto simp: kernel_defs Let_def split: prod.splits)
qed

lemma kernel_batch_code: "fst (kernel_batch T d st) (record_address d) \<in> software_codes"
proof -
  obtain s k m ev where loop: "batch_loop T (batch_dsc_descriptor_list_address d)
      (unat (batch_dsc_descriptors_count d)) 0 st = (s, k, m, ev)"
    using prod_cases4 by blast
  then show ?thesis
    using batch_loop_end [OF loop] by (auto simp: kernel_batch_def Let_def)
qed

lemma software_submit_code:
  "software_submit T d st = (sub_success, st') \<Longrightarrow> fst st' (record_address d) \<in> software_codes"
  using run_kernel_code [of T d st st'] kernel_batch_code [of T d st]
  by (auto simp: software_submit_def kernel_drain_def split: option.splits operation.splits)

lemma software_codes_final: "c \<in> software_codes \<Longrightarrow> c \<noteq> 0 \<and> \<not> is_page_fault c"
  by (auto simp: software_codes_def is_page_fault_def)

lemma validated_known: "validate d = val_success \<Longrightarrow> operation_of (dsc_operation d) \<noteq> None"
  by (cases "operation_of (dsc_operation d)") (simp_all add: validate_def)

text \<open>
  A path on which \<open>submit\<close> runs the software device and leaves the accelerators alone, and on
  which a wait for a finished task returns at once.
\<close>
locale synchronous_path =
  fixes pf :: "'h platform" and path :: execution_path and S :: "'h hw_state"
  assumes validates: "path_validate path d = validate d"
    and submits: "path_submit pf path d numa (S, st)
      = (case software_submit (pf_table pf) d st of (sub, st') \<Rightarrow> (sub, (S, st')))"
    and waits: "m (record_address (load_bytes m a 64)) \<in> software_codes \<Longrightarrow>
      path_wait pf path a umwait (m, ev) = Some (m, ev)"
    and polls: "m (record_address (load_bytes m a 64)) \<in> software_codes \<Longrightarrow>
      path_finished pf path a (m, ev) = Some (True, (m, ev))"
begin

lemma submit_job:
  assumes "state_path job m = Some path" "range_check job = DML_STATUS_OK"
  defines "m1 \<equiv> prepared pf (consumed job) m" and "d \<equiv> job_descriptor (consumed job) m"
  shows "job_submit pf job (S, m, ev) =
    (if validate d = val_success
     then (DML_STATUS_OK, consumed job, (S, snd (software_submit (pf_table pf) d (m1, ev))))
     else (to_own_validation_status (validate d), consumed job, (S, m1, ev)))"
proof -
  obtain sub st' where run: "software_submit (pf_table pf) d (m1, ev) = (sub, st')"
    by (rule prod.exhaust)
  then have "validate d = val_success \<Longrightarrow> sub = sub_success"
    using software_submit_accepts [of "pf_table pf" d "(m1, ev)"] validated_known [of d] by simp
  moreover have "load_bytes m1 (internal_data_ptr job) 64 = d"
    using prepared_descriptor [of pf "consumed job" m] by (simp add: m1_def d_def)
  ultimately show ?thesis
    using assms(1,2) run by (simp add: job_submit_eq ml_submit_def validates submits Let_def flip: m1_def)
qed

text \<open>
  Executing a job runs the software device on its descriptor and translates the record, when the
  operation leaves the descriptor and the path in the hidden state alone.
\<close>
lemma execute_job:
  assumes "state_path job m = Some path" "range_check job = DML_STATUS_OK"
    and "d = job_descriptor (consumed job) m" "validate d = val_success"
    and run: "software_submit (pf_table pf) d (prepared pf (consumed job) m, ev) = (sub, (m2, ev2))"
    and kept: "\<And>x. in_region x (internal_data_ptr job) 64 \<or> in_region x (internal_data_ptr job + 128) 4
      \<Longrightarrow> m2 x = prepared pf (consumed job) m x"
  shows "job_execute pf job umwait (S, m, ev) =
    (case write_result (consumed job) m2 of (status, job', m3) \<Rightarrow> Some (status, job', (S, m3, ev2)))"
proof -
  let ?j = "consumed job" and ?a = "internal_data_ptr job"
  have "sub = sub_success"
    using software_submit_accepts [of "pf_table pf" d "(prepared pf ?j m, ev)"] run
      validated_known [OF assms(4)] by simp
  then have code: "m2 (record_address d) \<in> software_codes"
    using software_submit_code run by fastforce
  have "load_bytes m2 ?a 64 = load_bytes (prepared pf ?j m) ?a 64"
    by (rule load_bytes_cong) (simp add: kept)
  then have d2: "load_bytes m2 ?a 64 = d" using prepared_descriptor [of pf ?j m] assms(3) by simp
  have "state_path job m2 = state_path job (prepared pf ?j m)" by (rule state_path_cong) (simp add: kept)
  also have "\<dots> = state_path job m" using state_path_prepared [of ?j pf m] by (simp only: consumed_fields)
  finally have "state_path ?j m2 = Some path" using assms(1) by simp
  moreover have "path_wait pf path ?a umwait (m2, ev2) = Some (m2, ev2)"
    using waits code d2 by simp
  ultimately show ?thesis
    using submit_job [OF assms(1,2), of ev] assms(3,4) run
    by (simp add: job_execute_def job_wait_def Let_def split: prod.split)
qed

end

interpretation sw: synchronous_path pf software S for pf :: "'h platform" and S :: "'h hw_state"
proof unfold_locales
  fix m :: mem and a umwait ev
  assume "m (record_address (load_bytes m a 64)) \<in> software_codes"
  then have "software_finished (load_bytes m a 64) m"
    using software_codes_final by (simp add: software_finished_iff)
  then show "path_wait pf software a umwait (m, ev) = Some (m, ev)"
    and "path_finished pf software a (m, ev) = Some (True, (m, ev))"
    by (simp_all add: path_wait_def path_finished_def observe_def software_wait_finished Let_def)
qed (simp_all add: path_validate_def software_validate_def path_submit_def Let_def)

text \<open>Without hardware support the automatic path behaves like the software path.\<close>
interpretation auto: synchronous_path pf automatic "S\<lparr>hw_support := False\<rparr>"
  for pf :: "'h platform" and S :: "'h hw_state"
proof unfold_locales
  fix m :: mem and a umwait ev
  let ?d = "load_bytes m a 64"
  assume "m (record_address ?d) \<in> software_codes"
  then have c: "software_finished ?d m" "\<not> is_page_fault (cr_status (record_at m (record_address ?d)))"
    using software_codes_final by (simp_all add: software_finished_iff record_status_byte)
  then show "path_wait pf automatic a umwait (m, ev) = Some (m, ev)"
    by (simp add: path_wait_def automatic_wait_def observe_def software_wait_finished Let_def store_bytes_load)
  show "path_finished pf automatic a (m, ev) = Some (True, (m, ev))"
    using c by (simp add: path_finished_def automatic_finished_def Let_def store_bytes_load)
qed (simp_all add: path_validate_def automatic_validate_def software_validate_def path_submit_def
    automatic_submit_def hardware_submit_def Let_def split: prod.split)

section \<open>Execution of jobs without an accelerator\<close>

text \<open>The job runs on the software path, or on the automatic path of a machine without accelerators.\<close>
definition runs_in_software :: "dml_job \<Rightarrow> mem \<Rightarrow> 'h hw_state \<Rightarrow> bool" where
  "runs_in_software job m S \<longleftrightarrow>
     state_path job m = Some software \<or> state_path job m = Some automatic \<and> \<not> hw_support S"

lemma synchronous_cases:
  assumes "runs_in_software job m S"
  obtains path where "state_path job m = Some path" "synchronous_path pf path S"
proof -
  consider (software) "state_path job m = Some software"
    | (automatic) "state_path job m = Some automatic" "S\<lparr>hw_support := False\<rparr> = S"
    using assms by (auto simp: runs_in_software_def)
  then show ?thesis
  proof cases
    case software
    then show ?thesis by (rule that) (rule sw.synchronous_path_axioms)
  next
    case automatic
    have "synchronous_path pf automatic (S\<lparr>hw_support := False\<rparr>)"
      by (rule auto.synchronous_path_axioms)
    with automatic show ?thesis by (intro that) simp_all
  qed
qed

lemma execute_in_software:
  assumes "p \<noteq> 0" "runs_in_software job m S" "range_check job = DML_STATUS_OK"
    and "d = job_descriptor (consumed job) m" "validate d = val_success"
    and "software_submit (pf_table pf) d (prepared pf (consumed job) m, ev) = (sub, (m2, ev2))"
    and "\<And>x. in_region x (internal_data_ptr job) 64 \<or> in_region x (internal_data_ptr job + 128) 4
      \<Longrightarrow> m2 x = prepared pf (consumed job) m x"
  shows "dml_execute_job pf p job wait_mode (S, m, ev) =
    (case write_result (consumed job) m2 of (status, job', m3) \<Rightarrow> Some (status, job', (S, m3, ev2)))"
proof -
  obtain path where path: "state_path job m = Some path" "synchronous_path pf path S"
    using assms(2) by (rule synchronous_cases)
  show ?thesis
    using synchronous_path.execute_job [OF path(2,1) assms(3-7)] assms(1)
    by (simp only: dml_execute_job_def if_False)
qed

text \<open>
  Claim C2: executing a job on the software path, or on the automatic path without an accelerator,
  is one run of the software device on the descriptor made from the job, followed by the
  translation of its completion record; it returns in both wait modes. The operation must leave
  the descriptor and the path in the hidden state of the job alone.
\<close>
theorem dml_execute_job_refines:
  assumes "p \<noteq> 0" "runs_in_software job m S" "range_check job = DML_STATUS_OK"
    and "d = job_descriptor (consumed job) m" "validate d = val_success"
    and "software_submit (pf_table pf) d (prepared pf (consumed job) m, ev) = (sub, (m2, ev2))"
    and "\<And>x. in_region x (internal_data_ptr job) 64 \<or> in_region x (internal_data_ptr job + 128) 4
      \<Longrightarrow> m2 x = prepared pf (consumed job) m x"
  shows "dml_execute_job pf p job wait_mode (S, m, ev) =
    (case write_result (consumed job) m2 of (status, job', m3) \<Rightarrow> Some (status, job', (S, m3, ev2)))"
  using assms by (rule execute_in_software)

lemma job_descriptor_mem_move:
  assumes "view_operation job = Some DML_OP_MEM_MOVE"
  shows "job_descriptor job m = rebind (make_mem_move_descriptor (source_first_ptr job)
    (destination_first_ptr job) (source_length job) (view_flags job)) (internal_data_ptr job + 64)"
  using assms by (simp add: job_descriptor_def make_task_def make_mem_move_task_def new_task_def)

lemma job_descriptor_compare:
  assumes "view_operation job = Some DML_OP_COMPARE"
  shows "job_descriptor job m = rebind (make_compare_descriptor (source_first_ptr job)
    (source_second_ptr job) (source_length job) (view_flags job) (view_expected_result job))
    (internal_data_ptr job + 64)"
  using assms by (simp add: job_descriptor_def make_task_def make_compare_task_def new_task_def)

lemma job_descriptor_crc:
  assumes "view_operation job = Some DML_OP_CRC"
  shows "job_descriptor job m = rebind (make_crc_descriptor (source_first_ptr job) (source_length job)
    (job_crc_seed job m) (view_flags job) (job_crc_options job)) (internal_data_ptr job + 64)"
  using assms by (simp add: job_descriptor_def make_task_def make_crc_task_def new_task_def)

text \<open>A region apart from the hidden state keeps its bytes while the task is prepared.\<close>
lemma prepared_region:
  assumes "disjoint_regions (internal_data_ptr job) 192 a n" "n \<le> 2 ^ 64"
  shows "load_bytes (prepared pf job m) a n = load_bytes m a n"
proof (rule load_bytes_cong, rule prepared_elsewhere)
  fix i assume "i < n"
  then have "\<not> in_region (a + word_of_nat i) (internal_data_ptr job) 192"
    using assms by (intro disjoint_regionsD2 [OF assms(1)]) simp
  then show "\<not> in_region (a + word_of_nat i) (internal_data_ptr job) 96"
    using in_region_mono by fastforce
qed

lemma in_state:
  "in_region x a 64 \<or> in_region x (a + 128) 4 \<or> in_region x (a + 64) 32 \<Longrightarrow> in_region x a 192"
  using in_region_part [of x a 128 4 192] in_region_part [of x a 64 32 192] in_region_mono [of x a 64 192]
  by auto

lemma state_status_success:
  "m (internal_data_ptr job + 64) = 1 \<Longrightarrow> state_status job m = DML_STATUS_OK"
  by (simp add: state_status_def state_record_def get_status_def record_status_byte)


lemma u8_in_u32: "ucast (ucast (v :: u8) :: u32) = v"
  by (rule bit_word_eqI) (simp add: bit_simps)

lemma u8_u32_inject [simp]:
  "(ucast (v :: u8) :: u32) = ucast w \<longleftrightarrow> v = w" "(ucast v :: u32) = 0 \<longleftrightarrow> v = 0"
  by (metis u8_in_u32, metis u8_in_u32 unsigned_0)

lemma record_apart_from_state:
  "in_region x a 64 \<or> in_region x (a + 128) 4 \<Longrightarrow> \<not> in_region x (a + 64) 32"
  using disjoint_parts [of 0 64 64 32 a] disjoint_parts [of 128 4 64 32 a]
  by (auto simp: disjoint_regions_def)


lemma crc_value_region:
  assumes "load_bytes m src (unat n) = load_bytes m' src (unat n)"
  shows "kernel_crc_value ref_table fl src n seed m = kernel_crc_value ref_table fl src n seed m'"
  using assms by (simp add: kernel_crc_value_def Let_def ref.crc ref.crc_reflected)


section \<open>Refused jobs\<close>

lemma hw_enqueue_frame:
  "hw_enqueue enqcmd i d S m = (r, S', m') \<Longrightarrow> \<not> in_region x (record_address d) 32 \<Longrightarrow> m' x = m x"
  by (auto simp: hw_enqueue_def Let_def store_bytes_outside split: prod.splits)

lemma hw_submit_loop_frame:
  "hw_submit_loop enqcmd own d k S m = (r, S', m') \<Longrightarrow> \<not> in_region x (record_address d) 32 \<Longrightarrow> m' x = m x"
proof (induction k arbitrary: S m)
  case (Suc k)
  then show ?case
    by (auto simp: Let_def split: if_splits prod.splits dest!: Suc.IH hw_enqueue_frame)
qed simp

text \<open>Submission to the accelerator touches no memory but the completion record.\<close>
lemma hardware_submit_frame:
  "hardware_submit enqcmd tsc d numa S m = (r, S', m') \<Longrightarrow> \<not> in_region x (record_address d) 32 \<Longrightarrow> m' x = m x"
  by (auto simp: hardware_submit_def Let_def split: if_splits dest: hw_submit_loop_frame)

lemma path_submit_refused:
  assumes "path_submit pf path d numa (S, st) = (sub, (S', st'))" "sub \<noteq> sub_success"
    and "operation_of (dsc_operation d) \<noteq> None"
  shows "\<not> in_region x (record_address d) 32 \<Longrightarrow> fst st' x = fst st x" "snd st' = snd st"
proof -
  have ok: "fst (software_submit (pf_table pf) d st0) = sub_success" for st0
    using software_submit_accepts assms(3) by simp
  have hw: "path = hardware"
    using assms(1,2) ok [of st] ok [of "(snd (snd (hardware_submit (pf_enqcmd pf) (pf_tsc_aux pf) d numa S (fst st))), snd st)"]
    by (cases path) (auto simp: path_submit_def automatic_submit_def Let_def split: prod.splits if_splits)
  obtain r S1 m1 where run: "hardware_submit (pf_enqcmd pf) (pf_tsc_aux pf) d numa S (fst st) = (r, S1, m1)"
    by (rule prod_cases3)
  with assms(1) hw have "st' = (m1, snd st)" by (simp add: path_submit_def Let_def)
  then show "\<not> in_region x (record_address d) 32 \<Longrightarrow> fst st' x = fst st x" "snd st' = snd st"
    using hardware_submit_frame [OF run] by simp_all
qed


section \<open>A copy-only move is checked once\<close>

text \<open>
  Claim C38: the copy-only check of a memory move applies to the first submission only. Submitting
  clears the flag in the job of the caller (with every flag above bit 15), so the same job passes
  the range check afterwards whatever its buffers are, overlapping ones included.
\<close>
theorem copy_only_consumed:
  assumes "p \<noteq> 0" "view_operation job = Some DML_OP_MEM_MOVE" "view_flags job AND DML_FLAG_COPY_ONLY \<noteq> 0"
    and "range_check job = DML_STATUS_OK"
    and "dml_submit_job pf p job sys = (status, job', sys')"
  shows "view_flags job' AND DML_FLAG_COPY_ONLY = 0 \<and> drop_bit 16 (job_flags job') = 0
    \<and> range_check (job'\<lparr>source_first_ptr := src, destination_first_ptr := dst, source_length := n\<rparr>)
        = DML_STATUS_OK"
proof -
  obtain S m ev where sys: "sys = (S, m, ev)" by (rule prod_cases3)
  have job': "job' = view_set_flags (view_flags job AND NOT DML_FLAG_COPY_ONLY) job"
    using assms unfolding sys
    by (auto simp: dml_submit_job_def job_submit_eq consumed_def split: prod.splits)
  have f: "view_flags job' = view_flags job AND NOT DML_FLAG_COPY_ONLY"
    by (rule bit_word_eqI) (auto simp: job' view_set_flags_def view_flags_def bit_simps)
  then have z: "view_flags job' AND DML_FLAG_COPY_ONLY = 0"
    by (intro bit_word_eqI) (simp add: bit_simps)
  have "drop_bit 16 (job_flags job') = 0"
    by (rule bit_word_eqI) (simp add: job' view_set_flags_def bit_simps)
  moreover have "view_operation job' = Some DML_OP_MEM_MOVE"
    using assms(2) by (simp add: job' view_set_flags_def view_operation_def)
  ultimately show ?thesis
    using z by (simp add: range_check_def view_operation_def range_check_mem_move_def view_flags_def)
qed

section \<open>Initialisation\<close>

text \<open>
  Claim C31: \<open>dml_init_job\<close> with a known path lays out a job in the bytes \<open>dml_get_job_size\<close> asks for:
  the hidden state is 64-byte aligned, behind the job structure and inside that region, its
  task is zero, it holds the requested path, and no byte outside the region is written.
\<close>
theorem dml_init_job_layout:
  assumes "p \<noteq> 0" "CHECK_PATH path" "unat p + get_job_size \<le> 2 ^ 64"
    and "dml_init_job path p job0 m = (status, job, m')"
    and "a = internal_data_ptr job"
  shows "status = DML_STATUS_OK \<and> unat a mod 64 = 0
    \<and> unat p + sizeof_job \<le> unat a \<and> unat a + sizeof_state \<le> unat p + get_job_size
    \<and> state_path job m' = Some (if path = DML_PATH_SW then software
        else if path = DML_PATH_HW then hardware else automatic)
    \<and> load_bytes m' a 128 = replicate 128 0
    \<and> (\<forall>x. \<not> in_region x p get_job_size \<longrightarrow> m' x = m x)"
proof -
  let ?q = "p + word_of_nat sizeof_job" and ?z = "store_bytes m p (replicate get_job_size 0)"
  have q: "unat ?q = unat p + 120"
    using assms(3) unat_add_offset [of p 120] by (simp add: get_job_size_def sizeof_job_def sizeof_state_def)
  have run: "status = DML_STATUS_OK" "job = zero_job\<lparr> job_numa_id := 0xFFFFFFFF, internal_data_ptr := a \<rparr>"
    "a = align ?q" and m': "m' = store (store_bytes ?z a (replicate sizeof_state 0)) (a + 128) path"
    using assms by (auto simp: dml_init_job_def Let_def)
  have "unat ?q + 63 < 2 ^ 64" using q assms(3) by (simp add: get_job_size_def sizeof_job_def sizeof_state_def)
  note al = align_bounds [OF this]
  have lo: "unat p + sizeof_job \<le> unat a" and hi: "unat a + sizeof_state \<le> unat p + get_job_size"
    using al(1,2) q run(3) by (simp_all add: get_job_size_def sizeof_job_def sizeof_state_def)
  have path: "state_path job m' = Some (if path = DML_PATH_SW then software
      else if path = DML_PATH_HW then hardware else automatic)"
    using assms(2) run(2) load_store_same [of "store_bytes ?z a (replicate sizeof_state 0)" "a + 128" path]
    by (auto simp: state_path_def CHECK_PATH_def m' Let_def)
  have "load_bytes m' a 128 = load_bytes (store_bytes ?z a (replicate sizeof_state 0)) a 128"
    unfolding m' store_def using disjoint_parts [of 0 128 128 4 a] by (simp add: load_store_bytes_disjoint)
  also have "\<dots> = replicate 128 0"
    by (rule nth_equalityI) (simp_all add: store_bytes_inside sizeof_state_def)
  finally have task: "load_bytes m' a 128 = replicate 128 0" .
  have "m' x = m x" if "\<not> in_region x p get_job_size" for x
  proof -
    have "\<not> in_region x a sizeof_state"
      using that lo hi assms(3) by (auto simp: in_region_no_wrap)
    moreover from this have "\<not> in_region x (a + 128) 4"
      using in_region_part [of x a 128 4 sizeof_state] by (auto simp: sizeof_state_def)
    ultimately show ?thesis using that by (simp add: m' store_outside store_bytes_outside)
  qed
  with run(1,3) lo hi path task al(3) show ?thesis by simp
qed

section \<open>Polling\<close>

lemma write_result_final: "fst (write_result job m) \<noteq> DML_STATUS_BEING_PROCESSED"
proof -
  have "to_own_execution_status s \<noteq> DML_STATUS_BEING_PROCESSED" for s by (cases s) simp_all
  then show ?thesis
    by (auto simp: write_result_def write_result_status_def write_result_mem_move_def write_result_crc_def
        write_result_compare_def write_result_create_delta_def write_result_dif_insert_def
        state_status_def Let_def split: option.split dml_operation.split)
qed

text \<open>
  \<open>dml_check_job\<close> on the software or the hardware path answers
  \<open>DML_STATUS_BEING_PROCESSED\<close> and changes nothing exactly while the status byte of the task is
  zero; as soon as it is not, it does what \<open>dml_wait_job\<close> does, which then returns at once.
\<close>
lemma dml_check_job_polls:
  assumes "p \<noteq> 0" "state_path job m = Some path" "path \<noteq> automatic"
    and "record_address (state_descriptor job m) = internal_data_ptr job + 64"
  shows "(m (internal_data_ptr job + 64) = 0 \<longleftrightarrow>
        dml_check_job pf p job (m, ev) = Some (DML_STATUS_BEING_PROCESSED, job, (m, ev)))
    \<and> (m (internal_data_ptr job + 64) \<noteq> 0 \<longrightarrow>
        dml_check_job pf p job (m, ev) = dml_wait_job pf p job wait_mode (m, ev))"
proof -
  let ?s = "m (internal_data_ptr job + 64)"
  have fin: "software_finished (load_bytes m (internal_data_ptr job) 64) m \<longleftrightarrow> ?s \<noteq> 0"
    using assms(4) by (simp add: software_finished_iff state_descriptor_def)
  have busy: "dml_check_job pf p job (m, ev) = Some (DML_STATUS_BEING_PROCESSED, job, (m, ev))" if "?s = 0"
    using assms(1-3) fin that by (simp add: dml_check_job_def job_check_def path_finished_def Let_def)
  have check: "dml_check_job pf p job (m, ev)
      = (case write_result job m of (status, job', m') \<Rightarrow> Some (status, job', (m', ev)))" if "?s \<noteq> 0"
    using assms(1-3) fin that by (simp add: dml_check_job_def job_check_def path_finished_def Let_def)
  have wait: "dml_wait_job pf p job wait_mode (m, ev)
      = (case write_result job m of (status, job', m') \<Rightarrow> Some (status, job', (m', ev)))" if "?s \<noteq> 0"
    using assms(1-3) fin that
    by (simp add: dml_wait_job_def job_wait_def path_wait_def observe_def software_wait_finished Let_def)
  obtain status job' m' where w: "write_result job m = (status, job', m')" by (rule prod_cases3)
  have "status \<noteq> DML_STATUS_BEING_PROCESSED" using write_result_final [of job m] w by simp
  then show ?thesis using busy check wait w by (cases "?s = 0") simp_all
qed

section \<open>Example runs\<close>

definition sample_platform :: "unit platform" where
  "sample_platform = \<lparr> pf_table = ref_table, pf_enqcmd = \<lambda>_ _ h. (False, h), pf_tsc_aux = 0,
     pf_progress = \<lambda>_ m. m, pf_stack = 0x7000 \<rparr>"

text \<open>Every byte holds the low byte of its address, except for the path of the job.\<close>
definition sample_mem :: mem where
  "sample_mem = store (\<lambda>a. ucast a) 0x10100 DML_PATH_SW"

definition sample_job :: "dml_operation \<Rightarrow> dml_job" where
  "sample_job op = zero_job\<lparr> job_operation := dml_operation_value op, internal_data_ptr := 0x10080,
     source_first_ptr := 0x1000, source_second_ptr := 0x1102, destination_first_ptr := 0x1002,
     crc_checksum_ptr := 0x3000, source_length := 4 \<rparr>"

lemma sample_job_fields [simp]:
  "internal_data_ptr (sample_job op) = 0x10080" "view_operation (sample_job op) = Some op"
  "source_first_ptr (sample_job op) = 0x1000" "source_second_ptr (sample_job op) = 0x1102"
  "destination_first_ptr (sample_job op) = 0x1002" "crc_checksum_ptr (sample_job op) = 0x3000"
  "source_length (sample_job op) = 4" "view_flags (sample_job op) = 0"
  "pf_table sample_platform = ref_table"
  by (simp_all add: sample_job_def view_operation_def view_flags_def zero_job_def sample_platform_def)

lemma sample_runs [simp]: "runs_in_software (sample_job op) sample_mem S"
  using load_store_same [of "\<lambda>a. ucast a" "0x10100" DML_PATH_SW]
  by (simp add: runs_in_software_def state_path_def sample_mem_def)

lemma sample_mem_below:
  assumes "unat a + n \<le> 0x10000"
  shows "load_bytes sample_mem a n = load_bytes (\<lambda>a. ucast a) a n"
proof (rule load_bytes_cong)
  fix i assume "i < n"
  then have "unat (a + word_of_nat i) < 0x10000" using assms unat_add_offset [of a i] by simp
  then show "sample_mem (a + word_of_nat i) = ucast (a + word_of_nat i)"
    unfolding sample_mem_def by (intro store_outside) (simp add: in_region_no_wrap)
qed

lemma sample_bytes:
  "load_bytes sample_mem 0x1000 4 = [0, 1, 2, 3]" "load_bytes sample_mem 0x1102 4 = [2, 3, 4, 5]"
proof -
  have "load_bytes (\<lambda>a. ucast a) (0x1000 :: addr) 4 = [0, 1, 2, 3 :: byte]"
    "load_bytes (\<lambda>a. ucast a) (0x1102 :: addr) 4 = [2, 3, 4, 5 :: byte]"
    by (simp_all add: load_bytes_def upt_rec)
  then show "load_bytes sample_mem 0x1000 4 = [0, 1, 2, 3]" "load_bytes sample_mem 0x1102 4 = [2, 3, 4, 5]"
    by (simp_all add: sample_mem_below)
qed

lemma load_descriptor_field:
  assumes "off + LENGTH('a::len) div 8 \<le> 64"
  shows "(get_field off (load_bytes m a 64) :: 'a word) = load m (a + word_of_nat off)"
proof -
  have "take (LENGTH('a) div 8) (drop off (load_bytes m a 64))
      = load_bytes m (a + word_of_nat off) (LENGTH('a) div 8)"
    using assms by (intro nth_equalityI) (auto simp: add.assoc simp flip: of_nat_add)
  then show ?thesis by (simp add: get_field_def load_def)
qed

lemma sample_apart [simp]:
  "disjoint_regions 0x10080 192 0x1000 4" "disjoint_regions 0x10080 192 0x1002 4"
  "disjoint_regions 0x10080 192 0x1102 4" "disjoint_regions 0x10080 192 0x3000 4"
  by (simp_all add: disjoint_no_wrap)

lemma sample_range [simp]: "range_check (sample_job DML_OP_MEM_MOVE) = DML_STATUS_OK"
  by (simp add: range_check_def range_check_mem_move_def)




theorem dml_execute_job_refines_witness:
  "\<exists>job' m'. dml_execute_job sample_platform 0x10000 (sample_job DML_OP_NOP) 0 (sample_hw, sample_mem, [])
     = Some (DML_STATUS_OK, job', (sample_hw, m', []))"
proof -
  let ?j = "sample_job DML_OP_NOP"
  let ?d = "job_descriptor ?j sample_mem" and ?m1 = "prepared sample_platform ?j sample_mem"
  have cons: "consumed ?j = ?j" by (simp add: consumed_other)
  have op: "operation_of (dsc_operation ?d) = Some op_nop" by (simp add: job_opcode_def)
  have m2: "kernel_nop ?d ?m1 = ?m1(0x100C0 := 1)" by (simp add: kernel_nop_def write_status_apply)
  have "dml_execute_job sample_platform 0x10000 ?j 0 (sample_hw, sample_mem, [])
      = (case write_result ?j (?m1(0x100C0 := 1)) of (s, job', m3) \<Rightarrow> Some (s, job', (sample_hw, m3, [])))"
  proof (rule dml_execute_job_refines [of "0x10000" ?j sample_mem sample_hw ?d sample_platform "[]" sub_success,
        unfolded cons])
    show "validate ?d = val_success" using op by (simp add: validate_def validate_nop_def)
    show "software_submit (pf_table sample_platform) ?d (?m1, []) = (sub_success, (?m1(0x100C0 := 1), []))"
      using op m2 by (simp add: software_submit_def run_kernel_def)
    show "(?m1(0x100C0 := 1)) x = ?m1 x"
      if "in_region x (internal_data_ptr ?j) 64 \<or> in_region x (internal_data_ptr ?j + 128) 4" for x
      using that by (auto simp: in_region_def)
  qed (simp_all add: range_check_def)
  then show ?thesis
    by (simp add: write_result_def write_result_status_def state_status_success)
qed


theorem copy_only_consumed_witness:
  "range_check ((fst (snd (dml_submit_job sample_platform 0x10000
     ((sample_job DML_OP_MEM_MOVE)\<lparr>destination_first_ptr := 0x2000, job_flags := 0x20\<rparr>)
     (sample_hw, sample_mem, []))))\<lparr>source_first_ptr := 0x1000, destination_first_ptr := 0x1002,
       source_length := 4\<rparr>) = DML_STATUS_OK"
proof -
  let ?j = "(sample_job DML_OP_MEM_MOVE)\<lparr>destination_first_ptr := 0x2000, job_flags := 0x20\<rparr>"
  have f: "view_operation ?j = Some DML_OP_MEM_MOVE" "view_flags ?j = 0x20"
    by (simp_all add: sample_job_def view_operation_def view_flags_def dml_operation_of_def dml_operations_def)
  obtain s j sys where run: "dml_submit_job sample_platform 0x10000 ?j (sample_hw, sample_mem, []) = (s, j, sys)"
    by (rule prod_cases3)
  show ?thesis
    using copy_only_consumed [OF _ _ _ _ run] run f
    by (simp add: DML_FLAG_COPY_ONLY_def range_check_def range_check_mem_move_def)
qed

theorem dml_init_job_layout_witness:
  "unat (internal_data_ptr (fst (snd (dml_init_job DML_PATH_SW 0x10008 zero_job (\<lambda>_. 0))))) mod 64 = 0
   \<and> state_path (fst (snd (dml_init_job DML_PATH_SW 0x10008 zero_job (\<lambda>_. 0))))
       (snd (snd (dml_init_job DML_PATH_SW 0x10008 zero_job (\<lambda>_. 0)))) = Some software"
proof -
  obtain s j m where run: "dml_init_job DML_PATH_SW 0x10008 zero_job (\<lambda>_. 0) = (s, j, m)"
    by (rule prod_cases3)
  show ?thesis
    using dml_init_job_layout [OF _ _ _ run refl] run
    by (simp add: CHECK_PATH_def get_job_size_def sizeof_job_def sizeof_state_def)
qed

end
