(* ===== verification/DML_HL_Types.thy ===== *)
theory DML_HL_Types
  imports DML_Job_Execution
begin

text \<open>
  The vocabulary of the C++ interface (\<open>include/dml/hl\<close>): status codes, data views, the operation
  objects with their options, and the result structures made from a completion record. The
  operation classes differ only in which members they have: options, and either specific options
  or an expected result.
\<close>

section \<open>Status codes (\<open>hl/status_code.hpp\<close>, \<open>hl/detail\<close>)\<close>

datatype status_code =
    sc_ok | sc_false_predicate | sc_partial_completion | sc_nullptr_error | sc_bad_size
  | sc_bad_length | sc_inconsistent_size | sc_dualcast_bad_padding | sc_bad_alignment
  | sc_buffers_overlapping | sc_delta_bad_size | sc_delta_delta_empty | sc_batch_overflow
  | sc_execution_failed | sc_unsupported_operation | sc_queue_busy | sc_error | sc_config_error

fun hl_execution_status :: "execution_status \<Rightarrow> status_code" where
  "hl_execution_status success = sc_ok"
| "hl_execution_status false_predicate_success = sc_false_predicate"
| "hl_execution_status page_fault_during_processing = sc_partial_completion"
| "hl_execution_status flag_error = sc_config_error"
| "hl_execution_status _ = sc_error"

fun hl_validation_status :: "validation_status \<Rightarrow> status_code" where
  "hl_validation_status val_success = sc_ok"
| "hl_validation_status val_null_address = sc_nullptr_error"
| "hl_validation_status val_null_size = sc_bad_size"
| "hl_validation_status val_wrong_size = sc_bad_size"
| "hl_validation_status val_large_size = sc_bad_size"
| "hl_validation_status val_overlapping = sc_buffers_overlapping"
| "hl_validation_status val_misalignment = sc_bad_alignment"
| "hl_validation_status val_wrong_delta_size = sc_delta_bad_size"
| "hl_validation_status val_wrong_dualcast_address = sc_dualcast_bad_padding"
| "hl_validation_status val_wrong_batch_size = sc_bad_length"
| "hl_validation_status val_unsupported_operation = sc_unsupported_operation"
| "hl_validation_status _ = sc_error"

fun hl_submission_status :: "submission_status \<Rightarrow> status_code" where
  "hl_submission_status sub_success = sc_ok"
| "hl_submission_status sub_queue_busy = sc_queue_busy"
| "hl_submission_status sub_failure = sc_error"

text \<open>The chain of \<open>DML_VALIDATE_SIZE_CONSISTENCY\<close> checks of a range check.\<close>
fun validate_size_consistency :: "(u32 \<times> u32) list \<Rightarrow> status_code" where
  "validate_size_consistency [] = sc_ok"
| "validate_size_consistency ((lhs, rhs) # rest) =
     (if lhs \<noteq> rhs then sc_inconsistent_size else validate_size_consistency rest)"

section \<open>Views (\<open>hl/data_view.hpp\<close>)\<close>

record data_view =
  view_data :: addr
  view_size :: u32

text \<open>\<open>make_view(data_ptr, length)\<close> for elements of \<open>sz\<close> bytes: the byte size is cast to 32 bits.\<close>
definition make_view :: "u64 \<Rightarrow> addr \<Rightarrow> u64 \<Rightarrow> data_view" where
  "make_view sz data_ptr len = \<lparr> view_data = data_ptr, view_size = ucast (len * sz) \<rparr>"

text \<open>
  A view covers exactly the elements it is made of when they take less than \<open>2 ^ 32\<close> bytes;
  beyond that the size is reduced modulo \<open>2 ^ 32\<close> and the view is shorter than the data.
\<close>
lemma make_view_size:
  assumes "unat n * unat sz < 2 ^ 64"
  shows "unat (view_size (make_view sz p n)) = (unat n * unat sz) mod 2 ^ 32"
proof -
  have "unat (n * sz) = unat n * unat sz" using assms by (subst unat_mult_lem [THEN iffD1]) simp_all
  then show "unat (view_size (make_view sz p n)) = (unat n * unat sz) mod 2 ^ 32"
    by (simp add: make_view_def unsigned_ucast_eq take_bit_eq_mod)
qed

section \<open>Operations (\<open>hl/operations.hpp\<close>)\<close>

record plain_operation =
  op_options :: u16

record specific_operation = plain_operation +
  op_specific_options :: u8

record expecting_operation = plain_operation +
  op_expected :: u8

definition nop_operation :: plain_operation where
  "nop_operation = \<lparr> op_options = enable_option (flag_value flag_fence) default_options \<rparr>"

definition mem_move_operation :: plain_operation where
  "mem_move_operation = \<lparr> op_options = enable_option (flag_value flag_cache_control) default_options \<rparr>"

definition mem_move_block_on_fault :: "plain_operation \<Rightarrow> plain_operation" where
  "mem_move_block_on_fault operation =
     operation\<lparr> op_options := enable_option (flag_value flag_block_on_fault) (op_options operation) \<rparr>"

definition mem_copy_operation :: plain_operation where
  "mem_copy_operation = \<lparr> op_options = enable_option (flag_value flag_cache_control) default_options \<rparr>"

definition mem_copy_block_on_fault :: "plain_operation \<Rightarrow> plain_operation" where
  "mem_copy_block_on_fault operation =
     operation\<lparr> op_options := enable_option (flag_value flag_block_on_fault) (op_options operation) \<rparr>"

definition fill_operation :: plain_operation where
  "fill_operation = \<lparr> op_options = enable_option (flag_value flag_cache_control) default_options \<rparr>"

definition fill_block_on_fault :: "plain_operation \<Rightarrow> plain_operation" where
  "fill_block_on_fault operation =
     operation\<lparr> op_options := enable_option (flag_value flag_block_on_fault) (op_options operation) \<rparr>"

definition dualcast_operation :: specific_operation where
  "dualcast_operation = \<lparr> op_options = enable_option (flag_value flag_cache_control) default_options, op_specific_options = default_options \<rparr>"

definition dualcast_block_on_fault :: "specific_operation \<Rightarrow> specific_operation" where
  "dualcast_block_on_fault operation =
     operation\<lparr> op_options := enable_option (flag_value flag_block_on_fault) (op_options operation) \<rparr>"

definition compare_operation :: expecting_operation where
  "compare_operation = \<lparr> op_options = default_options, op_expected = 0 \<rparr>"

definition compare_block_on_fault :: "expecting_operation \<Rightarrow> expecting_operation" where
  "compare_block_on_fault operation =
     operation\<lparr> op_options := enable_option (flag_value flag_block_on_fault) (op_options operation) \<rparr>"

definition compare_expect_equal :: "expecting_operation \<Rightarrow> expecting_operation" where
  "compare_expect_equal operation =
     operation\<lparr> op_options := enable_option (flag_value flag_check_result) (op_options operation),
       op_expected := compare_result_value cmp_equal \<rparr>"

definition compare_expect_not_equal :: "expecting_operation \<Rightarrow> expecting_operation" where
  "compare_expect_not_equal operation =
     operation\<lparr> op_options := enable_option (flag_value flag_check_result) (op_options operation),
       op_expected := compare_result_value cmp_not_equal \<rparr>"

definition compare_pattern_operation :: expecting_operation where
  "compare_pattern_operation = \<lparr> op_options = default_options, op_expected = 0 \<rparr>"

definition compare_pattern_block_on_fault :: "expecting_operation \<Rightarrow> expecting_operation" where
  "compare_pattern_block_on_fault operation =
     operation\<lparr> op_options := enable_option (flag_value flag_block_on_fault) (op_options operation) \<rparr>"

definition compare_pattern_expect_equal :: "expecting_operation \<Rightarrow> expecting_operation" where
  "compare_pattern_expect_equal operation =
     operation\<lparr> op_options := enable_option (flag_value flag_check_result) (op_options operation),
       op_expected := compare_result_value cmp_equal \<rparr>"

definition compare_pattern_expect_not_equal :: "expecting_operation \<Rightarrow> expecting_operation" where
  "compare_pattern_expect_not_equal operation =
     operation\<lparr> op_options := enable_option (flag_value flag_check_result) (op_options operation),
       op_expected := compare_result_value cmp_not_equal \<rparr>"

definition create_delta_operation :: expecting_operation where
  "create_delta_operation = \<lparr> op_options = enable_option (flag_value flag_cache_control) default_options, op_expected = 0 \<rparr>"

definition create_delta_block_on_fault :: "expecting_operation \<Rightarrow> expecting_operation" where
  "create_delta_block_on_fault operation =
     operation\<lparr> op_options := enable_option (flag_value flag_block_on_fault) (op_options operation) \<rparr>"

definition create_delta_expect_equal :: "expecting_operation \<Rightarrow> expecting_operation" where
  "create_delta_expect_equal operation =
     operation\<lparr> op_options := enable_option (flag_value flag_check_result) (op_options operation),
       op_expected := create_delta_result_value delta_equal \<rparr>"

definition create_delta_expect_not_equal :: "expecting_operation \<Rightarrow> expecting_operation" where
  "create_delta_expect_not_equal operation =
     operation\<lparr> op_options := enable_option (flag_value flag_check_result) (op_options operation),
       op_expected := create_delta_result_value delta_not_equal \<rparr>"

definition apply_delta_operation :: plain_operation where
  "apply_delta_operation = \<lparr> op_options = enable_option (flag_value flag_cache_control) default_options \<rparr>"

definition apply_delta_block_on_fault :: "plain_operation \<Rightarrow> plain_operation" where
  "apply_delta_block_on_fault operation =
     operation\<lparr> op_options := enable_option (flag_value flag_block_on_fault) (op_options operation) \<rparr>"

definition crc_operation :: specific_operation where
  "crc_operation = \<lparr> op_options = default_options, op_specific_options = default_options \<rparr>"

definition crc_block_on_fault :: "specific_operation \<Rightarrow> specific_operation" where
  "crc_block_on_fault operation =
     operation\<lparr> op_options := enable_option (flag_value flag_block_on_fault) (op_options operation) \<rparr>"

definition crc_bypass_reflection :: "specific_operation \<Rightarrow> specific_operation" where
  "crc_bypass_reflection operation =
     operation\<lparr> op_specific_options :=
       enable_option (crc_specific_flag_value bypass_crc_inversion_and_reflection) (op_specific_options operation) \<rparr>"

definition crc_bypass_data_reflection :: "specific_operation \<Rightarrow> specific_operation" where
  "crc_bypass_data_reflection operation =
     operation\<lparr> op_specific_options :=
       enable_option (crc_specific_flag_value bypass_data_reflection) (op_specific_options operation) \<rparr>"

definition copy_crc_operation :: specific_operation where
  "copy_crc_operation = \<lparr> op_options = enable_option (flag_value flag_cache_control) default_options, op_specific_options = default_options \<rparr>"

definition copy_crc_block_on_fault :: "specific_operation \<Rightarrow> specific_operation" where
  "copy_crc_block_on_fault operation =
     operation\<lparr> op_options := enable_option (flag_value flag_block_on_fault) (op_options operation) \<rparr>"

definition copy_crc_bypass_reflection :: "specific_operation \<Rightarrow> specific_operation" where
  "copy_crc_bypass_reflection operation =
     operation\<lparr> op_specific_options :=
       enable_option (crc_specific_flag_value bypass_crc_inversion_and_reflection) (op_specific_options operation) \<rparr>"

definition copy_crc_bypass_data_reflection :: "specific_operation \<Rightarrow> specific_operation" where
  "copy_crc_bypass_data_reflection operation =
     operation\<lparr> op_specific_options :=
       enable_option (crc_specific_flag_value bypass_data_reflection) (op_specific_options operation) \<rparr>"

definition cache_flush_operation :: plain_operation where
  "cache_flush_operation = \<lparr> op_options = default_options \<rparr>"

definition cache_flush_block_on_fault :: "plain_operation \<Rightarrow> plain_operation" where
  "cache_flush_block_on_fault operation =
     operation\<lparr> op_options := enable_option (flag_value flag_block_on_fault) (op_options operation) \<rparr>"

definition cache_flush_dont_invalidate_cache :: "plain_operation \<Rightarrow> plain_operation" where
  "cache_flush_dont_invalidate_cache operation =
     operation\<lparr> op_options := enable_option (flag_value flag_cache_control) (op_options operation) \<rparr>"

definition batch_operation :: plain_operation where
  "batch_operation = \<lparr> op_options = default_options \<rparr>"

section \<open>Results (\<open>hl/result.hpp\<close>, \<open>hl/detail/make_result.hpp\<close>)\<close>

text \<open>The eight result structures with a status only.\<close>
record hl_status_result =
  hl_status :: status_code

record hl_compare_result = hl_status_result +
  hl_compare :: u8
  hl_mismatch :: u32

record hl_create_delta_result = hl_status_result +
  hl_result :: u8
  hl_bytes_completed :: u32
  hl_delta_record_size :: u32

record hl_crc_result = hl_status_result +
  hl_crc_value :: u32

record hl_batch_result = hl_status_result +
  hl_operations_completed :: u32

text \<open>\<open>comparison_result::not_equal\<close>.\<close>
definition comparison_not_equal :: u8 where "comparison_not_equal = 1"

text \<open>\<open>result_type{ status }\<close>: the other members are zero.\<close>
definition failed_status_result :: "status_code \<Rightarrow> hl_status_result" where
  "failed_status_result s = \<lparr> hl_status = s \<rparr>"

definition failed_compare_result :: "status_code \<Rightarrow> hl_compare_result" where
  "failed_compare_result s = \<lparr> hl_status = s, hl_compare = 0, hl_mismatch = 0 \<rparr>"

definition failed_create_delta_result :: "status_code \<Rightarrow> hl_create_delta_result" where
  "failed_create_delta_result s =
     \<lparr> hl_status = s, hl_result = 0, hl_bytes_completed = 0, hl_delta_record_size = 0 \<rparr>"

definition failed_crc_result :: "status_code \<Rightarrow> hl_crc_result" where
  "failed_crc_result s = \<lparr> hl_status = s, hl_crc_value = 0 \<rparr>"

definition failed_batch_result :: "status_code \<Rightarrow> hl_batch_result" where
  "failed_batch_result s = \<lparr> hl_status = s, hl_operations_completed = 0 \<rparr>"

text \<open>The branches of \<open>make_result\<close>.\<close>
definition make_status_result :: "completion_record \<Rightarrow> hl_status_result" where
  "make_status_result r = \<lparr> hl_status = hl_execution_status (get_status r) \<rparr>"

definition make_compare_result :: "completion_record \<Rightarrow> hl_compare_result" where
  "make_compare_result r = \<lparr> hl_status = hl_execution_status (get_status r),
     hl_compare = get_result r, hl_mismatch = get_bytes_completed r \<rparr>"

definition make_create_delta_result :: "completion_record \<Rightarrow> hl_create_delta_result" where
  "make_create_delta_result r = \<lparr> hl_status = hl_execution_status (get_status r),
     hl_result = get_result r, hl_bytes_completed = get_bytes_completed r,
     hl_delta_record_size = get_delta_record_size r \<rparr>"

definition make_crc_result :: "completion_record \<Rightarrow> hl_crc_result" where
  "make_crc_result r = \<lparr> hl_status = hl_execution_status (get_status r), hl_crc_value = get_crc_value r \<rparr>"

definition make_batch_result :: "completion_record \<Rightarrow> hl_batch_result" where
  "make_batch_result r = \<lparr> hl_status = hl_execution_status (get_status r),
     hl_operations_completed = get_bytes_completed r \<rparr>"

end
