(* ===== verification/DML_Batch_API.thy ===== *)
theory DML_Batch_API
  imports DML_Job_Execution
begin

text \<open>
  The batch functions of the C interface (\<open>c_api/dml_batch.cpp\<close>). A batch lives in the destination
  buffer of its job: behind the aligned start lie the descriptors of all tasks, then their
  completion records. A function that takes pointers to structures takes the address and the
  structure. The temporary task of a setter is at \<open>stack\<close>; where it is does not matter, because
  the assignment to the slot connects the descriptor anew.
\<close>

section \<open>The batch buffer\<close>

definition DML_MIN_BATCH_SIZE :: u32 where "DML_MIN_BATCH_SIZE = 4"

text \<open>\<open>sizeof(descriptor) + sizeof(completion_record)\<close>.\<close>
definition get_task_size :: u32 where "get_task_size = 64 + 32"

definition task_count :: "dml_job \<Rightarrow> u32" where
  "task_count job = destination_length job div get_task_size"

text \<open>\<open>&descriptors[index]\<close> and \<open>&records[index]\<close> of class \<open>batch\<close>.\<close>
definition batch_descriptor_ptr :: "dml_job \<Rightarrow> u32 \<Rightarrow> addr" where
  "batch_descriptor_ptr job index = align (destination_first_ptr job) + word_of_nat (64 * unat index)"

definition batch_record_ptr :: "dml_job \<Rightarrow> u32 \<Rightarrow> addr" where
  "batch_record_ptr job index =
     align (destination_first_ptr job) + word_of_nat (64 * unat (task_count job) + 32 * unat index)"

definition add_by_index :: "dml_job \<Rightarrow> u32 \<Rightarrow> task \<Rightarrow> mem \<Rightarrow> mem" where
  "add_by_index job index t m =
     assign_view (batch_descriptor_ptr job index) (batch_record_ptr job index) t m"

definition batch_get_status :: "dml_job \<Rightarrow> u32 \<Rightarrow> mem \<Rightarrow> dml_status" where
  "batch_get_status job index m =
     to_own_execution_status (get_status (record_at m (batch_record_ptr job index)))"

text \<open>The status and the value stored at \<open>byte_size_ptr\<close>, if any; the product is one of 32 bits.\<close>
definition dml_get_batch_size :: "addr \<Rightarrow> u32 \<Rightarrow> addr \<Rightarrow> dml_status \<times> u32 option" where
  "dml_get_batch_size job_ptr count byte_size_ptr =
     (if job_ptr = 0 then (DML_STATUS_NULL_POINTER_ERROR, None)
      else if byte_size_ptr = 0 then (DML_STATUS_NULL_POINTER_ERROR, None)
      else if count < DML_MIN_BATCH_SIZE then (DML_STATUS_BATCH_SIZE_ERROR, None)
      else (DML_STATUS_OK, Some (get_task_size * count + 64)))"

text \<open>The end of every setter but that of nop: validate the task, then move it to its slot.\<close>
definition add_validated :: "dml_job \<Rightarrow> u32 \<Rightarrow> task \<Rightarrow> mem \<Rightarrow> dml_status \<times> mem" where
  "add_validated job index t m =
     (let status = to_own_validation_status (automatic_validate (task_descriptor t))
      in if status \<noteq> DML_STATUS_OK then (status, m)
         else (DML_STATUS_OK, add_by_index job index t m))"

section \<open>Setters\<close>

definition dml_batch_set_nop_by_index ::
  "addr \<Rightarrow> addr \<Rightarrow> dml_job \<Rightarrow> u32 \<Rightarrow> u64 \<Rightarrow> mem
     \<Rightarrow> dml_status \<times> mem" where
  "dml_batch_set_nop_by_index stack job_ptr job task_index flags m =
     (if job_ptr = 0 then (DML_STATUS_NULL_POINTER_ERROR, m)
      else if destination_length job = 0 then (DML_STATUS_NULL_POINTER_ERROR, m)
      else if task_count job \<le> task_index then (DML_STATUS_BATCH_TASK_INDEX_OVERFLOW, m)
      else (DML_STATUS_OK, add_by_index job task_index
             (make_nop_task stack (ucast (flags AND 0xFFFF))) m))"

definition dml_batch_set_mem_move_by_index ::
  "addr \<Rightarrow> addr \<Rightarrow> dml_job \<Rightarrow> u32 \<Rightarrow> addr \<Rightarrow> addr \<Rightarrow> u32 \<Rightarrow> u64 \<Rightarrow> mem
     \<Rightarrow> dml_status \<times> mem" where
  "dml_batch_set_mem_move_by_index stack job_ptr job task_index source_ptr destination_ptr byte_length flags m =
     (if job_ptr = 0 then (DML_STATUS_NULL_POINTER_ERROR, m)
      else if destination_length job = 0 then (DML_STATUS_NULL_POINTER_ERROR, m)
      else if task_count job \<le> task_index then (DML_STATUS_BATCH_TASK_INDEX_OVERFLOW, m)
      else if range_check_mem_move source_ptr destination_ptr byte_length (ucast flags) \<noteq> DML_STATUS_OK
      then (range_check_mem_move source_ptr destination_ptr byte_length (ucast flags), m)
      else
        let flags1 = (if flags AND ucast DML_FLAG_COPY_ONLY \<noteq> 0
                      then flags AND NOT (ucast DML_FLAG_COPY_ONLY) else flags)
        in add_validated job task_index
             (make_mem_move_task stack source_ptr
             destination_ptr
             byte_length
             (ucast (flags1 AND 0xFFFF))) m)"

definition dml_batch_set_dualcast_by_index ::
  "addr \<Rightarrow> addr \<Rightarrow> dml_job \<Rightarrow> u32 \<Rightarrow> addr \<Rightarrow> addr \<Rightarrow> addr \<Rightarrow> u32 \<Rightarrow> u64 \<Rightarrow> mem
     \<Rightarrow> dml_status \<times> mem" where
  "dml_batch_set_dualcast_by_index stack job_ptr job task_index source_ptr destination_first destination_second byte_length flags m =
     (if job_ptr = 0 then (DML_STATUS_NULL_POINTER_ERROR, m)
      else if destination_length job = 0 then (DML_STATUS_NULL_POINTER_ERROR, m)
      else if task_count job \<le> task_index then (DML_STATUS_BATCH_TASK_INDEX_OVERFLOW, m)
      else add_validated job task_index
             (make_dualcast_task stack source_ptr
             destination_first
             destination_second
             byte_length
             (ucast (flags AND 0xFFFF))
             (ucast (drop_bit 16 flags AND 0xFF))) m)"

definition dml_batch_set_compare_by_index ::
  "addr \<Rightarrow> addr \<Rightarrow> dml_job \<Rightarrow> u32 \<Rightarrow> addr \<Rightarrow> addr \<Rightarrow> u32 \<Rightarrow> u32 \<Rightarrow> u64 \<Rightarrow> mem
     \<Rightarrow> dml_status \<times> mem" where
  "dml_batch_set_compare_by_index stack job_ptr job task_index source_first source_second byte_length expected_result flags m =
     (if job_ptr = 0 then (DML_STATUS_NULL_POINTER_ERROR, m)
      else if destination_length job = 0 then (DML_STATUS_NULL_POINTER_ERROR, m)
      else if task_count job \<le> task_index then (DML_STATUS_BATCH_TASK_INDEX_OVERFLOW, m)
      else add_validated job task_index
             (make_compare_task stack source_first
             source_second
             byte_length
             (ucast (flags AND 0xFFFF))
             (ucast expected_result)) m)"

definition dml_batch_set_compare_pattern_by_index ::
  "addr \<Rightarrow> addr \<Rightarrow> dml_job \<Rightarrow> u32 \<Rightarrow> addr \<Rightarrow> addr \<Rightarrow> u32 \<Rightarrow> u32 \<Rightarrow> u64 \<Rightarrow> mem
     \<Rightarrow> dml_status \<times> mem" where
  "dml_batch_set_compare_pattern_by_index stack job_ptr job task_index source_ptr pattern_ptr byte_length expected_result flags m =
     (if job_ptr = 0 then (DML_STATUS_NULL_POINTER_ERROR, m)
      else if destination_length job = 0 then (DML_STATUS_NULL_POINTER_ERROR, m)
      else if pattern_ptr = 0 then (DML_STATUS_NULL_POINTER_ERROR, m)
      else if task_count job \<le> task_index then (DML_STATUS_BATCH_TASK_INDEX_OVERFLOW, m)
      else add_validated job task_index
             (make_compare_pattern_task stack (load m pattern_ptr)
             source_ptr
             byte_length
             (ucast (flags AND 0xFFFF))
             (ucast expected_result)) m)"

definition dml_batch_set_crc_by_index ::
  "addr \<Rightarrow> addr \<Rightarrow> dml_job \<Rightarrow> u32 \<Rightarrow> addr \<Rightarrow> u32 \<Rightarrow> addr \<Rightarrow> u64 \<Rightarrow> mem
     \<Rightarrow> dml_status \<times> mem" where
  "dml_batch_set_crc_by_index stack job_ptr job task_index source_ptr byte_length crc_seed_ptr flags m =
     (if job_ptr = 0 then (DML_STATUS_NULL_POINTER_ERROR, m)
      else if destination_length job = 0 then (DML_STATUS_NULL_POINTER_ERROR, m)
      else if crc_seed_ptr = 0 then (DML_STATUS_NULL_POINTER_ERROR, m)
      else if task_count job \<le> task_index then (DML_STATUS_BATCH_TASK_INDEX_OVERFLOW, m)
      else if range_check_crc crc_seed_ptr \<noteq> DML_STATUS_OK then (range_check_crc crc_seed_ptr, m)
      else add_validated job task_index
             (make_crc_task stack source_ptr
             byte_length
             (load m crc_seed_ptr)
             (ucast (flags AND 0xFFFF))
             (ucast (drop_bit 16 flags AND 0xFF))) m)"

definition dml_batch_set_copy_crc_by_index ::
  "addr \<Rightarrow> addr \<Rightarrow> dml_job \<Rightarrow> u32 \<Rightarrow> addr \<Rightarrow> u32 \<Rightarrow> addr \<Rightarrow> addr \<Rightarrow> u64 \<Rightarrow> mem
     \<Rightarrow> dml_status \<times> mem" where
  "dml_batch_set_copy_crc_by_index stack job_ptr job task_index source_ptr byte_length crc_seed_ptr destination_ptr flags m =
     (if job_ptr = 0 then (DML_STATUS_NULL_POINTER_ERROR, m)
      else if destination_length job = 0 then (DML_STATUS_NULL_POINTER_ERROR, m)
      else if crc_seed_ptr = 0 then (DML_STATUS_NULL_POINTER_ERROR, m)
      else if task_count job \<le> task_index then (DML_STATUS_BATCH_TASK_INDEX_OVERFLOW, m)
      else if range_check_copy_crc crc_seed_ptr \<noteq> DML_STATUS_OK then (range_check_copy_crc crc_seed_ptr, m)
      else add_validated job task_index
             (make_copy_crc_task stack source_ptr
             destination_ptr
             byte_length
             (load m crc_seed_ptr)
             (ucast (flags AND 0xFFFF))
             (ucast (drop_bit 16 flags AND 0xFF))) m)"

definition dml_batch_set_fill_by_index ::
  "addr \<Rightarrow> addr \<Rightarrow> dml_job \<Rightarrow> u32 \<Rightarrow> addr \<Rightarrow> addr \<Rightarrow> u32 \<Rightarrow> u64 \<Rightarrow> mem
     \<Rightarrow> dml_status \<times> mem" where
  "dml_batch_set_fill_by_index stack job_ptr job task_index pattern_ptr destination_ptr byte_length flags m =
     (if job_ptr = 0 then (DML_STATUS_NULL_POINTER_ERROR, m)
      else if destination_length job = 0 then (DML_STATUS_NULL_POINTER_ERROR, m)
      else if pattern_ptr = 0 then (DML_STATUS_NULL_POINTER_ERROR, m)
      else if task_count job \<le> task_index then (DML_STATUS_BATCH_TASK_INDEX_OVERFLOW, m)
      else add_validated job task_index
             (make_fill_task stack (load m pattern_ptr)
             destination_ptr
             byte_length
             (ucast (flags AND 0xFFFF))) m)"

definition dml_batch_set_cache_flush_by_index ::
  "addr \<Rightarrow> addr \<Rightarrow> dml_job \<Rightarrow> u32 \<Rightarrow> addr \<Rightarrow> u32 \<Rightarrow> u64 \<Rightarrow> mem
     \<Rightarrow> dml_status \<times> mem" where
  "dml_batch_set_cache_flush_by_index stack job_ptr job task_index destination_ptr byte_length flags m =
     (if job_ptr = 0 then (DML_STATUS_NULL_POINTER_ERROR, m)
      else if destination_length job = 0 then (DML_STATUS_NULL_POINTER_ERROR, m)
      else if task_count job \<le> task_index then (DML_STATUS_BATCH_TASK_INDEX_OVERFLOW, m)
      else add_validated job task_index
             (make_cache_flush_task stack destination_ptr byte_length (ucast (flags AND 0xFFFF))) m)"

definition dml_batch_set_delta_create_by_index ::
  "addr \<Rightarrow> addr \<Rightarrow> dml_job \<Rightarrow> u32 \<Rightarrow> addr \<Rightarrow> addr \<Rightarrow> u32 \<Rightarrow> addr \<Rightarrow> u32 \<Rightarrow> u32 \<Rightarrow> u64 \<Rightarrow> mem
     \<Rightarrow> dml_status \<times> mem" where
  "dml_batch_set_delta_create_by_index stack job_ptr job task_index source_ptr reference_ptr compare_length delta_record_ptr delta_record_length expected_result flags m =
     (if job_ptr = 0 then (DML_STATUS_NULL_POINTER_ERROR, m)
      else if destination_length job = 0 then (DML_STATUS_NULL_POINTER_ERROR, m)
      else if task_count job \<le> task_index then (DML_STATUS_BATCH_TASK_INDEX_OVERFLOW, m)
      else add_validated job task_index
             (make_create_delta_task stack source_ptr
             reference_ptr
             compare_length
             delta_record_ptr
             delta_record_length
             (ucast (flags AND 0xFFFF))
             (ucast expected_result)) m)"

definition dml_batch_set_delta_apply_by_index ::
  "addr \<Rightarrow> addr \<Rightarrow> dml_job \<Rightarrow> u32 \<Rightarrow> addr \<Rightarrow> u32 \<Rightarrow> addr \<Rightarrow> u32 \<Rightarrow> u64 \<Rightarrow> mem
     \<Rightarrow> dml_status \<times> mem" where
  "dml_batch_set_delta_apply_by_index stack job_ptr job task_index delta_record_ptr delta_record_length destination_ptr dst_length flags m =
     (if job_ptr = 0 then (DML_STATUS_NULL_POINTER_ERROR, m)
      else if destination_length job = 0 then (DML_STATUS_NULL_POINTER_ERROR, m)
      else if task_count job \<le> task_index then (DML_STATUS_BATCH_TASK_INDEX_OVERFLOW, m)
      else add_validated job task_index
             (make_apply_delta_task stack delta_record_ptr
             delta_record_length
             destination_ptr
             dst_length
             (ucast (flags AND 0xFFFF))) m)"

definition dml_batch_set_dif_check_by_index ::
  "addr \<Rightarrow> addr \<Rightarrow> dml_job \<Rightarrow> u32 \<Rightarrow> addr \<Rightarrow> u32 \<Rightarrow> addr \<Rightarrow> dml_dif_config \<Rightarrow> u64 \<Rightarrow> mem
     \<Rightarrow> dml_status \<times> mem" where
  "dml_batch_set_dif_check_by_index stack job_ptr job task_index source_ptr src_length cfg_ptr cfg flags m =
     (if job_ptr = 0 then (DML_STATUS_NULL_POINTER_ERROR, m)
      else if destination_length job = 0 then (DML_STATUS_NULL_POINTER_ERROR, m)
      else if source_ptr = 0 then (DML_STATUS_NULL_POINTER_ERROR, m)
      else if cfg_ptr = 0 then (DML_STATUS_NULL_POINTER_ERROR, m)
      else if task_count job \<le> task_index then (DML_STATUS_BATCH_TASK_INDEX_OVERFLOW, m)
      else add_validated job task_index
             (make_dif_check_task stack source_ptr
             src_length
             \<lparr> ref_tag_seed = source_reference_tag_seed cfg, app_tag_mask = source_application_tag_mask cfg,
               app_tag_seed = source_application_tag_seed cfg \<rparr>
             (ucast (flags AND 0xFFFF))
             (ucast (drop_bit 16 (dif_flags cfg) AND 0xFF OR dif_block_size cfg))
             (ucast (dif_flags cfg AND 0xFF))) m)"

definition dml_batch_set_dif_update_by_index ::
  "addr \<Rightarrow> addr \<Rightarrow> dml_job \<Rightarrow> u32 \<Rightarrow> addr \<Rightarrow> u32 \<Rightarrow> addr \<Rightarrow> dml_dif_config \<Rightarrow> addr \<Rightarrow> u64 \<Rightarrow> mem
     \<Rightarrow> dml_status \<times> mem" where
  "dml_batch_set_dif_update_by_index stack job_ptr job task_index source_ptr src_length cfg_ptr cfg destination_ptr flags m =
     (if job_ptr = 0 then (DML_STATUS_NULL_POINTER_ERROR, m)
      else if destination_length job = 0 then (DML_STATUS_NULL_POINTER_ERROR, m)
      else if source_ptr = 0 then (DML_STATUS_NULL_POINTER_ERROR, m)
      else if cfg_ptr = 0 then (DML_STATUS_NULL_POINTER_ERROR, m)
      else if destination_ptr = 0 then (DML_STATUS_NULL_POINTER_ERROR, m)
      else if task_count job \<le> task_index then (DML_STATUS_BATCH_TASK_INDEX_OVERFLOW, m)
      else add_validated job task_index
             (make_dif_update_task stack source_ptr
             destination_ptr
             src_length
             \<lparr> ref_tag_seed = source_reference_tag_seed cfg, app_tag_mask = source_application_tag_mask cfg,
               app_tag_seed = source_application_tag_seed cfg \<rparr>
             \<lparr> ref_tag_seed = destination_reference_tag_seed cfg,
               app_tag_mask = destination_application_tag_mask cfg,
               app_tag_seed = destination_application_tag_seed cfg \<rparr>
             (ucast (flags AND 0xFFFF))
             (ucast (drop_bit 16 (dif_flags cfg) AND 0xFF OR dif_block_size cfg))
             (ucast (dif_flags cfg AND 0xFF))
             (ucast (drop_bit 8 (dif_flags cfg) AND 0xFF))) m)"

definition dml_batch_set_dif_insert_by_index ::
  "addr \<Rightarrow> addr \<Rightarrow> dml_job \<Rightarrow> u32 \<Rightarrow> addr \<Rightarrow> u32 \<Rightarrow> addr \<Rightarrow> dml_dif_config \<Rightarrow> addr \<Rightarrow> u64 \<Rightarrow> mem
     \<Rightarrow> dml_status \<times> mem" where
  "dml_batch_set_dif_insert_by_index stack job_ptr job task_index source_ptr src_length cfg_ptr cfg destination_ptr flags m =
     (if job_ptr = 0 then (DML_STATUS_NULL_POINTER_ERROR, m)
      else if destination_length job = 0 then (DML_STATUS_NULL_POINTER_ERROR, m)
      else if source_ptr = 0 then (DML_STATUS_NULL_POINTER_ERROR, m)
      else if cfg_ptr = 0 then (DML_STATUS_NULL_POINTER_ERROR, m)
      else if destination_ptr = 0 then (DML_STATUS_NULL_POINTER_ERROR, m)
      else if task_count job \<le> task_index then (DML_STATUS_BATCH_TASK_INDEX_OVERFLOW, m)
      else add_validated job task_index
             (make_dif_insert_task stack source_ptr
             destination_ptr
             src_length
             \<lparr> ref_tag_seed = destination_reference_tag_seed cfg,
               app_tag_mask = destination_application_tag_mask cfg,
               app_tag_seed = destination_application_tag_seed cfg \<rparr>
             (ucast (flags AND 0xFFFF))
             (ucast (drop_bit 16 (dif_flags cfg) AND 0xFF OR dif_block_size cfg))
             (ucast (drop_bit 8 (dif_flags cfg) AND 0xFF))) m)"

definition dml_batch_set_dif_strip_by_index ::
  "addr \<Rightarrow> addr \<Rightarrow> dml_job \<Rightarrow> u32 \<Rightarrow> addr \<Rightarrow> u32 \<Rightarrow> addr \<Rightarrow> dml_dif_config \<Rightarrow> addr \<Rightarrow> u64 \<Rightarrow> mem
     \<Rightarrow> dml_status \<times> mem" where
  "dml_batch_set_dif_strip_by_index stack job_ptr job task_index source_ptr src_length cfg_ptr cfg destination_ptr flags m =
     (if job_ptr = 0 then (DML_STATUS_NULL_POINTER_ERROR, m)
      else if destination_length job = 0 then (DML_STATUS_NULL_POINTER_ERROR, m)
      else if source_ptr = 0 then (DML_STATUS_NULL_POINTER_ERROR, m)
      else if cfg_ptr = 0 then (DML_STATUS_NULL_POINTER_ERROR, m)
      else if destination_ptr = 0 then (DML_STATUS_NULL_POINTER_ERROR, m)
      else if task_count job \<le> task_index then (DML_STATUS_BATCH_TASK_INDEX_OVERFLOW, m)
      else add_validated job task_index
             (make_dif_strip_task stack source_ptr
             destination_ptr
             src_length
             \<lparr> ref_tag_seed = source_reference_tag_seed cfg, app_tag_mask = source_application_tag_mask cfg,
               app_tag_seed = source_application_tag_seed cfg \<rparr>
             (ucast (flags AND 0xFFFF))
             (ucast (drop_bit 16 (dif_flags cfg) AND 0xFF OR dif_block_size cfg))
             (ucast (dif_flags cfg AND 0xFF))) m)"

section \<open>Readers\<close>

text \<open>The status and the value stored at \<open>result_ptr\<close> or \<open>status_ptr\<close>, if any.\<close>
definition dml_batch_get_result :: "addr \<Rightarrow> dml_job \<Rightarrow> u32 \<Rightarrow> addr \<Rightarrow> mem \<Rightarrow> dml_status \<times> u32 option" where
  "dml_batch_get_result job_ptr job task_index result_ptr m =
     (if job_ptr = 0 then (DML_STATUS_NULL_POINTER_ERROR, None)
      else if result_ptr = 0 then (DML_STATUS_NULL_POINTER_ERROR, None)
      else if task_count job \<le> task_index then (DML_STATUS_BATCH_TASK_INDEX_OVERFLOW, None)
      else (DML_STATUS_OK, Some (word_of_nat (dml_status_value (batch_get_status job task_index m)))))"

definition dml_batch_get_status :: "addr \<Rightarrow> dml_job \<Rightarrow> u32 \<Rightarrow> addr \<Rightarrow> mem
    \<Rightarrow> dml_status \<times> dml_status option" where
  "dml_batch_get_status job_ptr job task_index status_ptr m =
     (if job_ptr = 0 then (DML_STATUS_NULL_POINTER_ERROR, None)
      else if status_ptr = 0 then (DML_STATUS_NULL_POINTER_ERROR, None)
      else if task_count job \<le> task_index then (DML_STATUS_BATCH_TASK_INDEX_OVERFLOW, None)
      else (DML_STATUS_OK, Some (batch_get_status job task_index m)))"

section \<open>Slots\<close>

lemmas setter_defs =
  dml_batch_set_nop_by_index_def
  dml_batch_set_mem_move_by_index_def
  dml_batch_set_dualcast_by_index_def
  dml_batch_set_compare_by_index_def
  dml_batch_set_compare_pattern_by_index_def
  dml_batch_set_crc_by_index_def
  dml_batch_set_copy_crc_by_index_def
  dml_batch_set_fill_by_index_def
  dml_batch_set_cache_flush_by_index_def
  dml_batch_set_delta_create_by_index_def
  dml_batch_set_delta_apply_by_index_def
  dml_batch_set_dif_check_by_index_def
  dml_batch_set_dif_update_by_index_def
  dml_batch_set_dif_insert_by_index_def
  dml_batch_set_dif_strip_by_index_def

lemma task_count_nat: "unat (task_count job) = unat (destination_length job) div 96"
  by (simp add: task_count_def get_task_size_def unat_div)

lemma task_count_bound: "96 * unat (task_count job) \<le> unat (destination_length job)"
  "unat (task_count job) < 2 ^ 26"
proof -
  show "96 * unat (task_count job) \<le> unat (destination_length job)" unfolding task_count_nat by simp
  then show "unat (task_count job) < 2 ^ 26" using unat_u32_less [of "destination_length job"] by simp
qed

text \<open>Each index below the count has room for a task.\<close>
lemma batch_slot:
  assumes "i < task_count job"
  shows "task_slot (batch_descriptor_ptr job i) (batch_record_ptr job i)"
proof
  have "unat i < unat (task_count job)" using assms by (simp add: word_less_nat_alt)
  then show "disjoint_regions (batch_descriptor_ptr job i) 64 (batch_record_ptr job i) 32"
    unfolding batch_descriptor_ptr_def batch_record_ptr_def
    using task_count_bound(2) [of job] by (intro disjoint_parts) auto
qed

text \<open>
  What a setter promises: it puts the descriptor, connected with the record of its slot and valid,
  and a zero record into the slot and touches nothing else, or it reports an error and writes
  nothing.
\<close>
definition sets_slot :: "dml_job \<Rightarrow> u32 \<Rightarrow> descriptor \<Rightarrow> mem \<Rightarrow> dml_status \<times> mem \<Rightarrow> bool" where
  "sets_slot job i d m result =
     (case result of (status, m') \<Rightarrow>
        if status = DML_STATUS_OK
        then i < task_count job \<and> validate d = val_success
          \<and> load_bytes m' (batch_descriptor_ptr job i) 64 = rebind d (batch_record_ptr job i)
          \<and> record_at m' (batch_record_ptr job i) = new_completion_record
          \<and> (\<forall>x. \<not> in_region x (batch_descriptor_ptr job i) 64 \<and> \<not> in_region x (batch_record_ptr job i) 32
               \<longrightarrow> m' x = m x)
        else m' = m)"

lemma add_by_index_sets:
  assumes "wf_descriptor d" "i < task_count job" "validate d = val_success"
  shows "sets_slot job i d m (DML_STATUS_OK, add_by_index job i (new_task a d) m)"
  using assms task_slot.assign_descriptor [OF batch_slot [OF assms(2)] wf_new_task [OF assms(1)]]
    task_slot.assign_record [OF batch_slot [OF assms(2)] wf_new_task [OF assms(1)]]
    task_slot.assign_elsewhere [OF batch_slot [OF assms(2)] wf_new_task [OF assms(1)]]
  by (simp add: sets_slot_def add_by_index_def task_descriptor_rebind)

lemma validate_rebind: "wf_descriptor d \<Longrightarrow> validate (rebind d r) = validate d"
  by (simp only: validate_def validate_op_defs rebind_fields)

lemma add_validated_sets:
  assumes "wf_descriptor d" "i < task_count job"
  shows "sets_slot job i d m (add_validated job i (new_task a d) m)"
proof (cases "validate d = val_success")
  case True
  with add_by_index_sets [OF assms True] assms(1) show ?thesis
    by (simp add: add_validated_def Let_def automatic_validate_def software_validate_def new_task_def
        validate_rebind)
next
  case False
  then show ?thesis
    using assms(1) to_own_validation_ok [of "validate d"]
    by (simp add: add_validated_def Let_def automatic_validate_def software_validate_def new_task_def
        validate_rebind sets_slot_def)
qed

lemma sets_slot_error: "status \<noteq> DML_STATUS_OK \<Longrightarrow> sets_slot job i d m (status, m)"
  by (simp add: sets_slot_def)

lemma validate_nop_descriptor: "validate (make_nop_descriptor options) = val_success"
  by (simp add: validate_def validate_nop_def)

lemmas setter_rules = setter_defs make_task_defs not_le [symmetric]

text \<open>
  Claim C18: every setter of the batch API keeps its promise: with status \<open>DML_STATUS_OK\<close> the slot
  of the index holds the descriptor of the operation with the given operands, valid and connected
  with the completion record of the same slot, which is zero, and no other byte has changed;
  with any other status nothing has changed.
\<close>
theorem batch_setters:
  "sets_slot job task_index (make_nop_descriptor (ucast (flags AND 0xFFFF))) m
      (dml_batch_set_nop_by_index stack job_ptr job task_index flags m)
    \<and> sets_slot job task_index (make_mem_move_descriptor source_ptr destination_ptr byte_length (ucast ((if flags AND ucast DML_FLAG_COPY_ONLY \<noteq> 0 then flags AND NOT (ucast DML_FLAG_COPY_ONLY) else flags) AND 0xFFFF))) m
      (dml_batch_set_mem_move_by_index stack job_ptr job task_index source_ptr destination_ptr byte_length flags m)
    \<and> sets_slot job task_index (make_dualcast_descriptor source_ptr destination_first destination_second byte_length (ucast (flags AND 0xFFFF)) (ucast (drop_bit 16 flags AND 0xFF))) m
      (dml_batch_set_dualcast_by_index stack job_ptr job task_index source_ptr destination_first destination_second byte_length flags m)
    \<and> sets_slot job task_index (make_compare_descriptor source_first source_second byte_length (ucast (flags AND 0xFFFF)) (ucast expected_result)) m
      (dml_batch_set_compare_by_index stack job_ptr job task_index source_first source_second byte_length expected_result flags m)
    \<and> sets_slot job task_index (make_compare_pattern_descriptor (load m pattern_ptr) source_ptr byte_length (ucast (flags AND 0xFFFF)) (ucast expected_result)) m
      (dml_batch_set_compare_pattern_by_index stack job_ptr job task_index source_ptr pattern_ptr byte_length expected_result flags m)
    \<and> sets_slot job task_index (make_crc_descriptor source_ptr byte_length (load m crc_seed_ptr) (ucast (flags AND 0xFFFF)) (ucast (drop_bit 16 flags AND 0xFF))) m
      (dml_batch_set_crc_by_index stack job_ptr job task_index source_ptr byte_length crc_seed_ptr flags m)
    \<and> sets_slot job task_index (make_copy_crc_descriptor source_ptr destination_ptr byte_length (load m crc_seed_ptr) (ucast (flags AND 0xFFFF)) (ucast (drop_bit 16 flags AND 0xFF))) m
      (dml_batch_set_copy_crc_by_index stack job_ptr job task_index source_ptr byte_length crc_seed_ptr destination_ptr flags m)
    \<and> sets_slot job task_index (make_fill_descriptor (load m pattern_ptr) destination_ptr byte_length (ucast (flags AND 0xFFFF))) m
      (dml_batch_set_fill_by_index stack job_ptr job task_index pattern_ptr destination_ptr byte_length flags m)
    \<and> sets_slot job task_index (make_cache_flush_descriptor destination_ptr byte_length (ucast (flags AND 0xFFFF))) m
      (dml_batch_set_cache_flush_by_index stack job_ptr job task_index destination_ptr byte_length flags m)
    \<and> sets_slot job task_index (make_create_delta_descriptor source_ptr reference_ptr compare_length delta_record_ptr delta_record_length (ucast (flags AND 0xFFFF)) (ucast expected_result)) m
      (dml_batch_set_delta_create_by_index stack job_ptr job task_index source_ptr reference_ptr compare_length delta_record_ptr delta_record_length expected_result flags m)
    \<and> sets_slot job task_index (make_apply_delta_descriptor delta_record_ptr delta_record_length destination_ptr dst_length (ucast (flags AND 0xFFFF))) m
      (dml_batch_set_delta_apply_by_index stack job_ptr job task_index delta_record_ptr delta_record_length destination_ptr dst_length flags m)
    \<and> sets_slot job task_index (make_dif_check_descriptor source_ptr src_length \<lparr> ref_tag_seed = source_reference_tag_seed cfg, app_tag_mask = source_application_tag_mask cfg, app_tag_seed = source_application_tag_seed cfg \<rparr> (ucast (flags AND 0xFFFF)) (ucast (drop_bit 16 (dif_flags cfg) AND 0xFF OR dif_block_size cfg)) (ucast (dif_flags cfg AND 0xFF))) m
      (dml_batch_set_dif_check_by_index stack job_ptr job task_index source_ptr src_length cfg_ptr cfg flags m)
    \<and> sets_slot job task_index (make_dif_update_descriptor source_ptr destination_ptr src_length \<lparr> ref_tag_seed = source_reference_tag_seed cfg, app_tag_mask = source_application_tag_mask cfg, app_tag_seed = source_application_tag_seed cfg \<rparr> \<lparr> ref_tag_seed = destination_reference_tag_seed cfg, app_tag_mask = destination_application_tag_mask cfg, app_tag_seed = destination_application_tag_seed cfg \<rparr> (ucast (flags AND 0xFFFF)) (ucast (drop_bit 16 (dif_flags cfg) AND 0xFF OR dif_block_size cfg)) (ucast (dif_flags cfg AND 0xFF)) (ucast (drop_bit 8 (dif_flags cfg) AND 0xFF))) m
      (dml_batch_set_dif_update_by_index stack job_ptr job task_index source_ptr src_length cfg_ptr cfg destination_ptr flags m)
    \<and> sets_slot job task_index (make_dif_insert_descriptor source_ptr destination_ptr src_length \<lparr> ref_tag_seed = destination_reference_tag_seed cfg, app_tag_mask = destination_application_tag_mask cfg, app_tag_seed = destination_application_tag_seed cfg \<rparr> (ucast (flags AND 0xFFFF)) (ucast (drop_bit 16 (dif_flags cfg) AND 0xFF OR dif_block_size cfg)) (ucast (drop_bit 8 (dif_flags cfg) AND 0xFF))) m
      (dml_batch_set_dif_insert_by_index stack job_ptr job task_index source_ptr src_length cfg_ptr cfg destination_ptr flags m)
    \<and> sets_slot job task_index (make_dif_strip_descriptor source_ptr destination_ptr src_length \<lparr> ref_tag_seed = source_reference_tag_seed cfg, app_tag_mask = source_application_tag_mask cfg, app_tag_seed = source_application_tag_seed cfg \<rparr> (ucast (flags AND 0xFFFF)) (ucast (drop_bit 16 (dif_flags cfg) AND 0xFF OR dif_block_size cfg)) (ucast (dif_flags cfg AND 0xFF))) m
      (dml_batch_set_dif_strip_by_index stack job_ptr job task_index source_ptr src_length cfg_ptr cfg destination_ptr flags m)"
  by (intro conjI; simp add: setter_defs make_task_defs sets_slot_error add_validated_sets
      add_by_index_sets validate_nop_descriptor Let_def not_le)

section \<open>The layout of the buffer\<close>

lemma slot_addresses:
  assumes "unat (align (destination_first_ptr job)) + 96 * unat (task_count job) \<le> 2 ^ 64" "i < task_count job"
  shows "unat (batch_descriptor_ptr job i) = unat (align (destination_first_ptr job)) + 64 * unat i"
    and "unat (batch_record_ptr job i)
      = unat (align (destination_first_ptr job)) + 64 * unat (task_count job) + 32 * unat i"
proof -
  have i: "unat i < unat (task_count job)" using assms(2) by (simp add: word_less_nat_alt)
  show "unat (batch_descriptor_ptr job i) = unat (align (destination_first_ptr job)) + 64 * unat i"
    unfolding batch_descriptor_ptr_def using assms(1) i by (subst unat_add_offset) auto
  show "unat (batch_record_ptr job i)
      = unat (align (destination_first_ptr job)) + 64 * unat (task_count job) + 32 * unat i"
    unfolding batch_record_ptr_def using assms(1) i by (subst unat_add_offset) auto
qed

lemma slots_apart:
  assumes "i < task_count job" "j < task_count job"
  shows "i \<noteq> j \<Longrightarrow> disjoint_regions (batch_descriptor_ptr job i) 64 (batch_descriptor_ptr job j) 64"
    and "i \<noteq> j \<Longrightarrow> disjoint_regions (batch_record_ptr job i) 32 (batch_record_ptr job j) 32"
    and "disjoint_regions (batch_descriptor_ptr job i) 64 (batch_record_ptr job j) 32"
proof -
  have ij: "unat i < unat (task_count job)" "unat j < unat (task_count job)"
    using assms by (simp_all add: word_less_nat_alt)
  note bound = task_count_bound(2) [of job]
  show "disjoint_regions (batch_descriptor_ptr job i) 64 (batch_record_ptr job j) 32"
    unfolding batch_descriptor_ptr_def batch_record_ptr_def
    using ij bound by (intro disjoint_parts) auto
  assume "i \<noteq> j"
  then have "unat i < unat j \<or> unat j < unat i" by (auto simp: word_unat_eq_iff)
  then show "disjoint_regions (batch_descriptor_ptr job i) 64 (batch_descriptor_ptr job j) 64"
    and "disjoint_regions (batch_record_ptr job i) 32 (batch_record_ptr job j) 32"
    unfolding batch_descriptor_ptr_def batch_record_ptr_def
    using ij bound by (intro disjoint_parts; auto)+
qed

text \<open>
  Claim C30: a buffer of the size \<open>dml_get_batch_size\<close> asks for, while that size does not exceed 32
  bits, holds exactly the requested number of tasks: every descriptor is a 64-byte aligned and
  every record a 32-byte aligned part of the buffer, and no two of them overlap.
\<close>
theorem batch_layout:
  assumes "dml_get_batch_size p n q = (DML_STATUS_OK, Some bytes)" "96 * unat n + 64 < 2 ^ 32"
    and "destination_length job = bytes" "dst = unat (destination_first_ptr job)" "dst + unat bytes \<le> 2 ^ 64"
  shows "task_count job = n
    \<and> (\<forall>i<n. dst \<le> unat (batch_descriptor_ptr job i) \<and> unat (batch_descriptor_ptr job i) + 64 \<le> dst + unat bytes
        \<and> unat (batch_descriptor_ptr job i) mod 64 = 0
        \<and> dst \<le> unat (batch_record_ptr job i) \<and> unat (batch_record_ptr job i) + 32 \<le> dst + unat bytes
        \<and> unat (batch_record_ptr job i) mod 32 = 0)
    \<and> (\<forall>i<n. \<forall>j<n. disjoint_regions (batch_descriptor_ptr job i) 64 (batch_record_ptr job j) 32
        \<and> (i \<noteq> j \<longrightarrow> disjoint_regions (batch_descriptor_ptr job i) 64 (batch_descriptor_ptr job j) 64
             \<and> disjoint_regions (batch_record_ptr job i) 32 (batch_record_ptr job j) 32))"
proof -
  let ?b = "unat (align (destination_first_ptr job))"
  have "bytes = get_task_size * n + 64" using assms(1) by (simp add: dml_get_batch_size_def split: if_splits)
  then have bytes: "unat bytes = 96 * unat n + 64"
    using assms(2) by (simp add: get_task_size_def unat_word_ariths)
  then have "unat (task_count job) = unat n" using assms(3) by (simp add: task_count_nat)
  then have n: "task_count job = n" by (simp add: word_unat_eq_iff)
  have "unat (destination_first_ptr job) + 63 < 2 ^ 64" using assms(4,5) bytes by simp
  note al = align_bounds [OF this]
  have room: "?b + 96 * unat (task_count job) \<le> 2 ^ 64" using al(2) assms(4,5) bytes n by simp
  obtain c where c: "?b = 64 * c" using al(3) by auto
  have slot: "dst \<le> unat (batch_descriptor_ptr job i) \<and> unat (batch_descriptor_ptr job i) + 64 \<le> dst + unat bytes
        \<and> unat (batch_descriptor_ptr job i) mod 64 = 0
        \<and> dst \<le> unat (batch_record_ptr job i) \<and> unat (batch_record_ptr job i) + 32 \<le> dst + unat bytes
        \<and> unat (batch_record_ptr job i) mod 32 = 0" if "i < n" for i
  proof -
    have i: "unat i < unat n" using that by (simp add: word_less_nat_alt)
    note adr = slot_addresses [OF room, unfolded n, OF that]
    have "unat (batch_descriptor_ptr job i) = 64 * (c + unat i)"
      and "unat (batch_record_ptr job i) = 32 * (2 * c + 2 * unat n + unat i)"
      using adr c by simp_all
    then have "unat (batch_descriptor_ptr job i) mod 64 = 0" "unat (batch_record_ptr job i) mod 32 = 0"
      by simp_all
    then show ?thesis using adr al(1,2) i bytes assms(4) by simp
  qed
  show ?thesis using n slot slots_apart [of _ job, unfolded n] by blast
qed

section \<open>Filling a batch\<close>

text \<open>
  The batches that successful calls of setters build, in any order: which descriptor each index
  was last set to, from the memory \<open>m0\<close> before the first call.
\<close>
inductive batch_filled :: "dml_job \<Rightarrow> mem \<Rightarrow> (u32 \<Rightarrow> descriptor option) \<Rightarrow> mem \<Rightarrow> bool"
  for job :: dml_job and m0 :: mem where
  start: "batch_filled job m0 (\<lambda>_. None) m0"
| set: "batch_filled job m0 f m \<Longrightarrow> sets_slot job i d m (DML_STATUS_OK, m') \<Longrightarrow>
    batch_filled job m0 (f(i \<mapsto> d)) m'"

inductive_cases batch_filled_setE: "batch_filled job m0 (f(i \<mapsto> d)) m"

text \<open>The slot of an index holds the descriptor it was last set to.\<close>
definition slot_holds :: "dml_job \<Rightarrow> u32 \<Rightarrow> descriptor \<Rightarrow> mem \<Rightarrow> bool" where
  "slot_holds job i d m \<longleftrightarrow> i < task_count job \<and> validate d = val_success
     \<and> load_bytes m (batch_descriptor_ptr job i) 64 = rebind d (batch_record_ptr job i)
     \<and> record_at m (batch_record_ptr job i) = new_completion_record"

text \<open>The slots of a batch are such an array.\<close>
interpretation slots: task_array "batch_descriptor_ptr job" "batch_record_ptr job" "\<lambda>i. i < task_count job"
  for job by unfold_locales (rule slots_apart; assumption)+

lemma sets_slot_keeps:
  assumes "sets_slot job j e m (DML_STATUS_OK, m')" "slot_holds job i d m" "i \<noteq> j"
  shows "slot_holds job i d m'"
proof -
  have "i < task_count job" "j < task_count job"
    using assms(1,2) by (simp_all add: sets_slot_def slot_holds_def)
  note kept = slots.others_kept [OF this assms(3), of m' m]
  then show ?thesis using assms(1,2) by (simp add: sets_slot_def slot_holds_def)
qed

lemma batch_filled_holds:
  "batch_filled job m0 f m \<Longrightarrow> f i = Some d \<Longrightarrow> slot_holds job i d m"
proof (induction arbitrary: d rule: batch_filled.induct)
  case (set f m j e m')
  show ?case
  proof (cases "i = j")
    case True
    with set.prems set.hyps(2) show ?thesis by (auto simp: sets_slot_def slot_holds_def)
  next
    case False
    with set sets_slot_keeps show ?thesis by (metis fun_upd_other)
  qed
qed simp

lemma job_descriptor_batch:
  assumes "view_operation job = Some DML_OP_BATCH"
  shows "job_descriptor job m = rebind (make_batch_descriptor (align (destination_first_ptr job))
    (task_count job) (view_flags job)) (internal_data_ptr job + 64)"
  using assms by (simp add: job_descriptor_def make_task_def make_batch_task_def new_task_def
      task_count_def get_task_size_def)

text \<open>
  Claim C22: a batch filled by any sequence of successful setter calls is the batch the job
  describes: for every index that was set, the descriptor the batch kernel reads at that index is
  the one the index was last set to, valid and connected with its own zero record, and the index
  is below the number of descriptors of the batch.
\<close>
theorem batch_filled_read:
  assumes "batch_filled job m0 f m" "view_operation job = Some DML_OP_BATCH" "f i = Some d"
    and "b = job_descriptor job m'"
  shows "unat i < unat (batch_dsc_descriptors_count b) \<and> validate d = val_success
    \<and> batch_item (batch_dsc_descriptor_list_address b) (unat i) (m, ev) = rebind d (batch_record_ptr job i)
    \<and> record_at m (batch_record_ptr job i) = new_completion_record"
  using batch_filled_holds [OF assms(1,3)] assms(2,4)
  by (simp add: job_descriptor_batch slot_holds_def batch_item_def batch_descriptor_ptr_def word_less_nat_alt)

section \<open>Running a batch\<close>

lemma batch_loop_all:
  assumes "\<And>i. i < n \<Longrightarrow> item_ok T ops i (batch_prefix T ops 0 i st)"
    and "\<And>i. i < n \<Longrightarrow> item_supported T ops i (batch_prefix T ops 0 i st)"
  shows "batch_loop T ops n 0 st = (processing, n, batch_prefix T ops 0 n st)"
proof -
  obtain s k st' where loop: "batch_loop T ops n 0 st = (s, k, st')" by (rule prod_cases3)
  note ends = batch_loop_end [OF loop le0]
  then have "k \<le> n" by blast
  then have "0 < k \<Longrightarrow> k - 1 < n" by linarith
  with ends loop assms(1) [of k] assms(2) [of "k - 1"] show ?thesis by auto
qed

text \<open>The machine after running the descriptors \<open>D 0, \<dots>, D (k - 1)\<close> one after the other.\<close>
fun run_all :: "dispatch_table \<Rightarrow> (nat \<Rightarrow> descriptor) \<Rightarrow> nat \<Rightarrow> machine \<Rightarrow> machine" where
  "run_all T D 0 st = st"
| "run_all T D (Suc k) st = the (run_kernel T (D k) (run_all T D k st))"

text \<open>
  Running a batch is running its descriptors one after the other: when every descriptor
  is supported, succeeds, and leaves the descriptors of the batch alone, the kernel of the batch
  ends in the memory the separate runs give, apart from its own record, which reports success and
  the number of descriptors.
\<close>
lemma kernel_batch_sequential:
  assumes "n = unat (batch_dsc_descriptors_count d)" "ops = batch_dsc_descriptor_list_address d"
    and D: "\<And>i. i < n \<Longrightarrow> D i = batch_item ops i st"
    and runs: "\<And>i. i < n \<Longrightarrow> run_kernel T (D i) (run_all T D i st) \<noteq> None
      \<and> fst (run_all T D (Suc i) st) (record_address (D i)) = 1"
    and kept: "\<And>i k. i < n \<Longrightarrow> k \<le> n \<Longrightarrow> batch_item ops i (run_all T D k st) = batch_item ops i st"
  shows "\<exists>m'. kernel_batch T d st = (m', snd (run_all T D n st))
    \<and> m' (record_address d) = execution_status_value success
    \<and> unat (batch_cr_descriptors_completed (record_at m' (record_address d))) = n
    \<and> (\<forall>x. \<not> in_region x (record_address d) 32 \<longrightarrow> m' x = fst (run_all T D n st) x)"
proof -
  have pre: "batch_prefix T ops 0 k st = run_all T D k st" if "k \<le> n" for k
    using that
  proof (induction k)
    case (Suc k)
    then have "batch_item ops k (run_all T D k st) = D k" using kept [of k k] D [of k] by simp
    then show ?case using Suc runs [of k] by (auto simp: run_item_def)
  qed simp
  have item: "batch_item ops i (run_all T D i st) = D i" if "i < n" for i
    using kept [of i i] D [of i] that by simp
  have run: "run_item T ops i (run_all T D i st) = run_all T D (Suc i) st" if "i < n" for i
    using item [OF that] runs [OF that] by (auto simp: run_item_def)
  have "batch_loop T ops n 0 st = (processing, n, batch_prefix T ops 0 n st)"
  proof (rule batch_loop_all)
    fix i assume i: "i < n"
    show "item_ok T ops i (batch_prefix T ops 0 i st)"
      using i pre [of i] item [OF i] run [OF i] runs [OF i] by (simp add: item_ok_def)
    show "item_supported T ops i (batch_prefix T ops 0 i st)"
      using i pre [of i] item [OF i] runs [OF i] by (simp add: item_supported_def)
  qed
  then have loop: "batch_loop T ops n 0 st = (processing, n, run_all T D n st)" using pre by simp
  let ?a = "record_address d"
  let ?m' = "write_status d success (set_batch_cr_descriptors_completed ?a (word_of_nat n) (fst (run_all T D n st)))"
  have "kernel_batch T d st = (?m', snd (run_all T D n st))"
    using loop by (simp add: kernel_batch_def Let_def case_prod_beta flip: assms(1,2))
  moreover have "unat (word_of_nat n :: u32) = n"
    using assms(1) unat_u32_less [of "batch_dsc_descriptors_count d"] by (simp add: unat_of_nat)
  then have "unat (batch_cr_descriptors_completed (record_at ?m' ?a)) = n"
    by (simp add: write_status_def view_laws mem_simps)
  moreover have "?m' x = fst (run_all T D n st) x" if "\<not> in_region x ?a 32" for x
    using that by (simp add: write_status_def view_defs put_record_field_outside)
  ultimately show ?thesis by (intro exI [of _ ?m']) simp
qed

section \<open>Reading results\<close>

text \<open>
  \<open>dml_batch_get_result\<close> never reads the result field of a record: on success it stores
  the number of the status that \<open>dml_batch_get_status\<close> reports for the same task, so two records
  with the same status and different results are not told apart.
\<close>
lemma batch_get_result_is_status:
  assumes "q \<noteq> 0" "r \<noteq> 0"
  shows "dml_batch_get_result p job i q m
      = map_prod id (map_option (\<lambda>s. word_of_nat (dml_status_value s))) (dml_batch_get_status p job i r m)
    \<and> dml_batch_get_result p job i q (set_cr_result (batch_record_ptr job i) v m)
      = dml_batch_get_result p job i q m"
proof -
  have "get_status (record_at (set_cr_result (batch_record_ptr job i) v m) (batch_record_ptr job i))
      = get_status (record_at m (batch_record_ptr job i))"
    by (simp add: get_status_def view_laws mem_simps)
  then show ?thesis
    using assms by (simp add: dml_batch_get_result_def dml_batch_get_status_def batch_get_status_def)
qed

section \<open>Example batches\<close>

text \<open>A job with a batch buffer for four tasks.\<close>
definition sample_batch_job :: dml_job where
  "sample_batch_job = zero_job\<lparr> job_operation := dml_operation_value DML_OP_BATCH,
     destination_first_ptr := 0x20010, destination_length := 448, internal_data_ptr := 0x10080 \<rparr>"

lemma sample_batch_job_fields:
  "destination_first_ptr sample_batch_job = 0x20010" "destination_length sample_batch_job = 448"
  "view_operation sample_batch_job = Some DML_OP_BATCH" "task_count sample_batch_job = 4"
  by (simp_all add: sample_batch_job_def view_operation_def task_count_def get_task_size_def
      dml_operation_of_def dml_operations_def)

theorem batch_layout_witness:
  "task_count sample_batch_job = 4 \<and> unat (batch_record_ptr sample_batch_job 3) + 32 \<le> 0x20010 + 448"
proof -
  have "dml_get_batch_size 1 4 1 = (DML_STATUS_OK, Some 448)"
    by (simp add: dml_get_batch_size_def get_task_size_def DML_MIN_BATCH_SIZE_def)
  from batch_layout [OF this, of sample_batch_job "0x20010"] show ?thesis
    by (simp add: sample_batch_job_fields)
qed

theorem batch_filled_read_witness:
  "batch_item (batch_dsc_descriptor_list_address (job_descriptor sample_batch_job (\<lambda>_. 0))) 0
     (add_by_index sample_batch_job 0 (new_task 0 (make_nop_descriptor 0)) (\<lambda>_. 0), [])
   = rebind (make_nop_descriptor 0) (batch_record_ptr sample_batch_job 0)"
proof -
  have "batch_filled sample_batch_job (\<lambda>_. 0) ((\<lambda>_. None)(0 \<mapsto> make_nop_descriptor 0))
      (add_by_index sample_batch_job 0 (new_task 0 (make_nop_descriptor 0)) (\<lambda>_. 0))"
    by (rule batch_filled.set [OF batch_filled.start], rule add_by_index_sets)
      (simp_all add: sample_batch_job_fields validate_nop_descriptor)
  from batch_filled_read [OF this sample_batch_job_fields(3), of 0 "make_nop_descriptor 0" _ "\<lambda>_. 0" "[]"]
  show ?thesis by simp
qed

end
