(* ===== verification/DML_HL_Execution.thy ===== *)
theory DML_HL_Execution
  imports DML_HL_Types DML_Batch_API
begin

text \<open>
  Synchronous execution, submission and handlers of the C++ interface (\<open>hl/execute.hpp\<close>,
  \<open>hl/submit.hpp\<close>, \<open>hl/handler.hpp\<close> and their parts in \<open>hl/detail\<close>). A result type is a pair of
  functions: the result for a status that stopped the operation early, and the result read from
  a completion record. Executing is shown to be submitting and then getting the result.
\<close>

section \<open>The batch a sequence describes (\<open>hl/sequence.hpp\<close>)\<close>

text \<open>The two aligned arrays, their number of elements and the number of elements used.\<close>
record sequence =
  seq_operations :: addr
  seq_results :: addr
  seq_count :: u32
  seq_current_length :: u32

definition sequence_length :: "sequence \<Rightarrow> u32" where
  "sequence_length seq = seq_current_length seq"

definition sequence_data :: "sequence \<Rightarrow> addr" where
  "sequence_data seq = seq_operations seq"

section \<open>Tasks in memory\<close>

text \<open>A task object that is constructed at \<open>a\<close>.\<close>
definition place_task :: "addr \<Rightarrow> task \<Rightarrow> mem \<Rightarrow> mem" where
  "place_task a t m = store_bytes (store_bytes m a (task_descriptor t)) (a + 64) (task_record t)"

text \<open>
  The object a heap task refers to (\<open>ml/buffer.hpp\<close>): the aligned part of the allocated memory.
\<close>
definition task_memory :: "addr \<Rightarrow> addr" where
  "task_memory allocated = align allocated"

section \<open>Execution (\<open>hl/detail/execute.hpp\<close>, \<open>hl/execute.hpp\<close>)\<close>

text \<open>\<open>None\<close> when the wait does not return.\<close>
definition hl_execute :: "'h platform \<Rightarrow> execution_path \<Rightarrow> (status_code \<Rightarrow> 'r) \<Rightarrow> (completion_record \<Rightarrow> 'r)
    \<Rightarrow> u32 \<Rightarrow> (addr \<Rightarrow> task) \<Rightarrow> status_code \<Rightarrow> 'h sys \<Rightarrow> ('r \<times> 'h sys) option" where
  "hl_execute pf path failed make_result numa_id mk_task range_status sys =
     (if range_status \<noteq> sc_ok then Some (failed range_status, sys)
      else
        let (S, m, ev) = sys;
            a = pf_stack pf;
            m1 = place_task a (mk_task a) m
        in case ml_execute pf path a numa_id (S, (m1, ev)) of
             None \<Rightarrow> None
           | Some (val, sub, sys') \<Rightarrow>
               if val \<noteq> val_success then Some (failed (hl_validation_status val), sys')
               else if sub \<noteq> sub_success then Some (failed sc_error, sys')
               else Some (make_result (record_at (fst (snd sys')) (a + 64)), sys'))"

definition execute_batch :: "'h platform \<Rightarrow> execution_path \<Rightarrow> plain_operation \<Rightarrow> sequence \<Rightarrow> u32 \<Rightarrow> 'h sys
    \<Rightarrow> (hl_batch_result \<times> 'h sys) option" where
  "execute_batch pf path operation seq numa_id =
     hl_execute pf path failed_batch_result make_batch_result numa_id
       (\<lambda>a. make_batch_task a (sequence_data seq) (sequence_length seq) (op_options operation))
       sc_ok"

definition execute_nop :: "'h platform \<Rightarrow> execution_path \<Rightarrow> plain_operation \<Rightarrow> u32 \<Rightarrow> 'h sys
    \<Rightarrow> (hl_status_result \<times> 'h sys) option" where
  "execute_nop pf path operation numa_id =
     hl_execute pf path failed_status_result make_status_result numa_id
       (\<lambda>a. make_nop_task a (op_options operation))
       sc_ok"

definition execute_mem_move :: "'h platform \<Rightarrow> execution_path \<Rightarrow> plain_operation \<Rightarrow> data_view \<Rightarrow> data_view \<Rightarrow> u32 \<Rightarrow> 'h sys
    \<Rightarrow> (hl_status_result \<times> 'h sys) option" where
  "execute_mem_move pf path operation src_view dst_view numa_id =
     hl_execute pf path failed_status_result make_status_result numa_id
       (\<lambda>a. make_mem_move_task a (view_data src_view) (view_data dst_view) (view_size src_view) (op_options operation))
       (validate_size_consistency [(view_size src_view, view_size dst_view)])"

definition execute_mem_copy :: "'h platform \<Rightarrow> execution_path \<Rightarrow> plain_operation \<Rightarrow> data_view \<Rightarrow> data_view \<Rightarrow> u32 \<Rightarrow> 'h sys
    \<Rightarrow> (hl_status_result \<times> 'h sys) option" where
  "execute_mem_copy pf path operation src_view dst_view numa_id =
     hl_execute pf path failed_status_result make_status_result numa_id
       (\<lambda>a. make_mem_move_task a (view_data src_view) (view_data dst_view) (view_size src_view) (op_options operation))
       (validate_size_consistency [(view_size src_view, view_size dst_view)])"

definition execute_fill :: "'h platform \<Rightarrow> execution_path \<Rightarrow> plain_operation \<Rightarrow> u64 \<Rightarrow> data_view \<Rightarrow> u32 \<Rightarrow> 'h sys
    \<Rightarrow> (hl_status_result \<times> 'h sys) option" where
  "execute_fill pf path operation pattern dst_view numa_id =
     hl_execute pf path failed_status_result make_status_result numa_id
       (\<lambda>a. make_fill_task a pattern (view_data dst_view) (view_size dst_view) (op_options operation))
       sc_ok"

definition execute_dualcast :: "'h platform \<Rightarrow> execution_path \<Rightarrow> specific_operation \<Rightarrow> data_view \<Rightarrow> data_view \<Rightarrow> data_view \<Rightarrow> u32 \<Rightarrow> 'h sys
    \<Rightarrow> (hl_status_result \<times> 'h sys) option" where
  "execute_dualcast pf path operation src_view dst1_view dst2_view numa_id =
     hl_execute pf path failed_status_result make_status_result numa_id
       (\<lambda>a. make_dualcast_task a (view_data src_view) (view_data dst1_view) (view_data dst2_view) (view_size src_view) (op_options operation) (op_specific_options operation))
       (validate_size_consistency [(view_size src_view, view_size dst1_view), (view_size src_view, view_size dst2_view)])"

definition execute_compare :: "'h platform \<Rightarrow> execution_path \<Rightarrow> expecting_operation \<Rightarrow> data_view \<Rightarrow> data_view \<Rightarrow> u32 \<Rightarrow> 'h sys
    \<Rightarrow> (hl_compare_result \<times> 'h sys) option" where
  "execute_compare pf path operation src1_view src2_view numa_id =
     hl_execute pf path failed_compare_result make_compare_result numa_id
       (\<lambda>a. make_compare_task a (view_data src1_view) (view_data src2_view) (view_size src1_view) (op_options operation) (op_expected operation))
       (validate_size_consistency [(view_size src1_view, view_size src2_view)])"

definition execute_compare_pattern :: "'h platform \<Rightarrow> execution_path \<Rightarrow> expecting_operation \<Rightarrow> u64 \<Rightarrow> data_view \<Rightarrow> u32 \<Rightarrow> 'h sys
    \<Rightarrow> (hl_compare_result \<times> 'h sys) option" where
  "execute_compare_pattern pf path operation pattern src_view numa_id =
     hl_execute pf path failed_compare_result make_compare_result numa_id
       (\<lambda>a. make_compare_pattern_task a pattern (view_data src_view) (view_size src_view) (op_options operation) (op_expected operation))
       sc_ok"

definition execute_create_delta :: "'h platform \<Rightarrow> execution_path \<Rightarrow> expecting_operation \<Rightarrow> data_view \<Rightarrow> data_view \<Rightarrow> data_view \<Rightarrow> u32 \<Rightarrow> 'h sys
    \<Rightarrow> (hl_create_delta_result \<times> 'h sys) option" where
  "execute_create_delta pf path operation src1_view src2_view delta_view numa_id =
     hl_execute pf path failed_create_delta_result make_create_delta_result numa_id
       (\<lambda>a. make_create_delta_task a (view_data src1_view) (view_data src2_view) (view_size src1_view) (view_data delta_view) (view_size delta_view) (op_options operation) (op_expected operation))
       (validate_size_consistency [(view_size src1_view, view_size src2_view)])"

definition execute_apply_delta :: "'h platform \<Rightarrow> execution_path \<Rightarrow> plain_operation \<Rightarrow> data_view \<Rightarrow> data_view \<Rightarrow> hl_create_delta_result \<Rightarrow> u32 \<Rightarrow> 'h sys
    \<Rightarrow> (hl_status_result \<times> 'h sys) option" where
  "execute_apply_delta pf path operation delta_view dst_view delta_result numa_id =
     hl_execute pf path failed_status_result make_status_result numa_id
       (\<lambda>a. make_apply_delta_task a (view_data delta_view) (hl_delta_record_size delta_result) (view_data dst_view) (view_size dst_view) (op_options operation))
       (if hl_result delta_result \<noteq> comparison_not_equal then sc_delta_delta_empty else sc_ok)"

definition execute_crc :: "'h platform \<Rightarrow> execution_path \<Rightarrow> specific_operation \<Rightarrow> data_view \<Rightarrow> u32 \<Rightarrow> u32 \<Rightarrow> 'h sys
    \<Rightarrow> (hl_crc_result \<times> 'h sys) option" where
  "execute_crc pf path operation src_view crc_seed numa_id =
     hl_execute pf path failed_crc_result make_crc_result numa_id
       (\<lambda>a. make_crc_task a (view_data src_view) (view_size src_view) crc_seed (op_options operation) (op_specific_options operation))
       sc_ok"

definition execute_copy_crc :: "'h platform \<Rightarrow> execution_path \<Rightarrow> specific_operation \<Rightarrow> data_view \<Rightarrow> data_view \<Rightarrow> u32 \<Rightarrow> u32 \<Rightarrow> 'h sys
    \<Rightarrow> (hl_crc_result \<times> 'h sys) option" where
  "execute_copy_crc pf path operation src_view dst_view crc_seed numa_id =
     hl_execute pf path failed_crc_result make_crc_result numa_id
       (\<lambda>a. make_copy_crc_task a (view_data src_view) (view_data dst_view) (view_size src_view) crc_seed (op_options operation) (op_specific_options operation))
       (validate_size_consistency [(view_size src_view, view_size dst_view)])"

definition execute_cache_flush :: "'h platform \<Rightarrow> execution_path \<Rightarrow> plain_operation \<Rightarrow> data_view \<Rightarrow> u32 \<Rightarrow> 'h sys
    \<Rightarrow> (hl_status_result \<times> 'h sys) option" where
  "execute_cache_flush pf path operation dst_view numa_id =
     hl_execute pf path failed_status_result make_status_result numa_id
       (\<lambda>a. make_cache_flush_task a (view_data dst_view) (view_size dst_view) (op_options operation))
       sc_ok"

section \<open>Handlers (\<open>hl/handler.hpp\<close>, \<open>hl/detail/handler.hpp\<close>)\<close>

text \<open>The memory of the task, the status and the path of an operation that may still run.\<close>
record handler =
  handler_task :: addr
  handler_status :: status_code
  handler_path :: execution_path

text \<open>The constructor from a task, and the handler that a move leaves behind.\<close>
definition make_handler :: "addr \<Rightarrow> handler" where
  "make_handler a = \<lparr> handler_task = a, handler_status = sc_ok, handler_path = software \<rparr>"

definition moved_from :: "handler \<Rightarrow> handler" where
  "moved_from h = h\<lparr> handler_task := 0, handler_status := sc_error \<rparr>"

definition handler_valid :: "handler \<Rightarrow> bool" where
  "handler_valid h \<longleftrightarrow> handler_status h = sc_ok"

definition handler_get :: "'h platform \<Rightarrow> (status_code \<Rightarrow> 'r) \<Rightarrow> (completion_record \<Rightarrow> 'r) \<Rightarrow> handler
    \<Rightarrow> 'h sys \<Rightarrow> ('r \<times> 'h sys) option" where
  "handler_get pf failed make_result h sys =
     (if handler_status h = sc_ok
      then (case path_wait pf (handler_path h) (handler_task h) False (snd sys) of
              None \<Rightarrow> None
            | Some st' \<Rightarrow> Some (make_result (record_at (fst st') (handler_task h + 64)), (fst sys, st')))
      else Some (failed (handler_status h), sys))"

definition handler_is_finished :: "'h platform \<Rightarrow> handler \<Rightarrow> 'h sys \<Rightarrow> (bool \<times> 'h sys) option" where
  "handler_is_finished pf h sys =
     (if handler_status h = sc_ok
      then (case path_finished pf (handler_path h) (handler_task h) (snd sys) of
              None \<Rightarrow> None | Some (fin, st') \<Rightarrow> Some (fin, (fst sys, st')))
      else Some (True, sys))"

section \<open>Submission (\<open>hl/detail/submit.hpp\<close>, \<open>hl/submit.hpp\<close>)\<close>

definition hl_submit :: "'h platform \<Rightarrow> execution_path \<Rightarrow> u32 \<Rightarrow> addr \<Rightarrow> (addr \<Rightarrow> task) \<Rightarrow> status_code
    \<Rightarrow> 'h sys \<Rightarrow> handler \<times> 'h sys" where
  "hl_submit pf path numa_id allocated mk_task range_status sys =
     (let (S, m, ev) = sys;
          a = task_memory allocated;
          m1 = place_task a (mk_task a) m;
          op_handler = make_handler a
      in if range_status \<noteq> sc_ok then (op_handler\<lparr> handler_status := range_status \<rparr>, (S, (m1, ev)))
         else
           let (val, sub, sys') = ml_submit pf path a numa_id (S, (m1, ev))
           in if val \<noteq> val_success
              then (op_handler\<lparr> handler_status := hl_validation_status val \<rparr>, sys')
              else if sub \<noteq> sub_success
              then (op_handler\<lparr> handler_status := hl_submission_status sub \<rparr>, sys')
              else (op_handler\<lparr> handler_path := path \<rparr>, sys'))"

definition submit_batch :: "'h platform \<Rightarrow> execution_path \<Rightarrow> addr \<Rightarrow> plain_operation \<Rightarrow> sequence \<Rightarrow> u32 \<Rightarrow> 'h sys
    \<Rightarrow> handler \<times> 'h sys" where
  "submit_batch pf path allocated operation seq numa_id =
     hl_submit pf path numa_id allocated
       (\<lambda>a. make_batch_task a (sequence_data seq) (sequence_length seq) (op_options operation))
       sc_ok"

definition submit_nop :: "'h platform \<Rightarrow> execution_path \<Rightarrow> addr \<Rightarrow> plain_operation \<Rightarrow> u32 \<Rightarrow> 'h sys
    \<Rightarrow> handler \<times> 'h sys" where
  "submit_nop pf path allocated operation numa_id =
     hl_submit pf path numa_id allocated
       (\<lambda>a. make_nop_task a (op_options operation))
       sc_ok"

definition submit_mem_move :: "'h platform \<Rightarrow> execution_path \<Rightarrow> addr \<Rightarrow> plain_operation \<Rightarrow> data_view \<Rightarrow> data_view \<Rightarrow> u32 \<Rightarrow> 'h sys
    \<Rightarrow> handler \<times> 'h sys" where
  "submit_mem_move pf path allocated operation src_view dst_view numa_id =
     hl_submit pf path numa_id allocated
       (\<lambda>a. make_mem_move_task a (view_data src_view) (view_data dst_view) (view_size src_view) (op_options operation))
       (validate_size_consistency [(view_size src_view, view_size dst_view)])"

definition submit_mem_copy :: "'h platform \<Rightarrow> execution_path \<Rightarrow> addr \<Rightarrow> plain_operation \<Rightarrow> data_view \<Rightarrow> data_view \<Rightarrow> u32 \<Rightarrow> 'h sys
    \<Rightarrow> handler \<times> 'h sys" where
  "submit_mem_copy pf path allocated operation src_view dst_view numa_id =
     hl_submit pf path numa_id allocated
       (\<lambda>a. make_mem_move_task a (view_data src_view) (view_data dst_view) (view_size src_view) (op_options operation))
       (validate_size_consistency [(view_size src_view, view_size dst_view)])"

definition submit_fill :: "'h platform \<Rightarrow> execution_path \<Rightarrow> addr \<Rightarrow> plain_operation \<Rightarrow> u64 \<Rightarrow> data_view \<Rightarrow> u32 \<Rightarrow> 'h sys
    \<Rightarrow> handler \<times> 'h sys" where
  "submit_fill pf path allocated operation pattern dst_view numa_id =
     hl_submit pf path numa_id allocated
       (\<lambda>a. make_fill_task a pattern (view_data dst_view) (view_size dst_view) (op_options operation))
       sc_ok"

definition submit_dualcast :: "'h platform \<Rightarrow> execution_path \<Rightarrow> addr \<Rightarrow> specific_operation \<Rightarrow> data_view \<Rightarrow> data_view \<Rightarrow> data_view \<Rightarrow> u32 \<Rightarrow> 'h sys
    \<Rightarrow> handler \<times> 'h sys" where
  "submit_dualcast pf path allocated operation src_view dst1_view dst2_view numa_id =
     hl_submit pf path numa_id allocated
       (\<lambda>a. make_dualcast_task a (view_data src_view) (view_data dst1_view) (view_data dst2_view) (view_size src_view) (op_options operation) (op_specific_options operation))
       (validate_size_consistency [(view_size src_view, view_size dst1_view), (view_size src_view, view_size dst2_view)])"

definition submit_compare :: "'h platform \<Rightarrow> execution_path \<Rightarrow> addr \<Rightarrow> expecting_operation \<Rightarrow> data_view \<Rightarrow> data_view \<Rightarrow> u32 \<Rightarrow> 'h sys
    \<Rightarrow> handler \<times> 'h sys" where
  "submit_compare pf path allocated operation src1_view src2_view numa_id =
     hl_submit pf path numa_id allocated
       (\<lambda>a. make_compare_task a (view_data src1_view) (view_data src2_view) (view_size src1_view) (op_options operation) (op_expected operation))
       (validate_size_consistency [(view_size src1_view, view_size src2_view)])"

definition submit_compare_pattern :: "'h platform \<Rightarrow> execution_path \<Rightarrow> addr \<Rightarrow> expecting_operation \<Rightarrow> u64 \<Rightarrow> data_view \<Rightarrow> u32 \<Rightarrow> 'h sys
    \<Rightarrow> handler \<times> 'h sys" where
  "submit_compare_pattern pf path allocated operation pattern src_view numa_id =
     hl_submit pf path numa_id allocated
       (\<lambda>a. make_compare_pattern_task a pattern (view_data src_view) (view_size src_view) (op_options operation) (op_expected operation))
       sc_ok"

definition submit_create_delta :: "'h platform \<Rightarrow> execution_path \<Rightarrow> addr \<Rightarrow> expecting_operation \<Rightarrow> data_view \<Rightarrow> data_view \<Rightarrow> data_view \<Rightarrow> u32 \<Rightarrow> 'h sys
    \<Rightarrow> handler \<times> 'h sys" where
  "submit_create_delta pf path allocated operation src1_view src2_view delta_view numa_id =
     hl_submit pf path numa_id allocated
       (\<lambda>a. make_create_delta_task a (view_data src1_view) (view_data src2_view) (view_size src1_view) (view_data delta_view) (view_size delta_view) (op_options operation) (op_expected operation))
       (validate_size_consistency [(view_size src1_view, view_size src2_view)])"

definition submit_apply_delta :: "'h platform \<Rightarrow> execution_path \<Rightarrow> addr \<Rightarrow> plain_operation \<Rightarrow> data_view \<Rightarrow> data_view \<Rightarrow> hl_create_delta_result \<Rightarrow> u32 \<Rightarrow> 'h sys
    \<Rightarrow> handler \<times> 'h sys" where
  "submit_apply_delta pf path allocated operation delta_view dst_view delta_result numa_id =
     hl_submit pf path numa_id allocated
       (\<lambda>a. make_apply_delta_task a (view_data delta_view) (hl_delta_record_size delta_result) (view_data dst_view) (view_size dst_view) (op_options operation))
       (if hl_result delta_result \<noteq> comparison_not_equal then sc_delta_delta_empty else sc_ok)"

definition submit_crc :: "'h platform \<Rightarrow> execution_path \<Rightarrow> addr \<Rightarrow> specific_operation \<Rightarrow> data_view \<Rightarrow> u32 \<Rightarrow> u32 \<Rightarrow> 'h sys
    \<Rightarrow> handler \<times> 'h sys" where
  "submit_crc pf path allocated operation src_view crc_seed numa_id =
     hl_submit pf path numa_id allocated
       (\<lambda>a. make_crc_task a (view_data src_view) (view_size src_view) crc_seed (op_options operation) (op_specific_options operation))
       sc_ok"

definition submit_copy_crc :: "'h platform \<Rightarrow> execution_path \<Rightarrow> addr \<Rightarrow> specific_operation \<Rightarrow> data_view \<Rightarrow> data_view \<Rightarrow> u32 \<Rightarrow> u32 \<Rightarrow> 'h sys
    \<Rightarrow> handler \<times> 'h sys" where
  "submit_copy_crc pf path allocated operation src_view dst_view crc_seed numa_id =
     hl_submit pf path numa_id allocated
       (\<lambda>a. make_copy_crc_task a (view_data src_view) (view_data dst_view) (view_size src_view) crc_seed (op_options operation) (op_specific_options operation))
       (validate_size_consistency [(view_size src_view, view_size dst_view)])"

definition submit_cache_flush :: "'h platform \<Rightarrow> execution_path \<Rightarrow> addr \<Rightarrow> plain_operation \<Rightarrow> data_view \<Rightarrow> u32 \<Rightarrow> 'h sys
    \<Rightarrow> handler \<times> 'h sys" where
  "submit_cache_flush pf path allocated operation dst_view numa_id =
     hl_submit pf path numa_id allocated
       (\<lambda>a. make_cache_flush_task a (view_data dst_view) (view_size dst_view) (op_options operation))
       sc_ok"


section \<open>Executing is submitting and getting\<close>

lemma placed_descriptor:
  assumes "wf_descriptor d"
  shows "load_bytes (place_task a (new_task a d) m) a 64 = rebind d (a + 64)"
proof -
  have "length (rebind d (a + 64)) = 64"
    using assms wf_rebind [of d "a + 64"] by (simp add: wf_descriptor_def)
  then show ?thesis
    using load_store_bytes_same [of "rebind d (a + 64)" 64 m a] task_object_apart [of a]
    by (simp add: place_task_def new_task_def load_store_bytes_disjoint disjoint_regions_sym)
qed

lemma placed_elsewhere:
  assumes "wf_descriptor d" "\<not> in_region x a 96"
  shows "place_task a (new_task a d) m x = m x"
proof -
  have "length (rebind d (a + 64)) = 64"
    using assms wf_rebind [of d "a + 64"] by (simp add: wf_descriptor_def)
  moreover have "\<not> in_region x a 64" "\<not> in_region x (a + 64) 32"
    using assms(2) in_region_part [of x a 64 32 96] in_region_mono [of x a 64 96] by auto
  ultimately show ?thesis by (simp add: place_task_def new_task_def store_bytes_outside)
qed

lemma placed_region:
  assumes "wf_descriptor d" "disjoint_regions a 96 b n" "n \<le> 2 ^ 64"
  shows "load_bytes (place_task a (new_task a d) m) b n = load_bytes m b n"
  using assms disjoint_regionsD2 [OF assms(2)]
  by (intro load_bytes_cong placed_elsewhere) simp_all

lemma hl_validation_values [simp]:
  "hl_validation_status s = sc_ok \<longleftrightarrow> s = val_success" "hl_validation_status s \<noteq> sc_queue_busy"
  by (cases s; simp)+

lemma hl_submission_values [simp]:
  "hl_submission_status s = sc_ok \<longleftrightarrow> s = sub_success"
  "hl_submission_status s = sc_queue_busy \<longleftrightarrow> s = sub_queue_busy"
  by (cases s; simp)+

text \<open>Both begin with one submission of the task at its place.\<close>
lemma hl_execute_eq:
  assumes "a = pf_stack pf" "ml_submit pf path a numa_id (S, place_task a (mk_task a) m, ev) = (val, sub, (S', st'))"
  shows "hl_execute pf path failed make_result numa_id mk_task sc_ok (S, m, ev) =
    (if val \<noteq> val_success then Some (failed (hl_validation_status val), (S', st'))
     else if sub \<noteq> sub_success then Some (failed sc_error, (S', st'))
     else case path_wait pf path a False st' of None \<Rightarrow> None
       | Some st'' \<Rightarrow> Some (make_result (record_at (fst st'') (a + 64)), (S', st'')))"
  using assms by (simp add: hl_execute_def ml_execute_def split: option.split)

lemma hl_submit_eq:
  assumes "a = task_memory allocated"
    "ml_submit pf path a numa_id (S, place_task a (mk_task a) m, ev) = (val, sub, (S', st'))"
  shows "hl_submit pf path numa_id allocated mk_task sc_ok (S, m, ev) =
    (if val \<noteq> val_success then (make_handler a)\<lparr> handler_status := hl_validation_status val \<rparr>
     else if sub \<noteq> sub_success then (make_handler a)\<lparr> handler_status := hl_submission_status sub \<rparr>
     else (make_handler a)\<lparr> handler_path := path \<rparr>, (S', st'))"
  using assms by (simp add: hl_submit_def)

lemma handler_get_eq:
  "handler_status h \<noteq> sc_ok \<Longrightarrow> handler_get pf failed make_result h sys = Some (failed (handler_status h), sys)"
  "handler_status h = sc_ok \<Longrightarrow> handler_get pf failed make_result h (S, st) =
    (case path_wait pf (handler_path h) (handler_task h) False st of None \<Rightarrow> None
     | Some st' \<Rightarrow> Some (make_result (record_at (fst st') (handler_task h + 64)), (S, st')))"
  by (simp_all add: handler_get_def split: option.split)

lemma make_handler_fields [simp]:
  "handler_task (make_handler a) = a" "handler_status (make_handler a) = sc_ok"
  by (simp_all add: make_handler_def)


section \<open>Execution without an accelerator\<close>

text \<open>The path is \<open>software\<close>, or \<open>automatic\<close> on a machine without accelerators.\<close>
definition software_only :: "execution_path \<Rightarrow> 'h hw_state \<Rightarrow> bool" where
  "software_only path S \<longleftrightarrow> path = software \<or> path = automatic \<and> \<not> hw_support S"

lemma software_only_path:
  assumes "software_only path (S :: 'h hw_state)"
  shows "synchronous_path pf path S"
proof -
  consider "path = software" | "path = automatic" "S\<lparr>hw_support := False\<rparr> = S"
    using assms by (auto simp: software_only_def)
  then show ?thesis
    using sw.synchronous_path_axioms [of pf S] auto.synchronous_path_axioms [of pf S] by cases simp_all
qed

text \<open>
  An operation is one run of the software device on the descriptor of its task; the result is
  read from the record of that task.
\<close>
lemma execute_in_frame:
  assumes "software_only path S" "wf_descriptor d" "validate d = val_success"
    and a: "a = pf_stack pf" and m1: "m1 = place_task a (new_task a d) m"
    and run: "software_submit (pf_table pf) (rebind d (a + 64)) (m1, ev) = (sub, (m2, ev2))"
    and kept: "\<And>x. in_region x a 64 \<Longrightarrow> m2 x = m1 x"
  shows "hl_execute pf path failed make_result numa_id (\<lambda>a. new_task a d) sc_ok (S, m, ev)
    = Some (make_result (record_at m2 (a + 64)), (S, m2, ev2))"
proof -
  let ?d = "rebind d (a + 64)"
  note sp = software_only_path [OF assms(1), of pf]
  have val: "validate ?d = val_success" using assms(2,3) validate_rebind by simp
  have sub: "sub = sub_success"
    using software_submit_accepts [of "pf_table pf" ?d "(m1, ev)"] run validated_known [OF val] by simp
  have d1: "load_bytes m1 a 64 = ?d" using placed_descriptor assms(2) m1 by simp
  moreover have "load_bytes m2 a 64 = load_bytes m1 a 64" by (rule load_bytes_cong) (simp add: kept)
  ultimately have d2: "load_bytes m2 a 64 = ?d" by simp
  have "m2 (record_address ?d) \<in> software_codes"
    using software_submit_code run sub by fastforce
  then have wait: "path_wait pf path a False (m2, ev2) = Some (m2, ev2)"
    using synchronous_path.waits [OF sp, of m2 a] d2 by simp
  have "ml_submit pf path a numa_id (S, (m1, ev)) = (val_success, sub_success, (S, (m2, ev2)))"
    using d1 val run sub
    by (simp add: ml_submit_def synchronous_path.validates [OF sp] synchronous_path.submits [OF sp] Let_def)
  then show ?thesis using wait by (simp add: hl_execute_def ml_execute_def m1 a Let_def)
qed

section \<open>Memory move\<close>

text \<open>
  Claim C4: \<open>execute(mem_move, src_view, dst_view)\<close> on the software path, or on the automatic path
  of a machine without accelerators, copies the viewed source to the viewed destination,
  overlapping or not, reports \<open>ok\<close> and changes nothing but the destination and its own stack
  frame, when the views have one size. When they do not, nothing at all is changed and the result
  is \<open>inconsistent_size\<close>, on every path.
\<close>
theorem execute_mem_move_result:
  assumes table: "pf_table pf = ref_table" and a: "a = pf_stack pf"
    and path: "software_only path S"
    and buf: "src = view_data src_view" "dst = view_data dst_view" "n = unat (view_size src_view)"
      "src \<noteq> 0" "dst \<noteq> 0" "0 < n" "unat src + n < 2 ^ 64" "unat dst + n < 2 ^ 64"
    and apart: "disjoint_regions a 96 src n" "disjoint_regions a 96 dst n"
  shows "if view_size src_view = view_size dst_view
    then \<exists>m'. execute_mem_move pf path operation src_view dst_view numa_id (S, m, ev)
          = Some (\<lparr> hl_status = sc_ok \<rparr>, (S, m', ev))
        \<and> load_bytes m' dst n = load_bytes m src n
        \<and> (\<forall>x. \<not> in_region x dst n \<and> \<not> in_region x a 96 \<longrightarrow> m' x = m x)
    else execute_mem_move pf any_path operation src_view dst_view numa_id (S, m, ev)
          = Some (\<lparr> hl_status = sc_inconsistent_size \<rparr>, (S, m, ev))"
proof (cases "view_size src_view = view_size dst_view")
  case False
  then show ?thesis
    by (simp add: execute_mem_move_def hl_execute_def failed_status_result_def)
next
  case True
  let ?e = "make_mem_move_descriptor src dst (view_size src_view) (op_options operation)"
  let ?d = "rebind ?e (a + 64)" and ?m1 = "place_task a (new_task a ?e) m"
  define m2 where "m2 = kernel_mem_move ref_table ?d ?m1"
  have f: "dsc_source_address ?d = src" "dsc_destination_address ?d = dst"
    "unat (dsc_transfer_size ?d) = n" "record_address ?d = a + 64"
    "operation_of (dsc_operation ?d) = Some op_mem_move"
    using buf(3) by simp_all
  have size: "n < 2 ^ 64" using buf(3) unat_u32_less_addr by simp
  have away: "\<not> in_region x dst n" if "in_region x a 96" for x
    using apart(2) that by (rule disjoint_regionsD)
  have "in_region (a + 64) a 96" using in_region_offset [of 96 64 a] by simp
  then have rec: "\<not> in_region (a + 64) dst n" by (rule away)
  have "validate ?d = val_success"
    using buf f by (simp add: validate_def validate_mem_move_def any_equal_zero_def unat_gt_0 [symmetric])
  then have val: "validate ?e = val_success" using validate_rebind by simp
  have run: "software_submit (pf_table pf) ?d (?m1, ev) = (sub_success, (m2, ev))"
    using f table by (simp add: software_submit_def run_kernel_def m2_def)
  have frame: "m2 x = ?m1 x" if "x \<noteq> a + 64" "\<not> in_region x dst n" for x
    using ref.move_kernel(2) [of ?d x ?m1] f buf rec that by (simp add: m2_def)
  have copy: "load_bytes m2 dst n = load_bytes m src n"
    using ref.move_kernel(1) [of ?d ?m1] f buf rec placed_region [of ?e a src n m] apart(1) size
    by (simp add: m2_def)
  have "m2 (record_address ?d) = 1" unfolding m2_def kernel_mem_move_def status_after_write by simp
  then have fin: "m2 (a + 64) = 1" by (simp only: f(4))
  have "hl_execute pf path failed_status_result make_status_result numa_id (\<lambda>a. new_task a ?e) sc_ok
      (S, m, ev) = Some (make_status_result (record_at m2 (a + 64)), (S, m2, ev))"
  proof (rule execute_in_frame [OF path _ val a refl run])
    fix x assume x: "in_region x a 64"
    then have "x \<noteq> a + 64"
      using task_object_apart [of a] in_region_offset [of 32 0 "a + 64"] by (auto simp: disjoint_regions_def)
    with x show "m2 x = ?m1 x" using frame away [OF in_region_mono] by simp
  qed simp
  moreover have "make_status_result (record_at m2 (a + 64)) = \<lparr> hl_status = sc_ok \<rparr>"
    using fin by (simp add: make_status_result_def get_status_def record_status_byte)
  moreover have "m2 x = m x" if "\<not> in_region x dst n" "\<not> in_region x a 96" for x
    using that frame [of x] placed_elsewhere [of ?e x a m] in_region_offset [of 96 64 a] by auto
  ultimately show ?thesis
    using True copy buf(1,2) by (simp add: execute_mem_move_def make_mem_move_task_def)
qed

section \<open>Example runs\<close>

definition sample_view :: "addr \<Rightarrow> data_view" where
  "sample_view p = make_view 1 p 4"

lemma sample_view_fields [simp]: "view_data (sample_view p) = p" "view_size (sample_view p) = 4"
  by (simp_all add: sample_view_def make_view_def)

lemma sample_stack [simp]: "pf_stack sample_platform = 0x7000"
  by (simp add: sample_platform_def)

theorem execute_mem_move_result_witness:
  "(\<exists>m'. execute_mem_move sample_platform software mem_move_operation (sample_view 0x1000) (sample_view 0x1002) 0
      (sample_hw, sample_mem, []) = Some (\<lparr> hl_status = sc_ok \<rparr>, (sample_hw, m', []))
    \<and> load_bytes m' 0x1002 4 = [0, 1, 2, 3])"
  using execute_mem_move_result [of sample_platform "0x7000" software sample_hw "0x1000" "sample_view 0x1000"
      "0x1002" "sample_view 0x1002" 4 mem_move_operation 0 sample_mem "[]"]
  by (simp add: software_only_def disjoint_no_wrap sample_bytes) blast

text \<open>The software device is never busy.\<close>
lemma software_never_busy:
  assumes "hl_submit pf software numa_id allocated mk_task sc_ok sys = (h, sys')"
  shows "handler_status h \<noteq> sc_queue_busy"
proof -
  obtain S m ev where sys: "sys = (S, m, ev)" by (metis prod.exhaust)
  define a where "a = task_memory allocated"
  define d where "d = load_bytes (place_task a (mk_task a) m) a 64"
  obtain sub st' where run: "software_submit (pf_table pf) d (place_task a (mk_task a) m, ev) = (sub, st')"
    by (rule prod.exhaust)
  then have "sub \<noteq> sub_queue_busy" by (auto simp: software_submit_def split: option.splits operation.splits)
  moreover have "ml_submit pf software a numa_id (S, place_task a (mk_task a) m, ev)
      = (if validate d = val_success then (val_success, sub, (S, st'))
         else (validate d, sub_failure, (S, place_task a (mk_task a) m, ev)))"
    using run by (simp add: ml_submit_def path_validate_def software_validate_def path_submit_def d_def Let_def)
  ultimately show ?thesis
    using hl_submit_eq [of a allocated pf software numa_id S mk_task m ev, OF a_def] assms
    by (auto simp: sys split: if_splits)
qed


end
