(* ===== verification/DML_HL_Sequence.thy ===== *)
theory DML_HL_Sequence
  imports DML_HL_Execution
begin

text \<open>
  Sequences of the C++ interface (\<open>hl/sequence.hpp\<close>, \<open>hl/detail/buffer.hpp\<close>): an array of
  descriptors and an array of records, filled from the front.
\<close>

section \<open>Construction\<close>

text \<open>The aligned start of an array in the allocated memory; \<open>al\<close> is the alignment of an element.\<close>
definition aligned_data :: "u64 \<Rightarrow> addr \<Rightarrow> addr" where
  "aligned_data al data_ptr =
     (let align_offset = data_ptr AND (al - 1);
          align_offset' = (if align_offset \<noteq> 0 then al - align_offset else align_offset)
      in data_ptr + align_offset')"

text \<open>The constructor, from the two blocks the allocator returned; every element is zero.\<close>
definition make_sequence :: "u32 \<Rightarrow> addr \<Rightarrow> addr \<Rightarrow> mem \<Rightarrow> sequence \<times> mem" where
  "make_sequence count ops res m =
     (let operations = aligned_data 64 ops; results = aligned_data 32 res
      in (\<lparr> seq_operations = operations, seq_results = results, seq_count = count, seq_current_length = 0 \<rparr>,
          store_bytes (store_bytes m operations (replicate (64 * unat count) 0)) results (replicate (32 * unat count) 0)))"

text \<open>\<open>operations_.get(index)\<close> and \<open>results_.get(index)\<close>.\<close>
definition seq_descriptor :: "sequence \<Rightarrow> nat \<Rightarrow> addr" where
  "seq_descriptor seq i = seq_operations seq + word_of_nat (64 * i)"

definition seq_record :: "sequence \<Rightarrow> nat \<Rightarrow> addr" where
  "seq_record seq i = seq_results seq + word_of_nat (32 * i)"

section \<open>Adding operations\<close>

text \<open>The private template \<open>add(make_task)\<close>; the task it makes is moved into the next slot.\<close>
definition sequence_add :: "sequence \<Rightarrow> task \<Rightarrow> mem \<Rightarrow> status_code \<times> sequence \<times> mem" where
  "sequence_add seq t m =
     (if seq_current_length seq = seq_count seq then (sc_batch_overflow, seq, m)
      else
        let i = unat (seq_current_length seq);
            dsc = seq_descriptor seq i;
            rec = seq_record seq i;
            m1 = assign_view dsc rec t m;
            status = automatic_validate (load_bytes m1 dsc 64)
        in if status \<noteq> val_success then (hl_validation_status status, seq, m1)
           else (sc_ok, seq\<lparr> seq_current_length := seq_current_length seq + 1 \<rparr>, m1))"

definition sequence_add_nop :: "addr \<Rightarrow> sequence \<Rightarrow> plain_operation \<Rightarrow> mem
    \<Rightarrow> status_code \<times> sequence \<times> mem" where
  "sequence_add_nop stack seq operation m =
     sequence_add seq (make_nop_task stack (op_options operation)) m"

definition sequence_add_mem_move :: "addr \<Rightarrow> sequence \<Rightarrow> plain_operation \<Rightarrow> data_view \<Rightarrow> data_view \<Rightarrow> mem
    \<Rightarrow> status_code \<times> sequence \<times> mem" where
  "sequence_add_mem_move stack seq operation src_view dst_view m =
     (let status = validate_size_consistency [(view_size src_view, view_size dst_view)]
      in if status \<noteq> sc_ok then (status, seq, m)
         else sequence_add seq
           (make_mem_move_task stack (view_data src_view) (view_data dst_view) (view_size src_view) (op_options operation)) m)"

definition sequence_add_mem_copy :: "addr \<Rightarrow> sequence \<Rightarrow> plain_operation \<Rightarrow> data_view \<Rightarrow> data_view \<Rightarrow> mem
    \<Rightarrow> status_code \<times> sequence \<times> mem" where
  "sequence_add_mem_copy stack seq operation src_view dst_view m =
     (let status = validate_size_consistency [(view_size src_view, view_size dst_view)]
      in if status \<noteq> sc_ok then (status, seq, m)
         else sequence_add seq
           (make_mem_move_task stack (view_data src_view) (view_data dst_view) (view_size src_view) (op_options operation)) m)"

definition sequence_add_fill :: "addr \<Rightarrow> sequence \<Rightarrow> plain_operation \<Rightarrow> u64 \<Rightarrow> data_view \<Rightarrow> mem
    \<Rightarrow> status_code \<times> sequence \<times> mem" where
  "sequence_add_fill stack seq operation pattern dst_view m =
     sequence_add seq (make_fill_task stack pattern (view_data dst_view) (view_size dst_view) (op_options operation)) m"

definition sequence_add_dualcast :: "addr \<Rightarrow> sequence \<Rightarrow> specific_operation \<Rightarrow> data_view \<Rightarrow> data_view \<Rightarrow> data_view \<Rightarrow> mem
    \<Rightarrow> status_code \<times> sequence \<times> mem" where
  "sequence_add_dualcast stack seq operation src_view dst1_view dst2_view m =
     (let status = validate_size_consistency [(view_size src_view, view_size dst1_view), (view_size src_view, view_size dst2_view)]
      in if status \<noteq> sc_ok then (status, seq, m)
         else sequence_add seq
           (make_dualcast_task stack (view_data src_view) (view_data dst1_view) (view_data dst2_view) (view_size src_view) (op_options operation) (op_specific_options operation)) m)"

definition sequence_add_compare :: "addr \<Rightarrow> sequence \<Rightarrow> expecting_operation \<Rightarrow> data_view \<Rightarrow> data_view \<Rightarrow> mem
    \<Rightarrow> status_code \<times> sequence \<times> mem" where
  "sequence_add_compare stack seq operation src1_view src2_view m =
     (let status = validate_size_consistency [(view_size src1_view, view_size src2_view)]
      in if status \<noteq> sc_ok then (status, seq, m)
         else sequence_add seq
           (make_compare_task stack (view_data src1_view) (view_data src2_view) (view_size src1_view) (op_options operation) (op_expected operation)) m)"

definition sequence_add_compare_pattern :: "addr \<Rightarrow> sequence \<Rightarrow> expecting_operation \<Rightarrow> u64 \<Rightarrow> data_view \<Rightarrow> mem
    \<Rightarrow> status_code \<times> sequence \<times> mem" where
  "sequence_add_compare_pattern stack seq operation pattern src_view m =
     sequence_add seq (make_compare_pattern_task stack pattern (view_data src_view) (view_size src_view) (op_options operation) (op_expected operation)) m"

definition sequence_add_create_delta :: "addr \<Rightarrow> sequence \<Rightarrow> expecting_operation \<Rightarrow> data_view \<Rightarrow> data_view \<Rightarrow> data_view \<Rightarrow> mem
    \<Rightarrow> status_code \<times> sequence \<times> mem" where
  "sequence_add_create_delta stack seq operation src1_view src2_view delta_view m =
     (let status = validate_size_consistency [(view_size src1_view, view_size src2_view)]
      in if status \<noteq> sc_ok then (status, seq, m)
         else sequence_add seq
           (make_create_delta_task stack (view_data src1_view) (view_data src2_view) (view_size src1_view) (view_data delta_view) (view_size delta_view) (op_options operation) (op_expected operation)) m)"

definition sequence_add_apply_delta :: "addr \<Rightarrow> sequence \<Rightarrow> plain_operation \<Rightarrow> data_view \<Rightarrow> data_view \<Rightarrow> hl_create_delta_result \<Rightarrow> mem
    \<Rightarrow> status_code \<times> sequence \<times> mem" where
  "sequence_add_apply_delta stack seq operation delta_view dst_view delta_result m =
     (let status = (if hl_result delta_result \<noteq> comparison_not_equal then sc_delta_delta_empty else sc_ok)
      in if status \<noteq> sc_ok then (status, seq, m)
         else sequence_add seq
           (make_apply_delta_task stack (view_data delta_view) (hl_delta_record_size delta_result) (view_data dst_view) (view_size dst_view) (op_options operation)) m)"

definition sequence_add_crc :: "addr \<Rightarrow> sequence \<Rightarrow> specific_operation \<Rightarrow> data_view \<Rightarrow> u32 \<Rightarrow> mem
    \<Rightarrow> status_code \<times> sequence \<times> mem" where
  "sequence_add_crc stack seq operation src_view crc_seed m =
     sequence_add seq (make_crc_task stack (view_data src_view) (view_size src_view) crc_seed (op_options operation) (op_specific_options operation)) m"

definition sequence_add_copy_crc :: "addr \<Rightarrow> sequence \<Rightarrow> specific_operation \<Rightarrow> data_view \<Rightarrow> data_view \<Rightarrow> u32 \<Rightarrow> mem
    \<Rightarrow> status_code \<times> sequence \<times> mem" where
  "sequence_add_copy_crc stack seq operation src_view dst_view crc_seed m =
     (let status = validate_size_consistency [(view_size src_view, view_size dst_view)]
      in if status \<noteq> sc_ok then (status, seq, m)
         else sequence_add seq
           (make_copy_crc_task stack (view_data src_view) (view_data dst_view) (view_size src_view) crc_seed (op_options operation) (op_specific_options operation)) m)"

definition sequence_add_cache_flush :: "addr \<Rightarrow> sequence \<Rightarrow> plain_operation \<Rightarrow> data_view \<Rightarrow> mem
    \<Rightarrow> status_code \<times> sequence \<times> mem" where
  "sequence_add_cache_flush stack seq operation dst_view m =
     sequence_add seq (make_cache_flush_task stack (view_data dst_view) (view_size dst_view) (op_options operation)) m"


lemmas sequence_adder_defs =
  sequence_add_nop_def
  sequence_add_mem_move_def
  sequence_add_mem_copy_def
  sequence_add_fill_def
  sequence_add_dualcast_def
  sequence_add_compare_def
  sequence_add_compare_pattern_def
  sequence_add_create_delta_def
  sequence_add_apply_delta_def
  sequence_add_crc_def
  sequence_add_copy_crc_def
  sequence_add_cache_flush_def

section \<open>The slots of a sequence\<close>

text \<open>The two arrays do not overlap; they come from two allocations.\<close>
definition seq_room :: "sequence \<Rightarrow> bool" where
  "seq_room seq \<longleftrightarrow> disjoint_regions (seq_operations seq) (64 * unat (seq_count seq))
     (seq_results seq) (32 * unat (seq_count seq))"

lemma seq_count_bound: "64 * unat (seq_count seq) \<le> 2 ^ 64"
  using unat_u32_less_addr [of "seq_count seq"] unsigned_less [of "seq_count seq", where ?'a = nat] by simp

interpretation seq_slots: task_array "seq_descriptor seq" "seq_record seq"
  "\<lambda>i. seq_room seq \<and> i < unat (seq_count seq)" for seq
proof unfold_locales
  fix i j
  assume i: "seq_room seq \<and> i < unat (seq_count seq)" and j: "seq_room seq \<and> j < unat (seq_count seq)"
  note bound = seq_count_bound [of seq]
  show "disjoint_regions (seq_descriptor seq i) 64 (seq_record seq j) 32"
    unfolding disjoint_regions_def
  proof (intro allI notI, elim conjE)
    fix x assume "in_region x (seq_descriptor seq i) 64" "in_region x (seq_record seq j) 32"
    then have "in_region x (seq_operations seq) (64 * unat (seq_count seq))"
      "in_region x (seq_results seq) (32 * unat (seq_count seq))"
      unfolding seq_descriptor_def seq_record_def
      using i j bound by (elim in_region_part; simp)+
    then show False using i by (auto simp: seq_room_def disjoint_regions_def)
  qed
  assume "i \<noteq> j"
  then have "i < j \<or> j < i" by linarith
  then show "disjoint_regions (seq_descriptor seq i) 64 (seq_descriptor seq j) 64"
    and "disjoint_regions (seq_record seq i) 32 (seq_record seq j) 32"
    unfolding seq_descriptor_def seq_record_def
    using i j bound by (intro disjoint_parts; auto)+
qed

section \<open>Adding an operation\<close>

text \<open>What a call that adds the operation described by \<open>d\<close> may do.\<close>
definition adds :: "sequence \<Rightarrow> descriptor \<Rightarrow> mem \<Rightarrow> status_code \<times> sequence \<times> mem \<Rightarrow> bool" where
  "adds seq d m r \<longleftrightarrow> wf_descriptor d \<and>
     ((\<exists>stack. r = sequence_add seq (new_task stack d) m) \<or> fst r \<noteq> sc_ok \<and> snd r = (seq, m))"

lemma sequence_adders:
  "adds seq (make_nop_descriptor (op_options op)) m (sequence_add_nop stack seq op m)"
  "adds seq (make_mem_move_descriptor (view_data src) (view_data dst) (view_size src) (op_options op)) m
    (sequence_add_mem_move stack seq op src dst m)"
  "adds seq (make_mem_move_descriptor (view_data src) (view_data dst) (view_size src) (op_options op)) m
    (sequence_add_mem_copy stack seq op src dst m)"
  "adds seq (make_fill_descriptor pattern (view_data dst) (view_size dst) (op_options op)) m
    (sequence_add_fill stack seq op pattern dst m)"
  "adds seq (make_cache_flush_descriptor (view_data dst) (view_size dst) (op_options op)) m
    (sequence_add_cache_flush stack seq op dst m)"
  "adds seq (make_apply_delta_descriptor (view_data delta) (hl_delta_record_size res) (view_data dst)
      (view_size dst) (op_options op)) m (sequence_add_apply_delta stack seq op delta dst res m)"
  by (auto simp: adds_def sequence_adder_defs make_task_defs Let_def)

lemma sequence_specific_adders:
  "adds seq (make_dualcast_descriptor (view_data src) (view_data dst1) (view_data dst2) (view_size src)
      (op_options op) (op_specific_options op)) m (sequence_add_dualcast stack seq op src dst1 dst2 m)"
  "adds seq (make_crc_descriptor (view_data src) (view_size src) seed (op_options op) (op_specific_options op)) m
    (sequence_add_crc stack seq op src seed m)"
  "adds seq (make_copy_crc_descriptor (view_data src) (view_data dst) (view_size src) seed (op_options op)
      (op_specific_options op)) m (sequence_add_copy_crc stack seq op src dst seed m)"
  by (auto simp: adds_def sequence_adder_defs make_task_defs Let_def)

lemma sequence_expecting_adders:
  "adds seq (make_compare_descriptor (view_data src1) (view_data src2) (view_size src1) (op_options op)
      (op_expected op)) m (sequence_add_compare stack seq op src1 src2 m)"
  "adds seq (make_compare_pattern_descriptor pattern (view_data src) (view_size src) (op_options op)
      (op_expected op)) m (sequence_add_compare_pattern stack seq op pattern src m)"
  "adds seq (make_create_delta_descriptor (view_data src1) (view_data src2) (view_size src1) (view_data delta)
      (view_size delta) (op_options op) (op_expected op)) m
    (sequence_add_create_delta stack seq op src1 src2 delta m)"
  by (auto simp: adds_def sequence_adder_defs make_task_defs Let_def)

lemma sequence_add_cases:
  assumes "wf_descriptor d" "seq_room seq" "seq_current_length seq \<le> seq_count seq"
    and r: "sequence_add seq (new_task stack d) m = (status, seq', m')"
    and i: "i = unat (seq_current_length seq)"
  obtains (full) "i = unat (seq_count seq)" "status = sc_batch_overflow" "seq' = seq" "m' = m"
  | (invalid) "i < unat (seq_count seq)" "status = hl_validation_status (validate d)" "status \<noteq> sc_ok" "seq' = seq"
      "\<And>x. \<not> in_region x (seq_descriptor seq i) 64 \<Longrightarrow> \<not> in_region x (seq_record seq i) 32 \<Longrightarrow> m' x = m x"
  | (added) "i < unat (seq_count seq)" "status = sc_ok" "validate d = val_success"
      "seq' = seq\<lparr> seq_current_length := seq_current_length seq + 1 \<rparr>"
      "load_bytes m' (seq_descriptor seq i) 64 = rebind d (seq_record seq i)"
      "record_at m' (seq_record seq i) = new_completion_record"
      "\<And>x. \<not> in_region x (seq_descriptor seq i) 64 \<Longrightarrow> \<not> in_region x (seq_record seq i) 32 \<Longrightarrow> m' x = m x"
proof (cases "seq_current_length seq = seq_count seq")
  case True
  then show ?thesis using r i by (intro full) (simp_all add: sequence_add_def)
next
  case False
  then have "seq_current_length seq < seq_count seq" using assms(3) by simp
  then have lt: "i < unat (seq_count seq)" by (simp add: i word_less_nat_alt)
  let ?t = "new_task stack d" and ?d = "seq_descriptor seq i" and ?r = "seq_record seq i"
  have slot: "task_slot ?d ?r" using seq_slots.slot assms(2) lt by blast
  have wf: "wf_task ?t" using assms(1) by simp
  have load: "load_bytes (assign_view ?d ?r ?t m) ?d 64 = rebind d ?r"
    using task_slot.assign_descriptor [OF slot wf, of m] task_descriptor_rebind [OF assms(1)] by simp
  have val: "automatic_validate (rebind d ?r) = validate d"
    using validate_rebind [OF assms(1)] by (simp add: automatic_validate_def software_validate_def)
  have eq: "(status, seq', m') =
      (if validate d \<noteq> val_success then (hl_validation_status (validate d), seq, assign_view ?d ?r ?t m)
       else (sc_ok, seq\<lparr> seq_current_length := seq_current_length seq + 1 \<rparr>, assign_view ?d ?r ?t m))"
    using r False unfolding sequence_add_def Let_def i [symmetric] load val by simp
  have frame: "assign_view ?d ?r ?t m x = m x" if "\<not> in_region x ?d 64" "\<not> in_region x ?r 32" for x
    using task_slot.assign_elsewhere [OF slot wf that] .
  show ?thesis
  proof (cases "validate d = val_success")
    case True
    then show ?thesis
      using eq lt load frame task_slot.assign_record [OF slot wf, of m] by (intro added) simp_all
  next
    case False
    then show ?thesis using eq lt frame by (intro invalid) simp_all
  qed
qed

section \<open>Sequences that calls build\<close>

text \<open>
  The sequences a program reaches: constructed, then any calls that add an operation, whatever
  they return, and between them writes of anyone else outside the two arrays. The list has the
  descriptors of the operations whose addition succeeded.
\<close>
inductive seq_built :: "descriptor list \<Rightarrow> sequence \<Rightarrow> mem \<Rightarrow> bool" where
  construct: "make_sequence count ops res m0 = (seq, m) \<Longrightarrow> seq_built [] seq m"
| add: "seq_built ds seq m \<Longrightarrow> adds seq d m (status, seq', m') \<Longrightarrow>
    seq_built (if status = sc_ok then ds @ [d] else ds) seq' m'"
| other: "seq_built ds seq m \<Longrightarrow>
    (\<And>i. i < unat (seq_count seq) \<Longrightarrow> load_bytes m' (seq_descriptor seq i) 64 = load_bytes m (seq_descriptor seq i) 64
      \<and> record_at m' (seq_record seq i) = record_at m (seq_record seq i)) \<Longrightarrow>
    seq_built ds seq m'"

text \<open>The invariant: the used slots hold the added descriptors, each valid and with a zero record.\<close>
definition seq_inv :: "descriptor list \<Rightarrow> sequence \<Rightarrow> mem \<Rightarrow> bool" where
  "seq_inv ds seq m \<longleftrightarrow> length ds = unat (seq_current_length seq) \<and> length ds \<le> unat (seq_count seq)
     \<and> (\<forall>i<length ds. validate (ds ! i) = val_success
          \<and> load_bytes m (seq_descriptor seq i) 64 = rebind (ds ! i) (seq_record seq i)
          \<and> record_at m (seq_record seq i) = new_completion_record)"

text \<open>Slots after the one written keep their contents.\<close>
lemma seq_inv_frame:
  assumes "seq_inv ds seq m" "seq_room seq" "k = length ds" "k < unat (seq_count seq)"
    and "\<And>x. \<not> in_region x (seq_descriptor seq k) 64 \<Longrightarrow> \<not> in_region x (seq_record seq k) 32 \<Longrightarrow> m' x = m x"
  shows "seq_inv ds seq m'"
proof -
  have "load_bytes m' (seq_descriptor seq i) 64 = load_bytes m (seq_descriptor seq i) 64
      \<and> record_at m' (seq_record seq i) = record_at m (seq_record seq i)" if "i < length ds" for i
    using seq_slots.others_kept [of seq i k m' m] assms(2-5) that by simp
  with assms(1) show ?thesis by (simp add: seq_inv_def)
qed

lemma seq_inv_add:
  assumes inv: "seq_inv ds seq m" and room: "seq_room seq" and "wf_descriptor d"
    and r: "sequence_add seq (new_task stack d) m = (status, seq', m')"
  shows "seq_inv (if status = sc_ok then ds @ [d] else ds) seq' m'"
proof -
  have len: "length ds = unat (seq_current_length seq)" "seq_current_length seq \<le> seq_count seq"
    using inv by (simp_all add: seq_inv_def word_le_nat_alt)
  note cases = sequence_add_cases [OF assms(3) room len(2) r len(1)]
  show ?thesis
  proof (rule cases)
    assume "length ds = unat (seq_count seq)" "status = sc_batch_overflow" "seq' = seq" "m' = m"
    with inv show ?thesis by simp
  next
    assume lt: "length ds < unat (seq_count seq)" and "status \<noteq> sc_ok" "seq' = seq"
      and frame: "\<And>x. \<not> in_region x (seq_descriptor seq (length ds)) 64 \<Longrightarrow>
        \<not> in_region x (seq_record seq (length ds)) 32 \<Longrightarrow> m' x = m x"
    then show ?thesis using seq_inv_frame [OF inv room refl lt frame] by simp
  next
    assume lt: "length ds < unat (seq_count seq)" and st: "status = sc_ok" "validate d = val_success"
      "seq' = seq\<lparr> seq_current_length := seq_current_length seq + 1 \<rparr>"
      and slot: "load_bytes m' (seq_descriptor seq (length ds)) 64 = rebind d (seq_record seq (length ds))"
        "record_at m' (seq_record seq (length ds)) = new_completion_record"
      and frame: "\<And>x. \<not> in_region x (seq_descriptor seq (length ds)) 64 \<Longrightarrow>
        \<not> in_region x (seq_record seq (length ds)) 32 \<Longrightarrow> m' x = m x"
    have "unat (seq_current_length seq + 1) = length ds + 1"
      using lt len(1) unsigned_less [of "seq_count seq", where ?'a = nat]
      by (subst unat_add_lem [THEN iffD1]) simp_all
    moreover have "seq_inv ds seq m'" using seq_inv_frame [OF inv room refl lt frame] .
    ultimately show ?thesis
      using st slot lt by (simp add: seq_inv_def nth_append less_Suc_eq seq_descriptor_def seq_record_def)
  qed
qed

lemma seq_room_add:
  "adds seq d m (status, seq', m') \<Longrightarrow> seq_room seq' = seq_room seq"
  by (auto simp: adds_def sequence_add_def seq_room_def Let_def split: if_splits)

lemma seq_built_inv: "seq_built ds seq m \<Longrightarrow> seq_room seq \<Longrightarrow> seq_inv ds seq m"
proof (induction rule: seq_built.induct)
  case (construct count ops res m0 seq m)
  then show ?case by (auto simp: make_sequence_def seq_inv_def Let_def)
next
  case (add ds seq m d status seq' m')
  then have inv: "seq_inv ds seq m" and room: "seq_room seq" using seq_room_add by simp_all
  consider stack where "wf_descriptor d" "sequence_add seq (new_task stack d) m = (status, seq', m')"
    | "status \<noteq> sc_ok" "seq' = seq" "m' = m"
    using add.hyps(2) by (auto simp: adds_def)
  then show ?case by cases (use seq_inv_add [OF inv room] inv in simp_all)
next
  case (other ds seq m m')
  then show ?case by (simp add: seq_inv_def)
qed

text \<open>
  Claim C20: whatever calls built a sequence, and whatever they returned, its length is the number
  of operations added with success and never exceeds its capacity, and the batch descriptor made
  from it names exactly those operations in order: each is valid and connected with a zero record
  of its own. A call that failed leaves no trace in the batch.
\<close>
theorem sequence_invariant:
  assumes "seq_built ds seq m" "seq_room seq"
    and "b = make_batch_descriptor (sequence_data seq) (sequence_length seq) options"
  shows "unat (batch_dsc_descriptors_count b) = length ds \<and> length ds \<le> unat (seq_count seq)
    \<and> (\<forall>i<length ds. validate (ds ! i) = val_success
        \<and> batch_item (batch_dsc_descriptor_list_address b) i (m, ev) = rebind (ds ! i) (seq_record seq i)
        \<and> record_at m (seq_record seq i) = new_completion_record)"
  using seq_built_inv [OF assms(1,2)] assms(3)
  by (simp add: seq_inv_def batch_item_def seq_descriptor_def sequence_data_def sequence_length_def)

text \<open>
  Adding an operation to a sequence that calls built fails with \<open>batch_overflow\<close> exactly
  when the sequence is full, with the status of the validation when the operation is not valid,
  and succeeds otherwise; the length grows by one exactly on success.
\<close>
lemma sequence_add_status:
  assumes "seq_built ds seq m" "seq_room seq" "wf_descriptor d"
    and "sequence_add seq (new_task stack d) m = (status, seq', m')"
  shows "status = (if length ds = unat (seq_count seq) then sc_batch_overflow else hl_validation_status (validate d))
    \<and> unat (sequence_length seq') = length ds + (if status = sc_ok then 1 else 0)"
proof -
  note inv = seq_built_inv [OF assms(1,2)]
  have len: "length ds = unat (seq_current_length seq)" "seq_current_length seq \<le> seq_count seq"
    using inv by (simp_all add: seq_inv_def word_le_nat_alt)
  have "unat (sequence_length seq') = length (if status = sc_ok then ds @ [d] else ds)"
    using seq_inv_add [OF inv assms(2-4)] by (simp add: seq_inv_def sequence_length_def)
  moreover have "status = (if length ds = unat (seq_count seq) then sc_batch_overflow
      else hl_validation_status (validate d))"
    by (rule sequence_add_cases [OF assms(3,2) len(2) assms(4) len(1)]) simp_all
  ultimately show ?thesis by simp
qed

section \<open>Example runs\<close>

definition sample_sequence :: sequence where
  "sample_sequence = fst (make_sequence 1 0x1010 0x3000 (\<lambda>_. 0))"

definition sample_sequence_mem :: mem where
  "sample_sequence_mem = snd (make_sequence 1 0x1010 0x3000 (\<lambda>_. 0))"

lemma sample_sequence_fields:
  "sample_sequence = \<lparr> seq_operations = 0x1040, seq_results = 0x3000, seq_count = 1, seq_current_length = 0 \<rparr>"
  by (simp add: sample_sequence_def make_sequence_def aligned_data_def Let_def)

lemma sample_sequence_built: "seq_built [] sample_sequence sample_sequence_mem"
  by (rule seq_built.construct [of 1 "0x1010" "0x3000" "\<lambda>_. 0"])
    (simp add: sample_sequence_def sample_sequence_mem_def)

lemma sample_sequence_room: "seq_room sample_sequence"
  by (simp add: seq_room_def sample_sequence_fields disjoint_no_wrap)

lemma sample_add:
  "\<exists>m. sequence_add sample_sequence (new_task 0x7000 (make_nop_descriptor 0)) sample_sequence_mem
     = (sc_ok, sample_sequence\<lparr> seq_current_length := 1 \<rparr>, m)"
proof -
  obtain status seq' m' where r: "sequence_add sample_sequence (new_task 0x7000 (make_nop_descriptor 0))
      sample_sequence_mem = (status, seq', m')" by (rule prod_cases3)
  show ?thesis
    by (rule sequence_add_cases [OF _ sample_sequence_room _ r refl])
      (use r in \<open>simp_all add: sample_sequence_fields validate_nop_descriptor\<close>)
qed

theorem sequence_invariant_witness:
  "\<exists>m. sequence_add sample_sequence (new_task 0x7000 (make_nop_descriptor 0)) sample_sequence_mem
     = (sc_ok, sample_sequence\<lparr> seq_current_length := 1 \<rparr>, m)
   \<and> batch_item 0x1040 0 (m, []) = rebind (make_nop_descriptor 0) 0x3000"
proof -
  obtain m where r: "sequence_add sample_sequence (new_task 0x7000 (make_nop_descriptor 0)) sample_sequence_mem
      = (sc_ok, sample_sequence\<lparr> seq_current_length := 1 \<rparr>, m)" using sample_add by blast
  have a: "adds sample_sequence (make_nop_descriptor 0) sample_sequence_mem
      (sc_ok, sample_sequence\<lparr> seq_current_length := 1 \<rparr>, m)"
    unfolding adds_def r [symmetric] by simp blast
  have "seq_built [make_nop_descriptor 0] (sample_sequence\<lparr> seq_current_length := 1 \<rparr>) m"
    using seq_built.add [OF sample_sequence_built a] by simp
  moreover have "seq_room (sample_sequence\<lparr> seq_current_length := 1 \<rparr>)"
    using sample_sequence_room by (simp add: seq_room_def)
  ultimately show ?thesis
    using r sequence_invariant [of "[make_nop_descriptor 0]" "sample_sequence\<lparr> seq_current_length := 1 \<rparr>" m _ 0 "[]", OF _ _ refl]
    by (simp add: sample_sequence_fields sequence_data_def seq_record_def)
qed

end
