(* ===== verification/DML_HL_Ownership.thy ===== *)
theory DML_HL_Ownership
  imports DML_HL_Sequence "HOL-Library.Multiset"
begin

text \<open>
  Who owns the memory behind the objects of the C++ interface (\<open>ml/buffer.hpp\<close>, \<open>ml/task.hpp\<close>,
  \<open>hl/detail/buffer.hpp\<close>, \<open>hl/handler.hpp\<close>, \<open>hl/sequence.hpp\<close>): constructors that may throw, moves
  and destructors, over a heap that records the blocks in use. Releasing a block that is not in
  use, or with another size or allocator than it was obtained with, is undefined behaviour and a
  value of the model. The locale \<open>owner\<close> is the contract of a movable object that owns memory.
\<close>

section \<open>The heap\<close>

text \<open>A block in use: its address, its size in bytes, and the allocator it came from.\<close>
record 'a block =
  blk_start :: addr
  blk_size :: nat
  blk_allocator :: 'a

type_synonym 'a heap = "mem \<times> 'a block multiset"

text \<open>
  \<open>allocate\<close> of an allocator instance, for a number of bytes, given the blocks in use; \<open>None\<close> when
  it throws.
\<close>
type_synonym 'a allocate = "'a \<Rightarrow> nat \<Rightarrow> 'a block multiset \<Rightarrow> addr option"

text \<open>
  What the requirements on allocators promise: the block is not null, does not wrap around and
  does not overlap a block in use.
\<close>
definition lawful_allocate :: "'a allocate \<Rightarrow> bool" where
  "lawful_allocate allocate \<longleftrightarrow> (\<forall>al n L p. allocate al n L = Some p \<longrightarrow>
     p \<noteq> 0 \<and> unat p + n < 2 ^ 64 \<and> (\<forall>b \<in># L. disjoint_regions p n (blk_start b) (blk_size b)))"

text \<open>How a constructor ends: with an object, with an exception, or undefined.\<close>
datatype ('x, 's) outcome = Returns 'x 's | Throws 's | Undefined

text \<open>\<open>deallocate(allocator, p, n)\<close>; \<open>None\<close> when it is undefined.\<close>
definition deallocate :: "'a \<Rightarrow> addr \<Rightarrow> nat \<Rightarrow> 'a heap \<Rightarrow> 'a heap option" where
  "deallocate al p n h =
     (let b = \<lparr> blk_start = p, blk_size = n, blk_allocator = al \<rparr>
      in if b \<in># snd h then Some (fst h, snd h - {#b#}) else None)"

text \<open>\<open>std::swap\<close>: a temporary and two assignments; the temporary is destroyed at the end.\<close>
definition std_swap :: "('o \<Rightarrow> 'o \<times> 'o) \<Rightarrow> (bool \<Rightarrow> 'o \<Rightarrow> 'o \<Rightarrow> 'o \<times> 'o) \<Rightarrow> ('o \<Rightarrow> 'a heap \<Rightarrow> 'a heap option)
    \<Rightarrow> 'o \<Rightarrow> 'o \<Rightarrow> 'a heap \<Rightarrow> (('o \<times> 'o) \<times> 'a heap) option" where
  "std_swap move_construct move_assign destroy x y h =
     (let (tmp, x1) = move_construct x;
          (x2, y1) = move_assign False x1 y;
          (y2, tmp') = move_assign False y1 tmp
      in case destroy tmp' h of None \<Rightarrow> None | Some h' \<Rightarrow> Some ((x2, y2), h'))"

section \<open>The buffer of a task (\<open>ml/buffer.hpp\<close>)\<close>

text \<open>
  The element is a descriptor of 64 bytes and a record of 32, padded to the alignment. The number
  of elements that is allocated is the number of bytes that would be enough.
\<close>
definition buffer_memory_size :: nat where "buffer_memory_size = 128"
definition buffer_memory_alignment :: nat where "buffer_memory_alignment = 64"
definition buffer_allocate_size :: nat where
  "buffer_allocate_size = buffer_memory_size + buffer_memory_alignment"

text \<open>Bytes that \<open>allocate\<close> reserves for that many elements.\<close>
definition buffer_bytes :: nat where
  "buffer_bytes = buffer_allocate_size * buffer_memory_size"

record 'a buffer =
  allocated_memory :: addr
  aligned_memory :: addr
  buf_allocator :: 'a

definition new_buffer :: "'a allocate \<Rightarrow> 'a \<Rightarrow> 'a heap \<Rightarrow> ('a buffer, 'a heap) outcome" where
  "new_buffer allocate al h =
     (case allocate al buffer_bytes (snd h) of
        None \<Rightarrow> Throws h
      | Some p \<Rightarrow>
          let a = task_memory p
          in Returns \<lparr> allocated_memory = p, aligned_memory = a, buf_allocator = al \<rparr>
               (place_task a \<lparr> task_descriptor = replicate 64 0, task_record = new_completion_record \<rparr> (fst h),
                add_mset \<lparr> blk_start = p, blk_size = buffer_bytes, blk_allocator = al \<rparr> (snd h)))"

text \<open>The new buffer, and what is left of the other; moving an allocator leaves its value.\<close>
definition buffer_move_construct :: "'a buffer \<Rightarrow> 'a buffer \<times> 'a buffer" where
  "buffer_move_construct other = (other, other\<lparr> allocated_memory := 0, aligned_memory := 0 \<rparr>)"

text \<open>The first argument tells whether both are the same object.\<close>
definition buffer_move_assign :: "bool \<Rightarrow> 'a buffer \<Rightarrow> 'a buffer \<Rightarrow> 'a buffer \<times> 'a buffer" where
  "buffer_move_assign same this other =
     (if \<not> same
      then (\<lparr> allocated_memory = allocated_memory other, aligned_memory = aligned_memory other,
              buf_allocator = buf_allocator other \<rparr>,
            \<lparr> allocated_memory = allocated_memory this, aligned_memory = aligned_memory this,
              buf_allocator = buf_allocator this \<rparr>)
      else (this, other))"

definition destroy_buffer :: "'a buffer \<Rightarrow> 'a heap \<Rightarrow> 'a heap option" where
  "destroy_buffer b h =
     (if allocated_memory b \<noteq> 0 then deallocate (buf_allocator b) (allocated_memory b) buffer_bytes h
      else Some h)"

section \<open>Arrays (\<open>hl/detail/buffer.hpp\<close>)\<close>

text \<open>
  \<open>sz\<close> is the size of an element and its alignment: 64 for descriptors, 32 for records. Here too a
  number of bytes is allocated as a number of elements.
\<close>
record 'a buffer_array =
  array_count :: u32
  array_data :: addr
  array_aligned :: addr
  array_allocator :: 'a

definition array_bytes :: "nat \<Rightarrow> u32 \<Rightarrow> nat" where
  "array_bytes sz elems = (unat elems * sz + sz) * sz"

text \<open>The loop that constructs the elements; each starts as zero bytes.\<close>
primrec construct_elements :: "nat \<Rightarrow> addr \<Rightarrow> nat \<Rightarrow> mem \<Rightarrow> mem" where
  "construct_elements sz aligned 0 m = m"
| "construct_elements sz aligned (Suc i) m =
     store_bytes (construct_elements sz aligned i m) (aligned + word_of_nat (sz * i)) (replicate sz 0)"

definition new_buffer_array :: "nat \<Rightarrow> 'a allocate \<Rightarrow> u32 \<Rightarrow> 'a \<Rightarrow> 'a heap \<Rightarrow> ('a buffer_array, 'a heap) outcome" where
  "new_buffer_array sz allocate elems al h =
     (case allocate al (array_bytes sz elems) (snd h) of
        None \<Rightarrow> Throws h
      | Some p \<Rightarrow>
          let aligned = aligned_data (word_of_nat sz) p
          in Returns \<lparr> array_count = elems, array_data = p, array_aligned = aligned, array_allocator = al \<rparr>
               (construct_elements sz aligned (unat elems) (fst h),
                add_mset \<lparr> blk_start = p, blk_size = array_bytes sz elems, blk_allocator = al \<rparr> (snd h)))"

definition array_move_construct :: "'a buffer_array \<Rightarrow> 'a buffer_array \<times> 'a buffer_array" where
  "array_move_construct other =
     (other, other\<lparr> array_count := 0, array_data := 0, array_aligned := 0 \<rparr>)"

definition array_move_assign :: "bool \<Rightarrow> 'a buffer_array \<Rightarrow> 'a buffer_array \<Rightarrow> 'a buffer_array \<times> 'a buffer_array" where
  "array_move_assign same this other =
     (if \<not> same
      then (\<lparr> array_count = array_count other, array_data = array_data other,
              array_aligned = array_aligned other, array_allocator = array_allocator other \<rparr>,
            \<lparr> array_count = array_count this, array_data = array_data this,
              array_aligned = array_aligned this, array_allocator = array_allocator this \<rparr>)
      else (this, other))"

text \<open>Destroying an element does nothing.\<close>
definition destroy_array :: "nat \<Rightarrow> 'a buffer_array \<Rightarrow> 'a heap \<Rightarrow> 'a heap option" where
  "destroy_array sz b h =
     (if array_data b \<noteq> 0 then deallocate (array_allocator b) (array_data b) (array_bytes sz (array_count b)) h
      else Some h)"

section \<open>Tasks on the heap (\<open>ml/task.hpp\<close>)\<close>

text \<open>
  A task is its buffer; \<open>task(dsc, allocator)\<close> writes the descriptor and connects it with the
  record. Moves and destruction are those of the buffer, and the record stays where it is.
\<close>
definition new_heap_task :: "'a allocate \<Rightarrow> 'a \<Rightarrow> (addr \<Rightarrow> task) \<Rightarrow> 'a heap \<Rightarrow> ('a buffer, 'a heap) outcome" where
  "new_heap_task allocate al mk_task h =
     (case new_buffer allocate al h of
        Returns b h' \<Rightarrow>
          Returns b (store_bytes (fst h') (aligned_memory b) (task_descriptor (mk_task (aligned_memory b))), snd h')
      | r \<Rightarrow> r)"

section \<open>Handlers (\<open>hl/handler.hpp\<close>)\<close>

record 'a handler_object =
  ho_task :: "'a buffer"
  ho_status :: status_code
  ho_path :: execution_path

text \<open>What the operations on a handler see of it.\<close>
definition handler_of :: "'a handler_object \<Rightarrow> handler" where
  "handler_of h = \<lparr> handler_task = aligned_memory (ho_task h), handler_status = ho_status h, handler_path = ho_path h \<rparr>"

text \<open>\<open>handler()\<close>: even an empty handler allocates.\<close>
definition new_handler :: "'a allocate \<Rightarrow> 'a \<Rightarrow> 'a heap \<Rightarrow> ('a handler_object, 'a heap) outcome" where
  "new_handler allocate al h =
     (case new_buffer allocate al h of
        Returns b h' \<Rightarrow> Returns \<lparr> ho_task = b, ho_status = sc_error, ho_path = software \<rparr> h'
      | Throws h' \<Rightarrow> Throws h' | Undefined \<Rightarrow> Undefined)"

text \<open>\<open>handler(task&&)\<close>: the handler, and what is left of the task.\<close>
definition handler_from_task :: "'a buffer \<Rightarrow> 'a handler_object \<times> 'a buffer" where
  "handler_from_task some_task =
     (let (t, rest) = buffer_move_construct some_task
      in (\<lparr> ho_task = t, ho_status = sc_ok, ho_path = software \<rparr>, rest))"

definition handler_move_construct :: "'a handler_object \<Rightarrow> 'a handler_object \<times> 'a handler_object" where
  "handler_move_construct other =
     (let (t, rest) = buffer_move_construct (ho_task other)
      in (\<lparr> ho_task = t, ho_status = ho_status other, ho_path = ho_path other \<rparr>,
          other\<lparr> ho_task := rest, ho_status := sc_error \<rparr>))"

text \<open>The task is exchanged by \<open>std::swap\<close>, so by moves of tasks.\<close>
definition handler_move_assign :: "bool \<Rightarrow> 'a handler_object \<Rightarrow> 'a handler_object \<Rightarrow> 'a heap
    \<Rightarrow> (('a handler_object \<times> 'a handler_object) \<times> 'a heap) option" where
  "handler_move_assign same this other h =
     (if \<not> same
      then (case std_swap buffer_move_construct buffer_move_assign destroy_buffer (ho_task this) (ho_task other) h of
              None \<Rightarrow> None
            | Some ((t, t'), h') \<Rightarrow>
                Some ((\<lparr> ho_task = t, ho_status = ho_status other, ho_path = ho_path other \<rparr>,
                       \<lparr> ho_task = t', ho_status = ho_status this, ho_path = ho_path this \<rparr>), h'))
      else Some ((this, other), h))"

definition destroy_handler :: "'a handler_object \<Rightarrow> 'a heap \<Rightarrow> 'a heap option" where
  "destroy_handler h = destroy_buffer (ho_task h)"

text \<open>
  \<open>detail::submit\<close> with its allocation: the task is moved into the handler and what is left of it
  is destroyed.
\<close>
definition submit_operation :: "'h platform \<Rightarrow> execution_path \<Rightarrow> u32 \<Rightarrow> 'a allocate \<Rightarrow> 'a \<Rightarrow> (addr \<Rightarrow> task)
    \<Rightarrow> status_code \<Rightarrow> 'h sys \<times> 'a block multiset \<Rightarrow> ('a handler_object, 'h sys \<times> 'a block multiset) outcome" where
  "submit_operation pf path numa_id allocate al mk_task range_status s =
     (let ((S, m, ev), L) = s
      in case new_heap_task allocate al mk_task (m, L) of
           Throws (m', L') \<Rightarrow> Throws ((S, m', ev), L')
         | Undefined \<Rightarrow> Undefined
         | Returns t h1 \<Rightarrow>
             let (op_handler, rest) = handler_from_task t
             in case destroy_buffer rest h1 of
                  None \<Rightarrow> Undefined
                | Some (m2, L2) \<Rightarrow>
                    if range_status \<noteq> sc_ok
                    then Returns (op_handler\<lparr> ho_status := range_status \<rparr>) ((S, m2, ev), L2)
                    else
                      let (val, sub, sys') = ml_submit pf path (aligned_memory (ho_task op_handler)) numa_id (S, m2, ev)
                      in if val \<noteq> val_success
                         then Returns (op_handler\<lparr> ho_status := hl_validation_status val \<rparr>) (sys', L2)
                         else if sub \<noteq> sub_success
                         then Returns (op_handler\<lparr> ho_status := hl_submission_status sub \<rparr>) (sys', L2)
                         else Returns (op_handler\<lparr> ho_path := path \<rparr>) (sys', L2))"

section \<open>Sequences (\<open>hl/sequence.hpp\<close>)\<close>

record 'a sequence_object =
  so_operations :: "'a buffer_array"
  so_results :: "'a buffer_array"
  so_current_length :: u32

definition sequence_of :: "'a sequence_object \<Rightarrow> sequence" where
  "sequence_of s = \<lparr> seq_operations = array_aligned (so_operations s), seq_results = array_aligned (so_results s),
     seq_count = array_count (so_operations s), seq_current_length = so_current_length s \<rparr>"

text \<open>When the second array cannot be allocated, the first one is destroyed again.\<close>
definition new_sequence :: "'a allocate \<Rightarrow> u32 \<Rightarrow> 'a \<Rightarrow> 'a heap \<Rightarrow> ('a sequence_object, 'a heap) outcome" where
  "new_sequence allocate len al h =
     (case new_buffer_array 64 allocate len al h of
        Throws h' \<Rightarrow> Throws h' | Undefined \<Rightarrow> Undefined
      | Returns ops h1 \<Rightarrow>
          (case new_buffer_array 32 allocate len al h1 of
             Returns res h2 \<Rightarrow> Returns \<lparr> so_operations = ops, so_results = res, so_current_length = 0 \<rparr> h2
           | Throws h2 \<Rightarrow> (case destroy_array 64 ops h2 of None \<Rightarrow> Undefined | Some h3 \<Rightarrow> Throws h3)
           | Undefined \<Rightarrow> Undefined))"

text \<open>
  Moves are the ones the language generates: the arrays are moved and the length is copied.
\<close>
definition sequence_move_construct :: "'a sequence_object \<Rightarrow> 'a sequence_object \<times> 'a sequence_object" where
  "sequence_move_construct other =
     (let (ops, ops') = array_move_construct (so_operations other);
          (res, res') = array_move_construct (so_results other)
      in (\<lparr> so_operations = ops, so_results = res, so_current_length = so_current_length other \<rparr>,
          other\<lparr> so_operations := ops', so_results := res' \<rparr>))"

definition sequence_move_assign :: "bool \<Rightarrow> 'a sequence_object \<Rightarrow> 'a sequence_object
    \<Rightarrow> 'a sequence_object \<times> 'a sequence_object" where
  "sequence_move_assign same this other =
     (let (ops, ops') = array_move_assign same (so_operations this) (so_operations other);
          (res, res') = array_move_assign same (so_results this) (so_results other)
      in (\<lparr> so_operations = ops, so_results = res, so_current_length = so_current_length other \<rparr>,
          other\<lparr> so_operations := ops', so_results := res' \<rparr>))"

text \<open>Members are destroyed in the reverse order of their declaration.\<close>
definition destroy_sequence :: "'a sequence_object \<Rightarrow> 'a heap \<Rightarrow> 'a heap option" where
  "destroy_sequence s h =
     (case destroy_array 32 (so_results s) h of
        None \<Rightarrow> None | Some h' \<Rightarrow> destroy_array 64 (so_operations s) h')"

section \<open>The contract of an object that owns memory\<close>

text \<open>
  \<open>owned\<close> are the blocks the object will release. A move hands them over, and destroying the
  object releases exactly them.
\<close>
locale owner =
  fixes owned :: "'o \<Rightarrow> 'a block multiset"
    and move_construct :: "'o \<Rightarrow> 'o \<times> 'o"
    and move_assign :: "bool \<Rightarrow> 'o \<Rightarrow> 'o \<Rightarrow> 'a heap \<Rightarrow> (('o \<times> 'o) \<times> 'a heap) option"
    and destroy :: "'o \<Rightarrow> 'a heap \<Rightarrow> 'a heap option"
  assumes construct_moves: "move_construct x = (new, x') \<Longrightarrow> owned new = owned x \<and> owned x' = {#}"
    and assign_moves: "\<exists>x' y'. move_assign False x y h = Some ((x', y'), h) \<and> owned x' = owned y \<and> owned y' = owned x"
    and destroy_releases: "owned x \<subseteq># L \<Longrightarrow> destroy x (m, L) = Some (m, L - owned x)"
begin

lemma destroy_empty: "owned x = {#} \<Longrightarrow> destroy x h = Some h"
  using destroy_releases [of x "snd h" "fst h"] by simp

end

text \<open>Objects whose assignment needs no heap.\<close>
locale plain_owner =
  fixes owned :: "'o \<Rightarrow> 'a block multiset"
    and move_construct :: "'o \<Rightarrow> 'o \<times> 'o"
    and move_assign :: "bool \<Rightarrow> 'o \<Rightarrow> 'o \<Rightarrow> 'o \<times> 'o"
    and destroy :: "'o \<Rightarrow> 'a heap \<Rightarrow> 'a heap option"
  assumes plain_construct: "move_construct x = (new, x') \<Longrightarrow> new = x \<and> owned x' = {#}"
    and plain_assign: "\<not> same \<Longrightarrow> owned (fst (move_assign same x y)) = owned y \<and> owned (snd (move_assign same x y)) = owned x"
    and plain_destroy: "owned x \<subseteq># L \<Longrightarrow> destroy x (m, L) = Some (m, L - owned x)"

sublocale plain_owner \<subseteq> owner owned move_construct "\<lambda>same x y h. Some (move_assign same x y, h)" destroy
proof
  fix x y h
  show "\<exists>x' y'. Some (move_assign False x y, h) = Some ((x', y'), h) \<and> owned x' = owned y \<and> owned y' = owned x"
    using plain_assign [of False x y] by (cases "move_assign False x y") simp
qed (use plain_construct plain_destroy in auto)

text \<open>Assignments that really exchange the two objects: then \<open>std::swap\<close> does, and releases nothing.\<close>
locale exchanging_owner = plain_owner +
  assumes exchanges: "move_assign False x y = (y, x)"
begin

lemma swap_exchanges: "std_swap move_construct move_assign destroy x y h = Some ((y, x), h)"
proof -
  obtain new x' where m: "move_construct x = (new, x')" by force
  then have "new = x" "owned x' = {#}" using plain_construct by auto
  with m show ?thesis by (simp add: std_swap_def exchanges destroy_empty)
qed

end

section \<open>The objects keep the contract\<close>

definition buffer_owned :: "'a buffer \<Rightarrow> 'a block multiset" where
  "buffer_owned b = (if allocated_memory b = 0 then {#}
     else {#\<lparr> blk_start = allocated_memory b, blk_size = buffer_bytes, blk_allocator = buf_allocator b \<rparr>#})"

definition array_owned :: "nat \<Rightarrow> 'a buffer_array \<Rightarrow> 'a block multiset" where
  "array_owned sz b = (if array_data b = 0 then {#}
     else {#\<lparr> blk_start = array_data b, blk_size = array_bytes sz (array_count b), blk_allocator = array_allocator b \<rparr>#})"

definition handler_owned :: "'a handler_object \<Rightarrow> 'a block multiset" where
  "handler_owned h = buffer_owned (ho_task h)"

definition sequence_owned :: "'a sequence_object \<Rightarrow> 'a block multiset" where
  "sequence_owned s = array_owned 64 (so_operations s) + array_owned 32 (so_results s)"

lemmas owned_defs = buffer_owned_def array_owned_def handler_owned_def sequence_owned_def

interpretation task_buffer: exchanging_owner buffer_owned buffer_move_construct buffer_move_assign destroy_buffer
  by unfold_locales
    (auto simp: buffer_move_construct_def buffer_move_assign_def destroy_buffer_def deallocate_def owned_defs)

interpretation arrays: exchanging_owner "array_owned sz" array_move_construct array_move_assign "destroy_array sz" for sz
  by unfold_locales
    (auto simp: array_move_construct_def array_move_assign_def destroy_array_def deallocate_def owned_defs)

lemma handler_assign_exchanges:
  "handler_move_assign False x y h = Some ((y, x), h)"
  by (simp add: handler_move_assign_def task_buffer.swap_exchanges)

interpretation handlers: owner handler_owned handler_move_construct handler_move_assign destroy_handler
proof
  fix x new x' :: "'a handler_object"
  assume "handler_move_construct x = (new, x')"
  then show "handler_owned new = handler_owned x \<and> handler_owned x' = {#}"
    using task_buffer.plain_construct [of "ho_task x"]
    by (cases "buffer_move_construct (ho_task x)") (auto simp: handler_move_construct_def handler_owned_def)
qed (auto simp: handler_assign_exchanges destroy_handler_def handler_owned_def task_buffer.plain_destroy)

lemma destroy_two_arrays:
  assumes "array_owned 64 a + array_owned 32 b \<subseteq># L"
  shows "(case destroy_array 32 b (m, L) of None \<Rightarrow> None | Some h \<Rightarrow> destroy_array 64 a h)
    = Some (m, L - (array_owned 64 a + array_owned 32 b))"
proof -
  have "array_owned 32 b \<subseteq># L" "array_owned 64 a \<subseteq># L - array_owned 32 b"
    using assms by (metis mset_subset_eq_add_right subset_mset.trans, metis subset_mset.add_le_imp_le_right subset_mset.diff_add mset_subset_eq_add_right subset_mset.trans)
  then show ?thesis by (simp add: arrays.plain_destroy diff_diff_add_mset add.commute)
qed

interpretation sequences: plain_owner sequence_owned sequence_move_construct sequence_move_assign destroy_sequence
proof
  fix x new x' :: "'a sequence_object"
  assume "sequence_move_construct x = (new, x')"
  then show "new = x \<and> sequence_owned x' = {#}"
    by (auto simp: sequence_move_construct_def array_move_construct_def owned_defs)
next
  fix same and x y :: "'a sequence_object"
  assume "\<not> same"
  then show "sequence_owned (fst (sequence_move_assign same x y)) = sequence_owned y
      \<and> sequence_owned (snd (sequence_move_assign same x y)) = sequence_owned x"
    by (simp add: sequence_move_assign_def arrays.exchanges sequence_owned_def)
next
  fix x :: "'a sequence_object" and L m
  assume "sequence_owned x \<subseteq># L"
  then show "destroy_sequence x (m, L) = Some (m, L - sequence_owned x)"
    using destroy_two_arrays by (simp add: destroy_sequence_def sequence_owned_def)
qed

section \<open>Programs\<close>

text \<open>The handlers and sequences a program has created; \<open>None\<close> after destruction.\<close>
record ('a, 'h) world =
  w_handlers :: "'a handler_object option list"
  w_sequences :: "'a sequence_object option list"
  w_sys :: "'h sys"
  w_live :: "'a block multiset"

text \<open>
  The statements that create, move and destroy objects, named by their position. \<open>Other\<close> is all
  that neither allocates nor releases: operations that run, results that are read, operations that
  are added.
\<close>
datatype ('a, 'h) statement =
    Default_handler 'a
  | Submit 'a execution_path u32 "addr \<Rightarrow> task" status_code
  | Move_handler nat
  | Assign_handler nat nat
  | Destroy_handler nat
  | New_sequence 'a u32
  | Move_sequence nat
  | Assign_sequence nat nat
  | Destroy_sequence nat
  | Other "'h sys"

text \<open>The object with a number, if it is alive.\<close>
definition alive :: "'o option list \<Rightarrow> nat \<Rightarrow> 'o option" where
  "alive xs i = (if i < length xs then xs ! i else None)"

definition w_heap :: "('a, 'h) world \<Rightarrow> 'a heap" where
  "w_heap w = (fst (snd (w_sys w)), w_live w)"

definition set_heap :: "'a heap \<Rightarrow> ('a, 'h) world \<Rightarrow> ('a, 'h) world" where
  "set_heap h w = w\<lparr> w_sys := (fst (w_sys w), fst h, snd (snd (w_sys w))), w_live := snd h \<rparr>"

text \<open>
  A constructor that throws leaves no object; the program goes on. A statement about an object
  that is not alive cannot be written and does nothing.
\<close>
fun run_statement :: "'h platform \<Rightarrow> 'a allocate \<Rightarrow> ('a, 'h) statement \<Rightarrow> ('a, 'h) world \<Rightarrow> ('a, 'h) world option" where
  "run_statement pf allocate (Default_handler al) w =
     (case new_handler allocate al (w_heap w) of
        Returns x h \<Rightarrow> Some (set_heap h (w\<lparr> w_handlers := w_handlers w @ [Some x] \<rparr>))
      | Throws h \<Rightarrow> Some (set_heap h w)
      | Undefined \<Rightarrow> None)"
| "run_statement pf allocate (Submit al path numa_id mk_task range_status) w =
     (case submit_operation pf path numa_id allocate al mk_task range_status (w_sys w, w_live w) of
        Returns x (sys, L) \<Rightarrow> Some (w\<lparr> w_handlers := w_handlers w @ [Some x], w_sys := sys, w_live := L \<rparr>)
      | Throws (sys, L) \<Rightarrow> Some (w\<lparr> w_sys := sys, w_live := L \<rparr>)
      | Undefined \<Rightarrow> None)"
| "run_statement pf allocate (Move_handler i) w =
     (case alive (w_handlers w) i of
        None \<Rightarrow> Some w
      | Some x \<Rightarrow> let (new, x') = handler_move_construct x
                  in Some (w\<lparr> w_handlers := (w_handlers w)[i := Some x'] @ [Some new] \<rparr>))"
| "run_statement pf allocate (Assign_handler i j) w =
     (case (alive (w_handlers w) i, alive (w_handlers w) j) of
        (Some x, Some y) \<Rightarrow>
          (case handler_move_assign (i = j) x y (w_heap w) of
             None \<Rightarrow> None
           | Some ((x', y'), h) \<Rightarrow> Some (set_heap h (w\<lparr> w_handlers := (w_handlers w)[j := Some y', i := Some x'] \<rparr>)))
      | _ \<Rightarrow> Some w)"
| "run_statement pf allocate (Destroy_handler i) w =
     (case alive (w_handlers w) i of
        None \<Rightarrow> Some w
      | Some x \<Rightarrow>
          (case destroy_handler x (w_heap w) of
             None \<Rightarrow> None
           | Some h \<Rightarrow> Some (set_heap h (w\<lparr> w_handlers := (w_handlers w)[i := None] \<rparr>))))"
| "run_statement pf allocate (New_sequence al len) w =
     (case new_sequence allocate len al (w_heap w) of
        Returns x h \<Rightarrow> Some (set_heap h (w\<lparr> w_sequences := w_sequences w @ [Some x] \<rparr>))
      | Throws h \<Rightarrow> Some (set_heap h w)
      | Undefined \<Rightarrow> None)"
| "run_statement pf allocate (Move_sequence i) w =
     (case alive (w_sequences w) i of
        None \<Rightarrow> Some w
      | Some x \<Rightarrow> let (new, x') = sequence_move_construct x
                  in Some (w\<lparr> w_sequences := (w_sequences w)[i := Some x'] @ [Some new] \<rparr>))"
| "run_statement pf allocate (Assign_sequence i j) w =
     (case (alive (w_sequences w) i, alive (w_sequences w) j) of
        (Some x, Some y) \<Rightarrow>
          let (x', y') = sequence_move_assign (i = j) x y
          in Some (w\<lparr> w_sequences := (w_sequences w)[j := Some y', i := Some x'] \<rparr>)
      | _ \<Rightarrow> Some w)"
| "run_statement pf allocate (Destroy_sequence i) w =
     (case alive (w_sequences w) i of
        None \<Rightarrow> Some w
      | Some x \<Rightarrow>
          (case destroy_sequence x (w_heap w) of
             None \<Rightarrow> None
           | Some h \<Rightarrow> Some (set_heap h (w\<lparr> w_sequences := (w_sequences w)[i := None] \<rparr>))))"
| "run_statement pf allocate (Other sys) w = Some (w\<lparr> w_sys := sys \<rparr>)"

primrec run_program :: "'h platform \<Rightarrow> 'a allocate \<Rightarrow> ('a, 'h) statement list \<Rightarrow> ('a, 'h) world \<Rightarrow> ('a, 'h) world option" where
  "run_program pf allocate [] w = Some w"
| "run_program pf allocate (c # cs) w =
     (case run_statement pf allocate c w of None \<Rightarrow> None | Some w' \<Rightarrow> run_program pf allocate cs w')"

definition empty_world :: "'h sys \<Rightarrow> ('a, 'h) world" where
  "empty_world sys = \<lparr> w_handlers = [], w_sequences = [], w_sys = sys, w_live = {#} \<rparr>"

section \<open>What the objects of a program own\<close>

definition all_owned :: "('o \<Rightarrow> 'a block multiset) \<Rightarrow> 'o option list \<Rightarrow> 'a block multiset" where
  "all_owned owned xs = sum_list (map (\<lambda>x. case x of None \<Rightarrow> {#} | Some y \<Rightarrow> owned y) xs)"

lemma all_owned_append [simp]: "all_owned owned (xs @ ys) = all_owned owned xs + all_owned owned ys"
  by (simp add: all_owned_def)

lemma all_owned_Nil [simp]: "all_owned owned [] = {#}"
  by (simp add: all_owned_def)

lemma all_owned_Some [simp]: "all_owned owned [Some x] = owned x"
  by (simp add: all_owned_def)

lemma all_owned_None [simp]: "all_owned owned [None] = {#}"
  by (simp add: all_owned_def)

lemma all_owned_update:
  assumes "alive xs i = Some x"
  shows "all_owned owned (xs[i := z]) + owned x = all_owned owned xs + all_owned owned [z]"
proof -
  have i: "i < length xs" "xs ! i = Some x" using assms by (auto simp: alive_def split: if_splits)
  then have "xs = take i xs @ [Some x] @ drop (Suc i) xs" using id_take_nth_drop by fastforce
  moreover have "xs[i := z] = take i xs @ [z] @ drop (Suc i) xs" using i by (simp add: upd_conv_take_nth_drop)
  ultimately have e: "all_owned owned xs = all_owned owned (take i xs) + (owned x + all_owned owned (drop (Suc i) xs))"
    "all_owned owned (xs[i := z]) = all_owned owned (take i xs) + (all_owned owned [z] + all_owned owned (drop (Suc i) xs))"
    by (metis all_owned_append all_owned_Some)+
  show ?thesis unfolding e by (simp add: ac_simps)
qed

lemma alive_update: "alive (xs[i := z]) j = (if i = j \<and> i < length xs then z else alive xs j)"
  by (simp add: alive_def nth_list_update)

lemma alive_append: "alive (xs @ [z]) i = (if i = length xs then z else alive xs i)"
  by (auto simp: alive_def nth_append)

lemma alive_length: "alive xs i = Some x \<Longrightarrow> i < length xs"
  by (simp add: alive_def split: if_splits)

context owner
begin

lemma alive_owned: "alive xs i = Some x \<Longrightarrow> owned x \<subseteq># all_owned owned xs"
  using all_owned_update [of xs i x owned None] by (metis add.right_neutral all_owned_None mset_subset_eq_add_right)

lemma move_new_owned:
  assumes "alive xs i = Some x" "move_construct x = (new, x')"
  shows "all_owned owned (xs[i := Some x'] @ [Some new]) = all_owned owned xs"
  using all_owned_update [OF assms(1), of owned "Some x'"] construct_moves [OF assms(2)] by simp

lemma assign_owned:
  assumes "alive xs i = Some x" "alive xs j = Some y" "i \<noteq> j" "move_assign False x y h = Some ((x', y'), h')"
  shows "h' = h \<and> all_owned owned (xs[j := Some y', i := Some x']) = all_owned owned xs"
proof -
  have o: "h' = h" "owned x' = owned y" "owned y' = owned x"
    using assign_moves [of x y h] assms(4) by auto
  have "all_owned owned (xs[j := Some y']) + owned y = all_owned owned xs + owned x"
    using all_owned_update [OF assms(2), of owned "Some y'"] o by simp
  moreover have "alive (xs[j := Some y']) i = Some x" using assms(1,3) by (simp add: alive_update)
  then have "all_owned owned (xs[j := Some y', i := Some x']) + owned x
      = all_owned owned (xs[j := Some y']) + owned y"
    using all_owned_update [of "xs[j := Some y']" i x owned "Some x'"] o by simp
  ultimately show ?thesis using o by (metis add_right_cancel)
qed

lemma destroy_owned:
  assumes "alive xs i = Some x" "L = all_owned owned xs + F"
  shows "destroy x (m, L) = Some (m, all_owned owned (xs[i := None]) + F)"
proof -
  have "all_owned owned (xs[i := None]) + owned x = all_owned owned xs"
    using all_owned_update [OF assms(1), of owned None] by simp
  then have L: "L = owned x + (all_owned owned (xs[i := None]) + F)" using assms(2) by (metis add.assoc add.commute)
  then show ?thesis using destroy_releases [of x L m] by simp
qed

end

section \<open>Where the objects lie in their blocks\<close>

lemma aligned_data_offset:
  assumes "al = 2 ^ k" "k < 64"
  obtains i where "i < 2 ^ k" "aligned_data al p = p + word_of_nat i" "(unat p + i) mod 2 ^ k = 0"
proof -
  let ?r = "unat p mod 2 ^ k"
  have "p AND (al - 1) = take_bit k p" using assms(1) by (simp add: take_bit_eq_mask mask_eq_exp_minus_1)
  moreover have "unat (take_bit k p) = ?r"
    unfolding unsigned_take_bit_eq by (rule take_bit_eq_mod)
  ultimately have u: "unat (p AND (al - 1)) = ?r" by simp
  then have o: "p AND (al - 1) = word_of_nat ?r" by (simp add: word_unat_eq_iff u unat_of_nat le_less_trans [OF mod_less_eq_dividend unat_addr_less])
  have z: "p AND (al - 1) = 0 \<longleftrightarrow> ?r = 0" using u by (metis unat_eq_0)
  have r: "?r < 2 ^ k" by simp
  show ?thesis
  proof (cases "?r = 0")
    case True
    with z that [of 0] show ?thesis by (simp add: aligned_data_def Let_def)
  next
    case False
    then have "aligned_data al p = p + (al - word_of_nat ?r)" using z by (simp add: aligned_data_def Let_def o)
    also have "al - word_of_nat ?r = word_of_nat (2 ^ k - ?r)" using assms(1) r by (simp add: of_nat_diff)
    finally have a: "aligned_data al p = p + word_of_nat (2 ^ k - ?r)" .
    have "unat p + (2 ^ k - ?r) = 2 ^ k * (unat p div 2 ^ k + 1)"
      using r mult_div_mod_eq [of "2 ^ k" "unat p"] unfolding distrib_left by linarith
    then have "(unat p + (2 ^ k - ?r)) mod 2 ^ k = 0" by simp
    with a False r that [of "2 ^ k - ?r"] show ?thesis by simp
  qed
qed

text \<open>\<open>n\<close> bytes from \<open>a\<close> lie inside the \<open>k\<close> bytes from \<open>b\<close>.\<close>
definition sub_region :: "addr \<Rightarrow> nat \<Rightarrow> addr \<Rightarrow> nat \<Rightarrow> bool" where
  "sub_region a n b k \<longleftrightarrow> (\<forall>x. in_region x a n \<longrightarrow> in_region x b k)"

lemma sub_regions_disjoint:
  "sub_region a n a' n' \<Longrightarrow> sub_region b k b' k' \<Longrightarrow> disjoint_regions a' n' b' k' \<Longrightarrow> disjoint_regions a n b k"
  by (auto simp: sub_region_def disjoint_regions_def)

lemma aligned_inside:
  assumes "al = 2 ^ k" "k < 64" "unat p + N < 2 ^ 64" "n + 2 ^ k \<le> N"
  shows "sub_region (aligned_data al p) n p N \<and> unat (aligned_data al p) mod 2 ^ k = 0"
proof -
  obtain i where i: "i < 2 ^ k" "aligned_data al p = p + word_of_nat i" "(unat p + i) mod 2 ^ k = 0"
    using aligned_data_offset [OF assms(1,2)] .
  then have "unat (aligned_data al p) = unat p + i"
    using assms(3,4) by (simp add: unat_word_ariths unat_of_nat)
  moreover have "in_region x p N" if "in_region x (p + word_of_nat i) n" for x
    using that i(1) assms(3,4) by (elim in_region_part) simp_all
  ultimately show ?thesis using i(2,3) by (simp add: sub_region_def)
qed

lemma task_memory_aligned: "task_memory p = aligned_data 64 p"
  by (simp add: task_memory_def align_def aligned_data_def)

text \<open>A task lies, aligned, in the block of its buffer; a moved-from buffer has none.\<close>
definition wf_buffer :: "'a buffer \<Rightarrow> bool" where
  "wf_buffer b \<longleftrightarrow> (if allocated_memory b = 0 then aligned_memory b = 0
     else sub_region (aligned_memory b) 96 (allocated_memory b) buffer_bytes \<and> unat (aligned_memory b) mod 64 = 0)"

text \<open>So do the elements of an array.\<close>
definition wf_array :: "nat \<Rightarrow> 'a buffer_array \<Rightarrow> bool" where
  "wf_array sz b \<longleftrightarrow> (if array_data b = 0 then array_aligned b = 0 \<and> array_count b = 0
     else sub_region (array_aligned b) (sz * unat (array_count b)) (array_data b) (array_bytes sz (array_count b))
       \<and> unat (array_aligned b) mod sz = 0)"

definition wf_sequence :: "'a sequence_object \<Rightarrow> bool" where
  "wf_sequence s \<longleftrightarrow> wf_array 64 (so_operations s) \<and> wf_array 32 (so_results s)
     \<and> array_count (so_results s) = array_count (so_operations s)"

lemmas buffer_size_defs = buffer_bytes_def buffer_allocate_size_def buffer_memory_size_def buffer_memory_alignment_def

lemma lawful_allocated:
  assumes "lawful_allocate allocate" "allocate al n L = Some p"
  shows "p \<noteq> 0" "unat p + n < 2 ^ 64" "\<And>b. b \<in># L \<Longrightarrow> disjoint_regions p n (blk_start b) (blk_size b)"
  using assms unfolding lawful_allocate_def by blast+

section \<open>The ownership invariant\<close>

text \<open>Two blocks in use never overlap.\<close>
definition blocks_apart :: "'a block multiset \<Rightarrow> bool" where
  "blocks_apart L \<longleftrightarrow> (\<forall>b c. {#b, c#} \<subseteq># L \<longrightarrow> disjoint_regions (blk_start b) (blk_size b) (blk_start c) (blk_size c))"

lemma blocks_apart_mono: "blocks_apart L \<Longrightarrow> K \<subseteq># L \<Longrightarrow> blocks_apart K"
  unfolding blocks_apart_def using subset_mset.trans by blast

lemma blocks_apart_add:
  assumes "blocks_apart L" "\<And>b. b \<in># L \<Longrightarrow> disjoint_regions (blk_start x) (blk_size x) (blk_start b) (blk_size b)"
  shows "blocks_apart (add_mset x L)"
  unfolding blocks_apart_def
proof (intro allI impI)
  fix b c assume sub: "{#b, c#} \<subseteq># add_mset x L"
  consider "b = x" | "c = x" | "b \<noteq> x" "c \<noteq> x" by blast
  then show "disjoint_regions (blk_start b) (blk_size b) (blk_start c) (blk_size c)"
  proof cases
    case 1
    then have "c \<in># L" using sub by (simp add: insert_subset_eq_iff)
    with 1 assms(2) show ?thesis by simp
  next
    case 2
    then have "{#x, b#} \<subseteq># add_mset x L" using sub by (simp add: add_mset_commute)
    then have "b \<in># L" by simp
    with 2 assms(2) show ?thesis by (simp add: disjoint_regions_sym)
  next
    case 3
    then have "{#b, c#} \<subseteq># L" using sub by (simp add: insert_subset_eq_iff insert_DiffM2 subset_mset.add_diff_assoc)
    with assms(1) show ?thesis by (simp add: blocks_apart_def)
  qed
qed

definition world_inv :: "('a, 'h) world \<Rightarrow> bool" where
  "world_inv w \<longleftrightarrow>
     w_live w = all_owned handler_owned (w_handlers w) + all_owned sequence_owned (w_sequences w)
     \<and> blocks_apart (w_live w)
     \<and> (\<forall>i x. alive (w_handlers w) i = Some x \<longrightarrow> wf_buffer (ho_task x))
     \<and> (\<forall>i s. alive (w_sequences w) i = Some s \<longrightarrow> wf_sequence s)"

text \<open>Constructors, in one form: what a new object adds to the blocks in use.\<close>
definition grants :: "('o \<Rightarrow> 'a block multiset) \<Rightarrow> ('o \<Rightarrow> bool) \<Rightarrow> 'a block multiset
    \<Rightarrow> ('o, 'a block multiset) outcome \<Rightarrow> bool" where
  "grants owned ok L r \<longleftrightarrow> (case r of
      Returns x L' \<Rightarrow> ok x \<and> L' = owned x + L \<and> (blocks_apart L \<longrightarrow> blocks_apart L')
    | Throws L' \<Rightarrow> L' = L | Undefined \<Rightarrow> False)"

definition live_part :: "('o, 's) outcome \<Rightarrow> ('s \<Rightarrow> 'a block multiset) \<Rightarrow> ('o, 'a block multiset) outcome" where
  "live_part r f = (case r of Returns x s \<Rightarrow> Returns x (f s) | Throws s \<Rightarrow> Throws (f s) | Undefined \<Rightarrow> Undefined)"

lemma new_buffer_grants:
  assumes "lawful_allocate allocate"
  shows "grants buffer_owned wf_buffer (snd h) (live_part (new_buffer allocate al h) snd)"
proof (cases "allocate al buffer_bytes (snd h)")
  case (Some p)
  note law = lawful_allocated [OF assms Some]
  have "sub_region (aligned_data 64 p) 96 p buffer_bytes \<and> unat (aligned_data 64 p) mod 64 = 0"
    using aligned_inside [of 64 6 p buffer_bytes 96] law(2) by (simp add: buffer_size_defs)
  with Some law show ?thesis
    by (simp add: grants_def live_part_def new_buffer_def Let_def wf_buffer_def buffer_owned_def
        task_memory_aligned blocks_apart_add)
qed (simp add: new_buffer_def grants_def live_part_def)

lemma new_buffer_array_grants:
  assumes "lawful_allocate allocate" "sz = 2 ^ k" "k < 64"
  shows "grants (array_owned sz) (\<lambda>b. wf_array sz b \<and> array_count b = elems) (snd h)
    (live_part (new_buffer_array sz allocate elems al h) snd)"
proof (cases "allocate al (array_bytes sz elems) (snd h)")
  case (Some p)
  note law = lawful_allocated [OF assms(1) Some]
  have "sz * unat elems + sz \<le> array_bytes sz elems"
    using assms(2) by (simp add: array_bytes_def mult.commute)
  then have "sub_region (aligned_data (word_of_nat sz) p) (sz * unat elems) p (array_bytes sz elems)
      \<and> unat (aligned_data (word_of_nat sz) p) mod sz = 0"
    using aligned_inside [of "word_of_nat sz" k p "array_bytes sz elems" "sz * unat elems"] law(2) assms(2,3) by simp
  with Some law show ?thesis
    by (simp add: grants_def live_part_def new_buffer_array_def Let_def wf_array_def array_owned_def blocks_apart_add)
qed (simp add: new_buffer_array_def grants_def live_part_def)

lemma new_handler_grants:
  assumes "lawful_allocate allocate"
  shows "grants handler_owned (\<lambda>x. wf_buffer (ho_task x)) (snd h) (live_part (new_handler allocate al h) snd)"
  using new_buffer_grants [OF assms, of h al]
  by (auto simp: new_handler_def grants_def live_part_def handler_owned_def split: outcome.splits)

lemma submit_operation_grants:
  assumes "lawful_allocate allocate"
  shows "grants handler_owned (\<lambda>x. wf_buffer (ho_task x)) (snd s)
    (live_part (submit_operation pf path numa_id allocate al mk_task range_status s) snd)"
proof -
  obtain S m ev L where s: "s = ((S, m, ev), L)" by (metis prod.exhaust)
  have b: "grants buffer_owned wf_buffer L (live_part (new_buffer allocate al (m, L)) snd)"
    using new_buffer_grants [OF assms, of "(m, L)"] by simp
  show ?thesis
  proof (cases "new_buffer allocate al (m, L)")
    case (Returns t h1)
    obtain m1 L1 where h1: "h1 = (m1, L1)" by force
    have rest: "destroy_buffer (t\<lparr> allocated_memory := 0, aligned_memory := 0 \<rparr>) h = Some h" for h
      by (simp add: destroy_buffer_def)
    from Returns b show ?thesis
      by (auto simp: s h1 submit_operation_def new_heap_task_def handler_from_task_def buffer_move_construct_def
          rest grants_def live_part_def handler_owned_def Let_def split: prod.split)
  qed (use b in \<open>auto simp: s submit_operation_def new_heap_task_def grants_def live_part_def\<close>)
qed

lemma new_sequence_grants:
  assumes "lawful_allocate allocate"
  shows "grants sequence_owned wf_sequence (snd h) (live_part (new_sequence allocate len al h) snd)"
proof (cases "new_buffer_array 64 allocate len al h")
  case (Returns ops h1)
  have g: "wf_array 64 ops" "array_count ops = len" "snd h1 = array_owned 64 ops + snd h"
    "blocks_apart (snd h) \<longrightarrow> blocks_apart (snd h1)"
    using new_buffer_array_grants [OF assms, of 64 6 len h al] Returns by (auto simp: grants_def live_part_def)
  have g2: "grants (array_owned 32) (\<lambda>b. wf_array 32 b \<and> array_count b = len) (snd h1)
      (live_part (new_buffer_array 32 allocate len al h1) snd)"
    using new_buffer_array_grants [OF assms, of 32 5 len h1 al] by simp
  show ?thesis
  proof (cases "new_buffer_array 32 allocate len al h1")
    case (Returns res h2)
    with g g2 \<open>new_buffer_array 64 allocate len al h = Returns ops h1\<close> show ?thesis
      by (auto simp: new_sequence_def grants_def live_part_def wf_sequence_def sequence_owned_def ac_simps)
  next
    case (Throws h2)
    then have "snd h2 = array_owned 64 ops + snd h" using g g2 by (simp add: grants_def live_part_def)
    then have "destroy_array 64 ops h2 = Some (fst h2, snd h)"
      using arrays.plain_destroy [of 64 ops "snd h2" "fst h2"] by (cases h2) simp
    with Throws \<open>new_buffer_array 64 allocate len al h = Returns ops h1\<close> show ?thesis
      by (simp add: new_sequence_def grants_def live_part_def)
  qed (use g2 in \<open>simp add: grants_def live_part_def\<close>)
next
  case (Throws h1)
  then show ?thesis
    using new_buffer_array_grants [OF assms, of 64 6 len h al] by (simp add: new_sequence_def grants_def live_part_def)
next
  case Undefined
  then show ?thesis
    using new_buffer_array_grants [OF assms, of 64 6 len h al] by (simp add: grants_def live_part_def)
qed

lemma world_inv_updates [simp]:
  "w_live (set_heap h w) = snd h" "w_handlers (set_heap h w) = w_handlers w"
  "w_sequences (set_heap h w) = w_sequences w" "snd (w_heap w) = w_live w"
  by (simp_all add: set_heap_def w_heap_def)

lemma world_inv_new_handler:
  assumes "world_inv w" "wf_buffer (ho_task x)" "w_handlers w' = w_handlers w @ [Some x]"
    "w_sequences w' = w_sequences w" "w_live w' = handler_owned x + w_live w" "blocks_apart (w_live w')"
  shows "world_inv w'"
  using assms unfolding world_inv_def by (auto simp: alive_append ac_simps split: if_splits)

lemma world_inv_new_sequence:
  assumes "world_inv w" "wf_sequence x" "w_sequences w' = w_sequences w @ [Some x]"
    "w_handlers w' = w_handlers w" "w_live w' = sequence_owned x + w_live w" "blocks_apart (w_live w')"
  shows "world_inv w'"
  using assms unfolding world_inv_def by (auto simp: alive_append ac_simps split: if_splits)

lemma world_inv_cong:
  "world_inv w \<Longrightarrow> w_handlers w' = w_handlers w \<Longrightarrow> w_sequences w' = w_sequences w \<Longrightarrow> w_live w' = w_live w \<Longrightarrow> world_inv w'"
  by (auto simp: world_inv_def)

text \<open>Handlers or sequences that changed, with the same blocks behind them.\<close>
lemma world_inv_handlers:
  assumes "world_inv w" "all_owned handler_owned hs = all_owned handler_owned (w_handlers w)"
    "\<And>i x. alive hs i = Some x \<Longrightarrow> wf_buffer (ho_task x)"
    "w_handlers w' = hs" "w_sequences w' = w_sequences w" "w_live w' = w_live w"
  shows "world_inv w'"
  using assms by (auto simp: world_inv_def)

lemma world_inv_sequences:
  assumes "world_inv w" "all_owned sequence_owned ss = all_owned sequence_owned (w_sequences w)"
    "\<And>i x. alive ss i = Some x \<Longrightarrow> wf_sequence x"
    "w_sequences w' = ss" "w_handlers w' = w_handlers w" "w_live w' = w_live w"
  shows "world_inv w'"
  using assms by (auto simp: world_inv_def)

lemma constructor_keeps:
  assumes "lawful_allocate allocate" "world_inv w"
  shows "\<exists>w'. run_statement pf allocate (Default_handler al) w = Some w' \<and> world_inv w'"
    and "\<exists>w'. run_statement pf allocate (Submit al path numa_id mk_task range_status) w = Some w' \<and> world_inv w'"
    and "\<exists>w'. run_statement pf allocate (New_sequence al len) w = Some w' \<and> world_inv w'"
proof -
  have apart: "blocks_apart (w_live w)" using assms(2) by (auto simp: world_inv_def)
  show "\<exists>w'. run_statement pf allocate (Default_handler al) w = Some w' \<and> world_inv w'"
    using new_handler_grants [OF assms(1), of "w_heap w" al] apart
    by (cases "new_handler allocate al (w_heap w)")
      (auto simp: grants_def live_part_def intro: world_inv_new_handler [OF assms(2)] world_inv_cong [OF assms(2)])
  show "\<exists>w'. run_statement pf allocate (Submit al path numa_id mk_task range_status) w = Some w' \<and> world_inv w'"
    using submit_operation_grants [OF assms(1), of "(w_sys w, w_live w)" pf path numa_id al mk_task range_status] apart
    by (cases "submit_operation pf path numa_id allocate al mk_task range_status (w_sys w, w_live w)")
      (auto simp: grants_def live_part_def intro: world_inv_new_handler [OF assms(2)] world_inv_cong [OF assms(2)] split: prod.split)
  show "\<exists>w'. run_statement pf allocate (New_sequence al len) w = Some w' \<and> world_inv w'"
    using new_sequence_grants [OF assms(1), of "w_heap w" len al] apart
    by (cases "new_sequence allocate len al (w_heap w)")
      (auto simp: grants_def live_part_def intro: world_inv_new_sequence [OF assms(2)] world_inv_cong [OF assms(2)])
qed

lemma handler_move_keeps:
  assumes "world_inv w" "alive (w_handlers w) i = Some x"
  shows "\<exists>w'. run_statement pf allocate (Move_handler i) w = Some w' \<and> world_inv w'"
proof -
  obtain new x' where m: "handler_move_construct x = (new, x')" by force
  have "wf_buffer (ho_task x)" using assms by (auto simp: world_inv_def)
  then have wf: "wf_buffer (ho_task new)" "wf_buffer (ho_task x')"
    using m by (auto simp: handler_move_construct_def buffer_move_construct_def wf_buffer_def)
  have "world_inv (w\<lparr> w_handlers := (w_handlers w)[i := Some x'] @ [Some new] \<rparr>)"
  proof (rule world_inv_handlers [OF assms(1) handlers.move_new_owned [OF assms(2) m]])
    fix j y assume "alive ((w_handlers w)[i := Some x'] @ [Some new]) j = Some y"
    then show "wf_buffer (ho_task y)"
      using wf assms(1) by (auto simp: alive_append alive_update world_inv_def split: if_splits)
  qed simp_all
  with assms(2) m show ?thesis by simp
qed

lemma sequence_move_keeps:
  assumes "world_inv w" "alive (w_sequences w) i = Some x"
  shows "\<exists>w'. run_statement pf allocate (Move_sequence i) w = Some w' \<and> world_inv w'"
proof -
  obtain new x' where m: "sequence_move_construct x = (new, x')" by force
  have "wf_sequence x" using assms by (auto simp: world_inv_def)
  then have wf: "wf_sequence new" "wf_sequence x'"
    using m by (auto simp: sequence_move_construct_def array_move_construct_def wf_sequence_def wf_array_def)
  have "world_inv (w\<lparr> w_sequences := (w_sequences w)[i := Some x'] @ [Some new] \<rparr>)"
  proof (rule world_inv_sequences [OF assms(1) sequences.move_new_owned [OF assms(2) m]])
    fix j y assume "alive ((w_sequences w)[i := Some x'] @ [Some new]) j = Some y"
    then show "wf_sequence y"
      using wf assms(1) by (auto simp: alive_append alive_update world_inv_def split: if_splits)
  qed simp_all
  with assms(2) m show ?thesis by simp
qed

lemma update_same: "alive xs i = Some x \<Longrightarrow> xs[i := Some x] = xs"
  by (auto simp: alive_def split: if_splits) (metis list_update_id)

lemma handler_assign_keeps:
  assumes "world_inv w" "alive (w_handlers w) i = Some x" "alive (w_handlers w) j = Some y"
  shows "\<exists>w'. run_statement pf allocate (Assign_handler i j) w = Some w' \<and> world_inv w'"
proof (cases "i = j")
  case True
  then have "y = x" "handler_move_assign True x x h = Some ((x, x), h)" for h
    using assms(2,3) by (simp_all add: handler_move_assign_def)
  with True assms show ?thesis
    by (auto simp: update_same intro: world_inv_cong [OF assms(1)])
next
  case False
  have e: "handler_move_assign False x y (w_heap w) = Some ((y, x), w_heap w)" by (rule handler_assign_exchanges)
  have "world_inv (set_heap (w_heap w) (w\<lparr> w_handlers := (w_handlers w)[j := Some x, i := Some y] \<rparr>))"
  proof (rule world_inv_handlers [OF assms(1)])
    show "all_owned handler_owned ((w_handlers w)[j := Some x, i := Some y]) = all_owned handler_owned (w_handlers w)"
      using handlers.assign_owned [OF assms(2,3) False e] by simp
    fix k z assume "alive ((w_handlers w)[j := Some x, i := Some y]) k = Some z"
    then show "wf_buffer (ho_task z)" using assms by (auto simp: alive_update world_inv_def split: if_splits)
  qed simp_all
  with False assms e show ?thesis by simp
qed

lemma sequence_assign_keeps:
  assumes "world_inv w" "alive (w_sequences w) i = Some x" "alive (w_sequences w) j = Some y"
  shows "\<exists>w'. run_statement pf allocate (Assign_sequence i j) w = Some w' \<and> world_inv w'"
proof (cases "i = j")
  case True
  then have "y = x" "sequence_move_assign True x x = (x, x)"
    using assms(2,3) by (simp_all add: sequence_move_assign_def array_move_assign_def)
  with True assms show ?thesis by (auto simp: update_same)
next
  case False
  obtain x' y' where e: "sequence_move_assign False x y = (x', y')" by force
  have "wf_sequence x" "wf_sequence y" using assms by (auto simp: world_inv_def)
  then have wf: "wf_sequence x'" "wf_sequence y'"
    using e by (auto simp: sequence_move_assign_def arrays.exchanges wf_sequence_def)
  have "world_inv (w\<lparr> w_sequences := (w_sequences w)[j := Some y', i := Some x'] \<rparr>)"
  proof (rule world_inv_sequences [OF assms(1)])
    show "all_owned sequence_owned ((w_sequences w)[j := Some y', i := Some x']) = all_owned sequence_owned (w_sequences w)"
      using sequences.assign_owned [OF assms(2,3) False, of "w_heap w" x' y' "w_heap w"] e by simp
    fix k z assume "alive ((w_sequences w)[j := Some y', i := Some x']) k = Some z"
    then show "wf_sequence z" using assms wf by (auto simp: alive_update world_inv_def split: if_splits)
  qed simp_all
  with False assms e show ?thesis by simp
qed

lemma destroy_keeps:
  assumes "world_inv w"
  shows "alive (w_handlers w) i = Some x \<Longrightarrow> \<exists>w'. run_statement pf allocate (Destroy_handler i) w = Some w' \<and> world_inv w'"
    and "alive (w_sequences w) i = Some s \<Longrightarrow> \<exists>w'. run_statement pf allocate (Destroy_sequence i) w = Some w' \<and> world_inv w'"
proof -
  let ?H = "all_owned handler_owned" and ?S = "all_owned sequence_owned" and ?m = "fst (snd (w_sys w))"
  have live: "w_live w = ?H (w_handlers w) + ?S (w_sequences w)" and apart: "blocks_apart (w_live w)"
    using assms by (auto simp: world_inv_def)
  {
    assume x: "alive (w_handlers w) i = Some x"
    let ?L = "?H ((w_handlers w)[i := None]) + ?S (w_sequences w)"
    have d: "destroy_handler x (w_heap w) = Some (?m, ?L)"
      using handlers.destroy_owned [OF x live] by (simp add: w_heap_def)
    have "?L \<subseteq># w_live w" using all_owned_update [OF x, of handler_owned None] by (simp add: live) (metis mset_subset_eq_add_left)
    then have "world_inv (set_heap (?m, ?L) (w\<lparr> w_handlers := (w_handlers w)[i := None] \<rparr>))"
      using assms blocks_apart_mono [OF apart] by (auto simp: world_inv_def alive_update split: if_splits)
    with x d show "\<exists>w'. run_statement pf allocate (Destroy_handler i) w = Some w' \<and> world_inv w'" by simp
  next
    assume s: "alive (w_sequences w) i = Some s"
    let ?L = "?S ((w_sequences w)[i := None]) + ?H (w_handlers w)"
    have d: "destroy_sequence s (w_heap w) = Some (?m, ?L)"
      using sequences.destroy_owned [OF s, of "w_live w" "?H (w_handlers w)"] live by (simp add: w_heap_def ac_simps)
    have "?L \<subseteq># w_live w" using all_owned_update [OF s, of sequence_owned None] by (simp add: live add.commute) (metis mset_subset_eq_add_right)
    then have "world_inv (set_heap (?m, ?L) (w\<lparr> w_sequences := (w_sequences w)[i := None] \<rparr>))"
      using assms blocks_apart_mono [OF apart] by (auto simp: world_inv_def alive_update ac_simps split: if_splits)
    with s d show "\<exists>w'. run_statement pf allocate (Destroy_sequence i) w = Some w' \<and> world_inv w'" by simp
  }
qed

lemma statement_keeps:
  assumes "lawful_allocate allocate" "world_inv w"
  shows "\<exists>w'. run_statement pf allocate c w = Some w' \<and> world_inv w'"
proof (cases c)
  case (Move_handler i)
  then show ?thesis using handler_move_keeps [OF assms(2)] assms(2) by (cases "alive (w_handlers w) i") auto
next
  case (Move_sequence i)
  then show ?thesis using sequence_move_keeps [OF assms(2)] assms(2) by (cases "alive (w_sequences w) i") auto
next
  case (Assign_handler i j)
  then show ?thesis
    using handler_assign_keeps [OF assms(2)] assms(2)
    by (cases "alive (w_handlers w) i"; cases "alive (w_handlers w) j") auto
next
  case (Assign_sequence i j)
  then show ?thesis
    using sequence_assign_keeps [OF assms(2)] assms(2)
    by (cases "alive (w_sequences w) i"; cases "alive (w_sequences w) j") auto
next
  case (Destroy_handler i)
  then show ?thesis using destroy_keeps(1) [OF assms(2)] assms(2) by (cases "alive (w_handlers w) i") auto
next
  case (Destroy_sequence i)
  then show ?thesis using destroy_keeps(2) [OF assms(2)] assms(2) by (cases "alive (w_sequences w) i") auto
next
  case (Other sys)
  then show ?thesis using world_inv_cong [OF assms(2), of "w\<lparr> w_sys := sys \<rparr>"] by simp
qed (use constructor_keeps [OF assms] in blast)+

lemma program_keeps:
  assumes "lawful_allocate allocate" "world_inv w"
  shows "\<exists>w'. run_program pf allocate cs w = Some w' \<and> world_inv w'"
  using assms(2)
proof (induction cs arbitrary: w)
  case (Cons c cs)
  obtain w1 where "run_statement pf allocate c w = Some w1" "world_inv w1"
    using statement_keeps [OF assms(1) Cons.prems] by blast
  with Cons.IH show ?case by simp
qed simp

lemma empty_world_inv: "world_inv (empty_world sys)"
  by (simp add: world_inv_def empty_world_def alive_def blocks_apart_def)

lemma wf_sequence_room:
  assumes "wf_sequence s" "blocks_apart (sequence_owned s)"
  shows "seq_room (sequence_of s)"
proof (cases "array_data (so_operations s) = 0 \<or> array_data (so_results s) = 0")
  case True
  then have "array_count (so_operations s) = 0" using assms(1) by (auto simp: wf_sequence_def wf_array_def)
  then show ?thesis by (simp add: seq_room_def sequence_of_def disjoint_regions_def)
next
  case False
  let ?o = "so_operations s" and ?r = "so_results s"
  define b where "b = \<lparr> blk_start = array_data ?o, blk_size = array_bytes 64 (array_count ?o), blk_allocator = array_allocator ?o \<rparr>"
  define c where "c = \<lparr> blk_start = array_data ?r, blk_size = array_bytes 32 (array_count ?r), blk_allocator = array_allocator ?r \<rparr>"
  have "sequence_owned s = {#b, c#}" using False by (simp add: b_def c_def sequence_owned_def array_owned_def add_mset_commute)
  then have "disjoint_regions (blk_start b) (blk_size b) (blk_start c) (blk_size c)"
    using assms(2) by (simp add: blocks_apart_def)
  then have "disjoint_regions (array_data ?o) (array_bytes 64 (array_count ?o)) (array_data ?r) (array_bytes 32 (array_count ?r))"
    by (simp add: b_def c_def)
  then show ?thesis
    using assms(1) False sub_regions_disjoint
    by (auto simp: seq_room_def sequence_of_def wf_sequence_def wf_array_def)
qed

lemma alive_none: "(\<And>i. alive xs i = None) \<Longrightarrow> all_owned owned xs = {#}"
proof (induction xs)
  case (Cons x xs)
  have "x = None" using Cons.prems [of 0] by (simp add: alive_def)
  moreover have "alive xs i = None" for i using Cons.prems [of "Suc i"] by (simp add: alive_def split: if_splits)
  ultimately show ?case using Cons.IH by (simp add: all_owned_def)
qed simp

text \<open>
  Claim C10: whatever a program does with handlers and sequences, with moves between them, moves of
  an object to itself, exceptions of the allocator and destructions in any order, nothing is
  released twice or with the wrong size or allocator, and the blocks in use are exactly those the
  living objects own, each owned once. The memory of a task and the two arrays of a sequence lie
  aligned inside their blocks and never overlap. When all objects are gone, nothing is left
  allocated.
\<close>
theorem memory_ownership:
  assumes "lawful_allocate allocate"
  shows "\<exists>w. run_program pf allocate cs (empty_world sys) = Some w
    \<and> w_live w = all_owned handler_owned (w_handlers w) + all_owned sequence_owned (w_sequences w)
    \<and> blocks_apart (w_live w)
    \<and> (\<forall>i x. alive (w_handlers w) i = Some x \<longrightarrow> wf_buffer (ho_task x))
    \<and> (\<forall>i s. alive (w_sequences w) i = Some s \<longrightarrow> wf_sequence s \<and> seq_room (sequence_of s))
    \<and> ((\<forall>i. alive (w_handlers w) i = None) \<and> (\<forall>i. alive (w_sequences w) i = None) \<longrightarrow> w_live w = {#})"
proof -
  obtain w where w: "run_program pf allocate cs (empty_world sys) = Some w" "world_inv w"
    using program_keeps [OF assms empty_world_inv] by blast
  have live: "w_live w = all_owned handler_owned (w_handlers w) + all_owned sequence_owned (w_sequences w)"
    and apart: "blocks_apart (w_live w)" using w(2) by (auto simp: world_inv_def)
  have "seq_room (sequence_of s)" if "alive (w_sequences w) i = Some s" for i s
  proof (rule wf_sequence_room)
    show "wf_sequence s" using w(2) that by (auto simp: world_inv_def)
    have "sequence_owned s \<subseteq># w_live w"
      unfolding live using sequences.alive_owned [OF that] by (metis mset_subset_eq_add_right subset_mset.trans)
    then show "blocks_apart (sequence_owned s)" by (rule blocks_apart_mono [OF apart])
  qed
  with w live apart show ?thesis
    by (intro exI [of _ w]) (auto simp: world_inv_def alive_none)
qed

section \<open>Submission with its allocation\<close>

lemma place_over_zero:
  assumes "wf_task t"
  shows "store_bytes (place_task a \<lparr> task_descriptor = replicate 64 0, task_record = new_completion_record \<rparr> m) a
    (task_descriptor t) = place_task a t m"
proof -
  have len: "length (task_descriptor t) = 64" "task_record t = new_completion_record"
    using assms by (simp_all add: wf_task_def wf_descriptor_def)
  have d: "\<not> (in_region x a 64 \<and> in_region x (a + 64) 32)" for x
    using task_object_apart [of a] by (simp add: disjoint_regions_def)
  show ?thesis
    using d len by (auto simp: place_task_def store_bytes_def in_region_def fun_eq_iff)
qed


text \<open>
  A handler that is moved answers, at any later time, what it would have answered before,
  and the one it was moved from is invalid: it counts as finished and its result is an error.
  Assigning one handler to another exchanges their answers and touches no memory.
\<close>
lemma handler_moves:
  assumes "handler_move_construct x = (y, x')" "handler_move_assign False u v h = Some ((u', v'), h')"
  shows "handler_get pf failed make_result (handler_of y) s = handler_get pf failed make_result (handler_of x) s
    \<and> handler_is_finished pf (handler_of y) s = handler_is_finished pf (handler_of x) s
    \<and> handler_get pf failed make_result (handler_of x') s = Some (failed sc_error, s)
    \<and> handler_is_finished pf (handler_of x') s = Some (True, s) \<and> \<not> handler_valid (handler_of x')
    \<and> handler_get pf failed make_result (handler_of u') s = handler_get pf failed make_result (handler_of v) s
    \<and> handler_get pf failed make_result (handler_of v') s = handler_get pf failed make_result (handler_of u) s
    \<and> h' = h"
proof -
  have "handler_of y = handler_of x" "handler_status (handler_of x') = sc_error"
    using assms(1) by (auto simp: handler_move_construct_def buffer_move_construct_def handler_of_def)
  moreover have "u' = v" "v' = u" "h' = h" using assms(2) by (simp_all add: handler_assign_exchanges)
  ultimately show ?thesis by (simp add: handler_get_eq handler_is_finished_def handler_valid_def)
qed

section \<open>Sequences that were moved from\<close>

lemma hl_validation_no_overflow: "hl_validation_status v \<noteq> sc_batch_overflow"
  by (cases v) simp_all

lemma overrun_add:
  assumes "seq_count q < seq_current_length q" "i = unat (seq_current_length q)"
  shows "fst (sequence_add q t m) \<noteq> sc_batch_overflow
    \<and> snd (snd (sequence_add q t m)) = assign_view (seq_descriptor q i) (seq_record q i) t m"
  using assms hl_validation_no_overflow by (auto simp: sequence_add_def Let_def)

text \<open>
  Claim C40: moves copy the length of a sequence but move or exchange its arrays. A sequence that
  was moved from, or that was assigned from to one with fewer slots than it has operations, has a
  length beyond its capacity, and the test for a full sequence is an equality. Adding an operation
  to it does not report an overflow but writes the descriptor past the array, or, after a move
  construction, at an offset from the null pointer.
\<close>
theorem moved_sequence_overrun:
  assumes "array_count (so_operations a) < so_current_length b" "i = unat (so_current_length b)"
    and "r = snd (sequence_move_construct b) \<or> r = snd (sequence_move_assign False a b)"
  shows "seq_count (sequence_of r) < sequence_length (sequence_of r)
    \<and> fst (sequence_add (sequence_of r) t m) \<noteq> sc_batch_overflow
    \<and> snd (snd (sequence_add (sequence_of r) t m))
      = assign_view (seq_descriptor (sequence_of r) i) (seq_record (sequence_of r) i) t m
    \<and> (r = snd (sequence_move_construct b) \<longrightarrow> sequence_data (sequence_of r) = 0)"
proof -
  have "0 < so_current_length b" using assms(1) by (metis le_less_trans word_zero_le)
  then have lt: "seq_count (sequence_of r) < seq_current_length (sequence_of r)"
      "i = unat (seq_current_length (sequence_of r))"
    using assms by (auto simp: sequence_move_construct_def sequence_move_assign_def array_move_construct_def
        arrays.exchanges sequence_of_def)
  moreover have "sequence_data (sequence_of (snd (sequence_move_construct b))) = 0"
    by (simp add: sequence_move_construct_def array_move_construct_def sequence_of_def sequence_data_def)
  ultimately show ?thesis using overrun_add [OF lt] by (simp add: sequence_length_def)
qed

section \<open>Construction of a sequence\<close>

lemma construct_elements_eq:
  "sz * n \<le> 2 ^ 64 \<Longrightarrow> construct_elements sz a n m = store_bytes m a (replicate (sz * n) 0)"
proof (induction n)
  case (Suc n)
  then show ?case
    using store_bytes_append [of "replicate (sz * n) 0" "replicate sz 0" m a]
    by (simp add: replicate_add [symmetric] add.commute)
qed simp

text \<open>The element-wise construction gives the sequence all calls that add operations start from.\<close>
lemma new_sequence_built:
  assumes "new_sequence allocate len al h = Returns s h'"
  shows "seq_built [] (sequence_of s) (fst h')"
proof (rule seq_built.construct)
  have bound: "64 * unat len \<le> 2 ^ 64" "32 * unat len \<le> 2 ^ 64"
    using unsigned_less [of len, where ?'a = nat] by simp_all
  show "make_sequence len (array_data (so_operations s)) (array_data (so_results s)) (fst h) = (sequence_of s, fst h')"
    using assms bound
    by (auto simp: new_sequence_def new_buffer_array_def make_sequence_def sequence_of_def Let_def
        construct_elements_eq split: option.splits outcome.splits)
qed

section \<open>Example runs\<close>

text \<open>An allocator with room for two blocks.\<close>
definition sample_allocate :: "unit allocate" where
  "sample_allocate al n L =
     (if 0x100000 < n then None
      else if L = {#} then Some 0x200000
      else if \<forall>b \<in># L. blk_start b = 0x200000 \<and> blk_size b \<le> 0x100000 then Some 0x400000
      else None)"

lemma sample_allocate_lawful: "lawful_allocate sample_allocate"
  by (auto simp: lawful_allocate_def sample_allocate_def disjoint_regions_def in_region_no_wrap split: if_splits)

text \<open>The second array of the sequence cannot be allocated; the handler is moved and then destroyed.\<close>
definition sample_program :: "(unit, unit) statement list" where
  "sample_program = [Submit () software 0 (\<lambda>a. make_nop_task a 0) sc_ok, New_sequence () 4, Move_handler 0,
     Assign_handler 1 0, Assign_handler 1 1, Destroy_handler 1, Destroy_handler 0]"

theorem memory_ownership_witness:
  "\<exists>w. run_program sample_platform sample_allocate sample_program (empty_world (sample_hw, sample_mem, [])) = Some w
    \<and> w_live w = all_owned handler_owned (w_handlers w) + all_owned sequence_owned (w_sequences w)"
  using memory_ownership [OF sample_allocate_lawful, of sample_platform sample_program "(sample_hw, sample_mem, [])"]
  by blast


definition sample_sequence_object :: "u32 \<Rightarrow> u32 \<Rightarrow> unit sequence_object" where
  "sample_sequence_object cap len =
     \<lparr> so_operations = \<lparr> array_count = cap, array_data = 0x200000, array_aligned = 0x200000, array_allocator = () \<rparr>,
       so_results = \<lparr> array_count = cap, array_data = 0x400000, array_aligned = 0x400000, array_allocator = () \<rparr>,
       so_current_length = len \<rparr>"

theorem moved_sequence_overrun_witness:
  "\<forall>m. snd (snd (sequence_add (sequence_of (snd (sequence_move_construct (sample_sequence_object 4 2)))) (new_task 0 (make_nop_descriptor 0)) m))
    = assign_view 128 64 (new_task 0 (make_nop_descriptor 0)) m"
proof -
  have s: "seq_descriptor (sequence_of (snd (sequence_move_construct (sample_sequence_object 4 2)))) 2 = 128"
    "seq_record (sequence_of (snd (sequence_move_construct (sample_sequence_object 4 2)))) 2 = 64"
    by (simp_all add: seq_descriptor_def seq_record_def sequence_of_def sequence_move_construct_def
        array_move_construct_def sample_sequence_object_def)
  show ?thesis
    using moved_sequence_overrun [of "sample_sequence_object 0 0" "sample_sequence_object 4 2" 2, OF _ _ disjI1 [OF refl]]
    by (simp add: s) (simp add: sample_sequence_object_def)
qed

end
