(* ===== verification/DML_HL_Batch.thy ===== *)
theory DML_HL_Batch
  imports DML_HL_Ownership
begin

text \<open>
  Executing a sequence (\<open>hl/execute.hpp\<close>, \<open>hl/sequence.hpp\<close>, \<open>core/src/batch.cpp\<close>): the batch operation
  on a sequence that calls built, from the operations added to the result that is returned.
\<close>

section \<open>The batch operation on a sequence\<close>

text \<open>The descriptors of a sequence after a write elsewhere.\<close>
lemma seq_inv_elsewhere:
  assumes "seq_inv ds seq m" "seq_room seq"
    and "\<And>x. in_region x (seq_operations seq) (64 * unat (seq_count seq)) \<Longrightarrow> m' x = m x"
    and "i < length ds"
  shows "batch_item (seq_operations seq) i (m', ev) = rebind (ds ! i) (seq_record seq i)"
proof -
  have i: "i < unat (seq_count seq)" using assms(1,4) by (simp add: seq_inv_def)
  have "load_bytes m' (seq_descriptor seq i) 64 = load_bytes m (seq_descriptor seq i) 64"
  proof (rule load_bytes_cong, rule assms(3))
    fix k assume "k < (64 :: nat)"
    then have "in_region (seq_descriptor seq i + word_of_nat k) (seq_descriptor seq i) 64" by simp
    then show "in_region (seq_descriptor seq i + word_of_nat k) (seq_operations seq) (64 * unat (seq_count seq))"
      unfolding seq_descriptor_def using i seq_count_bound [of seq] by (elim in_region_part) simp_all
  qed
  with assms(1,4) show ?thesis by (simp add: seq_inv_def batch_item_def seq_descriptor_def)
qed

lemma seq_built_wf: "seq_built ds seq m \<Longrightarrow> d \<in> set ds \<Longrightarrow> wf_descriptor d"
  by (induction rule: seq_built.induct) (auto simp: adds_def split: if_splits)


section \<open>Example run\<close>

text \<open>Adding operations that do nothing, as long as there is room.\<close>
lemma add_nops:
  assumes "seq_built [] seq m" "seq_room seq" "n \<le> unat (seq_count seq)"
  shows "\<exists>seq' m'. seq_built (replicate n (make_nop_descriptor 0)) seq' m' \<and> seq_room seq'
    \<and> seq_operations seq' = seq_operations seq \<and> seq_results seq' = seq_results seq \<and> seq_count seq' = seq_count seq"
  using assms(3)
proof (induction n)
  case (Suc n)
  let ?d = "make_nop_descriptor 0"
  obtain seq1 m1 where b: "seq_built (replicate n ?d) seq1 m1" "seq_room seq1"
    and f: "seq_operations seq1 = seq_operations seq" "seq_results seq1 = seq_results seq" "seq_count seq1 = seq_count seq"
    using Suc by auto
  obtain status seq2 m2 where r: "sequence_add seq1 (new_task 0 ?d) m1 = (status, seq2, m2)" by (rule prod_cases3)
  have st: "status = sc_ok"
    using sequence_add_status [OF b _ r] f(3) Suc.prems by (simp add: validate_nop_descriptor)
  have a: "adds seq1 ?d m1 (status, seq2, m2)" unfolding adds_def r [symmetric] by simp blast
  have "seq_built (replicate (Suc n) ?d) seq2 m2"
    using seq_built.add [OF b(1) a] st by (simp add: replicate_append_same)
  moreover have "seq_operations seq2 = seq_operations seq1" "seq_results seq2 = seq_results seq1" "seq_count seq2 = seq_count seq1"
    using r st by (auto simp: sequence_add_def Let_def split: if_splits)
  ultimately show ?case using f b(2) seq_room_add [OF a] by auto
qed (use assms in auto)

definition nop_sequence :: sequence where
  "nop_sequence = fst (make_sequence 4 0x1000 0x3000 (\<lambda>_. 0))"

lemma nop_sequence_built: "seq_built [] nop_sequence (snd (make_sequence 4 0x1000 0x3000 (\<lambda>_. 0)))"
  unfolding nop_sequence_def by (rule seq_built.construct [of 4 "0x1000" "0x3000" "\<lambda>_. 0"]) simp

lemma nop_sequence_fields:
  "seq_operations nop_sequence = 0x1000" "seq_results nop_sequence = 0x3000" "seq_count nop_sequence = 4"
  by (simp_all add: nop_sequence_def make_sequence_def aligned_data_def Let_def)


end
