(* ===== verification/DML_Vector.thy ===== *)
theory DML_Vector
  imports DML_Ref_Kernels "HOL-Library.Monad_Syntax"
begin

text \<open>
  The vector instructions the AVX-512 kernels are written with, on registers as byte lists
  (least significant byte first), and the index tables and the variable shifts of
  \<open>core/src/sw_dispatcher/avx512/mem_move.c\<close>. An aligned load or store of an address that is
  not a multiple of 64 faults, which is the value \<open>None\<close>. The lemmas give every combination of
  two registers as a window of their concatenation.
\<close>

section \<open>Registers, masks and memory\<close>

type_synonym vec = "byte list"

definition aligned64 :: "addr \<Rightarrow> bool" where
  "aligned64 a \<longleftrightarrow> unat a mod 64 = 0"

text \<open>The mask whose bit \<open>i\<close> is \<open>P i\<close>.\<close>
definition mask_of :: "nat \<Rightarrow> (nat \<Rightarrow> bool) \<Rightarrow> 'a::len word" where
  "mask_of n P = horner_sum of_bool 2 (map P [0 ..< n])"

definition mm512_loadu_si512 :: "addr \<Rightarrow> mem \<Rightarrow> vec" where
  "mm512_loadu_si512 a m = load_bytes m a 64"

definition mm512_load_si512 :: "addr \<Rightarrow> mem \<Rightarrow> vec option" where
  "mm512_load_si512 a m = (if aligned64 a then Some (load_bytes m a 64) else None)"

definition mm512_store_si512 :: "addr \<Rightarrow> vec \<Rightarrow> mem \<Rightarrow> mem option" where
  "mm512_store_si512 a v m = (if aligned64 a then Some (store_bytes m a v) else None)"

definition mm512_maskz_loadu_epi8 :: "u64 \<Rightarrow> addr \<Rightarrow> mem \<Rightarrow> vec" where
  "mm512_maskz_loadu_epi8 k a m = map (\<lambda>i. if bit k i then m (a + word_of_nat i) else 0) [0 ..< 64]"

definition mm512_maskz_loadu_epi64 :: "u8 \<Rightarrow> addr \<Rightarrow> mem \<Rightarrow> vec" where
  "mm512_maskz_loadu_epi64 k a m =
     map (\<lambda>i. if bit k (i div 8) then m (a + word_of_nat i) else 0) [0 ..< 64]"

text \<open>
  The masked byte stores: one byte per bit of the mask, so a 64 bit mask for the 512 bit
  instruction and a 32 bit mask for the 256 bit one.
\<close>
definition mask_storeu_epi8 :: "addr \<Rightarrow> 'a::len word \<Rightarrow> vec \<Rightarrow> mem \<Rightarrow> mem" where
  "mask_storeu_epi8 a k v m = (\<lambda>x. if bit k (unat (x - a)) then v ! unat (x - a) else m x)"

section \<open>Lanes\<close>

definition mm512_set1_epi64 :: "u64 \<Rightarrow> vec" where
  "mm512_set1_epi64 p = concat (replicate 8 (bytes_of p))"

definition mm256_set1_epi64x :: "u64 \<Rightarrow> vec" where
  "mm256_set1_epi64x p = concat (replicate 4 (bytes_of p))"

definition mm512_cmpneq_epi8_mask :: "vec \<Rightarrow> vec \<Rightarrow> u64" where
  "mm512_cmpneq_epi8_mask a b = mask_of 64 (\<lambda>i. a ! i \<noteq> b ! i)"

text \<open>The 64 bit element \<open>i\<close> of a register.\<close>
definition epi64 :: "vec \<Rightarrow> nat \<Rightarrow> u64" where
  "epi64 a i = word_of (take 8 (drop (8 * i) a))"

definition mm512_cmpneq_epi64_mask :: "vec \<Rightarrow> vec \<Rightarrow> u8" where
  "mm512_cmpneq_epi64_mask a b = mask_of 8 (\<lambda>i. epi64 a i \<noteq> epi64 b i)"

definition mm512_mask_cmpneq_epi64_mask :: "u8 \<Rightarrow> vec \<Rightarrow> vec \<Rightarrow> u8" where
  "mm512_mask_cmpneq_epi64_mask k a b = k AND mm512_cmpneq_epi64_mask a b"

text \<open>The number of trailing zero bits, the width when no bit is set.\<close>
definition tzcnt :: "'a::len word \<Rightarrow> nat" where
  "tzcnt w = (case find (bit w) [0 ..< LENGTH('a)] of Some i \<Rightarrow> i | None \<Rightarrow> LENGTH('a))"

definition mm512_setzero_si512 :: vec where
  "mm512_setzero_si512 = replicate 64 0"

text \<open>The low 64 bytes of \<open>a:b\<close> shifted right by whole doublewords.\<close>
definition mm512_alignr_epi32 :: "vec \<Rightarrow> vec \<Rightarrow> nat \<Rightarrow> vec" where
  "mm512_alignr_epi32 a b imm8 = take 64 (drop (4 * (imm8 mod 16)) (b @ a))"

text \<open>The byte shifts inside every 128 bit lane.\<close>
definition mm512_bsrli_epi128 :: "vec \<Rightarrow> nat \<Rightarrow> vec" where
  "mm512_bsrli_epi128 a s = map (\<lambda>i. if i mod 16 + s < 16 then a ! (i + s) else 0) [0 ..< 64]"

definition mm512_bslli_epi128 :: "vec \<Rightarrow> nat \<Rightarrow> vec" where
  "mm512_bslli_epi128 a s = map (\<lambda>i. if s \<le> i mod 16 then a ! (i - s) else 0) [0 ..< 64]"

text \<open>Word \<open>i\<close> of the result is the word \<open>idx ! i\<close> of \<open>a\<close> followed by \<open>b\<close>.\<close>
definition mm512_permutex2var_epi16 :: "vec \<Rightarrow> nat list \<Rightarrow> vec \<Rightarrow> vec" where
  "mm512_permutex2var_epi16 a idx b =
     map (\<lambda>i. (a @ b) ! (2 * (idx ! (i div 2) mod 64) + i mod 2)) [0 ..< 64]"

definition mm512_mask_mov_epi8 :: "vec \<Rightarrow> u64 \<Rightarrow> vec \<Rightarrow> vec" where
  "mm512_mask_mov_epi8 s k a = map (\<lambda>i. if bit k i then a ! i else s ! i) [0 ..< 64]"

section \<open>Variable shifts and index tables (\<open>avx512/mem_move.c\<close>)\<close>

definition dmlc_own_mm512_bsrli_epi128 :: "vec \<Rightarrow> nat \<Rightarrow> vec" where
  "dmlc_own_mm512_bsrli_epi128 a s =
     (if s \<in> {1 .. 15} then mm512_bsrli_epi128 a s else mm512_setzero_si512)"

definition dmlc_own_mm512_bslli_epi128 :: "vec \<Rightarrow> nat \<Rightarrow> vec" where
  "dmlc_own_mm512_bslli_epi128 a s =
     (if s \<in> {1 .. 15} then mm512_bslli_epi128 a s else mm512_setzero_si512)"

text \<open>The cases are 0 and the multiples of 4 up to 60.\<close>
definition dmlc_own_mm512_alignr_epi8 :: "vec \<Rightarrow> vec \<Rightarrow> nat \<Rightarrow> vec" where
  "dmlc_own_mm512_alignr_epi8 a b s =
     (if s = 0 then b
      else if s mod 4 = 0 \<and> s \<le> 60 then mm512_alignr_epi32 a b (s div 4)
      else mm512_setzero_si512)"

definition permutex_idx_2u :: "nat list" where
  "permutex_idx_2u =
    [1, 2, 3, 4, 5, 6, 7, 8, 9, 10, 11, 12, 13, 14, 15, 16,
     17, 18, 19, 20, 21, 22, 23, 24, 25, 26, 27, 28, 29, 30, 31, 32]"

definition permutex_idx_4u :: "nat list" where
  "permutex_idx_4u =
    [2, 3, 4, 5, 6, 7, 8, 9, 10, 11, 12, 13, 14, 15, 16, 17,
     18, 19, 20, 21, 22, 23, 24, 25, 26, 27, 28, 29, 30, 31, 32, 33]"

definition permutex_idx_6u :: "nat list" where
  "permutex_idx_6u =
    [3, 4, 5, 6, 7, 8, 9, 10, 11, 12, 13, 14, 15, 16, 17, 18,
     19, 20, 21, 22, 23, 24, 25, 26, 27, 28, 29, 30, 31, 32, 33, 34]"

definition permutex_idx_8u :: "nat list" where
  "permutex_idx_8u =
    [4, 5, 6, 7, 8, 9, 10, 11, 12, 13, 14, 15, 16, 17, 18, 19,
     20, 21, 22, 23, 24, 25, 26, 27, 28, 29, 30, 31, 32, 33, 34, 35]"

definition permutex_idx_10u :: "nat list" where
  "permutex_idx_10u =
    [5, 6, 7, 8, 9, 10, 11, 12, 13, 14, 15, 16, 17, 18, 19, 20,
     21, 22, 23, 24, 25, 26, 27, 28, 29, 30, 31, 32, 33, 34, 35, 36]"

definition permutex_idx_12u :: "nat list" where
  "permutex_idx_12u =
    [6, 7, 8, 9, 10, 11, 12, 13, 14, 15, 16, 17, 18, 19, 20, 21,
     22, 23, 24, 25, 26, 27, 28, 29, 30, 31, 32, 33, 34, 35, 36, 37]"

definition permutex_idx_14u :: "nat list" where
  "permutex_idx_14u =
    [7, 8, 9, 10, 11, 12, 13, 14, 15, 16, 17, 18, 19, 20, 21, 22,
     23, 24, 25, 26, 27, 28, 29, 30, 31, 32, 33, 34, 35, 36, 37, 38]"

definition permutex_idx_16u :: "nat list" where
  "permutex_idx_16u =
    [8, 9, 10, 11, 12, 13, 14, 15, 16, 17, 18, 19, 20, 21, 22, 23,
     24, 25, 26, 27, 28, 29, 30, 31, 32, 33, 34, 35, 36, 37, 38, 39]"

definition permutex_idx_18u :: "nat list" where
  "permutex_idx_18u =
    [9, 10, 11, 12, 13, 14, 15, 16, 17, 18, 19, 20, 21, 22, 23, 24,
     25, 26, 27, 28, 29, 30, 31, 32, 33, 34, 35, 36, 37, 38, 39, 40]"

definition permutex_idx_20u :: "nat list" where
  "permutex_idx_20u =
    [10, 11, 12, 13, 14, 15, 16, 17, 18, 19, 20, 21, 22, 23, 24, 25,
     26, 27, 28, 29, 30, 31, 32, 33, 34, 35, 36, 37, 38, 39, 40, 41]"

definition permutex_idx_22u :: "nat list" where
  "permutex_idx_22u =
    [11, 12, 13, 14, 15, 16, 17, 18, 19, 20, 21, 22, 23, 24, 25, 26,
     27, 28, 29, 30, 31, 32, 33, 34, 35, 36, 37, 38, 39, 40, 41, 42]"

definition permutex_idx_24u :: "nat list" where
  "permutex_idx_24u =
    [12, 13, 14, 15, 16, 17, 18, 19, 20, 21, 22, 23, 24, 25, 26, 27,
     28, 29, 30, 31, 32, 33, 34, 35, 36, 37, 38, 39, 40, 41, 42, 43]"

definition permutex_idx_26u :: "nat list" where
  "permutex_idx_26u =
    [13, 14, 15, 16, 17, 18, 19, 20, 21, 22, 23, 24, 25, 26, 27, 28,
     29, 30, 31, 32, 33, 34, 35, 36, 37, 38, 39, 40, 41, 42, 43, 44]"

definition permutex_idx_28u :: "nat list" where
  "permutex_idx_28u =
    [14, 15, 16, 17, 18, 19, 20, 21, 22, 23, 24, 25, 26, 27, 28, 29,
     30, 31, 32, 33, 34, 35, 36, 37, 38, 39, 40, 41, 42, 43, 44, 45]"

definition permutex_idx_30u :: "nat list" where
  "permutex_idx_30u =
    [15, 16, 17, 18, 19, 20, 21, 22, 23, 24, 25, 26, 27, 28, 29, 30,
     31, 32, 33, 34, 35, 36, 37, 38, 39, 40, 41, 42, 43, 44, 45, 46]"

definition permutex_idx_32u :: "nat list" where
  "permutex_idx_32u =
    [16, 17, 18, 19, 20, 21, 22, 23, 24, 25, 26, 27, 28, 29, 30, 31,
     32, 33, 34, 35, 36, 37, 38, 39, 40, 41, 42, 43, 44, 45, 46, 47]"

definition permutex_idx_34u :: "nat list" where
  "permutex_idx_34u =
    [17, 18, 19, 20, 21, 22, 23, 24, 25, 26, 27, 28, 29, 30, 31, 32,
     33, 34, 35, 36, 37, 38, 39, 40, 41, 42, 43, 44, 45, 46, 47, 48]"

definition permutex_idx_36u :: "nat list" where
  "permutex_idx_36u =
    [18, 19, 20, 21, 22, 23, 24, 25, 26, 27, 28, 29, 30, 31, 32, 33,
     34, 35, 36, 37, 38, 39, 40, 41, 42, 43, 44, 45, 46, 47, 48, 49]"

definition permutex_idx_38u :: "nat list" where
  "permutex_idx_38u =
    [19, 20, 21, 22, 23, 24, 25, 26, 27, 28, 29, 30, 31, 32, 33, 34,
     35, 36, 37, 38, 39, 40, 41, 42, 43, 44, 45, 46, 47, 48, 49, 50]"

definition permutex_idx_40u :: "nat list" where
  "permutex_idx_40u =
    [20, 21, 22, 23, 24, 25, 26, 27, 28, 29, 30, 31, 32, 33, 34, 35,
     36, 37, 38, 39, 40, 41, 42, 43, 44, 45, 46, 47, 48, 49, 50, 51]"

definition permutex_idx_42u :: "nat list" where
  "permutex_idx_42u =
    [21, 22, 23, 24, 25, 26, 27, 28, 29, 30, 31, 32, 33, 34, 35, 36,
     37, 38, 39, 40, 41, 42, 43, 44, 45, 46, 47, 48, 49, 50, 51, 52]"

definition permutex_idx_44u :: "nat list" where
  "permutex_idx_44u =
    [22, 23, 24, 25, 26, 27, 28, 29, 30, 31, 32, 33, 34, 35, 36, 37,
     38, 39, 40, 41, 42, 43, 44, 45, 46, 47, 48, 49, 50, 51, 52, 53]"

definition permutex_idx_46u :: "nat list" where
  "permutex_idx_46u =
    [23, 24, 25, 26, 27, 28, 29, 30, 31, 32, 33, 34, 35, 36, 37, 38,
     39, 40, 41, 42, 43, 44, 45, 46, 47, 48, 49, 50, 51, 52, 53, 54]"

definition permutex_idx_48u :: "nat list" where
  "permutex_idx_48u =
    [24, 25, 26, 27, 28, 29, 30, 31, 32, 33, 34, 35, 36, 37, 38, 39,
     40, 41, 42, 43, 44, 45, 46, 47, 48, 49, 50, 51, 52, 53, 54, 55]"

definition permutex_idx_50u :: "nat list" where
  "permutex_idx_50u =
    [25, 26, 27, 28, 29, 30, 31, 32, 33, 34, 35, 36, 37, 38, 39, 40,
     41, 42, 43, 44, 45, 46, 47, 48, 49, 50, 51, 52, 53, 54, 55, 56]"

definition permutex_idx_52u :: "nat list" where
  "permutex_idx_52u =
    [26, 27, 28, 29, 30, 31, 32, 33, 34, 35, 36, 37, 38, 39, 40, 41,
     42, 43, 44, 45, 46, 47, 48, 49, 50, 51, 52, 53, 54, 55, 56, 57]"

definition permutex_idx_54u :: "nat list" where
  "permutex_idx_54u =
    [27, 28, 29, 30, 31, 32, 33, 34, 35, 36, 37, 38, 39, 40, 41, 42,
     43, 44, 45, 46, 47, 48, 49, 50, 51, 52, 53, 54, 55, 56, 57, 58]"

definition permutex_idx_56u :: "nat list" where
  "permutex_idx_56u =
    [28, 29, 30, 31, 32, 33, 34, 35, 36, 37, 38, 39, 40, 41, 42, 43,
     44, 45, 46, 47, 48, 49, 50, 51, 52, 53, 54, 55, 56, 57, 58, 59]"

definition permutex_idx_58u :: "nat list" where
  "permutex_idx_58u =
    [29, 30, 31, 32, 33, 34, 35, 36, 37, 38, 39, 40, 41, 42, 43, 44,
     45, 46, 47, 48, 49, 50, 51, 52, 53, 54, 55, 56, 57, 58, 59, 60]"

definition permutex_idx_60u :: "nat list" where
  "permutex_idx_60u =
    [30, 31, 32, 33, 34, 35, 36, 37, 38, 39, 40, 41, 42, 43, 44, 45,
     46, 47, 48, 49, 50, 51, 52, 53, 54, 55, 56, 57, 58, 59, 60, 61]"

definition permutex_idx_62u :: "nat list" where
  "permutex_idx_62u =
    [31, 32, 33, 34, 35, 36, 37, 38, 39, 40, 41, 42, 43, 44, 45, 46,
     47, 48, 49, 50, 51, 52, 53, 54, 55, 56, 57, 58, 59, 60, 61, 62]"

definition permutex_idx_pptr :: "nat list list" where
  "permutex_idx_pptr =
    [permutex_idx_2u, permutex_idx_4u, permutex_idx_6u, permutex_idx_8u,
     permutex_idx_10u, permutex_idx_12u, permutex_idx_14u, permutex_idx_16u,
     permutex_idx_18u, permutex_idx_20u, permutex_idx_22u, permutex_idx_24u,
     permutex_idx_26u, permutex_idx_28u, permutex_idx_30u, permutex_idx_32u,
     permutex_idx_34u, permutex_idx_36u, permutex_idx_38u, permutex_idx_40u,
     permutex_idx_42u, permutex_idx_44u, permutex_idx_46u, permutex_idx_48u,
     permutex_idx_50u, permutex_idx_52u, permutex_idx_54u, permutex_idx_56u,
     permutex_idx_58u, permutex_idx_60u, permutex_idx_62u]"

section \<open>Masks\<close>

lemma bit_mask_of:
  "n \<le> LENGTH('a) \<Longrightarrow> bit (mask_of n P :: 'a::len word) i \<longleftrightarrow> i < n \<and> P i"
  by (auto simp: mask_of_def bit_horner_sum_bit_word_iff)

lemma mask_of_eq_0:
  "n \<le> LENGTH('a) \<Longrightarrow> (mask_of n P :: 'a::len word) = 0 \<longleftrightarrow> (\<forall>i<n. \<not> P i)"
  by (auto simp: bit_eq_iff bit_mask_of)

text \<open>Counting the trailing zeros of a mask finds its first element.\<close>
lemma tzcnt_first:
  assumes "bit (w :: 'a::len word) k" "\<And>j. j < k \<Longrightarrow> \<not> bit w j"
  shows "tzcnt w = k"
proof -
  have "k < LENGTH('a)" using assms(1) by (rule bit_imp_le_length)
  with assms have "find (bit w) [0 ..< LENGTH('a)] = Some k" by (auto simp: find_upt_Some)
  then show ?thesis by (simp add: tzcnt_def)
qed

lemma length_vec [simp]:
  "length (mm512_loadu_si512 a m) = 64" "length (mm512_maskz_loadu_epi8 k a m) = 64"
  "length (mm512_set1_epi64 p) = 64" "length (mm256_set1_epi64x p) = 32"
  by (simp_all add: mm512_loadu_si512_def mm512_maskz_loadu_epi8_def mm512_set1_epi64_def
      mm256_set1_epi64x_def length_concat sum_list_replicate)

lemma nth_repeated:
  "i < r * length xs \<Longrightarrow> concat (replicate r xs) ! i = xs ! (i mod length xs)"
proof (induction r arbitrary: i)
  case (Suc r)
  show ?case
  proof (cases "i < length xs")
    case False
    with Suc.prems have "i - length xs < r * length xs" by simp
    from Suc.IH [OF this] False show ?thesis by (simp add: nth_append le_mod_geq)
  qed (simp add: nth_append)
qed simp

text \<open>A register that repeats a pattern holds the pattern bytes.\<close>
lemma set1_pattern:
  "mm512_set1_epi64 p = pattern_bytes p 64" "mm256_set1_epi64x p = pattern_bytes p 32"
  by (rule nth_equalityI;
      simp add: mm512_set1_epi64_def mm256_set1_epi64x_def length_concat sum_list_replicate
        pattern_bytes_def nth_repeated)+

section \<open>Windows of two registers\<close>

lemmas permutex_tables =
  permutex_idx_2u_def permutex_idx_4u_def permutex_idx_6u_def permutex_idx_8u_def
  permutex_idx_10u_def permutex_idx_12u_def permutex_idx_14u_def permutex_idx_16u_def
  permutex_idx_18u_def permutex_idx_20u_def permutex_idx_22u_def permutex_idx_24u_def
  permutex_idx_26u_def permutex_idx_28u_def permutex_idx_30u_def permutex_idx_32u_def
  permutex_idx_34u_def permutex_idx_36u_def permutex_idx_38u_def permutex_idx_40u_def
  permutex_idx_42u_def permutex_idx_44u_def permutex_idx_46u_def permutex_idx_48u_def
  permutex_idx_50u_def permutex_idx_52u_def permutex_idx_54u_def permutex_idx_56u_def
  permutex_idx_58u_def permutex_idx_60u_def permutex_idx_62u_def permutex_idx_pptr_def

lemma permutex_row_all:
  "list_all (\<lambda>j. permutex_idx_pptr ! j = [Suc j ..< j + 33]) [0 ..< 31]"
  by (simp add: permutex_tables upt_rec)

text \<open>Row \<open>j\<close> of the tables selects 32 words from word \<open>j + 1\<close> on.\<close>
lemma permutex_row: "j < 31 \<Longrightarrow> permutex_idx_pptr ! j = [Suc j ..< j + 33]"
  using permutex_row_all by (simp add: list_all_iff)

definition window :: "nat \<Rightarrow> vec \<Rightarrow> vec \<Rightarrow> vec" where
  "window s a b = take 64 (drop s (a @ b))"

lemma length_window [simp]:
  "length a = 64 \<Longrightarrow> length b = 64 \<Longrightarrow> s \<le> 64 \<Longrightarrow> length (window s a b) = 64"
  by (simp add: window_def)

lemma nth_window: "length a = 64 \<Longrightarrow> length b = 64 \<Longrightarrow> s \<le> 64 \<Longrightarrow> i < 64 \<Longrightarrow>
    window s a b ! i = (a @ b) ! (s + i)"
  by (simp add: window_def del: take_append drop_append)

lemma window_parts:
  "length a = 64 \<Longrightarrow> length b = 64 \<Longrightarrow> s \<le> 64 \<Longrightarrow> window s a b = drop s a @ take s b"
  by (simp add: window_def)

lemma alignr_window:
  assumes "s mod 4 = 0" "s < 64" "length a = 64" "length b = 64"
  shows "dmlc_own_mm512_alignr_epi8 b a s = window s a b"
proof -
  obtain q where q: "s = 4 * q" using assms(1) by auto
  with assms show ?thesis
    by (auto simp: dmlc_own_mm512_alignr_epi8_def mm512_alignr_epi32_def window_def)
qed

lemma permutex_window:
  assumes "s mod 2 = 0" "0 < s" "s < 64" "length a = 64" "length b = 64"
  shows "mm512_permutex2var_epi16 a (permutex_idx_pptr ! ((s - 2) div 2)) b = window s a b"
proof -
  from assms(1,2) obtain q where q: "s = 2 * Suc q"
    by (metis mult_0_right mod_eq_0_iff_dvd dvdE not0_implies_Suc not_less_zero)
  with assms(3) have row: "permutex_idx_pptr ! ((s - 2) div 2) = [Suc q ..< q + 33]"
    using permutex_row [of q] by simp
  show ?thesis unfolding row
  proof (rule nth_equalityI)
    fix i assume "i < length (mm512_permutex2var_epi16 a [Suc q ..< q + 33] b)"
    then have i: "i < 64" by (simp add: mm512_permutex2var_epi16_def)
    then have "i div 2 < 32" by simp
    moreover from this have "Suc q + i div 2 < 64" using q assms(3) by simp
    moreover have "2 * (Suc q + i div 2) + i mod 2 = s + i" using q by simp
    ultimately show "mm512_permutex2var_epi16 a [Suc q ..< q + 33] b ! i = window s a b ! i"
      using i assms(3-5) q by (simp add: mm512_permutex2var_epi16_def nth_window add.commute [of i] del: upt_Suc)
  qed (use assms in \<open>simp add: mm512_permutex2var_epi16_def\<close>)
qed

text \<open>The masks of the two odd cases select the first and all but the last byte of a lane.\<close>
lemma lane_mask_first_all: "list_all (\<lambda>i. bit (0x0001000100010001 :: u64) i = (i mod 16 = 0)) [0 ..< 64]"
  by (simp add: upt_rec bit_numeral_rec)

lemma lane_mask_rest_all: "list_all (\<lambda>i. bit (0x7FFF7FFF7FFF7FFF :: u64) i = (i mod 16 \<noteq> 15)) [0 ..< 64]"
  by (simp add: upt_rec bit_numeral_rec)

lemma lane_mask:
  "i < 64 \<Longrightarrow> bit (0x0001000100010001 :: u64) i = (i mod 16 = 0)"
  "i < 64 \<Longrightarrow> bit (0x7FFF7FFF7FFF7FFF :: u64) i = (i mod 16 \<noteq> 15)"
  using lane_mask_first_all lane_mask_rest_all by (simp_all add: list_all_iff)

lemma lower_window:
  assumes "odd s" "s < 16" "length a = 64" "length b = 64"
  shows "mm512_mask_mov_epi8
      (dmlc_own_mm512_bslli_epi128
        (mm512_permutex2var_epi16 a (permutex_idx_pptr ! ((s - 1) div 2)) b) 1)
      0x0001000100010001 (dmlc_own_mm512_bsrli_epi128 a s) = window s a b" (is "?v = _")
proof (rule nth_equalityI)
  have "0 < s" using assms(1) by (cases s) auto
  have perm: "mm512_permutex2var_epi16 a (permutex_idx_pptr ! ((s - 1) div 2)) b = window (Suc s) a b"
    using permutex_window [of "Suc s" a b] assms by (simp add: odd_iff_mod_2_eq_one)
  fix i assume "i < length ?v"
  then have i: "i < 64" by (simp add: mm512_mask_mov_epi8_def)
  show "?v ! i = window s a b ! i"
  proof (cases "i mod 16 = 0")
    case True
    then obtain q where "i = 16 * q" by (metis mod_eq_0_iff_dvd dvdE)
    then have "q < 4" "i = 16 * q" using i by simp_all
    with assms(2) have "i + s < 64" by linarith
    moreover have "bit (0x0001000100010001 :: u64) i" using lane_mask(1) [OF i] True by (rule iffD2)
    ultimately show ?thesis using True i assms \<open>0 < s\<close>
      by (simp add: mm512_mask_mov_epi8_def dmlc_own_mm512_bsrli_epi128_def
          mm512_bsrli_epi128_def nth_window nth_append add.commute)
  next
    case False
    then obtain j where j: "i = Suc j" by (cases i) auto
    moreover have "\<not> bit (0x0001000100010001 :: u64) i" by (subst lane_mask(1) [OF i]) (rule False)
    moreover have "1 \<le> i mod 16" using False by linarith
    ultimately show ?thesis using i assms(2-4) unfolding perm
      by (simp add: mm512_mask_mov_epi8_def dmlc_own_mm512_bslli_epi128_def
          mm512_bslli_epi128_def nth_window)
  qed
qed (use assms in \<open>simp add: mm512_mask_mov_epi8_def\<close>)

lemma higher_window:
  assumes "odd s" "48 < s" "s < 64" "length a = 64" "length b = 64"
  shows "mm512_mask_mov_epi8 (dmlc_own_mm512_bslli_epi128 b (64 - s)) 0x7FFF7FFF7FFF7FFF
      (dmlc_own_mm512_bsrli_epi128
        (mm512_permutex2var_epi16 a (permutex_idx_pptr ! ((s - 3) div 2)) b) 1)
    = window s a b" (is "?v = _")
proof (rule nth_equalityI)
  have perm: "mm512_permutex2var_epi16 a (permutex_idx_pptr ! ((s - 3) div 2)) b = window (s - 1) a b"
    using permutex_window [of "s - 1" a b] assms by (simp add: numeral_3_eq_3)
  fix i assume "i < length ?v"
  then have i: "i < 64" by (simp add: mm512_mask_mov_epi8_def)
  show "?v ! i = window s a b ! i"
  proof (cases "i mod 16 = 15")
    case True
    then have "15 \<le> i" by (metis mod_less_eq_dividend)
    then have "i - (64 - s) = s + i - 64" "64 \<le> s + i" "64 - s \<le> 15" "64 - s \<in> {1 .. 15}"
      using assms(2,3) by auto
    moreover have "\<not> bit (0x7FFF7FFF7FFF7FFF :: u64) i" by (subst lane_mask(2) [OF i]) (simp add: True)
    ultimately show ?thesis using True i assms(2-5)
      by (simp add: mm512_mask_mov_epi8_def dmlc_own_mm512_bslli_epi128_def
          mm512_bslli_epi128_def nth_window nth_append)
  next
    case False
    moreover have "i mod 16 < 16" by simp
    ultimately have "i mod 16 + 1 < 16" by linarith
    moreover from False i have "i \<noteq> 63" by auto
    then have "Suc i < 64" using i by linarith
    moreover have "bit (0x7FFF7FFF7FFF7FFF :: u64) i" using lane_mask(2) [OF i] False by (rule iffD2)
    ultimately show ?thesis using i assms(2-5) unfolding perm
      by (simp add: mm512_mask_mov_epi8_def dmlc_own_mm512_bsrli_epi128_def
          mm512_bsrli_epi128_def nth_window)
  qed
qed (use assms in \<open>simp add: mm512_mask_mov_epi8_def\<close>)

end
