(* ===== verification/DML_Avx512.thy ===== *)
theory DML_Avx512
  imports DML_Vector
begin

text \<open>
  The AVX-512 comparison and fill routines of \<open>core/src/sw_dispatcher/avx512\<close> (\<open>compare.c\<close>,
  \<open>compare_pattern.c\<close>, \<open>fill.c\<close>), each proved equal to the portable routine it replaces. A
  value \<open>None\<close> is a routine that faults on an unaligned vector access or never returns.
\<close>

section \<open>Compare (\<open>avx512/compare.c\<close>)\<close>

text \<open>
  The loop over whole registers with its 32 bit counter: \<open>Inr\<close> is the early return of a
  mismatch position, \<open>Inl\<close> the counter the loop ends with.
\<close>
partial_function (option) avx512_compare_loop ::
  "addr \<Rightarrow> addr \<Rightarrow> u32 \<Rightarrow> u32 \<Rightarrow> mem \<Rightarrow> (u32 + u32) option" where
  "avx512_compare_loop src1 src2 i transfer_size m =
     (if i + 64 \<le> transfer_size
      then let msk64 = mm512_cmpneq_epi8_mask (mm512_loadu_si512 (src1 + ucast i) m)
                 (mm512_loadu_si512 (src2 + ucast i) m)
           in if msk64 \<noteq> 0 then Some (Inr (i + word_of_nat (tzcnt msk64)))
              else avx512_compare_loop src1 src2 (i + 64) transfer_size m
      else Some (Inl i))"

definition dml_avx512_compare :: "addr \<Rightarrow> addr \<Rightarrow> u32 \<Rightarrow> mem \<Rightarrow> (u32 \<times> u8) option" where
  "dml_avx512_compare src1 src2 transfer_size m = do {
     r \<leftarrow> avx512_compare_loop src1 src2 0 transfer_size m;
     Some (case r of
         Inr mismatch \<Rightarrow> (mismatch, 1)
       | Inl i \<Rightarrow>
           (let tail = transfer_size AND 63;
                msk64 = push_bit (unat tail) 1 - 1;
                msk64 = mm512_cmpneq_epi8_mask (mm512_maskz_loadu_epi8 msk64 (src1 + ucast i) m)
                  (mm512_maskz_loadu_epi8 msk64 (src2 + ucast i) m)
            in if msk64 \<noteq> 0 then (i + word_of_nat (tzcnt msk64), 1) else (0, 0)))
   }"

section \<open>Compare with pattern (\<open>avx512/compare_pattern.c\<close>)\<close>

text \<open>The loop over registers of eight patterns; the counters stay below \<open>2 ^ 30\<close>.\<close>
function avx512_pattern_loop :: "u64 \<Rightarrow> addr \<Rightarrow> nat \<Rightarrow> nat \<Rightarrow> mem \<Rightarrow> u32 + nat" where
  "avx512_pattern_loop pattern src i pattern_chunk_count m =
     (if i + 8 \<le> pattern_chunk_count
      then let msk8 = mm512_cmpneq_epi64_mask (mm512_loadu_si512 (src + word_of_nat (8 * i)) m)
                 (mm512_set1_epi64 pattern)
           in if msk8 \<noteq> 0
              then Inl (push_bit 3 (word_of_nat (i + tzcnt (ucast msk8 :: u32))))
              else avx512_pattern_loop pattern src (i + 8) pattern_chunk_count m
      else Inr i)"
  by pat_completeness auto
termination
  by (relation "measure (\<lambda>(p, src, i, n, m). n - i)") auto

declare avx512_pattern_loop.simps [simp del]

text \<open>The byte loop at the end, which shifts the pattern as it goes.\<close>
fun avx512_pattern_tail :: "u64 \<Rightarrow> addr \<Rightarrow> nat \<Rightarrow> nat \<Rightarrow> mem \<Rightarrow> nat option" where
  "avx512_pattern_tail byte_pattern src i 0 m = None"
| "avx512_pattern_tail byte_pattern src i (Suc left) m =
     (if m (src + word_of_nat i) \<noteq> ucast byte_pattern then Some i
      else avx512_pattern_tail (drop_bit 8 byte_pattern) src (Suc i) left m)"

definition dml_avx512_compare_pattern :: "u64 \<Rightarrow> addr \<Rightarrow> u32 \<Rightarrow> mem \<Rightarrow> u32 \<times> u8" where
  "dml_avx512_compare_pattern pattern src transfer_size m =
     (let pattern_chunk_count = unat (drop_bit 3 transfer_size);
          tail_bytes_count = unat (transfer_size AND 7)
      in case avx512_pattern_loop pattern src 0 pattern_chunk_count m of
           Inl mismatch \<Rightarrow> (mismatch, 1)
         | Inr i \<Rightarrow>
             (let tail = pattern_chunk_count mod 8;
                  msk8 = push_bit tail 1 - 1;
                  msk8 = mm512_mask_cmpneq_epi64_mask msk8
                    (mm512_maskz_loadu_epi64 msk8 (src + word_of_nat (8 * i)) m)
                    (mm512_set1_epi64 pattern)
              in if tail \<noteq> 0 \<and> msk8 \<noteq> 0
                 then (push_bit 3 (word_of_nat (i + tzcnt (ucast msk8 :: u32))), 1)
                 else (case avx512_pattern_tail pattern
                           (src + word_of_nat (unat transfer_size - tail_bytes_count)) 0
                           tail_bytes_count m of
                         Some j \<Rightarrow> (push_bit 3 (word_of_nat pattern_chunk_count) + word_of_nat j, 1)
                       | None \<Rightarrow> (0, 0))))"

section \<open>Fill (\<open>avx512/fill.c\<close>)\<close>

text \<open>
  \<open>x >> k\<close> on 64 bit integers. C leaves a shift by the width or more undefined: \<open>wide\<close> is what
  the compiled code yields there.
\<close>
definition shr_u64 :: "(u64 \<Rightarrow> nat \<Rightarrow> u64) \<Rightarrow> u64 \<Rightarrow> nat \<Rightarrow> u64" where
  "shr_u64 wide x k = (if k < 64 then drop_bit k x else wide x k)"

text \<open>The loop \<open>while (head_ptr != tail_ptr)\<close>, whose distance is a whole number of registers.\<close>
fun fill_head_avx512 :: "addr \<Rightarrow> nat \<Rightarrow> vec \<Rightarrow> mem \<Rightarrow> mem option" where
  "fill_head_avx512 head_ptr 0 zmm_pattern m = Some m"
| "fill_head_avx512 head_ptr (Suc k) zmm_pattern m = do {
     m' \<leftarrow> mm512_store_si512 head_ptr zmm_pattern m;
     fill_head_avx512 (head_ptr + 64) k zmm_pattern m'
   }"

definition fill_big_avx512 ::
  "(u64 \<Rightarrow> nat \<Rightarrow> u64) \<Rightarrow> u64 \<Rightarrow> addr \<Rightarrow> u32 \<Rightarrow> mem \<Rightarrow> mem option" where
  "fill_big_avx512 wide pattern src transfer_size m =
     (let unaligned_bytes = unat src mod 64;
          unaligned_part_size = (if unaligned_bytes = 0 then 0 else 64 - unaligned_bytes);
          m1 = (if unaligned_part_size \<noteq> 0
                then mask_storeu_epi8 src (drop_bit unaligned_bytes (- 1) :: u64)
                       (mm512_set1_epi64 pattern) m
                else m);
          pattern1 = (if unaligned_part_size \<noteq> 0
                then push_bit (unaligned_bytes mod 8 * 8) pattern
                       OR shr_u64 wide pattern (64 - unaligned_bytes mod 8 * 8)
                else pattern);
          zmm_pattern = mm512_set1_epi64 pattern1;
          aligned_part_size = unat transfer_size - unaligned_part_size;
          head_size = aligned_part_size div 64;
          tail_size = aligned_part_size mod 64;
          head_ptr = src + word_of_nat unaligned_part_size;
          tail_ptr = head_ptr + word_of_nat (64 * head_size)
      in do {
        m2 \<leftarrow> (if head_size \<noteq> 0 then fill_head_avx512 head_ptr head_size zmm_pattern m1 else Some m1);
        Some (if tail_size \<noteq> 0
              then mask_storeu_epi8 tail_ptr (NOT (push_bit tail_size (- 1)) :: u64) zmm_pattern m2
              else m2)
      })"

definition fill_small_avx512 :: "u64 \<Rightarrow> addr \<Rightarrow> u32 \<Rightarrow> mem \<Rightarrow> mem" where
  "fill_small_avx512 pattern src transfer_size m =
     (let tail_size = unat transfer_size mod 64;
          ymm1_pattern = mm256_set1_epi64x pattern;
          mask_value = NOT (push_bit tail_size (- 1)) :: u64;
          m1 = mask_storeu_epi8 src (ucast mask_value :: u32) ymm1_pattern m
      in mask_storeu_epi8 (src + 32) (ucast (drop_bit 32 mask_value) :: u32) ymm1_pattern m1)"

definition dml_avx512_fill_u64 ::
  "(u64 \<Rightarrow> nat \<Rightarrow> u64) \<Rightarrow> u64 \<Rightarrow> addr \<Rightarrow> u32 \<Rightarrow> mem \<Rightarrow> mem option" where
  "dml_avx512_fill_u64 wide pattern dst transfer_size m =
     (if unat transfer_size < 64 then Some (fill_small_avx512 pattern dst transfer_size m)
      else fill_big_avx512 wide pattern dst transfer_size m)"

section \<open>Searches in masks\<close>

lemma mask_of_find_None:
  assumes "n \<le> LENGTH('a)"
  shows "(mask_of n (\<lambda>j. P (a + j)) :: 'a::len word) = 0 \<longleftrightarrow> find P [a ..< a + n] = None"
proof -
  have "(\<forall>j. a \<le> j \<and> j < a + n \<longrightarrow> \<not> P j) \<longleftrightarrow> (\<forall>j<n. \<not> P (a + j))"
    by (metis add_less_cancel_left le_Suc_ex le_add1)
  with assms show ?thesis by (simp add: mask_of_eq_0 find_upt_None)
qed

lemma mask_of_find_Some:
  assumes "n \<le> LENGTH('a)" "find P [a ..< a + n] = Some k"
  shows "a + tzcnt (mask_of n (\<lambda>j. P (a + j)) :: 'a::len word) = k"
proof -
  from assms(2) have k: "a \<le> k" "k < a + n" "P k" "\<And>j. a \<le> j \<Longrightarrow> j < k \<Longrightarrow> \<not> P j"
    by (auto simp: find_upt_Some)
  then have "tzcnt (mask_of n (\<lambda>j. P (a + j)) :: 'a word) = k - a"
    using assms(1) by (intro tzcnt_first) (auto simp: bit_mask_of)
  with k(1) show ?thesis by simp
qed

lemma mask_of_find:
  assumes "n \<le> LENGTH('a)"
  shows "(if (mask_of n (\<lambda>j. P (a + j)) :: 'a::len word) \<noteq> 0
      then f (a + tzcnt (mask_of n (\<lambda>j. P (a + j)) :: 'a word)) else y)
    = (case find P [a ..< a + n] of Some k \<Rightarrow> f k | None \<Rightarrow> y)"
  using mask_of_find_None [OF assms, of P a] mask_of_find_Some [OF assms, of P a]
  by (cases "find P [a ..< a + n]") simp_all

lemma find_append:
  "find P (xs @ ys) = (case find P xs of Some k \<Rightarrow> Some k | None \<Rightarrow> find P ys)"
  by (induction xs) simp_all

lemma find_split:
  "a \<le> b \<Longrightarrow> b \<le> c \<Longrightarrow> find P [a ..< c] =
     (case find P [a ..< b] of Some k \<Rightarrow> Some k | None \<Rightarrow> find P [b ..< c])"
  using upt_add_eq_append [of a b "c - b"] by (simp add: find_append)

section \<open>The comparison loop\<close>

lemma cmpneq_load:
  "mm512_cmpneq_epi8_mask (mm512_loadu_si512 (a + word_of_nat k) m) (mm512_loadu_si512 (b + word_of_nat k) m)
     = mask_of 64 (\<lambda>j. m (a + word_of_nat (k + j)) \<noteq> m (b + word_of_nat (k + j)))"
  by (rule bit_word_eqI)
    (auto simp: mm512_cmpneq_epi8_mask_def mm512_loadu_si512_def bit_mask_of add.assoc)

lemma cmpneq_load_tail:
  assumes "t < 64"
  shows "mm512_cmpneq_epi8_mask
      (mm512_maskz_loadu_epi8 (push_bit t 1 - 1) (a + word_of_nat k) m)
      (mm512_maskz_loadu_epi8 (push_bit t 1 - 1) (b + word_of_nat k) m)
    = mask_of t (\<lambda>j. m (a + word_of_nat (k + j)) \<noteq> m (b + word_of_nat (k + j)))"
proof (rule bit_word_eqI)
  have "push_bit t 1 - 1 = (mask t :: u64)" by (simp add: mask_eq_exp_minus_1 push_bit_eq_mult)
  then show "bit (mm512_cmpneq_epi8_mask
      (mm512_maskz_loadu_epi8 (push_bit t 1 - 1) (a + word_of_nat k) m)
      (mm512_maskz_loadu_epi8 (push_bit t 1 - 1) (b + word_of_nat k) m)) i
    = bit (mask_of t (\<lambda>j. m (a + word_of_nat (k + j)) \<noteq> m (b + word_of_nat (k + j))) :: u64) i" for i
    using assms by (auto simp: mm512_cmpneq_epi8_mask_def mm512_maskz_loadu_epi8_def bit_mask_of
        bit_mask_iff add.assoc split: if_splits)
qed

lemma word_of_nat_plus_64: "word_of_nat k + 64 = (word_of_nat (k + 64) :: 'a::len word)"
  by simp

text \<open>One round of the loop searches the next 64 bytes.\<close>
lemma avx512_compare_loop_step:
  assumes "k + 64 \<le> unat n"
  shows "avx512_compare_loop a b (word_of_nat k) n m
    = (case find (\<lambda>k. m (a + word_of_nat k) \<noteq> m (b + word_of_nat k)) [k ..< k + 64] of
         Some j \<Rightarrow> Some (Inr (word_of_nat j))
       | None \<Rightarrow> avx512_compare_loop a b (word_of_nat (k + 64)) n m)"
proof -
  let ?P = "\<lambda>k. m (a + word_of_nat k) \<noteq> m (b + word_of_nat k)"
  have k: "k + 64 < 2 ^ 32" using assms unat_u32_less [of n] by simp
  then have "(word_of_nat (k + 64) :: u32) \<le> n"
    using assms by (simp add: word_le_nat_alt unat_of_nat del: of_nat_add)
  then have "avx512_compare_loop a b (word_of_nat k) n m
    = (if (mask_of 64 (\<lambda>j. ?P (k + j)) :: u64) \<noteq> 0
       then Some (Inr (word_of_nat (k + tzcnt (mask_of 64 (\<lambda>j. ?P (k + j)) :: u64))))
       else avx512_compare_loop a b (word_of_nat (k + 64)) n m)"
    using k by (subst avx512_compare_loop.simps)
      (simp only: Let_def ucast_word_of_nat cmpneq_load word_of_nat_plus_64 if_True of_nat_add
        [of _ "tzcnt _"] add_lessD1)
  then show ?thesis
    by (rule trans) (rule mask_of_find [of 64 ?P k, where 'a = 64], simp)
qed

lemma avx512_compare_loop_eq:
  assumes "unat n < 2 ^ 32 - 64" "i \<le> unat n div 64"
  shows "avx512_compare_loop a b (word_of_nat (64 * i)) n m = Some
    (case find (\<lambda>k. m (a + word_of_nat k) \<noteq> m (b + word_of_nat k)) [64 * i ..< 64 * (unat n div 64)] of
       Some k \<Rightarrow> Inr (word_of_nat k) | None \<Rightarrow> Inl (word_of_nat (64 * (unat n div 64))))"
  using assms(2)
proof (induction "unat n div 64 - i" arbitrary: i)
  case 0
  let ?h = "unat n div 64"
  have i: "i = ?h" using 0 by simp
  have "64 * ?h + 64 < 2 ^ 32" "unat n < 64 * ?h + 64" using assms(1) by simp_all
  then have "\<not> word_of_nat (64 * ?h) + 64 \<le> n"
    by (simp add: word_le_nat_alt unat_of_nat unat_word_ariths)
  then show ?case unfolding i by (subst avx512_compare_loop.simps) simp
next
  case (Suc d)
  let ?h = "unat n div 64" and ?P = "\<lambda>k. m (a + word_of_nat k) \<noteq> m (b + word_of_nat k)"
  have "64 * i + 64 \<le> 64 * ?h" using Suc.hyps(2) by linarith
  moreover from this have "64 * i + 64 \<le> unat n" by linarith
  moreover have "avx512_compare_loop a b (word_of_nat (64 * i + 64)) n m = Some
      (case find ?P [64 * i + 64 ..< 64 * ?h] of
         Some k \<Rightarrow> Inr (word_of_nat k) | None \<Rightarrow> Inl (word_of_nat (64 * ?h)))"
    using Suc.hyps(1) [of "Suc i"] Suc.hyps(2) by (simp add: add.commute)
  ultimately show ?case
    using find_split [of "64 * i" "64 * i + 64" "64 * ?h" ?P]
      avx512_compare_loop_step [of "64 * i" n a b m]
    by (cases "find ?P [64 * i ..< 64 * i + 64]") (simp_all only: option.case le_add1)
qed

lemma unat_and_mask: "unat (n AND mask k :: 'a::len word) = unat n mod 2 ^ k"
  by (metis take_bit_eq_mask take_bit_eq_mod unsigned_take_bit_eq)

lemma unat_low_bits:
  "unat ((n :: u32) AND 63) = unat n mod 64" "unat ((n :: u32) AND 7) = unat n mod 8"
  using unat_and_mask [of n 6] unat_and_mask [of n 3] by (simp_all add: mask_eq_exp_minus_1)

lemma dml_avx512_compare_eq:
  assumes "unat n < 2 ^ 32 - 64"
  shows "dml_avx512_compare a b n m = Some (dml_ref_compare a b n m)"
proof -
  let ?P = "\<lambda>k. m (a + word_of_nat k) \<noteq> m (b + word_of_nat k)"
  let ?h = "64 * (unat n div 64)" and ?t = "unat n mod 64"
  have "?h < 2 ^ 32" using unat_u32_less [of n] by (simp add: div_times_less_eq_dividend [THEN le_less_trans])
  have t: "?t \<le> LENGTH(64)" by simp
  from \<open>?h < 2 ^ 32\<close> have h: "ucast (word_of_nat ?h :: u32) = (word_of_nat ?h :: addr)" by (rule ucast_word_of_nat)
  have "dml_avx512_compare a b n m = Some (case find ?P [0 ..< ?h] of
        Some k \<Rightarrow> (word_of_nat k, 1)
      | None \<Rightarrow> if (mask_of ?t (\<lambda>j. ?P (?h + j)) :: u64) \<noteq> 0
                 then (word_of_nat (?h + tzcnt (mask_of ?t (\<lambda>j. ?P (?h + j)) :: u64)), 1) else (0, 0))"
    using avx512_compare_loop_eq [OF assms, of 0 a b m] h cmpneq_load_tail [of ?t a ?h m b]
    by (cases "find ?P [0 ..< ?h]")
      (simp_all add: dml_avx512_compare_def unat_low_bits Let_def del: of_nat_mult)
  also have "\<dots> = Some (case find ?P [0 ..< ?h] of
        Some k \<Rightarrow> (word_of_nat k, 1)
      | None \<Rightarrow> (case find ?P [?h ..< ?h + ?t] of Some k \<Rightarrow> (word_of_nat k, 1) | None \<Rightarrow> (0, 0)))"
    unfolding mask_of_find [of ?t ?P ?h "\<lambda>k. (word_of_nat k, 1)" "(0, 0)", OF t] ..
  also have "\<dots> = Some (compare_outcome (find ?P [0 ..< unat n]))"
    using find_split [of 0 ?h "unat n" ?P] by (simp add: compare_outcome_def split: option.split)
  also have "find ?P [0 ..< unat n] = first_mismatch (load_bytes m a (unat n)) (load_bytes m b (unat n))"
    by (simp add: load_bytes_def first_mismatch_find)
  finally show ?thesis by (simp add: dml_ref_compare_eq)
qed

text \<open>
  With a size in the last 64 values the guard of the loop cannot fail any more: the counter
  wraps round to 0, and two equal gigabyte ranges are compared for ever.
\<close>
lemma avx512_compare_loop_diverges:
  assumes equal: "\<And>k. k < 2 ^ 32 \<Longrightarrow> m (a + word_of_nat k) = m (b + word_of_nat k)"
    and n: "2 ^ 32 - 64 \<le> unat n" and i: "64 dvd unat i"
  shows "avx512_compare_loop a b i n m \<noteq> Some r"
proof
  assume ret: "avx512_compare_loop a b i n m = Some r"
  let ?H = "\<lambda>a b i n m. (\<forall>k < 2 ^ 32. m (a + word_of_nat k) = m (b + word_of_nat k :: addr) :: bool)
    \<and> 2 ^ 32 - 64 \<le> unat (n :: u32) \<and> 64 dvd unat (i :: u32)"
  have "\<not> ?H a b i n m"
  proof (rule avx512_compare_loop.raw_induct [where P = "\<lambda>a b i n m r. \<not> ?H a b i n m", OF _ ret], rule notI)
    fix f a b i n m r
    assume IH: "\<And>a b i n m r. f a b i n m = Some r \<Longrightarrow> \<not> ?H a b i n m"
      and H: "?H a b i n m"
      and eq: "(if i + 64 \<le> n
        then let msk64 = mm512_cmpneq_epi8_mask (mm512_loadu_si512 (a + ucast i) m)
                 (mm512_loadu_si512 (b + ucast i) m)
             in if msk64 \<noteq> 0 then Some (Inr (i + word_of_nat (tzcnt msk64))) else f a b (i + 64) n m
        else Some (Inl i)) = Some (r :: u32 + u32)"
    from H obtain q where q: "unat i = 64 * q" by (auto elim: dvdE)
    then have q32: "q < 2 ^ 26" using unat_u32_less [of i] by simp
    have i64: "unat (i + 64) = 64 * (if Suc q = 2 ^ 26 then 0 else Suc q)"
      using q q32 by (auto simp: unat_word_ariths)
    then have guard: "i + 64 \<le> n" using H q32 by (auto simp: word_le_nat_alt split: if_splits)
    have "ucast i = (word_of_nat (64 * q) :: addr)" 
      using q q32 by (intro word_unat_eq_iff [THEN iffD2]) (simp del: of_nat_mult)
    moreover have "mask_of 64 (\<lambda>j. m (a + word_of_nat (64 * q + j)) \<noteq> m (b + word_of_nat (64 * q + j))) = (0 :: u64)"
      using H q32 by (simp add: mask_of_eq_0 del: of_nat_add of_nat_mult)
    ultimately have "f a b (i + 64) n m = Some r"
      using eq guard by (simp add: cmpneq_load Let_def del: of_nat_mult)
    from IH [OF this] H i64 show False by auto
  qed
  with assms show False by auto
qed

section \<open>The pattern loops\<close>

lemma epi64_load: "i < 8 \<Longrightarrow> epi64 (load_bytes m a 64) i = load m (a + word_of_nat (8 * i))"
  using load_bytes_part [of "8 * i" 8 64 m a] by (simp add: epi64_def load_def)

lemma epi64_set1: "i < 8 \<Longrightarrow> epi64 (mm512_set1_epi64 p) i = p"
proof -
  assume "i < 8"
  then have "take 8 (drop (8 * i) (pattern_bytes p 64)) = bytes_of p"
    by (intro nth_equalityI) (simp_all add: pattern_bytes_def)
  then show ?thesis by (simp add: epi64_def set1_pattern)
qed

lemma cmpneq_pattern:
  "mm512_cmpneq_epi64_mask (mm512_loadu_si512 (a + word_of_nat (8 * k)) m) (mm512_set1_epi64 p)
     = mask_of 8 (\<lambda>j. load m (a + word_of_nat (8 * (k + j))) \<noteq> p)"
  by (rule bit_word_eqI)
    (auto simp: mm512_cmpneq_epi64_mask_def mm512_loadu_si512_def bit_mask_of epi64_load epi64_set1
      algebra_simps)

lemma cmpneq_pattern_tail:
  assumes "t < 8"
  shows "mm512_mask_cmpneq_epi64_mask (push_bit t 1 - 1)
      (mm512_maskz_loadu_epi64 (push_bit t 1 - 1) (a + word_of_nat (8 * k)) m) (mm512_set1_epi64 p)
    = mask_of t (\<lambda>j. load m (a + word_of_nat (8 * (k + j))) \<noteq> p)"
proof (rule bit_word_eqI)
  fix i assume "i < LENGTH(8)"
  then have i: "i < 8" by simp
  have mask: "push_bit t 1 - 1 = (mask t :: u8)" by (simp add: mask_eq_exp_minus_1 push_bit_eq_mult)
  have "take 8 (drop (8 * i) (mm512_maskz_loadu_epi64 (mask t) (a + word_of_nat (8 * k)) m))
      = take 8 (drop (8 * i) (load_bytes m (a + word_of_nat (8 * k)) 64))" if "i < t"
    using that i assms by (intro nth_equalityI) (simp_all add: mm512_maskz_loadu_epi64_def bit_mask_iff)
  then have "epi64 (mm512_maskz_loadu_epi64 (mask t) (a + word_of_nat (8 * k)) m) i
      = load m (a + word_of_nat (8 * k) + word_of_nat (8 * i))" if "i < t"
    using that epi64_load [OF i, of m "a + word_of_nat (8 * k)"] by (simp add: epi64_def)
  then show "bit (mm512_mask_cmpneq_epi64_mask (push_bit t 1 - 1)
      (mm512_maskz_loadu_epi64 (push_bit t 1 - 1) (a + word_of_nat (8 * k)) m) (mm512_set1_epi64 p)) i
    = bit (mask_of t (\<lambda>j. load m (a + word_of_nat (8 * (k + j))) \<noteq> p) :: u8) i"
    unfolding mask using i assms
    by (auto simp: mm512_mask_cmpneq_epi64_mask_def mm512_cmpneq_epi64_mask_def bit_and_iff bit_mask_of
        bit_mask_iff epi64_set1 algebra_simps)
qed

lemma tzcnt_ucast:
  assumes "w \<noteq> 0"
  shows "tzcnt (ucast (w :: u8) :: u32) = tzcnt w"
proof -
  define k where "k = (LEAST j. bit w j)"
  from assms obtain j where "bit w j" by (auto simp: bit_eq_iff)
  then have k: "bit w k" unfolding k_def by (rule LeastI)
  then have "k < 8" using bit_imp_le_length [of w k] by simp
  have before: "\<not> bit w j" if "j < k" for j using that unfolding k_def by (rule not_less_Least)
  have "tzcnt w = k" using k before by (rule tzcnt_first)
  moreover have "tzcnt (ucast w :: u32) = k"
    using k before \<open>k < 8\<close> by (intro tzcnt_first) (simp_all add: bit_ucast_iff)
  ultimately show ?thesis by simp
qed

lemma mask8_find:
  assumes "n \<le> 8"
  shows "(if (mask_of n (\<lambda>j. P (a + j)) :: u8) \<noteq> 0
      then f (a + tzcnt (ucast (mask_of n (\<lambda>j. P (a + j)) :: u8) :: u32)) else y)
    = (case find P [a ..< a + n] of Some k \<Rightarrow> f k | None \<Rightarrow> y)"
  using assms by (subst mask_of_find [of n P a f y, where 'a = 8, symmetric]) (simp_all add: tzcnt_ucast)

lemma avx512_pattern_loop_eq:
  "8 dvd i \<Longrightarrow> i \<le> h \<Longrightarrow> avx512_pattern_loop p src i h m =
     (case find (\<lambda>j. load m (src + word_of_nat (8 * j)) \<noteq> p) [i ..< 8 * (h div 8)] of
        Some k \<Rightarrow> Inl (push_bit 3 (word_of_nat k)) | None \<Rightarrow> Inr (8 * (h div 8)))"
proof (induction p src i h m rule: avx512_pattern_loop.induct)
  case (1 p src i h m)
  let ?Q = "\<lambda>j. load m (src + word_of_nat (8 * j)) \<noteq> p"
  from 1 obtain b where b: "i = 8 * b" by (auto elim: dvdE)
  show ?case
  proof (cases "i + 8 \<le> h")
    case False
    then have "i = 8 * (h div 8)" using b 1 by simp
    with False show ?thesis by (subst avx512_pattern_loop.simps) simp
  next
    case True
    then have "Suc b \<le> h div 8" using b by (simp add: less_eq_div_iff_mult_less_eq)
    then have le: "i + 8 \<le> 8 * (h div 8)" using b by linarith
    have "avx512_pattern_loop p src i h m
      = (if (mask_of 8 (\<lambda>j. ?Q (i + j)) :: u8) \<noteq> 0
         then Inl (push_bit 3 (word_of_nat (i + tzcnt (ucast (mask_of 8 (\<lambda>j. ?Q (i + j)) :: u8) :: u32))))
         else avx512_pattern_loop p src (i + 8) h m)"
      using True by (subst avx512_pattern_loop.simps) (simp only: Let_def cmpneq_pattern if_True)
    also have "\<dots> = (case find ?Q [i ..< i + 8] of Some k \<Rightarrow> Inl (push_bit 3 (word_of_nat k))
        | None \<Rightarrow> avx512_pattern_loop p src (i + 8) h m)"
      by (rule mask8_find) simp
    also have "\<dots> = (case find ?Q [i ..< 8 * (h div 8)] of
        Some k \<Rightarrow> Inl (push_bit 3 (word_of_nat k)) | None \<Rightarrow> Inr (8 * (h div 8)))"
    proof (cases "find ?Q [i ..< i + 8]")
      case None
      then have "\<not> (mask_of 8 (\<lambda>j. ?Q (i + j)) :: u8) \<noteq> 0"
        using mask_of_find_None [of 8 ?Q i, where 'a = 8] by simp
      with True have "avx512_pattern_loop p src (i + 8) h m =
         (case find ?Q [i + 8 ..< 8 * (h div 8)] of
            Some k \<Rightarrow> Inl (push_bit 3 (word_of_nat k)) | None \<Rightarrow> Inr (8 * (h div 8)))"
        using 1(1) [OF True refl] 1(2) unfolding cmpneq_pattern by simp
      with None show ?thesis using find_split [OF _ le, of i ?Q] by simp
    next
      case (Some k)
      then show ?thesis using find_split [OF _ le, of i ?Q] by simp
    qed
    finally show ?thesis .
  qed
qed

lemma avx512_pattern_tail_eq:
  assumes "i + t \<le> 8"
  shows "avx512_pattern_tail (drop_bit (8 * i) p) src i t m
    = find (\<lambda>j. m (src + word_of_nat j) \<noteq> bytes_of p ! j) [i ..< i + t]"
  using assms
proof (induction t arbitrary: i)
  case (Suc t)
  from Suc.IH [of "Suc i"] Suc.prems show ?case
    by (simp add: upt_conv_Cons nth_bytes_of del: upt_Suc of_nat_Suc)
qed simp

text \<open>The two pattern comparisons report the same position in every case.\<close>
lemma dml_avx512_compare_pattern_eq:
  "dml_avx512_compare_pattern p src n m = dml_ref_compare_pattern p src n m"
proof -
  let ?h = "unat n div 8" and ?t = "unat n mod 8"
  let ?Q = "\<lambda>j. load m (src + word_of_nat (8 * j)) \<noteq> p"
  let ?T = "\<lambda>j. m (src + word_of_nat (8 * ?h) + word_of_nat j) \<noteq> bytes_of p ! j"
  let ?a = "8 * (?h div 8)" and ?b = "?h mod 8"
  have h: "unat (drop_bit 3 n) = ?h" by (simp add: drop_bit_eq_div unat_div)
  have push: "push_bit 3 (word_of_nat k) = (word_of_nat (8 * k) :: u32)" for k
    by (simp add: push_bit_eq_mult)
  have tail: "avx512_pattern_tail p (src + word_of_nat (unat n - ?t)) 0 ?t m = find ?T [0 ..< ?t]"
    using avx512_pattern_tail_eq [of 0 ?t p "src + word_of_nat (8 * ?h)" m]
    by (simp add: minus_mod_eq_mult_div del: of_nat_mult)
  let ?fin = "case find ?T [0 ..< ?t] of Some j \<Rightarrow> (word_of_nat (8 * ?h + j), 1) | None \<Rightarrow> (0 :: u32, 0 :: u8)"
  define M where "M = (mask_of ?b (\<lambda>j. ?Q (?a + j)) :: u8)"
  have M: "mm512_mask_cmpneq_epi64_mask (push_bit ?b 1 - 1)
      (mm512_maskz_loadu_epi64 (push_bit ?b 1 - 1) (src + word_of_nat (8 * ?a)) m)
      (mm512_set1_epi64 p) = M"
    unfolding M_def by (rule cmpneq_pattern_tail) simp
  have M0: "?b = 0 \<Longrightarrow> M = 0" by (simp add: M_def mask_of_eq_0)
  have "dml_avx512_compare_pattern p src n m = (case find ?Q [0 ..< ?a] of
      Some k \<Rightarrow> (word_of_nat (8 * k), 1)
    | None \<Rightarrow> if M \<noteq> 0 then (word_of_nat (8 * (?a + tzcnt (ucast M :: u32))), 1) else ?fin)"
    unfolding dml_avx512_compare_pattern_def Let_def h unat_low_bits
      avx512_pattern_loop_eq [OF dvd_0_right zero_le] push tail
    using M M0 by (cases "find ?Q [0 ..< ?a]"; cases "find ?T [0 ..< ?t]"; cases "?b = 0")
      (simp_all only: option.case sum.case of_nat_add simp_thms if_True if_False)
  also have "\<dots> = (case find ?Q [0 ..< ?a] of Some k \<Rightarrow> (word_of_nat (8 * k), 1)
      | None \<Rightarrow> (case find ?Q [?a ..< ?a + ?b] of Some k \<Rightarrow> (word_of_nat (8 * k), 1) | None \<Rightarrow> ?fin))"
  proof -
    have "?b \<le> 8" by simp
    from mask8_find [OF this, of ?Q ?a "\<lambda>k. (word_of_nat (8 * k), 1)" ?fin]
    show ?thesis unfolding M_def by (simp only:)
  qed
  also have "\<dots> = (case find ?Q [0 ..< ?h] of Some k \<Rightarrow> (word_of_nat (8 * k), 1) | None \<Rightarrow> ?fin)"
    using find_split [of 0 ?a ?h ?Q] by (simp split: option.split del: of_nat_mult)
  also have "\<dots> = dml_ref_compare_pattern p src n m"
    by (simp add: dml_ref_compare_pattern_def Let_def pattern_head_loop_eq pattern_tail_loop_eq
        split: option.split del: of_nat_mult of_nat_add)
  finally show ?thesis .
qed

section \<open>Fill\<close>

text \<open>A store under a mask of low bits stores a prefix of the register.\<close>
lemma mask_store_prefix:
  assumes "\<And>i. bit k i \<longleftrightarrow> i < t" "t \<le> length v"
  shows "mask_storeu_epi8 a k v m = store_bytes m a (take t v)"
  using assms by (auto simp: mask_storeu_epi8_def store_bytes_def fun_eq_iff)

lemma bit_low_mask: "t \<le> 64 \<Longrightarrow> bit (NOT (push_bit t (- 1)) :: u64) i \<longleftrightarrow> i < t"
  by (auto simp: bit_mask_iff)

lemma bit_high_mask: "bit (drop_bit u (- 1) :: u64) i \<longleftrightarrow> i < 64 - u"
  by (auto simp: bit_mask_iff)

lemma take_pattern_bytes: "t \<le> n \<Longrightarrow> take t (pattern_bytes p n) = pattern_bytes p t"
  by (simp add: pattern_bytes_def take_map)

text \<open>A pattern continues with its bytes rotated by the length written so far.\<close>
lemma pattern_bytes_rotate:
  assumes "\<And>j. j < 8 \<Longrightarrow> bytes_of q ! j = bytes_of p ! ((k + j) mod 8)"
  shows "pattern_bytes p (k + n) = pattern_bytes p k @ pattern_bytes q n"
proof (rule nth_equalityI)
  fix i assume i: "i < length (pattern_bytes p (k + n))"
  show "pattern_bytes p (k + n) ! i = (pattern_bytes p k @ pattern_bytes q n) ! i"
  proof (cases "i < k")
    case False
    then obtain j where j: "i = k + j" by (metis le_Suc_ex not_less)
    have "(k + j mod 8) mod 8 = (k + j) mod 8" by (rule mod_add_right_eq)
    with i j show ?thesis using assms [of "j mod 8"] by (simp add: pattern_bytes_def nth_append)
  qed (simp add: pattern_bytes_def nth_append)
qed simp

lemma pattern_bytes_add: "8 dvd k \<Longrightarrow> pattern_bytes p (k + n) = pattern_bytes p k @ pattern_bytes p n"
  by (rule pattern_bytes_rotate) (auto elim!: dvdE)

lemma fill_small_avx512_eq:
  assumes "unat n < 64"
  shows "fill_small_avx512 p dst n m = store_bytes m dst (pattern_bytes p (unat n))"
proof -
  let ?t = "unat n" and ?M = "NOT (push_bit (unat n) (- 1)) :: u64"
  have "mask_storeu_epi8 dst (ucast ?M :: u32) (pattern_bytes p 32) m
      = store_bytes m dst (take (min ?t 32) (pattern_bytes p 32))"
    using assms by (intro mask_store_prefix) (auto simp: bit_ucast_iff bit_mask_iff)
  moreover have "mask_storeu_epi8 (dst + 32) (ucast (drop_bit 32 ?M) :: u32) (pattern_bytes p 32) m'
      = store_bytes m' (dst + 32) (take (?t - 32) (pattern_bytes p 32))" for m'
    using assms by (intro mask_store_prefix) (auto simp: bit_ucast_iff bit_drop_bit_eq bit_mask_iff)
  moreover have "store_bytes (store_bytes m dst (take (min ?t 32) (pattern_bytes p 32))) (dst + 32)
      (take (?t - 32) (pattern_bytes p 32)) = store_bytes m dst (pattern_bytes p ?t)"
  proof (cases "?t \<le> 32")
    case False
    then have "pattern_bytes p ?t = pattern_bytes p 32 @ pattern_bytes p (?t - 32)"
      using pattern_bytes_add [of 32 p "?t - 32"] by simp
    with False assms show ?thesis
      using store_bytes_append [of "pattern_bytes p 32" "pattern_bytes p (?t - 32)" m dst]
      by (simp add: take_pattern_bytes)
  qed (simp add: take_pattern_bytes)
  ultimately show ?thesis using assms by (simp add: fill_small_avx512_def Let_def set1_pattern)
qed

lemma aligned64_add: "aligned64 a \<Longrightarrow> 64 dvd k \<Longrightarrow> aligned64 (a + word_of_nat k)"
  by (auto simp: aligned64_def unat_word_ariths unat_of_nat mod_mod_cancel elim!: dvdE)

lemma fill_head_avx512_eq:
  assumes "aligned64 a" "64 * k \<le> 2 ^ 64"
  shows "fill_head_avx512 a k (pattern_bytes p 64) m = Some (store_bytes m a (pattern_bytes p (64 * k)))"
  using assms
proof (induction k arbitrary: a m)
  case 0
  then show ?case by (simp add: pattern_bytes_def)
next
  case (Suc k)
  have "aligned64 (a + 64)" using aligned64_add [OF Suc.prems(1), of 64] by simp
  moreover have "pattern_bytes p (64 * Suc k) = pattern_bytes p 64 @ pattern_bytes p (64 * k)"
    using pattern_bytes_add [of 64 p "64 * k"] by simp
  ultimately show ?case
    using Suc store_bytes_append [of "pattern_bytes p 64" "pattern_bytes p (64 * k)" m a]
    by (simp add: mm512_store_si512_def)
qed

text \<open>The rotation of the pattern by the bytes that precede the aligned part.\<close>
lemma rotated_pattern_byte:
  fixes p :: u64
  assumes "r < 8" "j < 8" and wide: "r = 0 \<Longrightarrow> wide p 64 \<in> {0, p}"
  shows "bytes_of (push_bit (r * 8) p OR shr_u64 wide p (64 - r * 8)) ! j = bytes_of p ! ((8 - r + j) mod 8)"
proof (cases "r = 0")
  case True
  with wide assms(2) show ?thesis by (auto simp: shr_u64_def)
next
  case False
  have "bit (bytes_of (push_bit (r * 8) p OR drop_bit (64 - r * 8) p) ! j) i
      = bit (bytes_of p ! ((8 - r + j) mod 8)) i" if "i < 8" for i
  proof (cases "r \<le> j")
    case True
    then have "(8 - r + j) mod 8 = j - r" using assms by (simp add: mod_if)
    with True that assms False show ?thesis
      by (auto simp: nth_bytes_of bit_simps diff_mult_distrib2 mult.commute [of r] dest: bit_imp_le_length)
  next
    case below: False
    then have "(8 - r + j) mod 8 = 8 - r + j" using assms by simp
    with below that assms False show ?thesis
      by (auto simp: nth_bytes_of bit_simps algebra_simps dest: bit_imp_le_length)
  qed
  then have "bytes_of (push_bit (r * 8) p OR drop_bit (64 - r * 8) p) ! j = bytes_of p ! ((8 - r + j) mod 8)"
    by (intro bit_word_eqI) simp
  with False show ?thesis by (simp add: shr_u64_def)
qed

text \<open>The aligned part of a fill, from an aligned address.\<close>
lemma fill_aligned_part:
  assumes "aligned64 a" "k < 2 ^ 32"
  shows "do {
      m2 \<leftarrow> (if k div 64 \<noteq> 0 then fill_head_avx512 a (k div 64) (mm512_set1_epi64 q) m1 else Some m1);
      Some (if k mod 64 \<noteq> 0
            then mask_storeu_epi8 (a + word_of_nat (64 * (k div 64)))
                   (NOT (push_bit (k mod 64) (- 1)) :: u64) (mm512_set1_epi64 q) m2
            else m2)
    } = Some (store_bytes m1 a (pattern_bytes q k))"
proof -
  let ?h = "64 * (k div 64)" and ?t = "k mod 64"
  have head: "(if k div 64 \<noteq> 0 then fill_head_avx512 a (k div 64) (pattern_bytes q 64) m1 else Some m1)
      = Some (store_bytes m1 a (pattern_bytes q ?h))"
    using assms fill_head_avx512_eq [of a "k div 64" q m1] by (simp add: pattern_bytes_def)
  have tail: "(if ?t \<noteq> 0 then mask_storeu_epi8 (a + word_of_nat ?h) (NOT (push_bit ?t (- 1)) :: u64)
        (pattern_bytes q 64) m2 else m2) = store_bytes m2 (a + word_of_nat ?h) (pattern_bytes q ?t)" for m2
    using mask_store_prefix [of "NOT (push_bit ?t (- 1)) :: u64" ?t "pattern_bytes q 64" "a + word_of_nat ?h" m2]
      bit_low_mask [of ?t]
    by (simp add: take_pattern_bytes pattern_bytes_def [of q 0])
  have "pattern_bytes q k = pattern_bytes q ?h @ pattern_bytes q ?t"
    using pattern_bytes_add [of ?h q ?t] by simp
  moreover have "store_bytes (store_bytes m1 a (pattern_bytes q ?h)) (a + word_of_nat ?h) (pattern_bytes q ?t)
      = store_bytes m1 a (pattern_bytes q ?h @ pattern_bytes q ?t)"
    using assms(2) store_bytes_append [of "pattern_bytes q ?h" "pattern_bytes q ?t" m1 a] by simp
  ultimately show ?thesis unfolding set1_pattern head Option.bind_lunit tail by (simp only:)
qed

lemma fill_big_avx512_eq:
  assumes n: "64 \<le> unat n"
    and wide: "unat dst mod 64 \<noteq> 0 \<Longrightarrow> unat dst mod 8 = 0 \<Longrightarrow> wide p 64 \<in> {0, p}"
  shows "fill_big_avx512 wide p dst n m = Some (store_bytes m dst (pattern_bytes p (unat n)))"
proof (cases "unat dst mod 64 = 0")
  case True
  then have "aligned64 dst" by (simp add: aligned64_def)
  then show ?thesis
    unfolding fill_big_avx512_def Let_def True simp_thms if_True if_False diff_zero
    unfolding semiring_1_class.of_nat_0 add_0_right
    by (rule fill_aligned_part) (use unat_u32_less [of n] in simp)
next
  case False
  define u r s where "u = unat dst mod 64" and "r = u mod 8" and "s = 64 - u"
  let ?q = "push_bit (r * 8) p OR shr_u64 wide p (64 - r * 8)"
  have u: "0 < u" "u < 64" "r < 8" "u = 8 * (u div 8) + r" "unat dst = 64 * (unat dst div 64) + u"
    using False by (simp_all add: u_def r_def)
  have r: "r = unat dst mod 8" by (simp add: r_def u_def mod_mod_cancel)
  have rot: "bytes_of ?q ! j = bytes_of p ! ((s + j) mod 8)" if "j < 8" for j
  proof -
    have "s + j = 8 * (7 - u div 8) + (8 - r + j)" using u s_def by linarith
    then have "(s + j) mod 8 = (8 - r + j) mod 8" by (metis mod_mult_self4)
    then show ?thesis using rotated_pattern_byte [of r j wide p] u(3) that wide False r by simp
  qed
  have al: "aligned64 (dst + word_of_nat s)"
  proof -
    have "unat dst + s = 64 * Suc (unat dst div 64)" using u s_def by simp
    moreover have "s \<le> 64" by (simp add: s_def)
    ultimately show ?thesis by (simp add: aligned64_def unat_word_ariths unat_of_nat mod_mod_cancel)
  qed
  have lt: "unat n - s < 2 ^ 32" using unat_u32_less [of n] by simp
  have store1: "mask_storeu_epi8 dst (drop_bit u (- 1) :: u64) (mm512_set1_epi64 p) m
      = store_bytes m dst (pattern_bytes p s)"
    using mask_store_prefix [of "drop_bit u (- 1) :: u64" s "pattern_bytes p 64" dst m] bit_high_mask [of u]
    by (simp add: set1_pattern take_pattern_bytes s_def)
  have "pattern_bytes p (unat n) = pattern_bytes p s @ pattern_bytes ?q (unat n - s)"
    using pattern_bytes_rotate [of ?q p s "unat n - s"] rot n by (simp add: s_def)
  moreover have "store_bytes (store_bytes m dst (pattern_bytes p s)) (dst + word_of_nat s)
      (pattern_bytes ?q (unat n - s)) = store_bytes m dst (pattern_bytes p s @ pattern_bytes ?q (unat n - s))"
    using store_bytes_append [of "pattern_bytes p s" "pattern_bytes ?q (unat n - s)" m dst]
      unat_u32_less [of n] n by (simp add: s_def)
  moreover have "fill_big_avx512 wide p dst n m
    = Some (store_bytes (store_bytes m dst (pattern_bytes p s)) (dst + word_of_nat s)
        (pattern_bytes ?q (unat n - s)))"
  proof -
    have "s \<noteq> 0" "(u = 0) = False" using u(1,2) by (simp_all add: s_def)
    then show ?thesis
      unfolding fill_big_avx512_def Let_def u_def [symmetric]
      by (simp only: if_False)
        (unfold s_def [symmetric] r_def [symmetric], simp only: if_True simp_thms store1,
         rule fill_aligned_part [OF al lt])
  qed
  ultimately show ?thesis by (simp only:)
qed

lemma dml_avx512_fill_eq:
  assumes "unat dst mod 64 \<noteq> 0 \<Longrightarrow> unat dst mod 8 = 0 \<Longrightarrow> wide p 64 \<in> {0, p}"
  shows "dml_avx512_fill_u64 wide p dst n m = Some (dml_ref_fill_u64 p dst n m)"
  using assms by (simp add: dml_avx512_fill_u64_def fill_small_avx512_eq fill_big_avx512_eq dml_ref_fill_eq)

end
