(* ===== verification/DML_Avx512_Move.thy ===== *)
theory DML_Avx512_Move
  imports DML_Avx512
begin

text \<open>
  The AVX-512 memory move (\<open>core/src/sw_dispatcher/avx512/mem_move.c\<close>) and the cache size it
  asks for (\<open>core/src/sw_dispatcher/dml_cpuid.c\<close>). The routine aligns the destination, then
  copies registers, combining two neighbouring source registers when the source is aligned
  differently. Every loop is proved to move the bytes it covers, with no unaligned access; the
  whole routine is proved equal to the portable one. Sizes and counters are naturals: they only
  decrease from a 32 bit size. Where a subtraction of the source wraps, the wrap is written out.
\<close>

section \<open>Processor identification (\<open>dml_cpuid.c\<close>)\<close>

record dml_core_registers =
  reg_eax :: u32
  reg_ebx :: u32
  reg_ecx :: u32
  reg_edx :: u32

text \<open>The \<open>cpuid\<close> instruction, from the leaf and the sub-leaf.\<close>
type_synonym cpuid_insn = "u32 \<Rightarrow> u32 \<Rightarrow> dml_core_registers"

definition dml_core_cpuidex :: "cpuid_insn \<Rightarrow> u32 \<Rightarrow> u32 \<Rightarrow> dml_core_registers" where
  "dml_core_cpuidex cpuid leaf sub_leaf = cpuid leaf sub_leaf"

definition dml_core_cpuid :: "cpuid_insn \<Rightarrow> u32 \<Rightarrow> dml_core_registers" where
  "dml_core_cpuid cpuid leaf = dml_core_cpuidex cpuid leaf 0"

definition this_cache_size :: "dml_core_registers \<Rightarrow> u32" where
  "this_cache_size registers =
     (let sets = reg_ecx registers;
          line_size = reg_ebx registers AND 0xfff;
          partitions = (drop_bit 12 (reg_ebx registers) AND 0x3ff) + 1;
          ways = (drop_bit 22 (reg_ebx registers) AND 0x3ff) + 1
      in (ways + 1) * (partitions + 1) * (line_size + 1) * (sets + 1))"

text \<open>The loop over the cache types, \<open>left\<close> of them remaining.\<close>
fun cache_size_loop :: "cpuid_insn \<Rightarrow> nat \<Rightarrow> nat \<Rightarrow> u32 \<Rightarrow> u32" where
  "cache_size_loop cpuid cache_type 0 max_cache_size = max_cache_size"
| "cache_size_loop cpuid cache_type (Suc left) max_cache_size =
     (let registers = dml_core_cpuidex cpuid 4 (word_of_nat cache_type)
      in if reg_eax registers AND 0x1f = 0x1f then max_cache_size
         else cache_size_loop cpuid (Suc cache_type) left
           (if reg_eax registers AND 0x1f \<noteq> 2 \<and> this_cache_size registers > max_cache_size
            then this_cache_size registers else max_cache_size))"

text \<open>The value returned, which is also the new value of the static variable \<open>cache_size\<close>.\<close>
definition dml_core_get_cache_size :: "cpuid_insn \<Rightarrow> u64 \<Rightarrow> u64" where
  "dml_core_get_cache_size cpuid cache_size =
     (if cache_size > 0 then cache_size else ucast (cache_size_loop cpuid 0 32 0))"

section \<open>The unrolled byte copy\<close>

text \<open>\<open>for (i = 0; i < n; ++i) dst[i] = src[i]\<close>, also written out for eight bytes.\<close>
definition byte_copy :: "addr \<Rightarrow> addr \<Rightarrow> nat \<Rightarrow> mem \<Rightarrow> mem" where
  "byte_copy src dst n m =
     for_loop n (\<lambda>i m. m(dst + word_of_nat i := m (src + word_of_nat i))) m"

text \<open>\<open>dst_64u_ptr[i] = src_64u_ptr[i]\<close>.\<close>
definition copy_u64 :: "addr \<Rightarrow> addr \<Rightarrow> nat \<Rightarrow> mem \<Rightarrow> mem" where
  "copy_u64 src dst i m =
     store m (dst + word_of_nat (8 * i)) (load m (src + word_of_nat (8 * i)) :: u64)"

function copy_u64_unrolled :: "addr \<Rightarrow> addr \<Rightarrow> nat \<Rightarrow> mem \<Rightarrow> addr \<times> addr \<times> nat \<times> mem" where
  "copy_u64_unrolled src dst length_64u m =
     (if length_64u > 3
      then copy_u64_unrolled (src + 32) (dst + 32) (length_64u - 4)
             (copy_u64 src dst 3 (copy_u64 src dst 2 (copy_u64 src dst 1 (copy_u64 src dst 0 m))))
      else (src, dst, length_64u, m))"
  by pat_completeness auto
termination
  by (relation "measure (\<lambda>(src, dst, n, m). n)") auto

function copy_8u_by_8 :: "addr \<Rightarrow> addr \<Rightarrow> nat \<Rightarrow> mem \<Rightarrow> addr \<times> addr \<times> nat \<times> mem" where
  "copy_8u_by_8 src dst len m =
     (if len > 7 then copy_8u_by_8 (src + 8) (dst + 8) (len - 8) (byte_copy src dst 8 m)
      else (src, dst, len, m))"
  by pat_completeness auto
termination
  by (relation "measure (\<lambda>(src, dst, n, m). n)") auto

declare copy_u64_unrolled.simps [simp del] copy_8u_by_8.simps [simp del]

definition dmlc_own_px_copy_8u_unrolled :: "addr \<Rightarrow> addr \<Rightarrow> nat \<Rightarrow> mem \<Rightarrow> mem" where
  "dmlc_own_px_copy_8u_unrolled src dst len m =
     (let align_dst = 64 - unat dst mod 64;
          align_src = 64 - unat src mod 64
      in if align_dst < 64 \<and> len < align_dst then byte_copy src dst len m
         else
           let (src, dst, len, m) =
                 (if align_dst < 64
                  then (src + word_of_nat align_dst, dst + word_of_nat align_dst,
                        len - align_dst, byte_copy src dst align_dst m)
                  else (src, dst, len, m))
           in if align_dst = align_src
              then let length_64u = len div 8;
                       tail_start = length_64u * 8;
                       (src_64u_ptr, dst_64u_ptr, length_64u, m) = copy_u64_unrolled src dst length_64u m;
                       m = for_loop length_64u (copy_u64 src_64u_ptr dst_64u_ptr) m
                   in fold (\<lambda>i m. m(dst + word_of_nat i := m (src + word_of_nat i)))
                        [tail_start ..< len] m
              else let (src, dst, len, m) = copy_8u_by_8 src dst len m
                   in byte_copy src dst len m)"

section \<open>Register loops\<close>

text \<open>
  The loop of the misaligned cases: \<open>combine zmm0 zmm1\<close> are the 64 bytes that start in
  \<open>zmm0\<close> and end in \<open>zmm1\<close>. The last register loaded is the first one of the next round.
\<close>
function shifted_loop ::
  "(vec \<Rightarrow> vec \<Rightarrow> vec) \<Rightarrow> addr \<Rightarrow> addr \<Rightarrow> nat \<Rightarrow> vec \<Rightarrow> mem \<Rightarrow> (addr \<times> addr \<times> nat \<times> mem) option" where
  "shifted_loop combine src dst length_512u zmm0 m =
     (if length_512u > 4
      then do {
        zmm1 \<leftarrow> mm512_load_si512 src m;
        zmm3 \<leftarrow> mm512_load_si512 (src + 64) m;
        zmm5 \<leftarrow> mm512_load_si512 (src + 128) m;
        zmm7 \<leftarrow> mm512_load_si512 (src + 192) m;
        m1 \<leftarrow> mm512_store_si512 dst (combine zmm0 zmm1) m;
        m2 \<leftarrow> mm512_store_si512 (dst + 64) (combine zmm1 zmm3) m1;
        m3 \<leftarrow> mm512_store_si512 (dst + 128) (combine zmm3 zmm5) m2;
        m4 \<leftarrow> mm512_store_si512 (dst + 192) (combine zmm5 zmm7) m3;
        shifted_loop combine (src + 256) (dst + 256) (length_512u - 4) zmm7 m4
      }
      else Some (src, dst, length_512u, m))"
  by pat_completeness auto
termination
  by (relation "measure (\<lambda>(c, src, dst, n, z, m). n)") auto

text \<open>A shift by whole doublewords.\<close>
definition combine_dwords :: "nat \<Rightarrow> vec \<Rightarrow> vec \<Rightarrow> vec" where
  "combine_dwords shift zmm0 zmm1 = dmlc_own_mm512_alignr_epi8 zmm1 zmm0 shift"

text \<open>A shift by whole words.\<close>
definition combine_words :: "nat \<Rightarrow> vec \<Rightarrow> vec \<Rightarrow> vec" where
  "combine_words shift zmm0 zmm1 =
     mm512_permutex2var_epi16 zmm0 (permutex_idx_pptr ! ((shift - 2) div 2)) zmm1"

text \<open>An odd shift below 16.\<close>
definition combine_odd_low :: "nat \<Rightarrow> vec \<Rightarrow> vec \<Rightarrow> vec" where
  "combine_odd_low shift zmm0 zmm1 =
     (let lower = dmlc_own_mm512_bsrli_epi128 zmm0 shift;
          higher = mm512_permutex2var_epi16 zmm0 (permutex_idx_pptr ! ((shift - 1) div 2)) zmm1;
          higher = dmlc_own_mm512_bslli_epi128 higher 1
      in mm512_mask_mov_epi8 higher 0x0001000100010001 lower)"

text \<open>An odd shift above 48.\<close>
definition combine_odd_high :: "nat \<Rightarrow> vec \<Rightarrow> vec \<Rightarrow> vec" where
  "combine_odd_high shift zmm0 zmm1 =
     (let shift_higher = 64 - shift;
          lower = mm512_permutex2var_epi16 zmm0 (permutex_idx_pptr ! ((shift - 3) div 2)) zmm1;
          lower = dmlc_own_mm512_bsrli_epi128 lower 1;
          higher = dmlc_own_mm512_bslli_epi128 zmm1 shift_higher
      in mm512_mask_mov_epi8 higher 0x7FFF7FFF7FFF7FFF lower)"

text \<open>A misaligned case: the first register with the bytes before the source masked, then the loop.\<close>
definition shifted_copy ::
  "nat \<Rightarrow> (vec \<Rightarrow> vec \<Rightarrow> vec) \<Rightarrow> addr \<Rightarrow> addr \<Rightarrow> nat \<Rightarrow> mem \<Rightarrow> (addr \<times> addr \<times> nat \<times> mem) option" where
  "shifted_copy shift combine src dst length_512u m =
     (let src = src - word_of_nat shift;
          skip_mask = NOT (push_bit shift 1 - 1);
          zmm0 = mm512_maskz_loadu_epi8 skip_mask src m
      in do {
        (src, dst, length_512u, m) \<leftarrow> shifted_loop combine (src + 64) dst length_512u zmm0 m;
        Some (src - word_of_nat (64 - shift), dst, length_512u, m)
      })"

text \<open>Four registers a round; \<open>ld\<close> is the aligned or the unaligned load.\<close>
function copy_512_by_4 ::
  "(addr \<Rightarrow> mem \<Rightarrow> vec option) \<Rightarrow> addr \<Rightarrow> addr \<Rightarrow> nat \<Rightarrow> mem \<Rightarrow> (addr \<times> addr \<times> nat \<times> mem) option" where
  "copy_512_by_4 ld src dst length_512u m =
     (if length_512u > 3
      then do {
        zmm0 \<leftarrow> ld src m;
        zmm1 \<leftarrow> ld (src + 64) m;
        zmm2 \<leftarrow> ld (src + 128) m;
        zmm3 \<leftarrow> ld (src + 192) m;
        m1 \<leftarrow> mm512_store_si512 dst zmm0 m;
        m2 \<leftarrow> mm512_store_si512 (dst + 64) zmm1 m1;
        m3 \<leftarrow> mm512_store_si512 (dst + 128) zmm2 m2;
        m4 \<leftarrow> mm512_store_si512 (dst + 192) zmm3 m3;
        copy_512_by_4 ld (src + 256) (dst + 256) (length_512u - 4) m4
      }
      else Some (src, dst, length_512u, m))"
  by pat_completeness auto
termination
  by (relation "measure (\<lambda>(l, src, dst, n, m). n)") auto

declare shifted_loop.simps [simp del] copy_512_by_4.simps [simp del]

text \<open>The remaining registers one by one, then the tail.\<close>
fun copy_512_rest :: "addr \<Rightarrow> addr \<Rightarrow> nat \<Rightarrow> nat \<Rightarrow> mem \<Rightarrow> mem option" where
  "copy_512_rest src dst 0 tail m = Some (dmlc_own_px_copy_8u_unrolled src dst tail m)"
| "copy_512_rest src dst (Suc length_512u) tail m = do {
     m' \<leftarrow> mm512_store_si512 dst (mm512_loadu_si512 src m) m;
     copy_512_rest (src + 64) (dst + 64) length_512u tail m'
   }"

section \<open>The copy\<close>

text \<open>
  The branch of \<open>copy_avx512\<close> for a destination that is not aligned, after the bytes up to the
  next aligned destination are copied.
\<close>
definition copy_after_align :: "nat \<Rightarrow> nat \<Rightarrow> addr \<Rightarrow> addr \<Rightarrow> nat \<Rightarrow> mem \<Rightarrow> mem option" where
  "copy_after_align align_dst align_src src dst transfer_size m =
     (let length_512u = transfer_size div 64;
          tail = transfer_size mod 64;
          shift = (if align_dst > align_src then align_dst - align_src
                   else 64 + align_dst - align_src);
          rest = (\<lambda>(src, dst, length_512u, m). copy_512_rest src dst length_512u tail m)
      in if (2 ^ 32 + align_src - align_dst) mod 2 ^ 32 mod 16 \<noteq> 0
         then if shift mod 4 = 0
              then shifted_copy shift (combine_dwords shift) src dst length_512u m \<bind> rest
              else if shift mod 2 = 0
              then shifted_copy shift (combine_words shift) src dst length_512u m \<bind> rest
              else if shift < 16
              then if transfer_size < 16 * 1024
                   then Some (dmlc_own_px_copy_8u_unrolled src dst transfer_size m)
                   else shifted_copy shift (combine_odd_low shift) src dst length_512u m \<bind> rest
              else if shift > 48
              then if transfer_size < 16 * 1024
                   then Some (dmlc_own_px_copy_8u_unrolled src dst transfer_size m)
                   else shifted_copy shift (combine_odd_high shift) src dst length_512u m \<bind> rest
              else Some (dmlc_own_px_copy_8u_unrolled src dst transfer_size m)
         else copy_512_by_4 (\<lambda>a m. Some (mm512_loadu_si512 a m)) src dst length_512u m \<bind> rest)"

definition copy_unaligned_dst :: "addr \<Rightarrow> addr \<Rightarrow> nat \<Rightarrow> mem \<Rightarrow> mem option" where
  "copy_unaligned_dst src dst transfer_size m =
     (let align_dst = 64 - unat dst mod 64;
          align_src = 64 - unat src mod 64
      in if transfer_size < 4 * 1024 then Some (dmlc_own_px_copy_8u_unrolled src dst transfer_size m)
         else copy_after_align align_dst align_src (src + word_of_nat align_dst)
                (dst + word_of_nat align_dst) (transfer_size - align_dst)
                (dmlc_own_px_copy_8u_unrolled src dst align_dst m))"

text \<open>The branch for an aligned destination.\<close>
definition copy_aligned_dst :: "addr \<Rightarrow> addr \<Rightarrow> nat \<Rightarrow> mem \<Rightarrow> mem option" where
  "copy_aligned_dst src dst transfer_size m =
     (let align_src = 64 - unat src mod 64;
          length_512u = transfer_size div 64;
          tail = transfer_size mod 64;
          rest = (\<lambda>(src, dst, length_512u, m). copy_512_rest src dst length_512u tail m)
      in if align_src < 64
         then if transfer_size < 32 * 1024
              then Some (dmlc_own_px_copy_8u_unrolled src dst transfer_size m)
              else
                let shift = 64 - align_src
                in if shift mod 4 = 0
                   then shifted_copy shift (combine_dwords shift) src dst length_512u m \<bind> rest
                   else if shift mod 2 = 0
                   then shifted_copy shift (combine_words shift) src dst length_512u m \<bind> rest
                   else if shift < 16
                   then shifted_copy shift (combine_odd_low shift) src dst length_512u m \<bind> rest
                   else if shift > 48
                   then shifted_copy shift (combine_odd_high shift) src dst length_512u m \<bind> rest
                   else Some (dmlc_own_px_copy_8u_unrolled src dst transfer_size m)
         else if 12 * 1024 < transfer_size \<and> transfer_size < 32 * 1024
              then Some (dmlc_own_px_copy_8u_unrolled src dst transfer_size m)
              else copy_512_by_4 mm512_load_si512 src dst length_512u m \<bind> rest)"

text \<open>\<open>cache_size\<close> is the value of \<open>dml_core_get_cache_size\<close>.\<close>
definition copy_avx512 :: "u64 \<Rightarrow> addr \<Rightarrow> addr \<Rightarrow> u32 \<Rightarrow> mem \<Rightarrow> mem option" where
  "copy_avx512 cache_size src dst transfer_size m =
     (let n = unat transfer_size
      in if n < 1024 then Some (dmlc_own_px_copy_8u_unrolled src dst n m)
         else if n > 32 * 1024 \<and> cache_size > 0 \<and> ucast transfer_size > cache_size
         then Some (dmlc_own_px_copy_8u_unrolled src dst n m)
         else if 64 - unat dst mod 64 < 64 then copy_unaligned_dst src dst n m
         else copy_aligned_dst src dst n m)"

definition dml_avx512_mem_move :: "u64 \<Rightarrow> addr \<Rightarrow> addr \<Rightarrow> u32 \<Rightarrow> mem \<Rightarrow> mem option" where
  "dml_avx512_mem_move cache_size src dst transfer_size m =
     (let src_begin = src; src_end = src + ucast transfer_size;
          dst_begin = dst; dst_end = dst + ucast transfer_size
      in if src_end \<le> dst_begin \<or> src_begin \<ge> dst_end
         then copy_avx512 cache_size src dst transfer_size m
         else Some (dml_ref_mem_move src dst transfer_size m))"

section \<open>Moved bytes\<close>

text \<open>What every loop has to establish of the bytes it covers.\<close>
definition moved :: "mem \<Rightarrow> addr \<Rightarrow> addr \<Rightarrow> nat \<Rightarrow> mem" where
  "moved m src dst n = store_bytes m dst (load_bytes m src n)"

lemma moved_0 [simp]: "moved m src dst 0 = m"
  by (simp add: moved_def)

lemma moved_keeps_source:
  assumes "disjoint_regions src n dst n" "i + k \<le> n" "j \<le> n" "n \<le> 2 ^ 64"
  shows "load_bytes (moved m src dst j) (src + word_of_nat i) k = load_bytes m (src + word_of_nat i) k"
  unfolding moved_def
proof (rule load_store_bytes_disjoint)
  show "disjoint_regions (src + word_of_nat i) k dst (length (load_bytes m src j))"
    using disjoint_regions_part [OF assms(1) assms(2,4)] disjoint_regions_mono assms(3) by simp
  show "k \<le> 2 ^ 64" using assms(2,4) by linarith
qed

lemma moved_add:
  assumes "disjoint_regions src n dst n" "i + k \<le> n" "n \<le> 2 ^ 64"
  shows "moved (moved m src dst i) (src + word_of_nat i) (dst + word_of_nat i) k = moved m src dst (i + k)"
proof -
  have "load_bytes (moved m src dst i) (src + word_of_nat i) k = load_bytes m (src + word_of_nat i) k"
    using assms by (intro moved_keeps_source) auto
  then show ?thesis
    using assms(2,3) store_bytes_append [of "load_bytes m src i" "load_bytes m (src + word_of_nat i) k" m dst]
    by (simp add: moved_def load_bytes_add)
qed

lemma disjoint_rest:
  assumes "disjoint_regions src n dst n" "i + k \<le> n" "n \<le> 2 ^ 64"
  shows "disjoint_regions (src + word_of_nat i) k (dst + word_of_nat i) k"
  using disjoint_regions_part [OF disjoint_regions_sym [OF disjoint_regions_part [OF assms]] assms(2,3)]
  by (rule disjoint_regions_sym)

lemma byte_copy_moved:
  assumes "disjoint_regions src n dst n" "n \<le> 2 ^ 64"
  shows "byte_copy src dst n m = moved m src dst n"
  unfolding byte_copy_def moved_def
proof (rule forward_copy_loop)
  fix i j assume "i < j" "j < n"
  then have "in_region (dst + word_of_nat i) dst n" "in_region (src + word_of_nat j) src n"
    using assms(2) by simp_all
  with assms(1) show "dst + word_of_nat i \<noteq> src + (word_of_nat j :: addr)"
    by (metis disjoint_regionsD)
qed (rule assms(2))

lemma copy_u64_moved: "copy_u64 src dst i m = moved m (src + word_of_nat (8 * i)) (dst + word_of_nat (8 * i)) 8"
  by (simp add: copy_u64_def moved_def store_def load_def bytes_of_word_of del: of_nat_mult)

lemma copy_u64_loop_moved:
  assumes "disjoint_regions src (8 * n) dst (8 * n)" "8 * n \<le> 2 ^ 64" "k \<le> n"
  shows "for_loop k (copy_u64 src dst) m = moved m src dst (8 * k)"
  using assms(3)
proof (induction k)
  case (Suc k)
  then have "for_loop k (copy_u64 src dst) m = moved m src dst (8 * k)" "8 * k + 8 \<le> 8 * n" by simp_all
  then have "for_loop (Suc k) (copy_u64 src dst) m = moved m src dst (8 * k + 8)"
    using moved_add [OF assms(1) _ assms(2), of "8 * k" 8 m] by (simp only: for_loop_Suc copy_u64_moved)
  then show ?case by (simp add: add.commute)
qed simp

text \<open>
  A loop that takes a chunk a round moves all the rounds: what the induction of every loop below
  uses of the remaining part.
\<close>
lemma moved_round:
  assumes "disjoint_regions src n dst n" "c \<le> n" "n \<le> 2 ^ 64" "k \<le> n - c"
  shows "disjoint_regions (src + word_of_nat c) (n - c) (dst + word_of_nat c) (n - c)"
    and "moved (moved m src dst c) (src + word_of_nat c) (dst + word_of_nat c) k = moved m src dst (c + k)"
  using assms disjoint_rest [OF assms(1), of c "n - c"] moved_add [OF assms(1), of c k] by auto

lemma copy_u64_unrolled_moved:
  assumes "disjoint_regions src (8 * n) dst (8 * n)" "8 * n \<le> 2 ^ 64"
  shows "\<exists>q. 4 * q \<le> n \<and> copy_u64_unrolled src dst n m
    = (src + word_of_nat (32 * q), dst + word_of_nat (32 * q), n - 4 * q, moved m src dst (32 * q))"
  using assms
proof (induction src dst n m rule: copy_u64_unrolled.induct)
  case (1 src dst n m)
  show ?case
  proof (cases "n > 3")
    case False
    then show ?thesis by (intro exI [of _ 0]) (simp add: copy_u64_unrolled.simps)
  next
    case True
    have four: "copy_u64 src dst 3 (copy_u64 src dst 2 (copy_u64 src dst 1 (copy_u64 src dst 0 m)))
        = moved m src dst 32"
      using copy_u64_loop_moved [OF 1(2,3), of 4 m] True by (simp add: numeral_eq_Suc)
    have part: "disjoint_regions (src + 32) (8 * (n - 4)) (dst + 32) (8 * (n - 4))"
      using moved_round(1) [OF 1(2), of 32 0] 1(3) True by (simp add: diff_mult_distrib2)
    have "8 * (n - 4) \<le> 2 ^ 64" using 1(3) by simp
    from 1(1) [OF True, unfolded four, OF part this] obtain q
      where q: "4 * q \<le> n - 4" "copy_u64_unrolled (src + 32) (dst + 32) (n - 4) (moved m src dst 32)
        = (src + 32 + word_of_nat (32 * q), dst + 32 + word_of_nat (32 * q), n - 4 - 4 * q,
           moved (moved m src dst 32) (src + 32) (dst + 32) (32 * q))" by blast
    have "moved (moved m src dst 32) (src + 32) (dst + 32) (32 * q) = moved m src dst (32 + 32 * q)"
      using moved_round(2) [OF 1(2), of 32 "32 * q" m] 1(3) True q(1) by simp
    with q True four show ?thesis
      by (intro exI [of _ "Suc q"]) (simp add: copy_u64_unrolled.simps [of src dst n] add.assoc)
  qed
qed

lemma copy_8u_by_8_moved:
  assumes "disjoint_regions src n dst n" "n \<le> 2 ^ 64"
  shows "\<exists>q. 8 * q \<le> n \<and> copy_8u_by_8 src dst n m
    = (src + word_of_nat (8 * q), dst + word_of_nat (8 * q), n - 8 * q, moved m src dst (8 * q))"
  using assms
proof (induction src dst n m rule: copy_8u_by_8.induct)
  case (1 src dst n m)
  show ?case
  proof (cases "n > 7")
    case False
    then show ?thesis by (intro exI [of _ 0]) (simp add: copy_8u_by_8.simps)
  next
    case True
    then have eight: "byte_copy src dst 8 m = moved m src dst 8"
      using 1(2) by (intro byte_copy_moved disjoint_regions_mono [OF 1(2)]) simp_all
    have part: "disjoint_regions (src + 8) (n - 8) (dst + 8) (n - 8)"
      using moved_round(1) [OF 1(2), of 8 0] 1(3) True by simp
    have "n - 8 \<le> 2 ^ 64" using 1(3) by simp
    from 1(1) [OF True, unfolded eight, OF part this] obtain q
      where q: "8 * q \<le> n - 8" "copy_8u_by_8 (src + 8) (dst + 8) (n - 8) (moved m src dst 8)
        = (src + 8 + word_of_nat (8 * q), dst + 8 + word_of_nat (8 * q), n - 8 - 8 * q,
           moved (moved m src dst 8) (src + 8) (dst + 8) (8 * q))" by blast
    have "moved (moved m src dst 8) (src + 8) (dst + 8) (8 * q) = moved m src dst (8 + 8 * q)"
      using moved_round(2) [OF 1(2), of 8 "8 * q" m] 1(3) True q(1) by simp
    with q True eight show ?thesis
      by (intro exI [of _ "Suc q"]) (simp add: copy_8u_by_8.simps [of src dst n] add.assoc)
  qed
qed

lemma tail_copy:
  "t \<le> n \<Longrightarrow> fold (\<lambda>i m. m(dst + word_of_nat i := m (src + word_of_nat i))) [t ..< n] m
     = byte_copy (src + word_of_nat t) (dst + word_of_nat t) (n - t) m"
proof -
  assume "t \<le> n"
  then have "[t ..< n] = map (\<lambda>i. i + t) [0 ..< n - t]" by (simp add: map_add_upt)
  then show ?thesis by (simp add: byte_copy_def for_loop_def fold_map o_def add_ac)
qed

text \<open>The copy of both pointers with the same alignment: quadwords, then bytes.\<close>
lemma quadword_copy:
  assumes "disjoint_regions src n dst n" "n \<le> 2 ^ 64"
  shows "(let length_64u = n div 8;
             tail_start = length_64u * 8;
             (src_64u_ptr, dst_64u_ptr, length_64u, m) = copy_u64_unrolled src dst length_64u m;
             m = for_loop length_64u (copy_u64 src_64u_ptr dst_64u_ptr) m
         in fold (\<lambda>i m. m(dst + word_of_nat i := m (src + word_of_nat i))) [tail_start ..< n] m)
    = moved m src dst n"
proof -
  let ?k = "n div 8"
  have d8: "disjoint_regions src (8 * ?k) dst (8 * ?k)" by (rule disjoint_regions_mono [OF assms(1)]) simp_all
  have le: "8 * ?k \<le> 2 ^ 64" using assms(2) by simp
  obtain q where q: "4 * q \<le> ?k" "copy_u64_unrolled src dst ?k m
      = (src + word_of_nat (32 * q), dst + word_of_nat (32 * q), ?k - 4 * q, moved m src dst (32 * q))"
    using copy_u64_unrolled_moved [OF d8 le] by blast
  have "for_loop (?k - 4 * q) (copy_u64 (src + word_of_nat (32 * q)) (dst + word_of_nat (32 * q)))
      (moved m src dst (32 * q)) = moved m src dst (32 * q + 8 * (?k - 4 * q))"
    using q(1) le moved_round [OF d8, of "32 * q" "8 * (?k - 4 * q)"]
    by (subst copy_u64_loop_moved [of _ "?k - 4 * q"]) (simp_all add: diff_mult_distrib2 del: of_nat_mult)
  moreover have "32 * q + 8 * (?k - 4 * q) = 8 * ?k" using q(1) by linarith
  moreover have "byte_copy (src + word_of_nat (8 * ?k)) (dst + word_of_nat (8 * ?k)) (n - 8 * ?k)
      (moved m src dst (8 * ?k)) = moved m src dst n"
    using assms moved_round [OF assms(1), of "8 * ?k" "n - 8 * ?k"]
    by (subst byte_copy_moved) (simp_all del: of_nat_mult)
  ultimately show ?thesis
    using tail_copy [of "8 * ?k" n dst src] q(2) by (simp add: Let_def mult.commute [of ?k] del: of_nat_mult)
qed

lemma unrolled_body:
  assumes "disjoint_regions src n dst n" "n \<le> 2 ^ 64"
  shows "(if same
      then let length_64u = n div 8;
               tail_start = length_64u * 8;
               (src_64u_ptr, dst_64u_ptr, length_64u, m) = copy_u64_unrolled src dst length_64u m;
               m = for_loop length_64u (copy_u64 src_64u_ptr dst_64u_ptr) m
           in fold (\<lambda>i m. m(dst + word_of_nat i := m (src + word_of_nat i))) [tail_start ..< n] m
      else let (src, dst, n, m) = copy_8u_by_8 src dst n m in byte_copy src dst n m)
    = moved m src dst n"
proof -
  obtain q where q: "8 * q \<le> n" "copy_8u_by_8 src dst n m
      = (src + word_of_nat (8 * q), dst + word_of_nat (8 * q), n - 8 * q, moved m src dst (8 * q))"
    using copy_8u_by_8_moved [OF assms] by blast
  then have "(let (src, dst, n, m) = copy_8u_by_8 src dst n m in byte_copy src dst n m) = moved m src dst n"
    using assms moved_round [OF assms(1), of "8 * q" "n - 8 * q"]
    by (simp add: byte_copy_moved del: of_nat_mult)
  then show ?thesis using quadword_copy [OF assms] by (simp only: if_cancel)
qed

text \<open>The unrolled copy moves its bytes, whatever the alignments.\<close>
lemma unrolled_moved:
  assumes "disjoint_regions src n dst n" "n \<le> 2 ^ 64"
  shows "dmlc_own_px_copy_8u_unrolled src dst n m = moved m src dst n"
proof -
  define a same where "a = 64 - unat dst mod 64" and "same = (a = 64 - unat src mod 64)"
  note unf = dmlc_own_px_copy_8u_unrolled_def [of src dst n m, folded a_def,
      unfolded Let_def [of "64 - _ mod 64"] Let_def [of a], folded same_def]
  consider "a < 64" "n < a" | "a < 64" "a \<le> n" | "\<not> a < 64" by linarith
  then show ?thesis
  proof cases
    case 1
    then show ?thesis unfolding unf using byte_copy_moved [OF assms] by simp
  next
    case 2
    then have "byte_copy src dst a m = moved m src dst a"
      using assms by (intro byte_copy_moved disjoint_regions_mono [OF assms(1)]) simp_all
    moreover have "n - a \<le> 2 ^ 64" using assms(2) by simp
    moreover note unrolled_body [OF moved_round(1) [OF assms(1) 2(2) assms(2) order_refl] this, of same]
      moved_round(2) [OF assms(1) 2(2) assms(2) order_refl, of m]
    ultimately show ?thesis
      unfolding unf using 2 by (simp only: not_less [symmetric] simp_thms if_True if_False prod.case) simp
  next
    case 3
    then show ?thesis
      unfolding unf using unrolled_body [OF assms]
      by (simp only: if_False simp_thms Let_def [of "(src, dst, n, m)"] prod.case)
  qed
qed

section \<open>Register loops move their bytes\<close>

lemma aligned64_next [simp]:
  "aligned64 a \<Longrightarrow> aligned64 (a + 64)" "aligned64 a \<Longrightarrow> aligned64 (a + 128)"
  "aligned64 a \<Longrightarrow> aligned64 (a + 192)" "aligned64 a \<Longrightarrow> aligned64 (a + 256)"
  using aligned64_add [of a 64] aligned64_add [of a 128] aligned64_add [of a 192] aligned64_add [of a 256]
  by simp_all

lemma store_registers:
  "store_bytes (store_bytes (store_bytes (store_bytes m d (load_bytes m s 64))
      (d + 64) (load_bytes m (s + 64) 64)) (d + 128) (load_bytes m (s + 128) 64))
      (d + 192) (load_bytes m (s + 192) 64) = moved m s d 256"
proof -
  have load: "load_bytes m s 256 = load_bytes m s 64 @ load_bytes m (s + 64) 64
      @ load_bytes m (s + 128) 64 @ load_bytes m (s + 192) 64"
    using load_bytes_add [of m s 64 192] load_bytes_add [of m "s + 64" 64 128]
      load_bytes_add [of m "s + 128" 64 64] by (simp add: add.assoc)
  show ?thesis
    unfolding moved_def load
    using store_bytes_append [of "load_bytes m s 64" "load_bytes m (s + 64) 64" m d]
      store_bytes_append [of "load_bytes m s 64 @ load_bytes m (s + 64) 64" "load_bytes m (s + 128) 64" m d]
      store_bytes_append [of "load_bytes m s 64 @ load_bytes m (s + 64) 64 @ load_bytes m (s + 128) 64"
        "load_bytes m (s + 192) 64" m d]
    by simp
qed

text \<open>Two neighbouring registers of the source hold the 64 bytes from a position in the first.\<close>
lemma window_load:
  assumes "length z = 64" "drop sh z = load_bytes m s (64 - sh)" "sh \<le> 64"
  shows "window sh z (load_bytes m (s + word_of_nat (64 - sh)) 64) = load_bytes m s 64"
    and "drop sh (load_bytes m (s + word_of_nat (64 - sh)) 64) = load_bytes m (s + 64) (64 - sh)"
proof -
  have "load_bytes m s 64 = load_bytes m s (64 - sh) @ load_bytes m (s + word_of_nat (64 - sh)) sh"
    using load_bytes_add [of m s "64 - sh" sh] assms(3) by simp
  moreover have "take sh (load_bytes m (s + word_of_nat (64 - sh)) 64)
      = load_bytes m (s + word_of_nat (64 - sh)) sh"
    using load_bytes_part [of 0 sh 64 m "s + word_of_nat (64 - sh)"] assms(3) by simp
  ultimately show "window sh z (load_bytes m (s + word_of_nat (64 - sh)) 64) = load_bytes m s 64"
    using assms by (simp add: window_parts)
  have "s + word_of_nat (64 - sh) + word_of_nat sh = s + 64"
    using assms(3) by (simp add: add.assoc flip: of_nat_add)
  then show "drop sh (load_bytes m (s + word_of_nat (64 - sh)) 64) = load_bytes m (s + 64) (64 - sh)"
    using load_bytes_part [of sh "64 - sh" 64 m "s + word_of_nat (64 - sh)"] assms(3) by simp
qed

lemma window_next_drop:
  "sh \<le> 64 \<Longrightarrow> drop sh (load_bytes m (s + word_of_nat (64 - sh)) 64) = load_bytes m (s + 64) (64 - sh)"
  using window_load(2) [of "load_bytes m (s - word_of_nat sh) 64" sh m s]
    load_bytes_part [of sh "64 - sh" 64 m "s - word_of_nat sh"] by simp

lemma window_next:
  assumes "sh \<le> 64"
  shows "window sh (load_bytes m (s + word_of_nat (64 - sh)) 64) (load_bytes m (s + word_of_nat (64 - sh) + 64) 64)
    = load_bytes m (s + 64) 64"
proof -
  have "drop sh (load_bytes m (s + word_of_nat (64 - sh)) 64) = load_bytes m (s + 64) (64 - sh)"
    using assms by (rule window_next_drop)
  moreover have "s + word_of_nat (64 - sh) + 64 = s + 64 + word_of_nat (64 - sh)" by (simp only: ac_simps)
  ultimately show ?thesis
    using window_load(1) [of "load_bytes m (s + word_of_nat (64 - sh)) 64" sh m "s + 64"] assms
    by (simp only: length_load_bytes)
qed

lemma shifted_loop_moved:
  assumes combine: "\<And>a b. length a = 64 \<Longrightarrow> length b = 64 \<Longrightarrow> combine a b = window sh a b" and "sh \<le> 64"
    and "disjoint_regions s (64 * n) d (64 * n)" "64 * n \<le> 2 ^ 64"
    and "aligned64 (s + word_of_nat (64 - sh))" "aligned64 d"
    and "length z = 64" "drop sh z = load_bytes m s (64 - sh)"
  shows "\<exists>q. 4 * q \<le> n \<and> shifted_loop combine (s + word_of_nat (64 - sh)) d n z m
    = Some (s + word_of_nat (64 - sh) + word_of_nat (256 * q), d + word_of_nat (256 * q), n - 4 * q,
        moved m s d (256 * q))"
  using assms(3-)
proof (induction n arbitrary: s d z m rule: less_induct)
  case (less n)
  let ?r = "word_of_nat (64 - sh) :: addr"
  show ?case
  proof (cases "n > 4")
    case False
    then show ?thesis by (intro exI [of _ 0]) (simp add: shifted_loop.simps)
  next
    case True
    let ?z = "load_bytes m (s + ?r + 192) 64" and ?m = "moved m s d 256"
    have al: "aligned64 (s + ?r)" "aligned64 d" using less.prems by simp_all
    have c0: "combine z (load_bytes m (s + ?r) 64) = load_bytes m s 64"
      using window_load(1) [OF less.prems(5,6) assms(2)] less.prems(5) by (simp add: combine)
    have offsets: "s + 64 + ?r = s + ?r + 64" "s + ?r + 64 + 64 = s + ?r + 128" "s + 64 + 64 = s + 128"
      "s + 128 + ?r = s + ?r + 128" "s + ?r + 128 + 64 = s + ?r + 192" "s + 128 + 64 = s + 192"
      by (simp_all del: of_nat_diff add: ac_simps)
    have c: "combine (load_bytes m (s + ?r) 64) (load_bytes m (s + ?r + 64) 64) = load_bytes m (s + 64) 64"
      "combine (load_bytes m (s + ?r + 64) 64) (load_bytes m (s + ?r + 128) 64) = load_bytes m (s + 128) 64"
      "combine (load_bytes m (s + ?r + 128) 64) ?z = load_bytes m (s + 192) 64"
      using window_next [OF assms(2), of m s] window_next [OF assms(2), of m "s + 64"]
        window_next [OF assms(2), of m "s + 128"] offsets
      by (simp_all only: combine length_load_bytes)
    have step: "shifted_loop combine (s + ?r) d n z m
        = shifted_loop combine (s + ?r + 256) (d + 256) (n - 4) ?z ?m"
      using True al
      by (subst shifted_loop.simps)
        (simp only: if_True mm512_load_si512_def mm512_store_si512_def Option.bind_lunit aligned64_next
          c0 c store_registers)
    have d': "disjoint_regions (s + 256) (64 * (n - 4)) (d + 256) (64 * (n - 4))"
      using moved_round(1) [OF less.prems(1), of 256 0] less.prems(2) True by (simp add: diff_mult_distrib2)
    have "drop sh (load_bytes m (s + 192 + ?r) 64) = load_bytes m (s + 192 + 64) (64 - sh)"
      by (rule window_next_drop [OF assms(2)])
    also have "\<dots> = load_bytes ?m (s + 256) (64 - sh)"
      using moved_keeps_source [OF less.prems(1), of 256 "64 - sh" 256 m] less.prems(2) True
      by (simp add: add.commute [of s])
    also have "s + 192 + ?r = s + ?r + 192" by (simp only: ac_simps)
    finally have z': "drop sh ?z = load_bytes ?m (s + 256) (64 - sh)" .
    have al': "aligned64 (s + 256 + ?r)" using aligned64_next(4) [OF al(1)] by (simp only: ac_simps)
    have n: "n - 4 < n" "64 * (n - 4) \<le> 2 ^ 64" using less.prems(2) True by simp_all
    obtain q where q: "4 * q \<le> n - 4" "shifted_loop combine (s + 256 + ?r) (d + 256) (n - 4) ?z ?m
        = Some (s + 256 + ?r + word_of_nat (256 * q), d + 256 + word_of_nat (256 * q), n - 4 - 4 * q,
            moved ?m (s + 256) (d + 256) (256 * q))"
      using less.IH [OF n(1) d' n(2) al' aligned64_next(4) [OF al(2)] length_load_bytes z'] by blast
    have "moved ?m (s + 256) (d + 256) (256 * q) = moved m s d (256 + 256 * q)"
      using moved_round(2) [OF less.prems(1), of 256 "256 * q" m] less.prems(2) True q(1) by simp
    moreover have "s + ?r + 256 = s + 256 + ?r" by (simp only: ac_simps)
    ultimately show ?thesis using q True
      by (intro exI [of _ "Suc q"]) (simp add: step ac_simps)
  qed
qed

lemma skip_mask_load:
  assumes "sh < 64"
  shows "drop sh (mm512_maskz_loadu_epi8 (NOT (push_bit sh 1 - 1)) (s - word_of_nat sh) m)
    = load_bytes m s (64 - sh)"
proof (rule nth_equalityI)
  fix i assume "i < length (drop sh (mm512_maskz_loadu_epi8 (NOT (push_bit sh 1 - 1)) (s - word_of_nat sh) m))"
  then have i: "sh + i < 64" by (simp add: mm512_maskz_loadu_epi8_def)
  have "push_bit sh 1 - 1 = (mask sh :: u64)" by (simp add: mask_eq_exp_minus_1 push_bit_eq_mult)
  then have "bit (NOT (push_bit sh 1 - 1) :: u64) (sh + i)" using i by (simp add: bit_not_iff bit_mask_iff)
  with i show "drop sh (mm512_maskz_loadu_epi8 (NOT (push_bit sh 1 - 1)) (s - word_of_nat sh) m) ! i
      = load_bytes m s (64 - sh) ! i"
    by (simp add: mm512_maskz_loadu_epi8_def)
qed simp

text \<open>What remains after a register loop: \<open>q\<close> rounds of four registers are moved.\<close>
lemma shifted_copy_moved:
  assumes combine: "\<And>a b. length a = 64 \<Longrightarrow> length b = 64 \<Longrightarrow> combine a b = window sh a b"
    and "0 < sh" "sh < 64" "disjoint_regions s (64 * n) d (64 * n)" "64 * n \<le> 2 ^ 64"
    and "aligned64 (s + word_of_nat (64 - sh))" "aligned64 d"
  shows "\<exists>q. 4 * q \<le> n \<and> shifted_copy sh combine s d n m
    = Some (s + word_of_nat (256 * q), d + word_of_nat (256 * q), n - 4 * q, moved m s d (256 * q))"
proof -
  let ?z = "mm512_maskz_loadu_epi8 (NOT (push_bit sh 1 - 1)) (s - word_of_nat sh) m"
  have "s - word_of_nat sh + 64 = s + word_of_nat (64 - sh)" using assms(3) by simp
  moreover obtain q where "4 * q \<le> n" "shifted_loop combine (s + word_of_nat (64 - sh)) d n ?z m
      = Some (s + word_of_nat (64 - sh) + word_of_nat (256 * q), d + word_of_nat (256 * q), n - 4 * q,
          moved m s d (256 * q))"
    using shifted_loop_moved [OF combine less_imp_le [OF assms(3)] assms(4-7) length_vec(2)
        skip_mask_load [OF assms(3)]] by blast
  ultimately show ?thesis
    by (intro exI [of _ q])
      (simp only: shifted_copy_def Let_def Option.bind_lunit prod.case, simp del: of_nat_diff)
qed

lemma copy_512_by_4_moved:
  assumes "disjoint_regions s (64 * n) d (64 * n)" "64 * n \<le> 2 ^ 64" "aligned64 d"
    and ld: "\<And>k m. 64 dvd k \<Longrightarrow> ld (s + word_of_nat k) m = Some (load_bytes m (s + word_of_nat k) 64)"
  shows "\<exists>q. 4 * q \<le> n \<and> copy_512_by_4 ld s d n m
    = Some (s + word_of_nat (256 * q), d + word_of_nat (256 * q), n - 4 * q, moved m s d (256 * q))"
  using assms
proof (induction n arbitrary: s d m rule: less_induct)
  case (less n)
  show ?case
  proof (cases "n > 3")
    case False
    then show ?thesis by (intro exI [of _ 0]) (simp add: copy_512_by_4.simps)
  next
    case True
    let ?m = "moved m s d 256"
    have loads: "ld s m = Some (load_bytes m s 64)" "ld (s + 64) m = Some (load_bytes m (s + 64) 64)"
      "ld (s + 128) m = Some (load_bytes m (s + 128) 64)" "ld (s + 192) m = Some (load_bytes m (s + 192) 64)"
      using less.prems(4) [of 0 m] less.prems(4) [of 64 m] less.prems(4) [of 128 m] less.prems(4) [of 192 m]
      by simp_all
    have step: "copy_512_by_4 ld s d n m = copy_512_by_4 ld (s + 256) (d + 256) (n - 4) ?m"
      using True less.prems(3)
      by (subst copy_512_by_4.simps)
        (simp only: if_True loads mm512_store_si512_def Option.bind_lunit aligned64_next store_registers)
    have d': "disjoint_regions (s + 256) (64 * (n - 4)) (d + 256) (64 * (n - 4))"
      using moved_round(1) [OF less.prems(1), of 256 0] less.prems(2) True by (simp add: diff_mult_distrib2)
    have n: "n - 4 < n" "64 * (n - 4) \<le> 2 ^ 64" using less.prems(2) True by simp_all
    have ld': "ld (s + 256 + word_of_nat k) m' = Some (load_bytes m' (s + 256 + word_of_nat k) 64)"
      if "64 dvd k" for k m'
      using less.prems(4) [of "256 + k" m'] that by (simp add: add.assoc dvd_add)
    obtain q where q: "4 * q \<le> n - 4" "copy_512_by_4 ld (s + 256) (d + 256) (n - 4) ?m
        = Some (s + 256 + word_of_nat (256 * q), d + 256 + word_of_nat (256 * q), n - 4 - 4 * q,
            moved ?m (s + 256) (d + 256) (256 * q))"
      using less.IH [OF n(1) d' n(2) aligned64_next(4) [OF less.prems(3)] ld'] by blast
    have "moved ?m (s + 256) (d + 256) (256 * q) = moved m s d (256 + 256 * q)"
      using moved_round(2) [OF less.prems(1), of 256 "256 * q" m] less.prems(2) True q(1) by simp
    with q True show ?thesis by (intro exI [of _ "Suc q"]) (simp add: step ac_simps)
  qed
qed

lemma copy_512_rest_moved:
  assumes "disjoint_regions s (64 * n + t) d (64 * n + t)" "64 * n + t \<le> 2 ^ 64" "aligned64 d"
  shows "copy_512_rest s d n t m = Some (moved m s d (64 * n + t))"
  using assms
proof (induction n arbitrary: s d m)
  case 0
  then show ?case by (simp add: unrolled_moved)
next
  case (Suc n)
  have "disjoint_regions (s + 64) (64 * n + t) (d + 64) (64 * n + t)"
    using moved_round(1) [OF Suc.prems(1), of 64 0] Suc.prems(2) by simp
  moreover have "moved (moved m s d 64) (s + 64) (d + 64) (64 * n + t) = moved m s d (64 * Suc n + t)"
    using moved_round(2) [OF Suc.prems(1), of 64 "64 * n + t" m] Suc.prems(2)
    by (simp add: add.assoc)
  ultimately show ?case
    using Suc by (simp add: mm512_store_si512_def mm512_loadu_si512_def moved_def [of m s d 64, symmetric])
qed

text \<open>A register loop, the remaining registers and the tail together move the whole range.\<close>
lemma loop_then_rest:
  assumes "\<exists>q. 4 * q \<le> n div 64 \<and> l = Some (s + word_of_nat (256 * q), d + word_of_nat (256 * q), n div 64 - 4 * q,
      moved m s d (256 * q))"
    and "disjoint_regions s n d n" "n \<le> 2 ^ 64" "aligned64 d"
  shows "l \<bind> (\<lambda>(src, dst, len, m). copy_512_rest src dst len (n mod 64) m) = Some (moved m s d n)"
proof -
  from assms(1) obtain q where q: "4 * q \<le> n div 64" "l = Some (s + word_of_nat (256 * q),
      d + word_of_nat (256 * q), n div 64 - 4 * q, moved m s d (256 * q))" by blast
  have rest: "64 * (n div 64 - 4 * q) + n mod 64 = n - 256 * q"
    using q(1) mult_div_mod_eq [of 64 n] by linarith
  have le: "256 * q \<le> n" using q(1) by linarith
  have "aligned64 (d + word_of_nat (256 * q))" using assms(4) by (rule aligned64_add) simp
  then show ?thesis
    using copy_512_rest_moved [of "s + word_of_nat (256 * q)" "n div 64 - 4 * q" "n mod 64"
        "d + word_of_nat (256 * q)" "moved m s d (256 * q)"]
      moved_round(1) [OF assms(2) le assms(3) order_refl]
      moved_round(2) [OF assms(2) le assms(3) order_refl, of m] assms(3) le
    by (simp add: q(2) rest del: of_nat_mult)
qed

section \<open>The whole routine\<close>

lemmas combine_defs = combine_dwords_def combine_words_def combine_odd_low_def combine_odd_high_def

lemma combine_windows:
  assumes "0 < sh" "sh < 64" "length a = 64" "length b = 64"
  shows "sh mod 4 = 0 \<Longrightarrow> combine_dwords sh a b = window sh a b"
    and "sh mod 2 = 0 \<Longrightarrow> combine_words sh a b = window sh a b"
    and "sh mod 2 \<noteq> 0 \<Longrightarrow> sh < 16 \<Longrightarrow> combine_odd_low sh a b = window sh a b"
    and "sh mod 2 \<noteq> 0 \<Longrightarrow> 48 < sh \<Longrightarrow> combine_odd_high sh a b = window sh a b"
  unfolding combine_defs Let_def
  using assms alignr_window [of sh a b] permutex_window [of sh a b] lower_window [of sh a b]
    higher_window [of sh a b]
  by (simp_all only: odd_iff_mod_2_eq_one not_mod_2_eq_0_eq_1)

lemma aligned64_up: "aligned64 (a + word_of_nat (64 - unat a mod 64))"
proof -
  define q r where "q = unat a div 64" and "r = unat a mod 64"
  have "64 * q + r = unat a" "r < 64" by (simp_all add: q_def r_def)
  then have "unat a + (64 - r) = 64 * Suc q" by simp
  then have "unat a + (64 - unat a mod 64) = 64 * Suc (unat a div 64)" by (simp only: q_def r_def)
  moreover have "unat (word_of_nat (64 - unat a mod 64) :: addr) = 64 - unat a mod 64"
    by (rule unat_of_nat_addr) simp
  ultimately show ?thesis by (simp add: aligned64_def unat_word_ariths mod_mod_cancel del: of_nat_diff)
qed

text \<open>The four shifted copies, with what follows them, move the whole range.\<close>
lemma shifted_branch:
  assumes "\<And>a b. length a = 64 \<Longrightarrow> length b = 64 \<Longrightarrow> combine a b = window sh a b"
    and "0 < sh" "sh < 64" "disjoint_regions s n d n" "n \<le> 2 ^ 64"
    and "aligned64 (s + word_of_nat (64 - sh))" "aligned64 d"
  shows "shifted_copy sh combine s d (n div 64) m \<bind>
      (\<lambda>(src, dst, len, m). copy_512_rest src dst len (n mod 64) m) = Some (moved m s d n)"
proof (rule loop_then_rest)
  have "disjoint_regions s (64 * (n div 64)) d (64 * (n div 64))"
    by (rule disjoint_regions_mono [OF assms(4)]) simp_all
  moreover have "64 * (n div 64) \<le> 2 ^ 64" using assms(5) by simp
  ultimately show "\<exists>q. 4 * q \<le> n div 64 \<and> shifted_copy sh combine s d (n div 64) m = Some
      (s + word_of_nat (256 * q), d + word_of_nat (256 * q), n div 64 - 4 * q, moved m s d (256 * q))"
    using assms by (intro shifted_copy_moved) auto
qed (use assms in auto)

lemma plain_branch:
  assumes "disjoint_regions s n d n" "n \<le> 2 ^ 64" "aligned64 d"
    and "\<And>k m. 64 dvd k \<Longrightarrow> ld (s + word_of_nat k) m = Some (load_bytes m (s + word_of_nat k) 64)"
  shows "copy_512_by_4 ld s d (n div 64) m \<bind>
      (\<lambda>(src, dst, len, m). copy_512_rest src dst len (n mod 64) m) = Some (moved m s d n)"
proof (rule loop_then_rest)
  have "disjoint_regions s (64 * (n div 64)) d (64 * (n div 64))"
    by (rule disjoint_regions_mono [OF assms(1)]) simp_all
  moreover have "64 * (n div 64) \<le> 2 ^ 64" using assms(2) by simp
  ultimately show "\<exists>q. 4 * q \<le> n div 64 \<and> copy_512_by_4 ld s d (n div 64) m = Some
      (s + word_of_nat (256 * q), d + word_of_nat (256 * q), n div 64 - 4 * q, moved m s d (256 * q))"
    using assms by (intro copy_512_by_4_moved) auto
qed (use assms in auto)

lemma if_eqI: "(c \<Longrightarrow> x = z) \<Longrightarrow> (\<not> c \<Longrightarrow> y = z) \<Longrightarrow> (if c then x else y) = z"
  by simp

text \<open>The choice by the shift, with or without the size limit of the odd shifts.\<close>
lemma shift_choice:
  assumes d: "disjoint_regions s n d n" "n \<le> 2 ^ 64" "aligned64 d"
    and sh: "0 < sh" "sh < 64" "aligned64 (s + word_of_nat (64 - sh))"
    and rest: "rest = (\<lambda>(src, dst, len, m). copy_512_rest src dst len (n mod 64) m)"
  shows "(if sh mod 4 = 0 then shifted_copy sh (combine_dwords sh) s d (n div 64) m \<bind> rest
      else if sh mod 2 = 0 then shifted_copy sh (combine_words sh) s d (n div 64) m \<bind> rest
      else if sh < 16
      then if small then Some (dmlc_own_px_copy_8u_unrolled s d n m)
           else shifted_copy sh (combine_odd_low sh) s d (n div 64) m \<bind> rest
      else if sh > 48
      then if small then Some (dmlc_own_px_copy_8u_unrolled s d n m)
           else shifted_copy sh (combine_odd_high sh) s d (n div 64) m \<bind> rest
      else Some (dmlc_own_px_copy_8u_unrolled s d n m)) = Some (moved m s d n)"
proof -
  have U: "Some (dmlc_own_px_copy_8u_unrolled s d n m) = Some (moved m s d n)"
    using unrolled_moved [OF d(1,2)] by simp
  note branch = shifted_branch [OF _ sh(1,2) d(1,2) sh(3) d(3)]
  show ?thesis
    unfolding rest
    by (intro if_eqI; (rule U | (rule branch, rule combine_windows [OF sh(1,2)], assumption+)))
qed

lemma copy_aligned_dst_moved:
  assumes "disjoint_regions src n dst n" "n \<le> 2 ^ 64" "aligned64 dst"
  shows "copy_aligned_dst src dst n m = Some (moved m src dst n)"
proof -
  have U: "Some (dmlc_own_px_copy_8u_unrolled src dst n m) = Some (moved m src dst n)"
    using unrolled_moved [OF assms(1,2)] by simp
  show ?thesis
  proof (cases "unat src mod 64 = 0")
    case True
    then have "aligned64 src" by (simp add: aligned64_def)
    then have "mm512_load_si512 (src + word_of_nat k) m = Some (load_bytes m (src + word_of_nat k) 64)"
      if "64 dvd k" for k m using that by (simp add: mm512_load_si512_def aligned64_add)
    then have plain: "copy_512_by_4 mm512_load_si512 src dst (n div 64) m \<bind>
        (\<lambda>(src, dst, len, m). copy_512_rest src dst len (n mod 64) m) = Some (moved m src dst n)"
      by (rule plain_branch [OF assms])
    show ?thesis
      unfolding copy_aligned_dst_def Let_def True
      by (intro if_eqI; (rule U | rule plain | simp))
  next
    case False
    let ?sh = "unat src mod 64"
    have sh: "0 < ?sh" "?sh < 64" "64 - (64 - ?sh) = ?sh" "64 - ?sh < 64" using False by auto
    note choice = shift_choice [where small = False, unfolded if_False, OF assms sh(1,2) aligned64_up refl]
    show ?thesis
      unfolding copy_aligned_dst_def Let_def sh(3)
      by (rule if_eqI, rule if_eqI, rule U, rule choice) (use sh(4) in blast)
  qed
qed

lemma copy_after_align_moved:
  assumes d: "disjoint_regions (src + word_of_nat a) n (dst + word_of_nat a) n" "n \<le> 2 ^ 64"
    and "aligned64 (dst + word_of_nat a)" and b: "b = 64 - unat src mod 64" and a: "0 < a" "a < 64"
  shows "copy_after_align a b (src + word_of_nat a) (dst + word_of_nat a) n m
    = Some (moved m (src + word_of_nat a) (dst + word_of_nat a) n)"
proof -
  define sh where "sh = (if a > b then a - b else 64 + a - b)"
  let ?s = "src + word_of_nat a" and ?d = "dst + word_of_nat a"
  have bb: "0 < b" "b \<le> 64" by (simp_all add: b)
  have sh: "0 < sh" "sh < 64" "aligned64 (?s + word_of_nat (64 - sh))"
    if "(2 ^ 32 + b - a) mod 2 ^ 32 mod 16 \<noteq> 0"
  proof -
    from that have "a \<noteq> b" by auto
    then show "0 < sh" "sh < 64" using a bb by (auto simp: sh_def)
    have "a + (64 - sh) = (if a > b then b + 64 else b)" using a bb by (auto simp: sh_def)
    then have "?s + word_of_nat (64 - sh) = src + word_of_nat (if a > b then b + 64 else b)"
      by (simp add: add.assoc del: of_nat_diff flip: of_nat_add)
    moreover have "aligned64 (src + word_of_nat b)" unfolding b by (rule aligned64_up)
    ultimately show "aligned64 (?s + word_of_nat (64 - sh))"
      using aligned64_next(1) [of "src + word_of_nat b"] by (simp add: add.assoc)
  qed
  have plain: "copy_512_by_4 (\<lambda>a m. Some (mm512_loadu_si512 a m)) ?s ?d (n div 64) m \<bind>
      (\<lambda>(src, dst, len, m). copy_512_rest src dst len (n mod 64) m) = Some (moved m ?s ?d n)"
    by (rule plain_branch [OF assms(1-3)]) (simp add: mm512_loadu_si512_def)
  show ?thesis
    unfolding copy_after_align_def Let_def sh_def [symmetric]
    by (rule if_eqI, rule shift_choice [OF assms(1-3) sh refl], assumption+, rule plain)
qed

lemma copy_unaligned_dst_moved:
  assumes "disjoint_regions src n dst n" "n \<le> 2 ^ 64" "unat dst mod 64 \<noteq> 0"
  shows "copy_unaligned_dst src dst n m = Some (moved m src dst n)"
proof (cases "n < 4 * 1024")
  case True
  then show ?thesis using unrolled_moved [OF assms(1,2)] by (simp add: copy_unaligned_dst_def)
next
  case False
  define a where "a = 64 - unat dst mod 64"
  have a: "0 < a" "a < 64" using assms(3) by (auto simp: a_def)
  then have an: "a \<le> n" "n - a \<le> 2 ^ 64" using False assms(2) by linarith+
  have "dmlc_own_px_copy_8u_unrolled src dst a m = moved m src dst a"
    using an a by (intro unrolled_moved disjoint_regions_mono [OF assms(1)]) simp_all
  moreover have "aligned64 (dst + word_of_nat a)" unfolding a_def by (rule aligned64_up)
  moreover note copy_after_align_moved [OF moved_round(1) [OF assms(1) an(1) assms(2) order_refl]
      an(2) this refl a, of "moved m src dst a"]
  ultimately show ?thesis
    unfolding copy_unaligned_dst_def Let_def a_def [symmetric]
    using False moved_round(2) [OF assms(1) an(1) assms(2) order_refl, of m] an(1) by simp
qed

lemma copy_avx512_moved:
  assumes "disjoint_regions src (unat n) dst (unat n)"
  shows "copy_avx512 cache src dst n m = Some (moved m src dst (unat n))"
proof -
  have n: "unat n \<le> 2 ^ 64" using unat_u32_less_addr [of n] by simp
  show ?thesis
    using unrolled_moved [OF assms n] copy_unaligned_dst_moved [OF assms n] copy_aligned_dst_moved [OF assms n]
    by (cases "unat dst mod 64 = 0") (auto simp: copy_avx512_def Let_def aligned64_def)
qed

lemma dml_avx512_mem_move_eq:
  assumes "unat src + unat n < 2 ^ 64" "unat dst + unat n < 2 ^ 64"
  shows "dml_avx512_mem_move cache src dst n m = Some (dml_ref_mem_move src dst n m)"
proof (cases "src + ucast n \<le> dst \<or> src \<ge> dst + ucast n")
  case True
  then have "unat src + unat n \<le> unat dst \<or> unat dst + unat n \<le> unat src"
    using assms by (simp add: word_le_nat_alt unat_addr_plus_size)
  then have "disjoint_regions src (unat n) dst (unat n)"
    using assms by (auto simp: disjoint_regions_def in_region_no_wrap)
  then show ?thesis
    using True by (simp add: dml_avx512_mem_move_def Let_def copy_avx512_moved moved_def
        dml_ref_mem_move_eq [OF assms])
qed (simp add: dml_avx512_mem_move_def Let_def)

end
