(* ===== verification/DML_Gf2.thy ===== *)
theory DML_Gf2
  imports DML_Ref_Kernels
begin

text \<open>
  Polynomials over the field of two elements, as words: bit \<open>i\<close> is the coefficient of
  \<open>x ^ i\<close>, addition is \<open>XOR\<close>. The theory holds the maps that commute with \<open>XOR\<close> and the
  principle that two of them are equal when they agree on the powers of \<open>x\<close>; multiplication by \<open>x\<close>
  modulo a polynomial of degree 32, which is one step of the CRC shift register; the residue of a
  word; the carry-less product; and the CRC of a byte sequence in these terms.
\<close>

unbundle bit_operations_syntax

section \<open>Maps that commute with addition\<close>

named_theorems linear_intros \<open>closure of the maps that commute with XOR\<close>

definition xlin :: "('a::len word \<Rightarrow> 'b::len word) \<Rightarrow> bool" where
  "xlin f \<longleftrightarrow> (\<forall>a b. f (a XOR b) = f a XOR f b)"

lemma xlinD: "xlin f \<Longrightarrow> f (a XOR b) = f a XOR f b"
  by (simp add: xlin_def)

lemma xlin_0: "xlin f \<Longrightarrow> f 0 = 0"
  using xlinD [of f 0 0] by simp

lemma xor_swap4: "(a XOR b) XOR (c XOR d) = (a XOR c) XOR (b XOR d)" for a :: "'a::len word"
  by (simp add: ac_simps)

lemma xor_cancel [simp]: "a XOR (a XOR b) = b" "(a XOR b) XOR b = a" "(b XOR a) XOR b = a"
  for a :: "'a::len word"
  by (rule bit_word_eqI, auto simp: bit_simps)+

lemma xlin_id [linear_intros]: "xlin (\<lambda>w. w)"
  by (simp add: xlin_def)

lemma xlin_zero [linear_intros]: "xlin (\<lambda>w. 0)"
  by (simp add: xlin_def)

lemma xlin_xor [linear_intros]: "xlin f \<Longrightarrow> xlin g \<Longrightarrow> xlin (\<lambda>w. f w XOR g w)"
  by (simp add: xlin_def xor_swap4)

lemma xlin_push_bit [linear_intros]: "xlin f \<Longrightarrow> xlin (\<lambda>w. push_bit k (f w))"
  by (simp add: xlin_def push_bit_xor)

lemma xlin_drop_bit [linear_intros]: "xlin f \<Longrightarrow> xlin (\<lambda>w. drop_bit k (f w))"
  by (simp add: xlin_def drop_bit_xor)

lemma xlin_take_bit [linear_intros]: "xlin f \<Longrightarrow> xlin (\<lambda>w. take_bit k (f w))"
  by (simp add: xlin_def)

lemma xlin_ucast [linear_intros]: "xlin f \<Longrightarrow> xlin (\<lambda>w. ucast (f w))"
  by (simp add: xlin_def unsigned_xor_eq)

lemma xlin_and [linear_intros]: "xlin f \<Longrightarrow> xlin (\<lambda>w. f w AND k)"
  by (auto simp: xlin_def bit_simps intro!: bit_word_eqI)

lemma xlin_if_bit [linear_intros]: "xlin f \<Longrightarrow> xlin (\<lambda>w. if bit (f w) i then k else 0)"
  by (auto simp: xlin_def bit_xor_iff)

lemma xlin_reverse [linear_intros]: "xlin f \<Longrightarrow> xlin (\<lambda>w. word_reverse (f w))"
  by (auto simp: xlin_def bit_simps intro!: bit_word_eqI)

lemma xlin_comp: "xlin g \<Longrightarrow> xlin f \<Longrightarrow> xlin (\<lambda>w. g (f w))"
  by (simp add: xlin_def)

lemma xlin_funpow: "xlin g \<Longrightarrow> xlin (g ^^ n)" for g :: "'a::len word \<Rightarrow> 'a word"
  by (induction n) (simp_all add: xlin_def)

text \<open>The power \<open>x ^ i\<close>. Two such maps are equal when they agree on the powers.\<close>
definition xmon :: "nat \<Rightarrow> 'a::len word" where
  "xmon i = push_bit i 1"

lemma bit_xmon [bit_simps]: "bit (xmon i :: 'a::len word) k \<longleftrightarrow> k = i \<and> i < LENGTH('a)"
  by (auto simp: xmon_def bit_simps)

lemma push_bit_xmon [simp]: "push_bit k (xmon i) = (xmon (k + i) :: 'a::len word)"
  by (rule bit_word_eqI) (auto simp: bit_simps)

lemma take_bit_Suc_xor:
  "take_bit (Suc n) w = take_bit n w XOR (if bit w n then xmon n else 0)" for w :: "'a::len word"
  by (rule bit_word_eqI) (auto simp: bit_simps less_Suc_eq)

lemma linear_ext:
  fixes f g :: "'a::len word \<Rightarrow> 'b::len word"
  assumes f: "xlin f" and g: "xlin g" and basis: "\<And>i. i < LENGTH('a) \<Longrightarrow> f (xmon i) = g (xmon i)"
  shows "f w = g w"
proof -
  have "n \<le> LENGTH('a) \<Longrightarrow> f (take_bit n w) = g (take_bit n w)" for n
  proof (induction n)
    case 0
    then show ?case by (simp add: xlin_0 [OF f] xlin_0 [OF g])
  next
    case (Suc n)
    then show ?case
      by (auto simp: take_bit_Suc_xor xlinD [OF f] xlinD [OF g] basis xlin_0 [OF f] xlin_0 [OF g])
  qed
  from this [of "LENGTH('a)"] show ?thesis by simp
qed

section \<open>Sums\<close>

primrec xsum :: "nat \<Rightarrow> (nat \<Rightarrow> 'a::len word) \<Rightarrow> 'a word" where
  "xsum 0 f = 0"
| "xsum (Suc n) f = xsum n f XOR f n"

lemma xsum_zero: "(\<And>i. i < n \<Longrightarrow> f i = 0) \<Longrightarrow> xsum n f = 0"
  by (induction n) simp_all

lemma xsum_single: "j < n \<Longrightarrow> (\<And>i. i < n \<Longrightarrow> i \<noteq> j \<Longrightarrow> f i = 0) \<Longrightarrow> xsum n f = f j"
proof (induction n)
  case (Suc n)
  show ?case
  proof (cases "j = n")
    case True
    then show ?thesis using Suc.prems by (simp add: xsum_zero)
  next
    case False
    then show ?thesis using Suc by simp
  qed
qed simp

lemma xlin_xsum [linear_intros]: "(\<And>i. xlin (\<lambda>w. f w i)) \<Longrightarrow> xlin (\<lambda>w. xsum n (f w))"
  by (induction n) (simp_all add: linear_intros)

section \<open>Multiplication by \<open>x\<close> and residues\<close>

text \<open>Multiplication by \<open>x\<close> modulo the polynomial \<open>x ^ 32 + p\<close>.\<close>
definition xtime :: "u32 \<Rightarrow> u32 \<Rightarrow> u32" where
  "xtime p c = push_bit 1 c XOR (if bit c 31 then p else 0)"

abbreviation xpow :: "u32 \<Rightarrow> nat \<Rightarrow> u32 \<Rightarrow> u32" where
  "xpow p n \<equiv> xtime p ^^ n"

lemma xlin_xtime [linear_intros]: "xlin f \<Longrightarrow> xlin (\<lambda>w. xtime p (f w))"
  unfolding xtime_def by (intro linear_intros)

lemma xlin_xpow [linear_intros]: "xlin f \<Longrightarrow> xlin (\<lambda>w. xpow p n (f w))"
  by (rule xlin_comp [OF xlin_funpow]) (intro linear_intros)

lemma xpow_xor: "xpow p n (a XOR b) = xpow p n a XOR xpow p n b"
  by (rule xlinD) (intro linear_intros)

lemma xpow_0 [simp]: "xpow p n 0 = 0"
  by (rule xlin_0) (intro linear_intros)

lemma xpow_add: "xpow p (m + n) c = xpow p m (xpow p n c)"
  by (simp add: funpow_add)

lemma xpow_commute: "xpow p m (xpow p n c) = xpow p n (xpow p m c)"
  by (metis add.commute xpow_add)

lemma xtime_shift: "\<not> bit c 31 \<Longrightarrow> xtime p c = push_bit 1 c"
  by (simp only: xtime_def if_False xor.right_neutral)

lemma xtime_xmon: "i < 31 \<Longrightarrow> xtime p (xmon i) = xmon (Suc i)"
  by (subst xtime_shift) (simp_all add: bit_simps del: push_bit_eq_mult)

lemma xmon_0: "xmon 0 = (1 :: 'a::len word)"
  by (simp add: xmon_def)

lemma xpow_small: "i < 32 \<Longrightarrow> xpow p i 1 = xmon i"
  by (induction i) (simp_all add: xmon_0 xtime_xmon)

lemma xtime_top: "xtime p (xmon 31) = p"
  by (simp add: xtime_def bit_simps) (rule bit_word_eqI, simp add: bit_simps)

lemma xpow_32: "xpow p 32 1 = p"
proof -
  have "xpow p 32 1 = xtime p (xmon 31)" using xpow_small [of 31 p] by (simp add: eval_nat_numeral)
  then show ?thesis by (simp add: xtime_top)
qed

text \<open>The product of a residue \<open>c\<close> and a word, as a residue.\<close>
definition xmul :: "u32 \<Rightarrow> u32 \<Rightarrow> 'a::len word \<Rightarrow> u32" where
  "xmul p c w = xsum LENGTH('a) (\<lambda>i. if bit w i then xpow p i c else 0)"

definition residue :: "u32 \<Rightarrow> 'a::len word \<Rightarrow> u32" where
  "residue p w = xmul p 1 w"

lemma xlin_xmul [linear_intros]: "xlin f \<Longrightarrow> xlin (\<lambda>w. xmul p c (f w))"
  unfolding xmul_def by (intro linear_intros)

lemma xlin_residue [linear_intros]: "xlin f \<Longrightarrow> xlin (\<lambda>w. residue p (f w))"
  unfolding residue_def by (intro linear_intros)

lemma xlin_xmul_left [linear_intros]: "xlin f \<Longrightarrow> xlin (\<lambda>w. xmul p (f w) k)"
proof -
  assume f: "xlin f"
  have "xlin (\<lambda>w. if bit k i then xpow p i (f w) else 0)" for i
    by (cases "bit k i") (simp_all add: linear_intros f)
  then show ?thesis unfolding xmul_def by (intro linear_intros)
qed

lemma xmul_basis: "j < LENGTH('a) \<Longrightarrow> xmul p c (xmon j :: 'a::len word) = xpow p j c"
  unfolding xmul_def by (subst xsum_single [of j]) (auto simp: bit_simps)

lemma residue_basis: "j < LENGTH('a) \<Longrightarrow> residue p (xmon j :: 'a::len word) = xpow p j 1"
  by (simp add: residue_def xmul_basis)

lemma residue_xor: "residue p (a XOR b) = residue p a XOR residue p b"
  by (rule xlinD) (intro linear_intros)

lemma residue_0 [simp]: "residue p 0 = 0"
  by (rule xlin_0) (intro linear_intros)

lemma residue_u32: "residue p (w :: u32) = w"
  by (rule linear_ext [of "residue p" "\<lambda>w. w"]) (simp_all add: linear_intros residue_basis xpow_small)

lemma residue_ucast:
  assumes "LENGTH('a) \<le> LENGTH('b)"
  shows "residue p (ucast (w :: 'a::len word) :: 'b::len word) = residue p w"
proof (rule linear_ext [of "\<lambda>w. residue p (ucast w :: 'b word)" "residue p"])
  fix i assume "i < LENGTH('a)"
  moreover from this have "(ucast (xmon i :: 'a word) :: 'b word) = xmon i"
    using assms by (auto intro!: bit_word_eqI simp: bit_simps)
  ultimately show "residue p (ucast (xmon i :: 'a word) :: 'b word) = residue p (xmon i :: 'a word)"
    using assms by (simp add: residue_basis)
qed (intro linear_intros)+

text \<open>A shift multiplies by a power of \<open>x\<close>; the bits that leave the word are added back.\<close>
lemma residue_shift:
  assumes "k \<le> LENGTH('a)"
  shows "xpow p LENGTH('a) (residue p (drop_bit (LENGTH('a) - k) w)) XOR residue p (push_bit k w)
    = xpow p k (residue p (w :: 'a::len word))"
proof (rule linear_ext [of "\<lambda>w :: 'a word. xpow p LENGTH('a) (residue p (drop_bit (LENGTH('a) - k) w))
    XOR residue p (push_bit k w)" "\<lambda>w. xpow p k (residue p w)"])
  fix i assume i: "i < LENGTH('a)"
  show "xpow p LENGTH('a) (residue p (drop_bit (LENGTH('a) - k) (xmon i :: 'a word)))
      XOR residue p (push_bit k (xmon i :: 'a word)) = xpow p k (residue p (xmon i :: 'a word))"
  proof (cases "i + k < LENGTH('a)")
    case True
    then have "drop_bit (LENGTH('a) - k) (xmon i :: 'a word) = 0"
      by (intro bit_word_eqI) (auto simp: bit_simps)
    moreover have "push_bit k (xmon i :: 'a word) = xmon (k + i)" by simp
    ultimately show ?thesis using True i by (simp add: residue_basis xpow_add)
  next
    case False
    then have "drop_bit (LENGTH('a) - k) (xmon i :: 'a word) = xmon (i + k - LENGTH('a))"
      using i assms by (intro bit_word_eqI) (auto simp: bit_simps)
    moreover have "push_bit k (xmon i :: 'a word) = 0"
      using False by (intro bit_word_eqI) (auto simp: bit_simps)
    moreover have "xpow p LENGTH('a) (xpow p (i + k - LENGTH('a)) 1) = xpow p k (xpow p i 1)"
      using False by (simp flip: xpow_add add: add.commute)
    ultimately show ?thesis using i assms by (simp add: residue_basis)
  qed
qed (intro linear_intros)+

lemma residue_push_bit:
  assumes "drop_bit (LENGTH('a) - k) w = 0" "k \<le> LENGTH('a)"
  shows "residue p (push_bit k w) = xpow p k (residue p (w :: 'a::len word))"
  using residue_shift [OF assms(2), of p w] assms(1) by simp

text \<open>Multiplication by \<open>x\<close> in either factor.\<close>
lemma xmul_xtime_left: "xmul p (xtime p c) w = xtime p (xmul p c w)"
  by (rule linear_ext [of "\<lambda>w. xmul p (xtime p c) w" "\<lambda>w. xtime p (xmul p c w)"])
    (simp_all add: linear_intros xmul_basis funpow_swap1)

lemma xmul_xpow_left: "xmul p (xpow p n c) w = xpow p n (xmul p c w)"
  by (induction n) (simp_all add: xmul_xtime_left)

lemma xpow_32_xmul: "xpow p 32 c = xmul p c p"
proof (rule linear_ext [of "xpow p 32" "\<lambda>c. xmul p c p"])
  fix i assume "i < LENGTH(32)"
  then have b: "xmon i = xpow p i 1" by (simp add: xpow_small)
  have "xpow p 32 (xpow p i 1) = xpow p i p" by (metis xpow_commute xpow_32)
  moreover have "xmul p (xpow p i 1) p = xpow p i p"
    using residue_u32 [of p p] by (simp add: xmul_xpow_left residue_def)
  ultimately show "xpow p 32 (xmon i) = xmul p (xmon i) p" unfolding b by simp
qed (intro linear_intros)+

lemma xmul_xtime: "xmul p c (xtime p w) = xtime p (xmul p c w)" for w :: u32
proof (rule linear_ext [of "\<lambda>w. xmul p c (xtime p w)" "\<lambda>w. xtime p (xmul p c w)"])
  fix i assume i: "i < LENGTH(32)"
  show "xmul p c (xtime p (xmon i)) = xtime p (xmul p c (xmon i :: u32))"
  proof (cases "i = 31")
    case True
    have "xtime p (xpow p 31 c) = xpow p 32 c" by (simp add: eval_nat_numeral)
    then show ?thesis
      unfolding True using xpow_32_xmul [of p c] by (simp add: xmul_basis xtime_top)
  next
    case False
    then have "xtime p (xmon i) = xmon (Suc i)"
      using i xpow_small [of i p] xpow_small [of "Suc i" p] by simp
    then show ?thesis using False i by (simp add: xmul_basis)
  qed
qed (intro linear_intros)+

lemma xmul_xpow: "xmul p c (xpow p n (1 :: u32)) = xpow p n c"
proof (induction n)
  case 0
  show ?case using xmul_basis [of 0 p c, where 'a = 32] by (simp add: xmon_0)
next
  case (Suc n)
  then show ?case by (simp add: xmul_xtime)
qed

section \<open>The carry-less product\<close>

definition clmul :: "u64 \<Rightarrow> u64 \<Rightarrow> 128 word" where
  "clmul a b = xsum 64 (\<lambda>i. if bit b i then push_bit i (ucast a) else 0)"

lemma xlin_clmul_left [linear_intros]: "xlin f \<Longrightarrow> xlin (\<lambda>w. clmul (f w) b)"
proof -
  assume f: "xlin f"
  have "xlin (\<lambda>w. if bit b i then push_bit i (ucast (f w) :: 128 word) else 0)" for i
    by (cases "bit b i") (simp_all add: linear_intros f)
  then show ?thesis unfolding clmul_def by (intro linear_intros)
qed

lemma xlin_clmul [linear_intros]: "xlin f \<Longrightarrow> xlin (\<lambda>w. clmul a (f w))"
  unfolding clmul_def by (intro linear_intros)

lemma clmul_basis_right: "j < 64 \<Longrightarrow> clmul a (xmon j) = push_bit j (ucast a)"
  unfolding clmul_def by (subst xsum_single [of j]) (auto simp: bit_simps)

lemma clmul_basis: "i < 64 \<Longrightarrow> j < 64 \<Longrightarrow> clmul (xmon i) (xmon j) = xmon (i + j)"
  by (auto simp: clmul_basis_right bit_simps intro!: bit_word_eqI)

text \<open>Two maps linear in either factor agree when they agree on the powers of \<open>x\<close>.\<close>
lemma bilinear_ext:
  fixes f g :: "'a::len word \<Rightarrow> 'b::len word \<Rightarrow> 'c::len word"
  assumes "\<And>b. xlin (\<lambda>a. f a b)" "\<And>a. xlin (f a)" "\<And>b. xlin (\<lambda>a. g a b)" "\<And>a. xlin (g a)"
    and basis: "\<And>i j. i < LENGTH('a) \<Longrightarrow> j < LENGTH('b) \<Longrightarrow>
      f (xmon i) (xmon j) = g (xmon i) (xmon j)"
  shows "f a b = g a b"
proof (rule linear_ext [of "\<lambda>a. f a b" "\<lambda>a. g a b"])
  fix i assume "i < LENGTH('a)"
  then show "f (xmon i) b = g (xmon i) b"
    using linear_ext [OF assms(2) assms(4), of "xmon i" "xmon i" b] basis by blast
qed (rule assms)+

lemma residue_clmul: "residue p (clmul a b) = xmul p (residue p a) b"
  by (rule bilinear_ext [of "\<lambda>a b. residue p (clmul a b)" "\<lambda>a b. xmul p (residue p a) b"])
    (((intro linear_intros)+)[4], simp add: clmul_basis residue_basis xmul_basis xpow_add xpow_commute [of _ p _ 1])

text \<open>A factor \<open>x ^ (n + 32)\<close>, as the folding constants hold it: its residue of 32 bits in the high half.\<close>
definition fold_constant :: "u32 \<Rightarrow> nat \<Rightarrow> u64" where
  "fold_constant p n = push_bit 32 (ucast (xpow p n 1))"

lemma residue_clmul_constant: "residue p (clmul a (fold_constant p n)) = xpow p (n + 32) (residue p a)"
proof -
  have "xmul p c (push_bit 32 (ucast (w :: u32)) :: u64) = xpow p 32 (xmul p c w)" for c w
  proof (rule linear_ext [of "\<lambda>w. xmul p c (push_bit 32 (ucast w) :: u64)" "\<lambda>w. xpow p 32 (xmul p c w)"])
    fix i assume i: "i < LENGTH(32)"
    then have "push_bit 32 (ucast (xmon i :: u32)) = (xmon (32 + i) :: u64)"
      by (auto intro!: bit_word_eqI simp: bit_simps)
    with i show "xmul p c (push_bit 32 (ucast (xmon i :: u32)) :: u64) = xpow p 32 (xmul p c (xmon i :: u32))"
      by (simp add: xmul_basis xpow_add)
  qed (intro linear_intros)+
  then show ?thesis
    unfolding fold_constant_def residue_clmul by (simp add: xmul_xpow xpow_add xpow_commute [of 32 p])
qed

section \<open>Bytes\<close>

text \<open>The residue of a byte sequence, the first byte being the most significant one.\<close>
definition message_residue :: "u32 \<Rightarrow> byte list \<Rightarrow> u32" where
  "message_residue p bs = fold (\<lambda>b c. xpow p 8 c XOR ucast b) bs 0"

lemma message_residue_simps [simp]:
  "message_residue p [] = 0"
  "message_residue p (bs @ [b]) = xpow p 8 (message_residue p bs) XOR ucast b"
  by (simp_all add: message_residue_def)

lemma message_residue_append:
  "message_residue p (xs @ ys) = xpow p (8 * length ys) (message_residue p xs) XOR message_residue p ys"
proof (induction ys rule: rev_induct)
  case (snoc y ys)
  have "message_residue p (xs @ ys @ [y]) = xpow p 8 (message_residue p (xs @ ys)) XOR ucast y"
    using message_residue_simps(2) [of p "xs @ ys" y] by simp
  also have "\<dots> = xpow p (8 + 8 * length ys) (message_residue p xs) XOR message_residue p (ys @ [y])"
    by (simp add: snoc.IH xpow_xor xpow_add ac_simps)
  finally show ?case by (simp add: add.commute)
qed simp

lemma xpow_ucast_byte:
  assumes "n \<le> 24" shows "xpow p n (ucast (b :: u8)) = push_bit n (ucast b)"
  using assms
proof (induction n)
  case (Suc n)
  have "\<not> bit (push_bit n (ucast b) :: u32) 31"
    using Suc.prems bit_imp_le_length [of b "31 - n"] by (auto simp: bit_simps)
  moreover have "push_bit 1 (push_bit n (ucast b)) = (push_bit (Suc n) (ucast b) :: u32)"
    by (rule bit_word_eqI) (auto simp: bit_simps)
  ultimately show ?case using Suc by (simp only: funpow.simps o_apply xtime_shift Suc_leD simp_thms)
qed simp

lemma calculate_crc_xpow: "calculate_crc_32u c b p = xpow p 8 c XOR xpow p 32 (ucast b)"
proof -
  have "(if c AND push_bit 31 1 \<noteq> 0 then push_bit 1 c XOR p else push_bit 1 c) = xtime p c" for c :: u32
  proof -
    have "(c AND push_bit 31 1 \<noteq> 0) = bit c 31" by (simp add: bit_iff_and_push_bit_not_eq_0)
    then show ?thesis by (simp add: xtime_def)
  qed
  then have "calculate_crc_32u c b p = for_loop 8 (\<lambda>_. xtime p) (c XOR push_bit 24 (ucast b))"
    unfolding calculate_crc_32u_def by simp
  also have "for_loop n (\<lambda>_. xtime p) d = xpow p n d" for n d by (induction n) simp_all
  also have "xpow p 8 (c XOR push_bit 24 (ucast b)) = xpow p 8 c XOR xpow p (8 + 24) (ucast b)"
    unfolding xpow_xor xpow_add by (simp add: xpow_ucast_byte)
  finally show ?thesis by simp
qed

text \<open>The CRC of a message: the initial value and the message, multiplied by \<open>x ^ 32\<close>, reduced.\<close>
lemma crc_bytes_residue:
  "crc_bytes p bs c = xpow p (8 * length bs) c XOR xpow p 32 (message_residue p bs)"
proof (induction bs rule: rev_induct)
  case Nil
  show ?case by (simp add: crc_bytes_def)
next
  case (snoc b bs)
  have "crc_bytes p (bs @ [b]) c = calculate_crc_32u (crc_bytes p bs c) b p"
    by (simp add: crc_bytes_def)
  also have "\<dots> = xpow p (8 + 8 * length bs) c XOR xpow p 32 (xpow p 8 (message_residue p bs) XOR ucast b)"
    unfolding calculate_crc_xpow snoc.IH xpow_xor xpow_add xpow_commute [of 8 p 32] by (simp add: ac_simps)
  finally show ?case by (simp add: add.commute)
qed

text \<open>The word with the bytes of a sequence, the first one most significant.\<close>
lemma residue_word_of_rev:
  "8 * length bs \<le> LENGTH('a) \<Longrightarrow> residue p (word_of (rev bs) :: 'a::len word) = message_residue p bs"
proof (induction bs rule: rev_induct)
  case (snoc b bs)
  let ?w = "word_of (rev bs) :: 'a word"
  have split: "ucast b OR push_bit 8 ?w = ucast b XOR push_bit 8 ?w"
    by (rule bit_word_eqI) (auto simp: bit_simps dest: bit_imp_le_length)
  have "drop_bit (LENGTH('a) - 8) ?w = 0"
    using snoc.prems by (auto intro!: bit_word_eqI simp: bit_simps bit_word_of)
  with snoc.prems have "residue p (push_bit 8 ?w) = xpow p 8 (residue p ?w)"
    by (intro residue_push_bit) auto
  moreover have "residue p (ucast b :: 'a word) = ucast b"
    using snoc.prems residue_ucast [where 'a = 8 and 'b = 'a, of p b]
      residue_ucast [where 'a = 8 and 'b = 32, of p b] residue_u32 [of p "ucast b"] by simp
  ultimately show ?case
    using snoc by (simp add: split residue_xor xor.commute)
qed simp

end
