(* ===== verification/DML_Sse.thy ===== *)
theory DML_Sse
  imports DML_Gf2
begin

text \<open>
  The 128 bit vector instructions the CRC routines of \<open>core/src/sw_dispatcher/avx512/crc.c\<close> are
  written with, on registers as words of 128 bits, and what the shuffles of that file compute: the
  big-endian reading of sixteen bytes, the shifts by a variable number of bytes and the reversal
  of the bits of every byte.
\<close>

unbundle bit_operations_syntax

section \<open>Registers\<close>

type_synonym m128 = "128 word"

definition vbyte :: "m128 \<Rightarrow> nat \<Rightarrow> u8" where
  "vbyte x j = ucast (drop_bit (8 * j) x)"

definition vec_of :: "(nat \<Rightarrow> u8) \<Rightarrow> m128" where
  "vec_of f = word_of (map f [0 ..< 16])"

lemma bit_vbyte: "bit (vbyte x j) i \<longleftrightarrow> i < 8 \<and> bit x (8 * j + i)"
  by (auto simp: vbyte_def bit_simps)

lemma bit_via_vbyte: "bit x k \<longleftrightarrow> bit (vbyte x (k div 8)) (k mod 8)"
  by (simp add: bit_vbyte)

lemma vbyte_ext: "(\<And>j. j < 16 \<Longrightarrow> vbyte x j = vbyte y j) \<Longrightarrow> x = y"
proof (rule bit_word_eqI)
  fix k assume *: "\<And>j. j < 16 \<Longrightarrow> vbyte x j = vbyte y j" and "k < LENGTH(128)"
  then have "k div 8 < 16" by auto
  with * show "bit x k = bit y k" using bit_via_vbyte [of x k] bit_via_vbyte [of y k] by simp
qed

lemma vbyte_word_of: "length bs = 16 \<Longrightarrow> j < 16 \<Longrightarrow> vbyte (word_of bs) j = bs ! j"
  by (rule bit_word_eqI) (simp add: bit_vbyte bit_word_of)

lemma vbyte_vec_of [simp]: "j < 16 \<Longrightarrow> vbyte (vec_of f) j = f j"
  unfolding vec_of_def by (subst vbyte_word_of) simp_all

lemma vbyte_bitwise [simp]:
  "vbyte (x XOR y) j = vbyte x j XOR vbyte y j"
  "vbyte (x AND y) j = vbyte x j AND vbyte y j"
  "vbyte (x OR y) j = vbyte x j OR vbyte y j"
  by (rule bit_word_eqI, simp add: bit_vbyte bit_simps)+

lemma vbyte_push_bit:
  "j < 16 \<Longrightarrow> vbyte (push_bit (8 * n) x) j = (if n \<le> j then vbyte x (j - n) else 0)"
  by (rule bit_word_eqI) (auto simp: bit_vbyte bit_simps diff_mult_distrib2)

lemma vbyte_drop_bit: "vbyte (drop_bit (8 * n) x) j = vbyte x (j + n)"
  by (rule bit_word_eqI) (auto simp: bit_vbyte bit_simps algebra_simps)

lemma vbyte_beyond: "16 \<le> j \<Longrightarrow> vbyte x j = 0"
  by (rule bit_word_eqI) (auto simp: bit_vbyte dest: bit_imp_le_length)

section \<open>Instructions\<close>

definition mm_loadu_si128 :: "addr \<Rightarrow> mem \<Rightarrow> m128" where
  "mm_loadu_si128 a m = word_of (load_bytes m a 16)"

definition mm_maskz_loadu_epi8 :: "u16 \<Rightarrow> addr \<Rightarrow> mem \<Rightarrow> m128" where
  "mm_maskz_loadu_epi8 k a m = vec_of (\<lambda>i. if bit k i then m (a + word_of_nat i) else 0)"

text \<open>The arguments come from the most significant byte on.\<close>
definition mm_set_epi8 :: "u8 list \<Rightarrow> m128" where
  "mm_set_epi8 bs = word_of (rev bs)"

definition mm_set1_epi8 :: "u8 \<Rightarrow> m128" where
  "mm_set1_epi8 b = vec_of (\<lambda>_. b)"

definition mm_set_epi64x :: "u64 \<Rightarrow> u64 \<Rightarrow> m128" where
  "mm_set_epi64x e1 e0 = push_bit 64 (ucast e1) OR ucast e0"

definition mm_cvtsi32_si128 :: "u32 \<Rightarrow> m128" where
  "mm_cvtsi32_si128 a = ucast a"

definition mm_cvtsi128_si32 :: "m128 \<Rightarrow> u32" where
  "mm_cvtsi128_si32 a = ucast a"

definition mm_extract_epi32 :: "m128 \<Rightarrow> nat \<Rightarrow> u32" where
  "mm_extract_epi32 a imm8 = ucast (drop_bit (32 * (imm8 mod 4)) a)"

definition mm_slli_si128 :: "m128 \<Rightarrow> nat \<Rightarrow> m128" where
  "mm_slli_si128 a imm8 = push_bit (8 * imm8) a"

definition mm_srli_si128 :: "m128 \<Rightarrow> nat \<Rightarrow> m128" where
  "mm_srli_si128 a imm8 = drop_bit (8 * imm8) a"

text \<open>The low 16 bytes of \<open>a:b\<close> shifted right by whole bytes.\<close>
definition mm_alignr_epi8 :: "m128 \<Rightarrow> m128 \<Rightarrow> nat \<Rightarrow> m128" where
  "mm_alignr_epi8 a b imm8 = ucast (drop_bit (8 * imm8) (push_bit 128 (ucast a) OR ucast b :: 256 word))"

text \<open>The shift inside every 16 bit lane.\<close>
definition mm_srli_epi16 :: "m128 \<Rightarrow> nat \<Rightarrow> m128" where
  "mm_srli_epi16 a imm8 = vec_of (\<lambda>j.
     bytes_of (drop_bit imm8 (ucast (drop_bit (16 * (j div 2)) a) :: u16)) ! (j mod 2))"

text \<open>Byte \<open>j\<close> is the byte of \<open>a\<close> the low bits of byte \<open>j\<close> of \<open>b\<close> select, or 0 when its top bit is set.\<close>
definition mm_shuffle_epi8 :: "m128 \<Rightarrow> m128 \<Rightarrow> m128" where
  "mm_shuffle_epi8 a b = vec_of (\<lambda>j.
     if bit (vbyte b j) 7 then 0 else vbyte a (unat (vbyte b j AND 15)))"

definition mm_blendv_epi8 :: "m128 \<Rightarrow> m128 \<Rightarrow> m128 \<Rightarrow> m128" where
  "mm_blendv_epi8 a b k = vec_of (\<lambda>j. if bit (vbyte k j) 7 then vbyte b j else vbyte a j)"

text \<open>Bit 0 of the immediate selects the half of \<open>a\<close>, bit 4 the half of \<open>b\<close>.\<close>
definition epi64_half :: "m128 \<Rightarrow> bool \<Rightarrow> u64" where
  "epi64_half a high = ucast (if high then drop_bit 64 a else a)"

definition mm_clmulepi64_si128 :: "m128 \<Rightarrow> m128 \<Rightarrow> nat \<Rightarrow> m128" where
  "mm_clmulepi64_si128 a b imm8 = clmul (epi64_half a (bit imm8 0)) (epi64_half b (bit imm8 4))"

lemma epi64_half_set [simp]:
  "epi64_half (mm_set_epi64x e1 e0) False = e0" "epi64_half (mm_set_epi64x e1 e0) True = e1"
  by (rule bit_word_eqI, auto simp: epi64_half_def mm_set_epi64x_def bit_simps dest: bit_imp_le_length)+

lemma clmul_selectors [simp]:
  "mm_clmulepi64_si128 a b 0 = clmul (epi64_half a False) (epi64_half b False)"
  "mm_clmulepi64_si128 a b 0x01 = clmul (epi64_half a True) (epi64_half b False)"
  "mm_clmulepi64_si128 a b 0x10 = clmul (epi64_half a False) (epi64_half b True)"
  "mm_clmulepi64_si128 a b 0x11 = clmul (epi64_half a True) (epi64_half b True)"
  by (simp_all add: mm_clmulepi64_si128_def bit_Suc_0_iff)

lemma xlin_half [linear_intros]: "xlin f \<Longrightarrow> xlin (\<lambda>w. epi64_half (f w) h)"
  by (cases h) (simp_all add: epi64_half_def linear_intros)

text \<open>A register is its low half and \<open>x ^ 64\<close> times its high half.\<close>
lemma residue_halves:
  "residue p x = xpow p 64 (residue p (epi64_half x True)) XOR residue p (epi64_half x False)"
proof (rule linear_ext [of "residue p" "\<lambda>x. xpow p 64 (residue p (epi64_half x True)) XOR residue p (epi64_half x False)"])
  fix i assume i: "i < LENGTH(128)"
  show "residue p (xmon i :: m128)
    = xpow p 64 (residue p (epi64_half (xmon i) True)) XOR residue p (epi64_half (xmon i) False)"
  proof (cases "i < 64")
    case True
    then have "epi64_half (xmon i) True = 0" "epi64_half (xmon i) False = xmon i"
      by (auto simp: epi64_half_def bit_simps intro!: bit_word_eqI)
    with True i show ?thesis by (simp add: residue_basis)
  next
    case False
    with i have "epi64_half (xmon i) True = xmon (i - 64)" "epi64_half (xmon i) False = 0"
      by (auto simp: epi64_half_def bit_simps intro!: bit_word_eqI)
    with False i show ?thesis by (simp add: residue_basis flip: xpow_add)
  qed
qed (intro linear_intros)+

section \<open>Folding\<close>

text \<open>
  One folding step of the routines: the halves of \<open>x\<close> times the halves of the constant register,
  added to the register \<open>d\<close>.
\<close>
definition fold_si128 :: "m128 \<Rightarrow> m128 \<Rightarrow> m128 \<Rightarrow> m128" where
  "fold_si128 x k d = mm_clmulepi64_si128 x k 0x00 XOR d XOR mm_clmulepi64_si128 x k 0x11"

lemma residue_fold:
  "residue p (fold_si128 x (mm_set_epi64x (fold_constant p (n + 64)) (fold_constant p n)) d)
     = xpow p (n + 32) (residue p x) XOR residue p d"
proof -
  have "xpow p (n + 64 + 32) c = xpow p (n + 32) (xpow p 64 c)" for c
    by (simp flip: xpow_add add: ac_simps)
  then show ?thesis
    unfolding fold_si128_def residue_xor clmul_selectors epi64_half_set residue_clmul_constant
      residue_halves [of p x] xpow_xor by (simp add: ac_simps)
qed

section \<open>Shuffles\<close>

definition ENDIA_SHUF_MASK :: m128 where
  "ENDIA_SHUF_MASK = mm_set_epi8
     [0x00, 0x01, 0x02, 0x03, 0x04, 0x05, 0x06, 0x07, 0x08, 0x09, 0x0A, 0x0B, 0x0C, 0x0D, 0x0E, 0x0F]"

lemma less_16_cases:
  "j < 16 \<Longrightarrow> j = 0 \<or> j = 1 \<or> j = 2 \<or> j = 3 \<or> j = 4 \<or> j = 5 \<or> j = 6 \<or> j = 7 \<or> j = 8 \<or> j = 9
     \<or> j = 10 \<or> j = 11 \<or> j = 12 \<or> j = 13 \<or> j = 14 \<or> j = (15 :: nat)"
  by presburger

text \<open>A byte that selects byte \<open>j\<close>.\<close>
definition sel :: "nat \<Rightarrow> u8" where
  "sel j = word_of_nat j"

lemma vbyte_endia: "j < 16 \<Longrightarrow> vbyte ENDIA_SHUF_MASK j = sel (15 - j)"
  unfolding ENDIA_SHUF_MASK_def mm_set_epi8_def
  by (subst vbyte_word_of) (auto simp: sel_def dest!: less_16_cases)

lemma selector_small: "j < 16 \<Longrightarrow> \<not> bit (sel j) 7 \<and> unat (sel j AND 15) = j"
  by (auto simp: sel_def dest!: less_16_cases)

lemma vbyte_shuffle:
  "j < 16 \<Longrightarrow> vbyte (mm_shuffle_epi8 a b) j = (if bit (vbyte b j) 7 then 0 else vbyte a (unat (vbyte b j AND 15)))"
  by (simp add: mm_shuffle_epi8_def)

text \<open>Sixteen bytes read with the first one most significant.\<close>
lemma shuffle_endia: "length bs = 16 \<Longrightarrow> mm_shuffle_epi8 (word_of bs) ENDIA_SHUF_MASK = word_of (rev bs)"
proof (rule vbyte_ext)
  fix j :: nat assume "length bs = 16" "j < 16"
  then show "vbyte (mm_shuffle_epi8 (word_of bs) ENDIA_SHUF_MASK) j = vbyte (word_of (rev bs)) j"
    using selector_small [of "15 - j"] by (simp add: vbyte_shuffle vbyte_endia vbyte_word_of rev_nth)
qed

text \<open>The table of shift patterns; \<open>ptr\<close> points into its bytes.\<close>
definition pshufb_shf_table :: "byte list" where
  "pshufb_shf_table = concat (map bytes_of
     [0x8786858483828100, 0x8f8e8d8c8b8a8988, 0x0706050403020100, 0x000e0d0c0b0a0908 :: u64])"

definition shf_pattern :: "nat \<Rightarrow> m128" where
  "shf_pattern ptr = word_of (take 16 (drop ptr pshufb_shf_table))"

definition mask1 :: m128 where
  "mask1 = mm_set_epi64x 0x8080808080808080 0x8080808080808080"

lemma pshufb_shf_table_eq:
  "pshufb_shf_table = map (\<lambda>i. if i = 0 \<or> i = 31 then 0 else if i < 16 then 0x80 OR sel i else sel (i - 16)) [0 ..< 32]"
  by code_simp

lemma vbyte_shf_pattern:
  assumes "0 < L" "L < 16" "j < 16"
  shows "vbyte (shf_pattern (16 - L)) j
    = (if j < L then 0x80 OR sel (16 - L + j) else sel (j - L))"
proof -
  have "length (take 16 (drop (16 - L) pshufb_shf_table)) = 16"
    using assms by (simp add: pshufb_shf_table_eq)
  then have "vbyte (shf_pattern (16 - L)) j = pshufb_shf_table ! (16 - L + j)"
    using assms unfolding shf_pattern_def by (simp add: vbyte_word_of)
  then show ?thesis using assms unfolding pshufb_shf_table_eq by auto
qed

lemma vbyte_mask1: "j < 16 \<Longrightarrow> vbyte mask1 j = 0x80"
proof -
  assume "j < 16"
  moreover have "mask1 = word_of (replicate 16 0x80)" by code_simp
  ultimately show ?thesis using vbyte_word_of [of "replicate 16 0x80" j] nth_replicate [of j 16 "0x80 :: u8"]
    by (simp only: length_replicate)
qed

lemma selector_top: "bit (0x80 OR w :: u8) 7" "j < 16 \<Longrightarrow> \<not> bit ((0x80 OR sel j) XOR 0x80) 7"
  "j < 16 \<Longrightarrow> unat (((0x80 OR sel j) XOR 0x80) AND 15) = j"
  "j < 16 \<Longrightarrow> bit (sel j XOR 0x80) 7"
  by (auto simp: sel_def bit_or_iff dest!: less_16_cases)

text \<open>The pattern shifts left by \<open>L\<close> bytes, its complement keeps the high \<open>L\<close> bytes.\<close>
lemma shuffle_left:
  assumes L: "0 < L" "L < 16" shows "mm_shuffle_epi8 x (shf_pattern (16 - L)) = push_bit (8 * L) x"
proof (rule vbyte_ext)
  fix j :: nat assume j: "j < 16"
  show "vbyte (mm_shuffle_epi8 x (shf_pattern (16 - L))) j = vbyte (push_bit (8 * L) x) j"
    using L j selector_small [of "j - L"]
    by (simp add: vbyte_shuffle vbyte_shf_pattern vbyte_push_bit selector_top)
qed

lemma shuffle_right:
  assumes L: "0 < L" "L < 16"
  shows "mm_shuffle_epi8 x (shf_pattern (16 - L) XOR mask1) = drop_bit (8 * (16 - L)) x"
proof (rule vbyte_ext)
  fix j :: nat assume j: "j < 16"
  show "vbyte (mm_shuffle_epi8 x (shf_pattern (16 - L) XOR mask1)) j = vbyte (drop_bit (8 * (16 - L)) x) j"
    using L j
    by (simp add: vbyte_shuffle vbyte_shf_pattern vbyte_mask1 vbyte_drop_bit selector_top vbyte_beyond add.commute)
qed

text \<open>The blend takes the shifted bytes above the lowest \<open>L\<close>.\<close>
lemma blend_tail:
  assumes L: "0 < L" "L < 16"
  shows "mm_blendv_epi8 y (push_bit (8 * L) x) (shf_pattern (16 - L) XOR mask1)
    = push_bit (8 * L) x XOR take_bit (8 * L) y"
proof (rule vbyte_ext)
  fix j :: nat assume j: "j < 16"
  have "vbyte (take_bit (8 * L) y) j = (if j < L then vbyte y j else 0)"
    by (rule bit_word_eqI) (use j in \<open>auto simp: bit_vbyte bit_simps\<close>)
  then show "vbyte (mm_blendv_epi8 y (push_bit (8 * L) x) (shf_pattern (16 - L) XOR mask1)) j
      = vbyte (push_bit (8 * L) x XOR take_bit (8 * L) y) j"
    using L j by (simp add: mm_blendv_epi8_def vbyte_shf_pattern vbyte_mask1 vbyte_push_bit selector_top)
qed

section \<open>Reversal of the bits of every byte (\<open>D_REFL\<close>)\<close>

definition xmmSH_L :: m128 where
  "xmmSH_L = mm_set_epi8
     [0xf0, 0x70, 0xb0, 0x30, 0xd0, 0x50, 0x90, 0x10, 0xe0, 0x60, 0xa0, 0x20, 0xc0, 0x40, 0x80, 0x00]"

definition xmmSH_H :: m128 where
  "xmmSH_H = mm_set_epi8
     [0x0f, 0x07, 0x0b, 0x03, 0x0d, 0x05, 0x09, 0x01, 0x0e, 0x06, 0x0a, 0x02, 0x0c, 0x04, 0x08, 0x00]"

definition xmm_F :: m128 where
  "xmm_F = mm_set1_epi8 0x0f"

definition D_REFL :: "m128 \<Rightarrow> m128" where
  "D_REFL xmmREFL =
     (let xmm11 = mm_srli_epi16 xmmREFL 4;
          xmmREFL = xmmREFL AND xmm_F;
          xmm11 = xmm11 AND xmm_F;
          xmmREFL = mm_shuffle_epi8 xmmSH_L xmmREFL;
          xmm11 = mm_shuffle_epi8 xmmSH_H xmm11
      in xmmREFL OR xmm11)"

lemma bit_15: "bit (15 :: u8) i \<longleftrightarrow> i < 4"
proof -
  have "bit (mask 4 :: u8) i \<longleftrightarrow> i < 4" by (auto simp: bit_mask_iff simp del: mask_numeral)
  moreover have "mask 4 = (15 :: u8)" by (simp add: mask_eq_exp_minus_1)
  ultimately show ?thesis by (simp only:)
qed

lemma vbyte_srli4: "j < 16 \<Longrightarrow> vbyte (mm_srli_epi16 x 4) j AND 15 = drop_bit 4 (vbyte x j)"
proof (rule bit_word_eqI)
  fix i assume j: "j < 16" and i: "i < LENGTH(8)"
  have F: "bit (15 :: u8) i \<longleftrightarrow> i < 4" by (rule bit_15)
  have "8 * (j mod 2) + i + 4 < 16" if "i < 4" using that by (cases "j mod 2 = 0") auto
  moreover have "16 * (j div 2) + (8 * (j mod 2) + i + 4) = 8 * j + (i + 4)"
    using div_mult_mod_eq [of j 2] by linarith
  ultimately show "bit (vbyte (mm_srli_epi16 x 4) j AND 15) i = bit (drop_bit 4 (vbyte x j)) i"
    using i j F by (auto simp: mm_srli_epi16_def nth_bytes_of bit_vbyte bit_simps ac_simps)
qed

lemma refl_byte:
  "vbyte xmmSH_L (unat (b AND 15)) OR vbyte xmmSH_H (unat (drop_bit 4 b)) = reverse_u8 b"
proof -
  have "list_all (\<lambda>i. vbyte xmmSH_L (unat (word_of_nat i AND 15 :: u8)) OR vbyte xmmSH_H (unat (drop_bit 4 (word_of_nat i) :: u8))
      = reverse_u8 (word_of_nat i)) [0 ..< 256]"
    by code_simp
  moreover have "unat b < 256" using unsigned_less [of b] by simp
  ultimately have "vbyte xmmSH_L (unat (word_of_nat (unat b) AND 15 :: u8))
      OR vbyte xmmSH_H (unat (drop_bit 4 (word_of_nat (unat b)) :: u8)) = reverse_u8 (word_of_nat (unat b))"
    by (simp only: list_all_iff set_upt Ball_def atLeastLessThan_iff le0 simp_thms)
  then show ?thesis by simp
qed

lemma vbyte_refl: "j < 16 \<Longrightarrow> vbyte (D_REFL x) j = reverse_u8 (vbyte x j)"
proof -
  assume j: "j < 16"
  have F: "vbyte xmm_F j = 15" using j by (simp add: xmm_F_def mm_set1_epi8_def)
  have "\<not> bit (w AND 15 :: u8) 7" for w by (simp add: bit_and_iff)
  moreover have "\<not> bit (drop_bit 4 w :: u8) 7" for w
    by (auto simp: bit_simps dest: bit_imp_le_length)
  moreover have "drop_bit 4 w AND 15 = (drop_bit 4 w :: u8)" for w
  proof (rule bit_word_eqI)
    fix n show "bit (drop_bit 4 w AND 15) n = bit (drop_bit 4 w) n"
      using bit_imp_le_length [of w "4 + n"] unfolding bit_and_iff bit_15 bit_drop_bit_eq by auto
  qed
  ultimately show ?thesis
    using j by (simp add: D_REFL_def vbyte_shuffle F vbyte_srli4 refl_byte and.assoc)
qed

lemma refl_word_of: "length bs = 16 \<Longrightarrow> D_REFL (word_of bs) = word_of (map reverse_u8 bs)"
  by (rule vbyte_ext) (simp add: vbyte_refl vbyte_word_of)

end
