(* ===== verification/DML_Crc_Constants.thy ===== *)
theory DML_Crc_Constants
  imports DML_Sse
begin

text \<open>
  The constants of the carry-less CRC routines (\<open>core/src/sw_dispatcher/avx512/crc.c\<close>): the
  table \<open>opt_poly_1_ptr\<close> of the default polynomial and the routines that compute the table of
  any other one, proved to hold the quotient of \<open>x ^ 64\<close> and the residues of the powers of
  \<open>x\<close> the folding steps need; then the two reductions that end every routine, from 128 bits to
  64 and from 64 to the 32 bits of the checksum.
\<close>

unbundle bit_operations_syntax

section \<open>The table of constants\<close>

definition D_POLYNOMIAL_1 :: u32 where
  "D_POLYNOMIAL_1 = 0x1EDC6F41"

definition opt_poly_1_ptr :: "byte list" where
  "opt_poly_1_ptr =
    [0x41, 0x6f, 0xdc, 0x1e, 0x01, 0x00, 0x00, 0x00, 0xf6, 0xca, 0x91, 0x1f, 0x01, 0x00, 0x00, 0x00,
     0x76, 0x45, 0xab, 0x3a, 0x65, 0x16, 0xa0, 0xd7, 0x9e, 0x60, 0x60, 0xff, 0xba, 0xe4, 0x87, 0xe2,
     0x39, 0xa4, 0xca, 0xb8, 0x37, 0x68, 0x8c, 0xb7, 0x70, 0x28, 0x71, 0x41, 0xf2, 0xa4, 0x76, 0x3f,
     0x5c, 0xe0, 0xee, 0x81, 0x38, 0x97, 0x9b, 0xd2, 0x20, 0xb8, 0xec, 0x6e, 0x81, 0x3e, 0x3b, 0x8a,
     0x07, 0x9d, 0x39, 0xd3, 0x85, 0xd8, 0x5f, 0xcf, 0xa8, 0x36, 0x71, 0x18, 0x60, 0xb9, 0x0d, 0x92,
     0x2c, 0x93, 0xe6, 0x8a, 0x00, 0x00, 0x00, 0x00, 0x00, 0x00, 0x00, 0x00, 0x00, 0x00, 0x00, 0x00,
     0x00, 0x00, 0x00, 0x00, 0x00, 0x00, 0x00, 0x00, 0x00, 0x00, 0x00, 0x00, 0x00, 0x00, 0x00, 0x00,
     0x00, 0x00, 0x00, 0x00, 0x00, 0x00, 0x00, 0x00, 0x00, 0x00, 0x00, 0x00, 0x00, 0x00, 0x00, 0x00]"

definition lzcnt_u64 :: "u64 \<Rightarrow> nat" where
  "lzcnt_u64 w = (case find (bit w) (rev [0 ..< 64]) of Some i \<Rightarrow> 63 - i | None \<Rightarrow> 64)"

definition getCRCSize :: "u64 \<Rightarrow> u32" where
  "getCRCSize poly = 63 - word_of_nat (lzcnt_u64 poly)"

text \<open>One step of the division; the state holds \<open>byte\<close>, \<open>tail\<close> and \<open>quot\<close>.\<close>
definition poly1x64_32_div_step :: "u64 \<Rightarrow> u8 \<times> u64 \<times> u64 \<Rightarrow> u8 \<times> u64 \<times> u64" where
  "poly1x64_32_div_step poly = (\<lambda>(byte, tail, quot).
     let bit_in = drop_bit 7 (byte AND 0x80);
         byte = push_bit 1 byte;
         hbit = tail AND 0x80000000;
         tail = push_bit 1 tail;
         tail = tail OR ucast bit_in;
         quot = push_bit 1 quot;
         (tail, quot) = (if hbit \<noteq> 0 then (tail XOR poly, quot OR 1) else (tail, quot));
         tail = tail AND 0xffffffff
     in (byte, tail, quot))"

definition poly1x64_32_div :: "u64 \<Rightarrow> u64 \<times> u32" where
  "poly1x64_32_div poly =
     (let (byte, tail, quot) =
        for_loop 9 (\<lambda>_. for_loop 8 (\<lambda>_. poly1x64_32_div_step poly)) (0x01, 0, 0)
      in (quot, ucast tail))"

definition crc_bits :: "nat list" where
  "crc_bits = [64, 96, 160, 224, 288, 352, 416, 480, 544, 608, 672, 736, 800, 864, 928, 992, 1056, 2016, 2080]"

text \<open>The body of the inner loops of \<open>own_gen_crc_opt_poly_8u\<close>.\<close>
definition crc_tail_step :: "u32 \<Rightarrow> u32 \<Rightarrow> u32" where
  "crc_tail_step poly_32 tail =
     (let mask = (if tail AND 0x80000000 \<noteq> 0 then poly_32 else 0)
      in (tail + tail) XOR mask)"

text \<open>The body of the outer loop, whose counter starts at 1; the inner loop runs \<open>j\<close> up to \<open>k\<close>.\<close>
definition crc_opt_step :: "u32 \<Rightarrow> nat \<Rightarrow> nat \<times> u32 \<times> byte list \<Rightarrow> nat \<times> u32 \<times> byte list" where
  "crc_opt_step poly_32 i' = (\<lambda>(j, tail, opt).
     let i = i' + 1;
         k = crc_bits ! i + 8;
         tail = for_loop (k - j) (\<lambda>_. crc_tail_step poly_32) tail
     in (k, tail, set_field (4 * (4 + i)) tail opt))"

text \<open>
  \<open>opt\<close> is the table as an array of 32 bit integers over the bytes of \<open>optPoly\<close>.
\<close>
definition own_gen_crc_opt_poly_8u :: "u64 \<Rightarrow> byte list \<Rightarrow> byte list" where
  "own_gen_crc_opt_poly_8u poly optPoly =
     (let crc_size = getCRCSize poly;
          opt = set_field 0 poly optPoly;
          poly32 = push_bit (unat (32 - crc_size)) poly;
          (u, t) = poly1x64_32_div poly32;
          opt = set_field (4 * 2) u opt;
          poly_32 = ucast poly;
          k = crc_bits ! 0 + 8;
          tail = for_loop (k - 40) (\<lambda>_. crc_tail_step poly_32) poly_32;
          opt = set_field (4 * (4 + 0)) tail opt;
          (j, tail, opt) = for_loop (length crc_bits - 3) (crc_opt_step poly_32) (k, tail, opt)
      in opt)"

text \<open>The reads of the table: \<open>koeff[i]\<close> and the two 64 bit reads, and \<open>koeff[i]\<close> in the high half.\<close>
definition koeff32 :: "byte list \<Rightarrow> nat \<Rightarrow> u32" where
  "koeff32 koeff i = get_field (4 * i) koeff"

definition koeff64 :: "byte list \<Rightarrow> nat \<Rightarrow> u64" where
  "koeff64 koeff i = get_field (4 * i) koeff"

definition k_const :: "byte list \<Rightarrow> nat \<Rightarrow> u64" where
  "k_const koeff i = push_bit 32 (ucast (koeff32 koeff i))"

section \<open>What the table holds\<close>

text \<open>The polynomial with its leading term, and the leading \<open>n\<close> coefficients of its inverse power series.\<close>
definition full_poly :: "u32 \<Rightarrow> u64" where
  "full_poly p = ucast p OR push_bit 32 1"

primrec poly_quotient :: "u32 \<Rightarrow> nat \<Rightarrow> u64" where
  "poly_quotient p 0 = 0"
| "poly_quotient p (Suc n) = push_bit 1 (poly_quotient p n) OR of_bool (bit (xpow p n 1) 31)"

definition good_table :: "u32 \<Rightarrow> byte list \<Rightarrow> bool" where
  "good_table p koeff \<longleftrightarrow>
     koeff64 koeff 0 = full_poly p \<and> koeff64 koeff 2 = poly_quotient p 64
     \<and> (\<forall>i<17. koeff32 koeff (4 + i) = xpow p (crc_bits ! i) 1)"

lemma bit_full_poly: "bit (full_poly p) i \<longleftrightarrow> i = 32 \<or> bit p i"
  using bit_imp_le_length [of p i] unfolding full_poly_def bit_or_iff bit_push_bit_iff bit_1_iff bit_unsigned_iff
  by (auto simp: possible_bit_def)

lemma getCRCSize_full: "getCRCSize (full_poly p) = 32"
proof -
  have "bit (full_poly p) i \<Longrightarrow> i \<le> 32" for i
    using bit_imp_le_length [of p i] by (auto simp: bit_full_poly)
  then have "find (bit (full_poly p)) (rev [0 ..< 64]) = Some 32"
    by (simp add: upt_rec bit_full_poly) (fastforce dest: bit_imp_le_length)
  then show ?thesis by (simp add: getCRCSize_def lzcnt_u64_def)
qed

lemma crc_tail_step_eq: "crc_tail_step p c = xtime p c"
proof -
  have "c AND 0x80000000 \<noteq> 0 \<longleftrightarrow> bit c 31"
    using bit_iff_and_push_bit_not_eq_0 [of c 31] by simp
  moreover have "c + c = push_bit 1 c" by simp
  ultimately show ?thesis by (simp only: crc_tail_step_def xtime_def Let_def)
qed

lemma for_loop_xtime: "for_loop n (\<lambda>_. crc_tail_step p) c = xpow p n c"
  by (induction n) (simp_all add: crc_tail_step_eq)

text \<open>The division by shifting: the tail is the residue, the collected bits the quotient.\<close>
lemma div_step:
  "poly1x64_32_div_step (full_poly p) (0, ucast (xpow p n 1), poly_quotient p n)
     = (0, ucast (xpow p (Suc n) 1), poly_quotient p (Suc n))"
proof -
  let ?c = "xpow p n 1"
  have h: "(ucast ?c :: u64) AND 0x80000000 \<noteq> 0 \<longleftrightarrow> bit ?c 31"
    using bit_iff_and_push_bit_not_eq_0 [of "ucast ?c :: u64" 31] by (simp add: bit_simps)
  have m: "bit (0xffffffff :: u64) i \<longleftrightarrow> i < 32" for i
  proof -
    have "bit (mask 32 :: u64) i \<longleftrightarrow> i < 32" by (auto simp: bit_mask_iff simp del: mask_numeral)
    moreover have "mask 32 = (0xffffffff :: u64)" by (simp add: mask_eq_exp_minus_1)
    ultimately show ?thesis by (simp only:)
  qed
  have 1: "(push_bit 1 (ucast ?c) XOR full_poly p) AND 0xffffffff = (ucast (push_bit 1 ?c XOR p) :: u64)"
    by (rule bit_word_eqI, unfold bit_and_iff bit_xor_iff bit_push_bit_iff bit_unsigned_iff m bit_full_poly)
      (auto simp: possible_bit_def dest: bit_imp_le_length)
  have 2: "push_bit 1 (ucast ?c) AND 0xffffffff = (ucast (push_bit 1 ?c) :: u64)"
    by (rule bit_word_eqI, unfold bit_and_iff bit_push_bit_iff bit_unsigned_iff m)
      (auto simp: possible_bit_def dest: bit_imp_le_length)
  show ?thesis
    using h 1 2 by (cases "bit ?c 31") (simp_all add: poly1x64_32_div_step_def Let_def xtime_def)
qed

lemma for_loop_funpow: "for_loop n (\<lambda>_. f) s = (f ^^ n) s"
  by (induction n) simp_all

lemma funpow_8: "(f ^^ 8) s = f (f (f (f (f (f (f (f s)))))))"
  by (simp add: eval_nat_numeral)

lemma div_steps:
  "(poly1x64_32_div_step (full_poly p) ^^ n) (0, 1, 0) = (0, ucast (xpow p n 1), poly_quotient p n)"
  by (induction n) (simp_all add: div_step)

text \<open>The leading byte brings the one into the tail; 64 more steps divide \<open>x ^ 64\<close>.\<close>
lemma poly1x64_32_div_eq: "poly1x64_32_div (full_poly p) = (poly_quotient p 64, xpow p 64 1)"
proof -
  let ?f = "poly1x64_32_div_step (full_poly p)"
  have "?f (b, 0, 0) = (push_bit 1 b, ucast (drop_bit 7 (b AND 0x80)) AND 0xffffffff, 0)" for b
    by (simp add: poly1x64_32_div_step_def Let_def)
  then have "(?f ^^ 8) (1, 0, 0) = (0, 1, 0)" by (simp add: funpow_8)
  moreover have "for_loop 9 (\<lambda>_. for_loop 8 (\<lambda>_. ?f)) s = (?f ^^ 64) ((?f ^^ 8) s)" for s
  proof -
    have "for_loop 9 (\<lambda>_. for_loop 8 (\<lambda>_. ?f)) s = ((?f ^^ 8) ^^ 9) s"
      by (simp only: for_loop_funpow [abs_def])
    also have "\<dots> = (?f ^^ (64 + 8)) s" by (simp only: funpow_mult) simp
    finally show ?thesis by (simp only: funpow_add o_apply)
  qed
  moreover have "ucast (ucast w :: u64) = w" for w :: u32
    by (rule bit_word_eqI) (auto simp: bit_simps)
  ultimately show ?thesis
    unfolding poly1x64_32_div_def using div_steps [of 64 p] by (simp add: Let_def del: for_loop_numeral)
qed

lemma crc_bits_Suc: "i < 16 \<Longrightarrow> crc_bits ! i \<le> crc_bits ! Suc i"
  by (auto simp: crc_bits_def dest!: less_16_cases)

text \<open>What the outer loop keeps: the entries up to \<open>i\<close> are written.\<close>
definition gen_inv :: "u32 \<Rightarrow> nat \<Rightarrow> nat \<times> u32 \<times> byte list \<Rightarrow> bool" where
  "gen_inv p i = (\<lambda>(j, tail, opt). j = crc_bits ! i + 8 \<and> tail = xpow p (crc_bits ! i) 1 \<and> length opt = 128
     \<and> koeff64 opt 0 = full_poly p \<and> koeff64 opt 2 = poly_quotient p 64
     \<and> (\<forall>i'\<le>i. koeff32 opt (4 + i') = xpow p (crc_bits ! i') 1))"

lemma koeff_set:
  assumes "length opt = 128" "i < 28"
  shows "koeff64 (set_field (4 * (4 + i)) (w :: u32) opt) 0 = koeff64 opt 0"
    "koeff64 (set_field (4 * (4 + i)) w opt) 2 = koeff64 opt 2"
    "koeff32 (set_field (4 * (4 + i)) w opt) (4 + i) = w"
    "i' \<noteq> i \<Longrightarrow> koeff32 (set_field (4 * (4 + i)) w opt) (4 + i') = koeff32 opt (4 + i')"
  unfolding koeff64_def koeff32_def
  using assms by (simp_all add: get_set_field_same, (subst get_set_field_other; simp; linarith)+)

lemma gen_inv_step:
  assumes "gen_inv p i st" "i < 16"
  shows "gen_inv p (Suc i) (crc_opt_step p i st)"
proof -
  obtain j tail opt where st: "st = (j, tail, opt)" by (cases st)
  have "xpow p (crc_bits ! Suc i - crc_bits ! i) (xpow p (crc_bits ! i) 1) = xpow p (crc_bits ! Suc i) 1"
    using crc_bits_Suc [of i] assms(2) by (simp flip: xpow_add)
  then show ?thesis
    using assms koeff_set [of opt "Suc i"] unfolding st gen_inv_def crc_opt_step_def
    by (auto simp: Let_def for_loop_xtime le_Suc_eq)
qed

lemma own_gen_good_table:
  assumes len: "length optPoly = 128"
  shows "good_table p (own_gen_crc_opt_poly_8u (full_poly p) optPoly)"
proof -
  let ?opt = "set_field (4 * 2) (poly_quotient p 64) (set_field 0 (full_poly p) optPoly)"
  let ?st = "(crc_bits ! 0 + 8, xpow p 64 1, set_field (4 * (4 + 0)) (xpow p 64 1) ?opt)"
  have "koeff64 ?opt 0 = full_poly p" "koeff64 ?opt 2 = poly_quotient p 64" "length ?opt = 128"
    unfolding koeff64_def using len by (simp_all add: field_simps_dml)
  then have "gen_inv p 0 ?st"
    using koeff_set [of ?opt 0] by (simp add: gen_inv_def crc_bits_def)
  then have final: "gen_inv p 16 (for_loop 16 (crc_opt_step p) ?st)"
    by (rule for_loop_invariant) (rule gen_inv_step)
  have poly: "(ucast (full_poly p) :: u32) = p"
    by (rule bit_word_eqI) (auto simp: bit_simps bit_full_poly)
  have first: "crc_bits ! 0 + 8 - 40 = 32" "length crc_bits - 3 = 16" by (simp_all add: crc_bits_def)
  have tail: "xpow p 32 p = xpow p 64 1"
    using xpow_add [of 32 32 p 1] xpow_32 [of p] by simp
  have "own_gen_crc_opt_poly_8u (full_poly p) optPoly = snd (snd (for_loop 16 (crc_opt_step p) ?st))"
    unfolding own_gen_crc_opt_poly_8u_def getCRCSize_full Let_def poly first for_loop_xtime tail
    by (simp add: poly1x64_32_div_eq case_prod_beta del: for_loop_numeral)
  with final show ?thesis
    unfolding good_table_def gen_inv_def by (auto simp: case_prod_beta less_Suc_eq_le numeral_eq_Suc)
qed

text \<open>Evaluation of powers for concrete constants.\<close>
lemma xpow_step: "xpow p (numeral k) c = xpow p (pred_numeral k) (xtime p c)"
  by (simp add: numeral_eq_Suc funpow_swap1)

lemma xtime_poly_1: "xtime 0x1EDC6F41 c = (if bit c 31 then (c * 2) XOR 0x1EDC6F41 else c * 2)"
  by (simp add: xtime_def)

lemma poly_1_first:
  "xpow 0x1EDC6F41 32 0x1EDC6F41 = 0x3aab4576" "xpow 0x1EDC6F41 32 0x3aab4576 = 0xd7a01665"
  by (simp_all add: xpow_step xtime_poly_1)

lemma poly_1_powers:
  "xpow 0x1EDC6F41 64 0xd7a01665 = 0xff60609e"
  "xpow 0x1EDC6F41 64 0xff60609e = 0xe287e4ba"
  "xpow 0x1EDC6F41 64 0xe287e4ba = 0xb8caa439"
  "xpow 0x1EDC6F41 64 0xb8caa439 = 0xb78c6837"
  "xpow 0x1EDC6F41 64 0xb78c6837 = 0x41712870"
  "xpow 0x1EDC6F41 64 0x41712870 = 0x3f76a4f2"
  "xpow 0x1EDC6F41 64 0x3f76a4f2 = 0x81eee05c"
  "xpow 0x1EDC6F41 64 0x81eee05c = 0xd29b9738"
  "xpow 0x1EDC6F41 64 0xd29b9738 = 0x6eecb820"
  "xpow 0x1EDC6F41 64 0x6eecb820 = 0x8a3b3e81"
  "xpow 0x1EDC6F41 64 0x8a3b3e81 = 0xd3399d07"
  "xpow 0x1EDC6F41 64 0xd3399d07 = 0xcf5fd885"
  "xpow 0x1EDC6F41 64 0xcf5fd885 = 0x187136a8"
  "xpow 0x1EDC6F41 64 0x187136a8 = 0x920db960"
  "xpow 0x1EDC6F41 64 0x920db960 = 0x8ae6932c"
  by (simp_all add: xpow_step xtime_poly_1)

lemma poly_1_entries:
  "xpow 0x1EDC6F41 64 1 = 0x3aab4576" "xpow 0x1EDC6F41 96 1 = 0xd7a01665"
  "xpow 0x1EDC6F41 160 1 = 0xff60609e"
  "xpow 0x1EDC6F41 224 1 = 0xe287e4ba"
  "xpow 0x1EDC6F41 288 1 = 0xb8caa439"
  "xpow 0x1EDC6F41 352 1 = 0xb78c6837"
  "xpow 0x1EDC6F41 416 1 = 0x41712870"
  "xpow 0x1EDC6F41 480 1 = 0x3f76a4f2"
  "xpow 0x1EDC6F41 544 1 = 0x81eee05c"
  "xpow 0x1EDC6F41 608 1 = 0xd29b9738"
  "xpow 0x1EDC6F41 672 1 = 0x6eecb820"
  "xpow 0x1EDC6F41 736 1 = 0x8a3b3e81"
  "xpow 0x1EDC6F41 800 1 = 0xd3399d07"
  "xpow 0x1EDC6F41 864 1 = 0xcf5fd885"
  "xpow 0x1EDC6F41 928 1 = 0x187136a8"
  "xpow 0x1EDC6F41 992 1 = 0x920db960"
  "xpow 0x1EDC6F41 1056 1 = 0x8ae6932c"
proof -
  let ?p = "0x1EDC6F41 :: u32"
  show a: "xpow ?p 64 1 = 0x3aab4576"
    using xpow_add [of 32 32 ?p 1] poly_1_first xpow_32 [of ?p] by simp
  show b: "xpow ?p 96 1 = 0xd7a01665"
    using xpow_add [of 32 64 ?p 1] poly_1_first a by simp
  show e2: "xpow ?p 160 1 = 0xff60609e"
    using xpow_add [of 64 96 ?p 1] poly_1_powers b by simp
  show e3: "xpow ?p 224 1 = 0xe287e4ba"
    using xpow_add [of 64 160 ?p 1] poly_1_powers e2 by simp
  show e4: "xpow ?p 288 1 = 0xb8caa439"
    using xpow_add [of 64 224 ?p 1] poly_1_powers e3 by simp
  show e5: "xpow ?p 352 1 = 0xb78c6837"
    using xpow_add [of 64 288 ?p 1] poly_1_powers e4 by simp
  show e6: "xpow ?p 416 1 = 0x41712870"
    using xpow_add [of 64 352 ?p 1] poly_1_powers e5 by simp
  show e7: "xpow ?p 480 1 = 0x3f76a4f2"
    using xpow_add [of 64 416 ?p 1] poly_1_powers e6 by simp
  show e8: "xpow ?p 544 1 = 0x81eee05c"
    using xpow_add [of 64 480 ?p 1] poly_1_powers e7 by simp
  show e9: "xpow ?p 608 1 = 0xd29b9738"
    using xpow_add [of 64 544 ?p 1] poly_1_powers e8 by simp
  show e10: "xpow ?p 672 1 = 0x6eecb820"
    using xpow_add [of 64 608 ?p 1] poly_1_powers e9 by simp
  show e11: "xpow ?p 736 1 = 0x8a3b3e81"
    using xpow_add [of 64 672 ?p 1] poly_1_powers e10 by simp
  show e12: "xpow ?p 800 1 = 0xd3399d07"
    using xpow_add [of 64 736 ?p 1] poly_1_powers e11 by simp
  show e13: "xpow ?p 864 1 = 0xcf5fd885"
    using xpow_add [of 64 800 ?p 1] poly_1_powers e12 by simp
  show e14: "xpow ?p 928 1 = 0x187136a8"
    using xpow_add [of 64 864 ?p 1] poly_1_powers e13 by simp
  show e15: "xpow ?p 992 1 = 0x920db960"
    using xpow_add [of 64 928 ?p 1] poly_1_powers e14 by simp
  show e16: "xpow ?p 1056 1 = 0x8ae6932c"
    using xpow_add [of 64 992 ?p 1] poly_1_powers e15 by simp
qed

definition quotient_step :: "u32 \<Rightarrow> u32 \<times> u64 \<Rightarrow> u32 \<times> u64" where
  "quotient_step p = (\<lambda>(c, q). (xtime p c, push_bit 1 q OR of_bool (bit c 31)))"

lemma quotient_steps: "(quotient_step p ^^ n) (1, 0) = (xpow p n 1, poly_quotient p n)"
  by (induction n) (simp_all add: quotient_step_def)

lemma quotient_poly_1: "poly_quotient 0x1EDC6F41 64 = 0x11f91caf6"
proof -
  have "(quotient_step p ^^ numeral k) s = (quotient_step p ^^ pred_numeral k) (quotient_step p s)" for p k s
    by (simp add: numeral_eq_Suc funpow_swap1)
  moreover have "quotient_step p (c, q) = (xtime p c, q * 2 OR of_bool (bit c 31))" for p c q
    by (simp add: quotient_step_def)
  ultimately have "(quotient_step 0x1EDC6F41 ^^ 64) (1, 0) = (0x3aab4576, 0x11f91caf6)"
    by (simp add: xtime_poly_1)
  then show ?thesis using quotient_steps [of 64 "0x1EDC6F41"] by simp
qed

text \<open>The table in the source holds what the routine would compute.\<close>
lemma opt_poly_1_good: "good_table D_POLYNOMIAL_1 opt_poly_1_ptr"
proof -
  have "koeff64 opt_poly_1_ptr 0 = full_poly D_POLYNOMIAL_1"
    by (simp add: koeff64_def get_field_def opt_poly_1_ptr_def full_poly_def D_POLYNOMIAL_1_def)
  moreover have "koeff64 opt_poly_1_ptr 2 = poly_quotient D_POLYNOMIAL_1 64"
    by (simp add: koeff64_def get_field_def opt_poly_1_ptr_def D_POLYNOMIAL_1_def quotient_poly_1)
  moreover have "list_all (\<lambda>i. koeff32 opt_poly_1_ptr (4 + i) = xpow D_POLYNOMIAL_1 (crc_bits ! i) 1) [0 ..< 17]"
    unfolding D_POLYNOMIAL_1_def
    by (simp add: upt_rec crc_bits_def poly_1_entries koeff32_def get_field_def opt_poly_1_ptr_def)
  ultimately show ?thesis by (simp add: good_table_def list_all_iff)
qed

section \<open>The last two reductions\<close>

definition mask2 :: m128 where
  "mask2 = mm_set_epi64x 0x00000000FFFFFFFF 0xFFFFFFFFFFFFFFFF"

text \<open>From 128 bits to 64: the fold of the high half, then of the top 32 bits (\<open>_128_done\<close>).\<close>
definition reduce_128 :: "u64 \<Rightarrow> u64 \<Rightarrow> m128 \<Rightarrow> m128" where
  "reduce_128 k_64 k_96 xmm7 =
     (let xmm10 = mm_set_epi64x k_64 k_96;
          xmm0 = xmm7;
          xmm7 = mm_clmulepi64_si128 xmm7 xmm10 0x1;
          xmm0 = mm_slli_si128 xmm0 8;
          xmm7 = xmm7 XOR xmm0;
          xmm0 = xmm7;
          xmm0 = xmm0 AND mask2;
          xmm7 = mm_srli_si128 xmm7 12;
          xmm7 = mm_clmulepi64_si128 xmm7 xmm10 0x10
      in xmm7 XOR xmm0)"

text \<open>From 64 bits to 32 by multiplication with the quotient (\<open>_barrett\<close>).\<close>
definition barrett :: "u64 \<Rightarrow> u64 \<Rightarrow> m128 \<Rightarrow> u32" where
  "barrett q u xmm7 =
     (let xmm10 = mm_set_epi64x q u;
          xmm0 = xmm7;
          xmm7 = mm_clmulepi64_si128 xmm7 xmm10 0x01;
          xmm7 = mm_slli_si128 xmm7 4;
          xmm7 = mm_clmulepi64_si128 xmm7 xmm10 0x11;
          xmm7 = mm_slli_si128 xmm7 4;
          xmm7 = xmm7 XOR xmm0
      in mm_extract_epi32 xmm7 1)"

lemma bit_shl1: "bit (push_bit 1 w) k \<longleftrightarrow> 0 < k \<and> k < LENGTH('a) \<and> bit w (k - 1)" for w :: "'a::len word"
  unfolding bit_push_bit_iff by auto

lemma clmul_basis_left: "i < 64 \<Longrightarrow> clmul (xmon i) b = push_bit i (ucast b)"
proof (rule linear_ext [of "\<lambda>b. clmul (xmon i) b" "\<lambda>b. push_bit i (ucast b)"])
  fix j assume "i < 64" "j < LENGTH(64)"
  moreover from this have "(ucast (xmon j :: u64) :: m128) = xmon j"
    by (auto simp: bit_simps intro!: bit_word_eqI)
  ultimately show "clmul (xmon i) (xmon j) = push_bit i (ucast (xmon j :: u64))"
    by (simp add: clmul_basis)
qed (intro linear_intros)+

text \<open>The low bits of quotient times polynomial are the residue.\<close>
lemma quotient_times:
  "ucast (clmul (poly_quotient p n) (full_poly p)) XOR xmon n = xpow p n 1"
proof (induction n)
  case 0
  have "clmul 0 b = 0" for b by (rule xlin_0) (intro linear_intros)
  then show ?case by (simp add: xmon_0)
next
  case (Suc n)
  let ?q = "full_poly p" and ?h = "of_bool (bit (xpow p n 1) 31) :: u64"
  have shift: "(ucast (clmul (push_bit 1 b) ?q) :: u32) = push_bit 1 (ucast (clmul b ?q))" for b
  proof (rule linear_ext [of "\<lambda>b. ucast (clmul (push_bit 1 b) ?q) :: u32" "\<lambda>b. push_bit 1 (ucast (clmul b ?q))"])
    fix i assume i: "i < LENGTH(64)"
    show "(ucast (clmul (push_bit 1 (xmon i)) ?q) :: u32) = push_bit 1 (ucast (clmul (xmon i) ?q))"
    proof (cases "i = 63")
      case True
      have "push_bit 1 (xmon 63 :: u64) = 0" by (rule bit_word_eqI) (simp add: bit_simps)
      moreover have "clmul 0 b = 0" for b by (rule xlin_0) (intro linear_intros)
      moreover have "push_bit 1 (ucast (push_bit 63 (ucast ?q :: m128)) :: u32) = 0"
        by (rule bit_word_eqI, unfold bit_push_bit_iff bit_unsigned_iff) auto
      ultimately show ?thesis unfolding True by (simp only: clmul_basis_left) simp
    next
      case False
      then have "push_bit 1 (ucast (push_bit i (ucast ?q :: m128)) :: u32) = ucast (push_bit (Suc i) (ucast ?q :: m128))"
        using i by (intro bit_word_eqI, unfold bit_shl1 bit_unsigned_iff bit_push_bit_iff) auto
      with False i show ?thesis by (simp add: clmul_basis_left)
    qed
  qed (intro linear_intros)+
  have sum: "poly_quotient p (Suc n) = push_bit 1 (poly_quotient p n) XOR ?h"
    by (rule bit_word_eqI, unfold poly_quotient.simps bit_or_iff bit_xor_iff bit_shl1) (auto simp: bit_of_bool_iff)
  have dist: "clmul (a XOR b) c = clmul a c XOR clmul b c" for a b c
    by (rule xlinD) (intro linear_intros)
  have one: "(ucast (clmul ?h ?q) :: u32) = (if bit (xpow p n 1) 31 then p else 0)"
  proof -
    have "clmul 0 b = 0" for b by (rule xlin_0) (intro linear_intros)
    moreover have "clmul 1 b = ucast b" for b using clmul_basis_left [of 0 b] by (simp add: xmon_0)
    moreover have "(ucast (ucast ?q :: m128) :: u32) = p"
      by (rule bit_word_eqI) (auto simp: bit_simps bit_full_poly)
    ultimately show ?thesis by simp
  qed
  have "ucast (clmul (poly_quotient p (Suc n)) ?q) XOR xmon (Suc n)
      = push_bit 1 (ucast (clmul (poly_quotient p n) ?q) XOR xmon n) XOR (if bit (xpow p n 1) 31 then p else 0)"
    unfolding sum dist unsigned_xor_eq shift one push_bit_xor push_bit_xmon by (simp add: ac_simps)
  then show ?case by (simp only: Suc.IH funpow.simps o_apply xtime_def [of p "xpow p n 1"])
qed

lemma bit_quotient: "n \<le> 64 \<Longrightarrow> bit (poly_quotient p n) k \<longleftrightarrow> k < n \<and> bit (xpow p (n - Suc k) 1) 31"
proof (induction n arbitrary: k)
  case (Suc n)
  have step: "bit (poly_quotient p (Suc n)) k \<longleftrightarrow>
      (0 < k \<and> k < 64 \<and> bit (poly_quotient p n) (k - 1)) \<or> (k = 0 \<and> bit (xpow p n 1) 31)"
    unfolding poly_quotient.simps bit_or_iff bit_shl1 by (auto simp: bit_of_bool_iff)
  show ?case
  proof (cases k)
    case 0
    then show ?thesis using step by simp
  next
    case (Suc l)
    then have "bit (poly_quotient p (Suc n)) k \<longleftrightarrow> Suc l < 64 \<and> bit (poly_quotient p n) l" using step by simp
    with Suc Suc.IH [of l] Suc.prems show ?thesis by auto
  qed
qed simp

text \<open>The quotient of \<open>x ^ (32 + i)\<close> is a part of the quotient of \<open>x ^ 64\<close>.\<close>
lemma quotient_part:
  assumes "i < 32"
  shows "epi64_half (mm_slli_si128 (push_bit i (ucast (poly_quotient p 64))) 4) True = poly_quotient p (32 + i)"
proof (rule bit_word_eqI)
  fix k assume k: "k < LENGTH(64)"
  have "bit (epi64_half (mm_slli_si128 (push_bit i (ucast (poly_quotient p 64))) 4) True) k
      \<longleftrightarrow> bit (poly_quotient p 64) (32 + k - i)"
    using assms k bit_imp_le_length [of "poly_quotient p 64" "32 + k - i"]
    unfolding epi64_half_def mm_slli_si128_def if_True bit_unsigned_iff bit_drop_bit_eq bit_push_bit_iff o_apply
    by auto
  also have "\<dots> \<longleftrightarrow> bit (poly_quotient p (32 + i)) k"
  proof -
    have "64 - Suc (32 + k - i) = 32 + i - Suc k" "32 + k - i < 64 \<longleftrightarrow> k < 32 + i" using assms by linarith+
    then show ?thesis using assms by (simp add: bit_quotient)
  qed
  finally show "bit (epi64_half (mm_slli_si128 (push_bit i (ucast (poly_quotient p 64))) 4) True) k
      = bit (poly_quotient p (32 + i)) k" .
qed

lemma xlin_barrett: "xlin f \<Longrightarrow> xlin (\<lambda>w. barrett q u (f w))"
  unfolding barrett_def Let_def clmul_selectors mm_slli_si128_def mm_extract_epi32_def
  by (intro linear_intros)

text \<open>The reduction is exact on a register that holds a word of 64 bits above 32 zero bits.\<close>
lemma barrett_residue:
  "barrett (full_poly p) (poly_quotient p 64) (push_bit 32 (ucast (w :: u64))) = residue p w"
proof (rule linear_ext [of "\<lambda>w. barrett (full_poly p) (poly_quotient p 64) (push_bit 32 (ucast w))" "residue p"])
  fix i assume i: "i < LENGTH(64)"
  have reg: "push_bit 32 (ucast (xmon i :: u64)) = (xmon (32 + i) :: m128)"
    using i by (auto simp: bit_simps intro!: bit_word_eqI)
  show "barrett (full_poly p) (poly_quotient p 64) (push_bit 32 (ucast (xmon i :: u64))) = residue p (xmon i :: u64)"
  proof (cases "i < 32")
    case True
    then have "epi64_half (xmon (32 + i) :: m128) True = 0" "mm_extract_epi32 (xmon (32 + i)) 1 = xmon i"
      by (auto simp: epi64_half_def mm_extract_epi32_def bit_simps intro!: bit_word_eqI)
    moreover have "clmul 0 b = 0" "epi64_half 0 h = 0" for b h by (rule xlin_0, intro linear_intros)+
    ultimately show ?thesis
      using True i unfolding reg barrett_def Let_def clmul_selectors epi64_half_set
      by (simp add: mm_slli_si128_def residue_basis xpow_small)
  next
    case False
    then have h: "epi64_half (xmon (32 + i) :: m128) True = xmon (i - 32)"
      using i by (auto simp: epi64_half_def bit_simps intro!: bit_word_eqI)
    have "mm_extract_epi32 (mm_slli_si128 x 4 XOR xmon (32 + i)) 1 = ucast x" for x
      using False i by (auto simp: mm_extract_epi32_def mm_slli_si128_def bit_simps intro!: bit_word_eqI)
    moreover have "xmon i = (0 :: u32)" using False by (auto simp: bit_simps intro!: bit_word_eqI)
    ultimately show ?thesis
      using False i quotient_part [of "i - 32" p] quotient_times [of p i]
      unfolding reg barrett_def Let_def clmul_selectors epi64_half_set h
      by (simp add: clmul_basis_left residue_basis)
  qed
qed (intro linear_intros xlin_barrett)+

text \<open>A constant in the high half of its register shifts the product.\<close>
lemma clmul_shifted: "clmul a (push_bit 32 (ucast (k :: u32))) = push_bit 32 (clmul a (ucast k))"
proof (rule bilinear_ext [of "\<lambda>a k. clmul a (push_bit 32 (ucast k))" "\<lambda>a k. push_bit 32 (clmul a (ucast k))"])
  fix i j assume "i < LENGTH(64)" "j < LENGTH(32)"
  moreover from this have "ucast (xmon j :: u32) = (xmon j :: u64)"
    by (auto simp: bit_simps intro!: bit_word_eqI)
  ultimately show "clmul (xmon i) (push_bit 32 (ucast (xmon j :: u32))) = push_bit 32 (clmul (xmon i) (ucast (xmon j :: u32)))"
    by (simp add: clmul_basis add.left_commute)
qed (intro linear_intros)+

text \<open>The degree of a product.\<close>
lemma clmul_degree:
  assumes "\<And>i. bit a i \<Longrightarrow> i < s" "\<And>i. bit b i \<Longrightarrow> i < t" "bit (clmul a b) k"
  shows "k + 1 < s + t"
proof -
  have "bit (xsum n f) k \<Longrightarrow> \<exists>i<n. bit (f i) k" for n and f :: "nat \<Rightarrow> m128"
    by (induction n) (auto simp: bit_xor_iff less_Suc_eq)
  from this [OF assms(3) [unfolded clmul_def]]
  obtain i where "i < 64" "bit (if bit b i then push_bit i (ucast a) else 0 :: m128) k" by blast
  then have "bit b i" "i \<le> k" "bit a (k - i)" by (auto simp: bit_simps split: if_splits)
  with assms(1) [of "k - i"] assms(2) [of i] show ?thesis by linarith
qed

lemma bit_mask2: "bit mask2 k \<longleftrightarrow> k < 96"
proof -
  have "mask2 = mask 96" unfolding mask2_def mm_set_epi64x_def by (simp add: mask_eq_exp_minus_1)
  then show ?thesis unfolding \<open>mask2 = mask 96\<close> bit_mask_iff by auto
qed

lemma residue_low: "residue p (ucast (x :: m128) :: u64) = residue p (take_bit 64 x)"
proof -
  have "take_bit 64 x = ucast (ucast x :: u64)" by (rule bit_word_eqI) (auto simp: bit_simps)
  then show ?thesis using residue_ucast [where 'a = 64 and 'b = 128, of p "ucast x"] by simp
qed

lemma bit_const: "bit (ucast (c :: u32) :: u64) i \<Longrightarrow> i < 32"
  by (auto simp: bit_simps dest: bit_imp_le_length)

lemma bit_u64: "bit (y :: u64) i \<Longrightarrow> i < 64"
  using bit_imp_le_length [of y i] by simp

lemma residue_clmul_xpow: "residue p (clmul a (ucast (xpow p n 1))) = xpow p n (residue p a)"
proof -
  have "xmul p c (ucast (w :: u32) :: u64) = xmul p c w" for c w
  proof (rule linear_ext [of "\<lambda>w. xmul p c (ucast w :: u64)" "\<lambda>w. xmul p c w"])
    fix i assume i: "i < LENGTH(32)"
    then have "ucast (xmon i :: u32) = (xmon i :: u64)" by (auto simp: bit_simps intro!: bit_word_eqI)
    with i show "xmul p c (ucast (xmon i :: u32) :: u64) = xmul p c (xmon i :: u32)" by (simp add: xmul_basis)
  qed (intro linear_intros)+
  then show ?thesis by (simp add: residue_clmul xmul_xpow)
qed

text \<open>The fold of the top 32 of 96 bits.\<close>
lemma fold_96:
  fixes v :: m128 and p :: u32
  assumes v: "\<And>k. bit v k \<Longrightarrow> k < 96"
  defines "y \<equiv> clmul (epi64_half v True) (ucast (xpow p 64 1)) XOR take_bit 64 v"
  shows "ucast (ucast y :: u64) = y" "residue p (ucast y :: u64) = residue p v"
proof -
  have hi: "i < 32" if "bit (epi64_half v True) i" for i
    using that v [of "64 + i"] by (simp add: epi64_half_def bit_simps)
  have deg: "k < 64" if "bit y k" for k
  proof (cases "bit (clmul (epi64_half v True) (ucast (xpow p 64 1))) k")
    case True
    from clmul_degree [OF _ _ this, of 32 32] hi bit_const show ?thesis by simp
  next
    case False
    with that show ?thesis by (simp add: y_def bit_xor_iff bit_take_bit_iff)
  qed
  show y: "ucast (ucast y :: u64) = y"
    by (rule bit_word_eqI) (use deg in \<open>auto simp: bit_simps\<close>)
  have "residue p (ucast y :: u64) = residue p y"
    using residue_ucast [where 'a = 64 and 'b = 128, of p "ucast y"] y by simp
  also have "\<dots> = xpow p 64 (residue p (epi64_half v True)) XOR residue p (take_bit 64 v)"
    unfolding y_def residue_xor residue_clmul_xpow by simp
  also have "\<dots> = residue p v"
    using residue_halves [of p v] residue_low [of p v] by (simp add: epi64_half_def)
  finally show "residue p (ucast y :: u64) = residue p v" .
qed

text \<open>The fold of the high 64 of 128 bits.\<close>
lemma fold_128:
  fixes x :: m128 and p :: u32
  defines "v \<equiv> clmul (epi64_half x True) (ucast (xpow p 96 1)) XOR push_bit 32 (ucast (epi64_half x False))"
  shows "bit v k \<Longrightarrow> k < 96" "residue p v = xpow p 32 (residue p x)"
proof -
  let ?lo = "epi64_half x False"
  show "k < 96" if "bit v k"
  proof (cases "bit (clmul (epi64_half x True) (ucast (xpow p 96 1))) k")
    case True
    from clmul_degree [OF _ _ this, of 64 32] bit_u64 bit_const show ?thesis by simp
  next
    case False
    with that show ?thesis using bit_u64 [of ?lo "k - 32"] by (auto simp: v_def bit_simps)
  qed
  have "drop_bit 96 (ucast ?lo :: m128) = 0"
    by (rule bit_word_eqI) (use bit_u64 in \<open>fastforce simp: bit_simps\<close>)
  then have "residue p (push_bit 32 (ucast ?lo :: m128)) = xpow p 32 (residue p ?lo)"
    using residue_push_bit [where 'a = 128, of 32 "ucast ?lo" p]
      residue_ucast [where 'a = 64 and 'b = 128, of p ?lo] by simp
  moreover have "xpow p 96 c = xpow p 32 (xpow p 64 c)" for c by (simp flip: xpow_add)
  ultimately show "residue p v = xpow p 32 (residue p x)"
    unfolding v_def residue_xor residue_clmul_xpow residue_halves [of p x] xpow_xor by simp
qed

text \<open>
  The reduction to 64 bits leaves a word above 32 zero bits, whose residue is that of the register
  times \<open>x ^ 32\<close>.
\<close>
lemma reduce_128_residue:
  "\<exists>w :: u64. reduce_128 (fold_constant p 64) (fold_constant p 96) x = push_bit 32 (ucast w)
     \<and> residue p w = xpow p 32 (residue p x)"
proof -
  define v where "v = clmul (epi64_half x True) (ucast (xpow p 96 1)) XOR push_bit 32 (ucast (epi64_half x False))"
  have v: "bit v k \<Longrightarrow> k < 96" for k unfolding v_def by (rule fold_128)
  have res: "residue p v = xpow p 32 (residue p x)" unfolding v_def by (rule fold_128)
  define y where "y = clmul (epi64_half v True) (ucast (xpow p 64 1)) XOR take_bit 64 v"
  have "mm_slli_si128 x 8 = push_bit 32 (push_bit 32 (ucast (epi64_half x False)))"
    by (rule bit_word_eqI) (auto simp: mm_slli_si128_def epi64_half_def bit_simps)
  then have first: "mm_clmulepi64_si128 x (mm_set_epi64x k (fold_constant p 96)) 0x01 XOR mm_slli_si128 x 8 = push_bit 32 v" for k
    unfolding clmul_selectors epi64_half_set fold_constant_def clmul_shifted v_def push_bit_xor by simp
  have "epi64_half (mm_srli_si128 (push_bit 32 v) 12) False = epi64_half v True"
    by (rule bit_word_eqI) (use v in \<open>fastforce simp: mm_srli_si128_def epi64_half_def bit_simps\<close>)
  moreover have "push_bit 32 v AND mask2 = push_bit 32 (take_bit 64 v)"
    by (rule bit_word_eqI) (auto simp: bit_and_iff bit_push_bit_iff bit_take_bit_iff bit_mask2)
  ultimately have "reduce_128 (fold_constant p 64) (fold_constant p 96) x = push_bit 32 y"
    unfolding reduce_128_def Let_def unfolding first
    unfolding clmul_selectors epi64_half_set y_def push_bit_xor by (simp add: fold_constant_def clmul_shifted)
  with fold_96 [OF v, where p = p] res show ?thesis unfolding y_def by metis
qed

text \<open>Both together: the checksum of a message whose residue a register holds.\<close>
lemma barrett_reduce_128:
  "barrett (full_poly p) (poly_quotient p 64) (reduce_128 (fold_constant p 64) (fold_constant p 96) x)
     = xpow p 32 (residue p x)"
  using reduce_128_residue [of p x] barrett_residue [of p] by metis

end
