(* ===== verification/DML_Crc_Opt.thy ===== *)
theory DML_Crc_Opt
  imports DML_Crc_Constants
begin

text \<open>
  The folding CRC routines for short buffers, \<open>own_CRC_8u_opt_k0\<close> and
  \<open>own_CRC_reflected_8u_opt_k0\<close> of \<open>core/src/sw_dispatcher/avx512/crc.c\<close>. The two functions
  have the same text but for \<open>D_REFL\<close> after every load, which is the argument \<open>rfl\<close> here. A
  label of the source is a definition; \<open>len\<close> is the signed integer of the source, whose value
  may be negative. The interface \<open>byte_order\<close> says what \<open>rfl\<close> does to the bytes of a register;
  the results are proved once over it.
\<close>

unbundle bit_operations_syntax

section \<open>The routine\<close>

definition crc_load :: "(m128 \<Rightarrow> m128) \<Rightarrow> addr \<Rightarrow> mem \<Rightarrow> m128" where
  "crc_load rfl src_ptr m = mm_shuffle_epi8 (rfl (mm_loadu_si128 src_ptr m)) ENDIA_SHUF_MASK"

text \<open>The initial value in the high part of a register.\<close>
definition crc_seed :: "u32 \<Rightarrow> m128" where
  "crc_seed ecx = mm_slli_si128 (mm_cvtsi32_si128 ecx) 12"

text \<open>One pass over eight registers.\<close>
definition fold_128_B :: "(m128 \<Rightarrow> m128) \<Rightarrow> m128 \<Rightarrow> addr \<Rightarrow> m128 list \<Rightarrow> mem \<Rightarrow> m128 list" where
  "fold_128_B rfl xmm10 src_ptr xs m =
     map (\<lambda>i. fold_si128 (xs ! i) xmm10 (crc_load rfl (src_ptr + word_of_nat (16 * i)) m)) [0 ..< 8]"

function fold_128_B_loop ::
  "(m128 \<Rightarrow> m128) \<Rightarrow> m128 \<Rightarrow> addr \<Rightarrow> int \<Rightarrow> m128 list \<Rightarrow> mem \<Rightarrow> addr \<times> int \<times> m128 list" where
  "fold_128_B_loop rfl xmm10 src_ptr len xs m =
     (if 0 \<le> len - 128
      then fold_128_B_loop rfl xmm10 (src_ptr + 128) (len - 128) (fold_128_B rfl xmm10 (src_ptr + 128) xs m) m
      else (src_ptr + 128, len - 128, fold_128_B rfl xmm10 (src_ptr + 128) xs m))"
  by pat_completeness auto
termination
  by (relation "measure (\<lambda>(rfl, xmm10, src_ptr, len, xs, m). nat len)") auto

definition fold_8_to_1 :: "byte list \<Rightarrow> m128 list \<Rightarrow> m128" where
  "fold_8_to_1 koeff xs =
     (let xmm7 = xs ! 7;
          xmm7 = fold_si128 (xs ! 0) (mm_set_epi64x (k_const koeff 18) (k_const koeff 17)) xmm7;
          xmm7 = fold_si128 (xs ! 1) (mm_set_epi64x (k_const koeff 16) (k_const koeff 15)) xmm7;
          xmm7 = fold_si128 (xs ! 2) (mm_set_epi64x (k_const koeff 14) (k_const koeff 13)) xmm7;
          xmm7 = fold_si128 (xs ! 3) (mm_set_epi64x (k_const koeff 12) (k_const koeff 11)) xmm7;
          xmm7 = fold_si128 (xs ! 4) (mm_set_epi64x (k_const koeff 10) (k_const koeff 9)) xmm7;
          xmm7 = fold_si128 (xs ! 5) (mm_set_epi64x (k_const koeff 8) (k_const koeff 7)) xmm7;
          xmm7 = fold_si128 (xs ! 6) (mm_set_epi64x (k_const koeff 6) (k_const koeff 5)) xmm7
      in xmm7)"

function reduction_loop_16B ::
  "(m128 \<Rightarrow> m128) \<Rightarrow> m128 \<Rightarrow> addr \<Rightarrow> int \<Rightarrow> m128 \<Rightarrow> mem \<Rightarrow> addr \<times> int \<times> m128" where
  "reduction_loop_16B rfl xmm10 src_ptr len xmm7 m =
     (if 0 \<le> len - 16
      then reduction_loop_16B rfl xmm10 (src_ptr + 16) (len - 16) (fold_si128 xmm7 xmm10 (crc_load rfl src_ptr m)) m
      else (src_ptr + 16, len - 16, fold_si128 xmm7 xmm10 (crc_load rfl src_ptr m)))"
  by pat_completeness auto
termination
  by (relation "measure (\<lambda>(rfl, xmm10, src_ptr, len, xmm7, m). nat len)") auto

declare fold_128_B_loop.simps [simp del] reduction_loop_16B.simps [simp del]

definition get_last_two_xmms :: "(m128 \<Rightarrow> m128) \<Rightarrow> m128 \<Rightarrow> addr \<Rightarrow> int \<Rightarrow> m128 \<Rightarrow> mem \<Rightarrow> m128" where
  "get_last_two_xmms rfl xmm10 src_ptr len xmm7 m =
     (let xmm2 = xmm7;
          xmm1 = crc_load rfl (src_ptr - 16 + word_of_int len) m;
          xmm0 = shf_pattern (nat (16 - len));
          xmm2 = mm_shuffle_epi8 xmm2 xmm0;
          xmm0 = xmm0 XOR mask1;
          xmm7 = mm_shuffle_epi8 xmm7 xmm0;
          xmm1 = mm_blendv_epi8 xmm1 xmm2 xmm0;
          xmm2 = xmm1
      in fold_si128 xmm7 xmm10 xmm2)"

definition crc_128_done :: "byte list \<Rightarrow> u64 \<Rightarrow> u64 \<Rightarrow> m128 \<Rightarrow> u32" where
  "crc_128_done koeff q u xmm7 = barrett q u (reduce_128 (k_const koeff 4) (k_const koeff 5) xmm7)"

definition final_reduction_for_128 ::
  "(m128 \<Rightarrow> m128) \<Rightarrow> byte list \<Rightarrow> u64 \<Rightarrow> u64 \<Rightarrow> addr \<times> int \<times> m128 \<Rightarrow> mem \<Rightarrow> u32" where
  "final_reduction_for_128 rfl koeff q u = (\<lambda>(src_ptr, len, xmm7) m.
     let xmm10 = mm_set_epi64x (k_const koeff 6) (k_const koeff 5);
         len = len + 16
     in if len = 0 then crc_128_done koeff q u xmm7
        else crc_128_done koeff q u (get_last_two_xmms rfl xmm10 src_ptr len xmm7 m))"

definition crc_fold_256 :: "(m128 \<Rightarrow> m128) \<Rightarrow> byte list \<Rightarrow> addr \<Rightarrow> u32 \<Rightarrow> int \<Rightarrow> mem \<Rightarrow> addr \<times> int \<times> m128" where
  "crc_fold_256 rfl koeff src_ptr ecx len m =
     (let xmm10 = crc_seed ecx;
          xs = map (\<lambda>i. crc_load rfl (src_ptr + word_of_nat (16 * i)) m) [0 ..< 8];
          xs = xs[0 := xs ! 0 XOR xmm10];
          xmm10 = mm_set_epi64x (k_const koeff 20) (k_const koeff 19);
          len = len - 256;
          (src_ptr, len, xs) = fold_128_B_loop rfl xmm10 src_ptr len xs m;
          src_ptr = src_ptr + 128;
          xmm7 = fold_8_to_1 koeff xs;
          xmm10 = mm_set_epi64x (k_const koeff 6) (k_const koeff 5);
          len = len + (128 - 16)
      in if len < 0 then (src_ptr, len, xmm7)
         else reduction_loop_16B rfl xmm10 src_ptr len xmm7 m)"

definition crc_fold_32 :: "(m128 \<Rightarrow> m128) \<Rightarrow> byte list \<Rightarrow> addr \<Rightarrow> u32 \<Rightarrow> int \<Rightarrow> mem \<Rightarrow> addr \<times> int \<times> m128" where
  "crc_fold_32 rfl koeff src_ptr ecx len m =
     (let xmm10 = mm_set_epi64x (k_const koeff 6) (k_const koeff 5);
          xmm0 = crc_seed ecx;
          xmm7 = crc_load rfl src_ptr m;
          xmm7 = xmm7 XOR xmm0;
          src_ptr = src_ptr + 16;
          len = len - 32
      in reduction_loop_16B rfl xmm10 src_ptr len xmm7 m)"

text \<open>
  The local buffer \<open>ttt\<close>, of which the first 16 bytes are cleared and read: bytes written at an
  offset, and the copy of 8, 4, 2 and 1 bytes as \<open>len\<close> allows. The state holds the offset
  \<open>r11\<close>, \<open>len\<close>, \<open>src_ptr\<close> and the buffer.
\<close>
definition put_bytes :: "nat \<Rightarrow> byte list \<Rightarrow> byte list \<Rightarrow> byte list" where
  "put_bytes r11 bs ttt = take r11 ttt @ bs @ drop (r11 + length bs) ttt"

definition copy_chunk :: "mem \<Rightarrow> nat \<Rightarrow> nat \<times> int \<times> addr \<times> byte list \<Rightarrow> nat \<times> int \<times> addr \<times> byte list" where
  "copy_chunk m n = (\<lambda>(r11, len, src_ptr, ttt).
     if len < int n then (r11, len, src_ptr, ttt)
     else (r11 + n, len - int n, src_ptr + word_of_nat n, put_bytes r11 (load_bytes m src_ptr n) ttt))"

definition crc_stack :: "addr \<Rightarrow> int \<Rightarrow> mem \<Rightarrow> byte list" where
  "crc_stack src_ptr len m =
     (let (r11, len, src_ptr, ttt) =
        copy_chunk m 1 (copy_chunk m 2 (copy_chunk m 4 (copy_chunk m 8 (0, len, src_ptr, replicate 16 0))))
      in ttt)"

definition crc_load_stack :: "(m128 \<Rightarrow> m128) \<Rightarrow> byte list \<Rightarrow> m128" where
  "crc_load_stack rfl ttt = mm_shuffle_epi8 (rfl (word_of ttt)) ENDIA_SHUF_MASK"

text \<open>Fewer than four bytes: the bytes are copied one by one, then shifted to their place.\<close>
definition crc_only_less_than_4 :: "(m128 \<Rightarrow> m128) \<Rightarrow> u64 \<Rightarrow> u64 \<Rightarrow> addr \<Rightarrow> m128 \<Rightarrow> int \<Rightarrow> mem \<Rightarrow> u32" where
  "crc_only_less_than_4 rfl q u src_ptr xmm0 len m =
     (let n = (if len < 3 then if len < 2 then 1 else 2 else 3);
          xmm7 = crc_load_stack rfl (put_bytes 0 (load_bytes m src_ptr n) (replicate 16 0));
          xmm7 = xmm7 XOR xmm0;
          xmm7 = mm_srli_si128 xmm7 (8 - n)
      in barrett q u xmm7)"

definition crc_less_than_16_left ::
  "(m128 \<Rightarrow> m128) \<Rightarrow> byte list \<Rightarrow> u64 \<Rightarrow> u64 \<Rightarrow> addr \<Rightarrow> m128 \<Rightarrow> int \<Rightarrow> mem \<Rightarrow> u32" where
  "crc_less_than_16_left rfl koeff q u src_ptr xmm0 len m =
     (if len < 4 then crc_only_less_than_4 rfl q u src_ptr xmm0 len m
      else let r9 = len;
               xmm7 = crc_load_stack rfl (crc_stack src_ptr len m);
               xmm7 = xmm7 XOR xmm0;
               xmm0 = shf_pattern (nat (16 - r9));
               xmm0 = xmm0 XOR mask1;
               xmm7 = mm_shuffle_epi8 xmm7 xmm0
           in crc_128_done koeff q u xmm7)"

definition crc_less_than_32 ::
  "(m128 \<Rightarrow> m128) \<Rightarrow> byte list \<Rightarrow> u64 \<Rightarrow> u64 \<Rightarrow> addr \<Rightarrow> u32 \<Rightarrow> int \<Rightarrow> mem \<Rightarrow> u32" where
  "crc_less_than_32 rfl koeff q u src_ptr ecx len m =
     (if len = 0 then ecx
      else let xmm0 = crc_seed ecx in
        if len = 16 then crc_128_done koeff q u (crc_load rfl src_ptr m XOR xmm0)
        else if len < 16 then crc_less_than_16_left rfl koeff q u src_ptr xmm0 len m
        else let xmm7 = crc_load rfl src_ptr m XOR xmm0;
                 xmm10 = mm_set_epi64x (k_const koeff 6) (k_const koeff 5)
             in crc_128_done koeff q u (get_last_two_xmms rfl xmm10 (src_ptr + 16) (len - 16) xmm7 m))"

definition crc_opt_k0 ::
  "(m128 \<Rightarrow> m128) \<Rightarrow> addr \<Rightarrow> u32 \<Rightarrow> int \<Rightarrow> u32 \<Rightarrow> byte list \<Rightarrow> mem \<Rightarrow> u32" where
  "crc_opt_k0 rfl src_ptr init_crc len0 crc_size koeff m =
     (let len = len0;
          q = push_bit (unat (32 - crc_size)) (koeff64 koeff 0);
          u = koeff64 koeff 2;
          ecx = push_bit (unat (32 - crc_size)) init_crc;
          eax = (if len < 256
                 then if len < 32 then crc_less_than_32 rfl koeff q u src_ptr ecx len m
                      else final_reduction_for_128 rfl koeff q u (crc_fold_32 rfl koeff src_ptr ecx len m) m
                 else final_reduction_for_128 rfl koeff q u (crc_fold_256 rfl koeff src_ptr ecx len m) m)
      in drop_bit (unat (32 - crc_size)) eax)"

definition own_CRC_8u_opt_k0 :: "addr \<Rightarrow> u32 \<Rightarrow> int \<Rightarrow> u32 \<Rightarrow> byte list \<Rightarrow> mem \<Rightarrow> u32" where
  "own_CRC_8u_opt_k0 = crc_opt_k0 (\<lambda>x. x)"

definition own_CRC_reflected_8u_opt_k0 :: "addr \<Rightarrow> u32 \<Rightarrow> int \<Rightarrow> u32 \<Rightarrow> byte list \<Rightarrow> mem \<Rightarrow> u32" where
  "own_CRC_reflected_8u_opt_k0 = crc_opt_k0 D_REFL"

section \<open>Constants\<close>

lemma k_const_entry: "good_table p koeff \<Longrightarrow> i < 17 \<Longrightarrow> k_const koeff (4 + i) = fold_constant p (crc_bits ! i)"
  by (simp add: k_const_def fold_constant_def good_table_def)

lemma k_const_pair:
  assumes "good_table p koeff" "0 < i" "i < 16"
  shows "mm_set_epi64x (k_const koeff (5 + i)) (k_const koeff (4 + i))
    = mm_set_epi64x (fold_constant p (32 + 64 * i + 64)) (fold_constant p (32 + 64 * i))"
proof -
  have "crc_bits ! j = 32 + 64 * j" if "0 < j" "j < 17" for j
  proof -
    have "list_all (\<lambda>j. crc_bits ! j = 32 + 64 * j) [1 ..< 17]" by code_simp
    with that show ?thesis by (simp add: list_all_iff)
  qed
  from this [of i] this [of "Suc i"] show ?thesis
    using assms k_const_entry [of p koeff i] k_const_entry [of p koeff "Suc i"] by (simp add: add.commute)
qed

lemma residue_fold_pair:
  assumes "good_table p koeff" "0 < i" "i < 16"
  shows "residue p (fold_si128 x (mm_set_epi64x (k_const koeff (5 + i)) (k_const koeff (4 + i))) d)
    = xpow p (64 + 64 * i) (residue p x) XOR residue p d"
  unfolding k_const_pair [OF assms] residue_fold by (simp add: add.commute)

section \<open>Sequences of registers\<close>

definition list_residue :: "u32 \<Rightarrow> m128 list \<Rightarrow> u32" where
  "list_residue p xs = fold (\<lambda>x c. xpow p 128 c XOR residue p x) xs 0"

lemma list_residue_snoc [simp]:
  "list_residue p [] = 0" "list_residue p (xs @ [x]) = xpow p 128 (list_residue p xs) XOR residue p x"
  by (simp_all add: list_residue_def)

lemma fold_8_to_1_residue:
  assumes "good_table p koeff" "length xs = 8"
  shows "residue p (fold_8_to_1 koeff xs) = list_residue p xs"
proof -
  obtain x0 x1 x2 x3 x4 x5 x6 x7 where xs: "xs = [x0, x1, x2, x3, x4, x5, x6, x7]"
    using assms(2) by (auto simp: length_Suc_conv numeral_eq_Suc)
  note pair = residue_fold_pair [OF assms(1)]
  show ?thesis
    unfolding xs fold_8_to_1_def Let_def list_residue_def
    using pair [of 13] pair [of 11] pair [of 9] pair [of 7] pair [of 5] pair [of 3] pair [of 1]
    by (simp add: xpow_xor ac_simps flip: xpow_add)
qed

lemma list_residue_map:
  assumes "\<And>i. i \<in> set is \<Longrightarrow> residue p (f i) = xpow p n (residue p (g i)) XOR residue p (h i)"
  shows "list_residue p (map f is) = xpow p n (list_residue p (map g is)) XOR list_residue p (map h is)"
  using assms
proof (induction "is" rule: rev_induct)
  case (snoc i "is")
  then have "list_residue p (map f is) = xpow p n (list_residue p (map g is)) XOR list_residue p (map h is)"
    "residue p (f i) = xpow p n (residue p (g i)) XOR residue p (h i)" by auto
  then show ?case by (simp add: xpow_xor xpow_commute [of n p 128] ac_simps)
qed simp

section \<open>Registers and messages\<close>

lemma word_of_zeros_append: "word_of (replicate n 0 @ bs) = push_bit (8 * n) (word_of bs)"
  by (induction n) (simp_all add: add.commute)

lemma take_bit_word_of: "take_bit (8 * n) (word_of bs :: 'a::len word) = word_of (take n bs)"
proof (rule bit_word_eqI)
  fix k
  have "k < 8 * n \<longleftrightarrow> k div 8 < n" by (simp add: div_less_iff_less_mult mult.commute)
  then show "bit (take_bit (8 * n) (word_of bs :: 'a word)) k = bit (word_of (take n bs) :: 'a word) k"
    by (auto simp: bit_take_bit_iff bit_word_of)
qed

lemma bit_crc_seed: "bit (crc_seed c) k \<longleftrightarrow> 96 \<le> k \<and> k < 128 \<and> bit c (k - 96)"
  using bit_imp_le_length [of c "k - 96"]
  unfolding crc_seed_def mm_slli_si128_def mm_cvtsi32_si128_def bit_push_bit_iff bit_unsigned_iff by auto

lemma residue_seed: "residue p (crc_seed c) = xpow p 96 c"
proof -
  have "drop_bit 32 (ucast c :: m128) = 0"
    by (rule bit_word_eqI) (auto simp: bit_simps dest: bit_imp_le_length)
  then show ?thesis
    using residue_push_bit [where 'a = 128, of 96 "ucast c" p] residue_ucast [where 'a = 32 and 'b = 128, of p c]
    by (simp add: crc_seed_def mm_slli_si128_def mm_cvtsi32_si128_def residue_u32)
qed

text \<open>The residue after \<open>n\<close> bytes: the initial value stands over the first four of them.\<close>
definition acc_residue :: "u32 \<Rightarrow> u32 \<Rightarrow> byte list \<Rightarrow> u32" where
  "acc_residue p c bs = message_residue p bs XOR xpow p (8 * length bs - 32) c"

lemma acc_residue_append:
  "4 \<le> length xs \<Longrightarrow> acc_residue p c (xs @ ys) = xpow p (8 * length ys) (acc_residue p c xs) XOR message_residue p ys"
proof -
  assume "4 \<le> length xs"
  then have "8 * length (xs @ ys) - 32 = 8 * length ys + (8 * length xs - 32)" by simp
  then show ?thesis
    unfolding acc_residue_def message_residue_append xpow_xor by (simp only: xpow_add) (simp add: ac_simps)
qed

lemma acc_residue_crc: "4 \<le> length bs \<Longrightarrow> xpow p 32 (acc_residue p c bs) = crc_bytes p bs c"
proof -
  assume "4 \<le> length bs"
  then have "8 * length bs = 32 + (8 * length bs - 32)" by simp
  then have "xpow p (8 * length bs) c = xpow p 32 (xpow p (8 * length bs - 32) c)" by (metis xpow_add)
  then show ?thesis
    unfolding acc_residue_def crc_bytes_residue xpow_xor by (simp add: ac_simps)
qed

text \<open>What is done to the bytes of a register after a load.\<close>
locale byte_order =
  fixes rfl :: "m128 \<Rightarrow> m128" and r :: "byte \<Rightarrow> byte"
  assumes rfl_word_of: "length bs = 16 \<Longrightarrow> rfl (word_of bs) = word_of (map r bs)"
    and r_zero: "r 0 = 0"
begin

lemma crc_load_eq: "crc_load rfl a m = word_of (rev (map r (load_bytes m a 16)))"
  by (simp add: crc_load_def mm_loadu_si128_def rfl_word_of shuffle_endia)

lemma residue_crc_load: "residue p (crc_load rfl a m) = message_residue p (map r (load_bytes m a 16))"
  unfolding crc_load_eq by (rule residue_word_of_rev) simp

lemma list_residue_load:
  "list_residue p (map (\<lambda>i. crc_load rfl (a + word_of_nat (16 * i)) m) [0 ..< n])
     = message_residue p (map r (load_bytes m a (16 * n)))"
proof (induction n)
  case (Suc n)
  have "load_bytes m a (16 * Suc n) = load_bytes m a (16 * n) @ load_bytes m (a + word_of_nat (16 * n)) 16"
    using load_bytes_add [of m a "16 * n" 16] by (simp add: add.commute)
  then show ?case
    using Suc by (simp add: message_residue_append residue_crc_load del: of_nat_mult)
qed simp

lemma fold_128_B_residue:
  assumes "good_table p koeff" "length xs = 8"
  shows "list_residue p (fold_128_B rfl (mm_set_epi64x (k_const koeff 20) (k_const koeff 19)) a xs m)
    = xpow p 1024 (list_residue p xs) XOR message_residue p (map r (load_bytes m a 128))"
proof -
  have "xs = map (\<lambda>i. xs ! i) [0 ..< 8]" using assms(2) map_nth [of xs] by simp
  moreover have "list_residue p (fold_128_B rfl (mm_set_epi64x (k_const koeff 20) (k_const koeff 19)) a xs m)
      = xpow p 1024 (list_residue p (map (\<lambda>i. xs ! i) [0 ..< 8]))
        XOR list_residue p (map (\<lambda>i. crc_load rfl (a + word_of_nat (16 * i)) m) [0 ..< 8])"
    unfolding fold_128_B_def
    by (rule list_residue_map) (use residue_fold_pair [OF assms(1), of 15] in simp)
  ultimately show ?thesis using list_residue_load [of p a m 8] by (simp del: of_nat_mult upt_rec_numeral)
qed

lemma length_fold_128_B [simp]: "length (fold_128_B rfl k a xs m) = 8"
  by (simp add: fold_128_B_def)

lemma fold_128_B_loop_result:
  assumes "good_table p koeff" "length xs = 8" "0 \<le> len"
  shows "\<exists>n xs'. fold_128_B_loop rfl (mm_set_epi64x (k_const koeff 20) (k_const koeff 19)) a len xs m
      = (a + word_of_nat n, len - int n, xs') \<and> - 128 \<le> len - int n \<and> len - int n < 0 \<and> length xs' = 8
      \<and> list_residue p xs' = xpow p (8 * n) (list_residue p xs) XOR message_residue p (map r (load_bytes m (a + 128) n))"
  using assms(2,3)
proof (induction "nat len" arbitrary: a len xs rule: less_induct)
  case less
  let ?k = "mm_set_epi64x (k_const koeff 20) (k_const koeff 19)"
  let ?xs = "fold_128_B rfl ?k (a + 128) xs m"
  note fold = fold_128_B_residue [OF assms(1) less.prems(1), of "a + 128" m]
  show ?case
  proof (cases "0 \<le> len - 128")
    case False
    then show ?thesis
      using less.prems fold by (intro exI [of _ 128] exI [of _ ?xs]) (simp add: fold_128_B_loop.simps [of rfl ?k a])
  next
    case True
    then have "nat (len - 128) < nat len" by simp
    from less.hyps [OF this, of ?xs "a + 128"] True obtain n xs' where n:
      "fold_128_B_loop rfl ?k (a + 128) (len - 128) ?xs m = (a + 128 + word_of_nat n, len - 128 - int n, xs')"
      "- 128 \<le> len - 128 - int n" "len - 128 - int n < 0" "length xs' = 8"
      "list_residue p xs' = xpow p (8 * n) (list_residue p ?xs) XOR message_residue p (map r (load_bytes m (a + 128 + 128) n))"
      by (auto simp: algebra_simps)
    have "load_bytes m (a + 128) (128 + n) = load_bytes m (a + 128) 128 @ load_bytes m (a + 128 + 128) n"
      using load_bytes_add [of m "a + 128" 128 n] by simp
    moreover have "xpow p (8 * (128 + n)) c = xpow p (8 * n) (xpow p 1024 c)" for c
      by (simp flip: xpow_add add: add.commute)
    ultimately have "list_residue p xs' = xpow p (8 * (128 + n)) (list_residue p xs)
        XOR message_residue p (map r (load_bytes m (a + 128) (128 + n)))"
      unfolding n(5) fold by (simp only: message_residue_append xpow_xor map_append length_map length_load_bytes) (simp add: ac_simps)
    with n(1-4) True show ?thesis
      by (intro exI [of _ "128 + n"] exI [of _ xs']) (simp add: fold_128_B_loop.simps [of rfl ?k a] algebra_simps)
  qed
qed

lemma reduction_loop_16B_result:
  assumes "good_table p koeff" "0 \<le> len"
  shows "\<exists>n x'. reduction_loop_16B rfl (mm_set_epi64x (k_const koeff 6) (k_const koeff 5)) a len x m
      = (a + word_of_nat n, len - int n, x') \<and> - 16 \<le> len - int n \<and> len - int n < 0
      \<and> residue p x' = xpow p (8 * n) (residue p x) XOR message_residue p (map r (load_bytes m a n))"
  using assms(2)
proof (induction "nat len" arbitrary: a len x rule: less_induct)
  case less
  let ?k = "mm_set_epi64x (k_const koeff 6) (k_const koeff 5)"
  let ?x = "fold_si128 x ?k (crc_load rfl a m)"
  have fold: "residue p ?x = xpow p 128 (residue p x) XOR message_residue p (map r (load_bytes m a 16))"
    using residue_fold_pair [OF assms(1), of 1 x] by (simp add: residue_crc_load)
  show ?case
  proof (cases "0 \<le> len - 16")
    case False
    then show ?thesis
      using less.prems fold by (intro exI [of _ 16] exI [of _ ?x]) (simp add: reduction_loop_16B.simps [of rfl ?k a])
  next
    case True
    then have "nat (len - 16) < nat len" by simp
    from less.hyps [OF this, of "a + 16" ?x] True obtain n x' where n:
      "reduction_loop_16B rfl ?k (a + 16) (len - 16) ?x m = (a + 16 + word_of_nat n, len - 16 - int n, x')"
      "- 16 \<le> len - 16 - int n" "len - 16 - int n < 0"
      "residue p x' = xpow p (8 * n) (residue p ?x) XOR message_residue p (map r (load_bytes m (a + 16) n))"
      by (auto simp: algebra_simps)
    have "load_bytes m a (16 + n) = load_bytes m a 16 @ load_bytes m (a + 16) n"
      using load_bytes_add [of m a 16 n] by simp
    moreover have "xpow p (8 * (16 + n)) c = xpow p (8 * n) (xpow p 128 c)" for c
      by (simp flip: xpow_add add: add.commute)
    ultimately have "residue p x' = xpow p (8 * (16 + n)) (residue p x)
        XOR message_residue p (map r (load_bytes m a (16 + n)))"
      unfolding n(4) fold by (simp only: message_residue_append xpow_xor map_append length_map length_load_bytes) (simp add: ac_simps)
    with n(1-3) True show ?thesis
      by (intro exI [of _ "16 + n"] exI [of _ x']) (simp add: reduction_loop_16B.simps [of rfl ?k a] algebra_simps)
  qed
qed

lemma get_last_two_xmms_residue:
  assumes g: "good_table p koeff" and L: "0 < L" "L < 16"
  shows "residue p (get_last_two_xmms rfl (mm_set_epi64x (k_const koeff 6) (k_const koeff 5)) a (int L) x m)
    = xpow p (8 * L) (residue p x) XOR message_residue p (map r (load_bytes m a L))"
proof -
  let ?bs = "load_bytes m (a - 16 + word_of_int (int L)) 16"
  have nat: "nat (16 - int L) = 16 - L" using L by simp
  have "16 = (16 - L) + L" using L by simp
  then have "?bs = load_bytes m (a - 16 + word_of_int (int L)) (16 - L) @ load_bytes m a L"
    using load_bytes_add [of m "a - 16 + word_of_int (int L)" "16 - L" L] L by (simp add: of_nat_diff)
  then have "drop (16 - L) ?bs = load_bytes m a L" by simp
  then have "take_bit (8 * L) (crc_load rfl (a - 16 + word_of_int (int L)) m) = word_of (rev (map r (load_bytes m a L)))"
    unfolding crc_load_eq take_bit_word_of using L by (simp add: take_rev drop_map)
  then have tail: "residue p (take_bit (8 * L) (crc_load rfl (a - 16 + word_of_int (int L)) m))
      = message_residue p (map r (load_bytes m a L))"
    using residue_word_of_rev [where 'a = 128, of "map r (load_bytes m a L)" p] L by simp
  have shift: "xpow p 128 (residue p (drop_bit (8 * (16 - L)) x)) XOR residue p (push_bit (8 * L) x) = xpow p (8 * L) (residue p x)"
    using residue_shift [where 'a = 128, of "8 * L" p x] L by (simp add: diff_mult_distrib2)
  have fold: "residue p (fold_si128 y (mm_set_epi64x (k_const koeff 6) (k_const koeff 5)) d) = xpow p 128 (residue p y) XOR residue p d" for y d
    using residue_fold_pair [OF g, of 1 y d] by simp
  show ?thesis
    unfolding get_last_two_xmms_def Let_def nat shuffle_left [OF L] shuffle_right [OF L] blend_tail [OF L] fold residue_xor tail
    by (simp only: shift [symmetric] xor.assoc)
qed

text \<open>
  The state in which the routine turns to the last bytes: \<open>len\<close> is 16 less than the number of
  bytes left, and the register holds the residue of those before.
\<close>
definition tail_state :: "u32 \<Rightarrow> u32 \<Rightarrow> addr \<Rightarrow> nat \<Rightarrow> mem \<Rightarrow> addr \<times> int \<times> m128 \<Rightarrow> bool" where
  "tail_state p c a n m = (\<lambda>(src, len, x). \<exists>k\<ge>4. src = a + word_of_nat k \<and> - 16 \<le> len \<and> len < 0
     \<and> int n = int k + len + 16 \<and> residue p x = acc_residue p c (map r (load_bytes m a k)))"

lemma crc_128_done_eq:
  assumes g: "good_table p koeff"
  shows "crc_128_done koeff (full_poly p) (poly_quotient p 64) x = xpow p 32 (residue p x)"
proof -
  have "k_const koeff 4 = fold_constant p 64" "k_const koeff 5 = fold_constant p 96"
    using k_const_entry [OF g, of 0] k_const_entry [OF g, of 1] by (simp_all add: crc_bits_def)
  then show ?thesis by (simp add: crc_128_done_def barrett_reduce_128)
qed

lemma tail_done:
  assumes g: "good_table p koeff" and st: "tail_state p c a n m st"
  shows "final_reduction_for_128 rfl koeff (full_poly p) (poly_quotient p 64) st m
    = crc_bytes p (map r (load_bytes m a n)) c"
proof -
  obtain src len x k where s: "st = (src, len, x)" "4 \<le> k" "src = a + word_of_nat k" "- 16 \<le> len" "len < 0"
    "int n = int k + len + 16" and res: "residue p x = acc_residue p c (map r (load_bytes m a k))"
    using st by (auto simp: tail_state_def)
  define L where "L = nat (len + 16)"
  have L: "len + 16 = int L" "L < 16" "n = k + L" using s by (simp_all add: L_def)
  have "load_bytes m a n = load_bytes m a k @ load_bytes m src L" by (simp add: L(3) load_bytes_add s(3))
  then have "crc_bytes p (map r (load_bytes m a n)) c
      = xpow p 32 (xpow p (8 * L) (residue p x) XOR message_residue p (map r (load_bytes m src L)))"
    using acc_residue_crc [of "map r (load_bytes m a n)" p c] s(2) L(3)
    by (simp add: acc_residue_append res)
  moreover have "final_reduction_for_128 rfl koeff (full_poly p) (poly_quotient p 64) st m
      = xpow p 32 (xpow p (8 * L) (residue p x) XOR message_residue p (map r (load_bytes m src L)))"
  proof (cases "L = 0")
    case True
    then show ?thesis using L(1) by (simp add: s(1) final_reduction_for_128_def crc_128_done_eq [OF g])
  next
    case False
    then show ?thesis
      using L get_last_two_xmms_residue [OF g, of L src x m]
      by (simp add: s(1) final_reduction_for_128_def crc_128_done_eq [OF g])
  qed
  ultimately show ?thesis by simp
qed

lemma loop_tail:
  assumes g: "good_table p koeff" and "4 \<le> k" "0 \<le> len" "int n = int k + len + 16"
    "residue p x = acc_residue p c (map r (load_bytes m a k))"
  shows "tail_state p c a n m
    (reduction_loop_16B rfl (mm_set_epi64x (k_const koeff 6) (k_const koeff 5)) (a + word_of_nat k) len x m)"
proof -
  from reduction_loop_16B_result [OF g assms(3), of "a + word_of_nat k" x m]
  obtain j x' where j: "reduction_loop_16B rfl (mm_set_epi64x (k_const koeff 6) (k_const koeff 5)) (a + word_of_nat k) len x m
      = (a + word_of_nat k + word_of_nat j, len - int j, x')" "- 16 \<le> len - int j" "len - int j < 0"
    "residue p x' = xpow p (8 * j) (residue p x) XOR message_residue p (map r (load_bytes m (a + word_of_nat k) j))"
    by blast
  have "residue p x' = acc_residue p c (map r (load_bytes m a (k + j)))"
    using assms(2,5) by (simp add: j(4) load_bytes_add acc_residue_append)
  with j(1-3) assms(2,4) show ?thesis
    unfolding tail_state_def by (auto intro!: exI [of _ "k + j"])
qed

lemma first_register:
  "residue p (crc_load rfl a m XOR crc_seed c) = acc_residue p c (map r (load_bytes m a 16))"
  by (simp add: residue_xor residue_crc_load residue_seed acc_residue_def)

lemma fold_32_tail:
  assumes g: "good_table p koeff" and n: "32 \<le> n"
  shows "tail_state p c a n m (crc_fold_32 rfl koeff a c (int n) m)"
  unfolding crc_fold_32_def Let_def
  using loop_tail [OF g, of 16 "int n - 32" n "crc_load rfl a m XOR crc_seed c" c m a] n first_register [of p a m c] by simp

lemma first_registers:
  "list_residue p ((map (\<lambda>i. crc_load rfl (a + word_of_nat (16 * i)) m) [0 ..< 8])
      [0 := map (\<lambda>i. crc_load rfl (a + word_of_nat (16 * i)) m) [0 ..< 8] ! 0 XOR crc_seed c])
    = acc_residue p c (map r (load_bytes m a 128))"
proof -
  have upd: "list_residue p (xs[0 := xs ! 0 XOR y]) = list_residue p xs XOR xpow p 896 (residue p y)"
    if len: "length xs = 8" for xs y
  proof -
    obtain x0 x1 x2 x3 x4 x5 x6 x7 where xs: "xs = [x0, x1, x2, x3, x4, x5, x6, x7]"
      using len by (auto simp: length_Suc_conv numeral_eq_Suc)
    show ?thesis unfolding xs list_residue_def by (simp add: residue_xor xpow_xor ac_simps flip: xpow_add)
  qed
  have "xpow p 896 (xpow p 96 c) = xpow p 992 c" by (simp flip: xpow_add)
  then show ?thesis
    using upd [of "map (\<lambda>i. crc_load rfl (a + word_of_nat (16 * i)) m) [0 ..< 8]" "crc_seed c"]
      list_residue_load [of p a m 8]
    by (simp add: residue_seed acc_residue_def del: upt_rec_numeral of_nat_mult)
qed

text \<open>The state after the passes of 128 bytes, \<open>j\<close> bytes beyond the first 128.\<close>
lemma fold_256_registers:
  assumes g: "good_table p koeff" and n: "256 \<le> n"
  obtains j xs' where
    "fold_128_B_loop rfl (mm_set_epi64x (k_const koeff 20) (k_const koeff 19)) a (int n - 256)
       ((map (\<lambda>i. crc_load rfl (a + word_of_nat (16 * i)) m) [0 ..< 8])
          [0 := map (\<lambda>i. crc_load rfl (a + word_of_nat (16 * i)) m) [0 ..< 8] ! 0 XOR crc_seed c]) m
       = (a + word_of_nat j, int n - 256 - int j, xs')"
    "- 128 \<le> int n - 256 - int j" "int n - 256 - int j < 0"
    "residue p (fold_8_to_1 koeff xs') = acc_residue p c (map r (load_bytes m a (128 + j)))"
proof -
  define ys where "ys = (map (\<lambda>i. crc_load rfl (a + word_of_nat (16 * i)) m) [0 ..< 8])
          [0 := map (\<lambda>i. crc_load rfl (a + word_of_nat (16 * i)) m) [0 ..< 8] ! 0 XOR crc_seed c]"
  have ys: "length ys = 8" "list_residue p ys = acc_residue p c (map r (load_bytes m a 128))"
    unfolding ys_def by (simp, rule first_registers)
  have "0 \<le> int n - 256" using n by simp
  from fold_128_B_loop_result [OF g ys(1) this, of a m]
  obtain j xs' where j:
    "fold_128_B_loop rfl (mm_set_epi64x (k_const koeff 20) (k_const koeff 19)) a (int n - 256) ys m
       = (a + word_of_nat j, int n - 256 - int j, xs')"
    "- 128 \<le> int n - 256 - int j" "int n - 256 - int j < 0" "length xs' = 8"
    "list_residue p xs' = xpow p (8 * j) (list_residue p ys) XOR message_residue p (map r (load_bytes m (a + 128) j))"
    by blast
  have "load_bytes m a (128 + j) = load_bytes m a 128 @ load_bytes m (a + 128) j"
    using load_bytes_add [of m a 128 j] by simp
  then have "residue p (fold_8_to_1 koeff xs') = acc_residue p c (map r (load_bytes m a (128 + j)))"
    using acc_residue_append [of "map r (load_bytes m a 128)" p c "map r (load_bytes m (a + 128) j)"]
    by (simp add: fold_8_to_1_residue [OF g j(4)] j(5) ys(2))
  with j(1-3) show thesis unfolding ys_def by (rule that)
qed

lemma fold_256_tail:
  assumes g: "good_table p koeff" and n: "256 \<le> n"
  shows "tail_state p c a n m (crc_fold_256 rfl koeff a c (int n) m)"
proof -
  obtain j xs' where j:
    "fold_128_B_loop rfl (mm_set_epi64x (k_const koeff 20) (k_const koeff 19)) a (int n - 256)
       ((map (\<lambda>i. crc_load rfl (a + word_of_nat (16 * i)) m) [0 ..< 8])
          [0 := map (\<lambda>i. crc_load rfl (a + word_of_nat (16 * i)) m) [0 ..< 8] ! 0 XOR crc_seed c]) m
       = (a + word_of_nat j, int n - 256 - int j, xs')"
    "- 128 \<le> int n - 256 - int j" "int n - 256 - int j < 0"
    and res: "residue p (fold_8_to_1 koeff xs') = acc_residue p c (map r (load_bytes m a (128 + j)))"
    by (rule fold_256_registers [OF g n])
  define len where "len = int n - 256 - int j + (128 - 16)"
  have src: "a + word_of_nat j + 128 = a + word_of_nat (128 + j)" by simp
  have fold: "crc_fold_256 rfl koeff a c (int n) m = (if len < 0 then (a + word_of_nat (128 + j), len, fold_8_to_1 koeff xs')
      else reduction_loop_16B rfl (mm_set_epi64x (k_const koeff 6) (k_const koeff 5)) (a + word_of_nat (128 + j)) len (fold_8_to_1 koeff xs') m)"
    unfolding crc_fold_256_def Let_def j(1) prod.case src len_def ..
  show ?thesis
  proof (cases "len < 0")
    case True
    have "4 \<le> 128 + j" "- 16 \<le> len" "int n = int (128 + j) + len + 16" using j(2) by (simp_all add: len_def)
    with True res show ?thesis
      unfolding fold tail_state_def by (auto simp del: of_nat_add intro!: exI [of _ "128 + j"])
  next
    case False
    have "4 \<le> 128 + j" "int n = int (128 + j) + len + 16" by (simp_all add: len_def)
    with False loop_tail [OF g, of "128 + j" len n "fold_8_to_1 koeff xs'" c m a] res show ?thesis
      unfolding fold by (simp del: of_nat_add)
  qed
qed

text \<open>The local buffer after the copies: the message and zeros.\<close>
lemma copy_chunk_step:
  assumes "k + d = L" "L \<le> 16" "d < 2 * n"
  shows "\<exists>k' d'. copy_chunk m n (k, int d, a + word_of_nat k, load_bytes m a k @ replicate (16 - k) 0)
      = (k', int d', a + word_of_nat k', load_bytes m a k' @ replicate (16 - k') 0) \<and> k' + d' = L \<and> d' < n"
proof (cases "d < n")
  case True
  then show ?thesis using assms by (intro exI [of _ k] exI [of _ d]) (simp add: copy_chunk_def)
next
  case False
  have "put_bytes k (load_bytes m (a + word_of_nat k) n) (load_bytes m a k @ replicate (16 - k) 0)
      = load_bytes m a (k + n) @ replicate (16 - (k + n)) 0"
    by (simp add: put_bytes_def load_bytes_add)
  then show ?thesis
    using False assms
    by (intro exI [of _ "k + n"] exI [of _ "d - n"]) (auto simp: copy_chunk_def of_nat_diff)
qed

lemma crc_stack_eq:
  assumes "L < 16" shows "crc_stack a (int L) m = load_bytes m a L @ replicate (16 - L) 0"
proof -
  let ?st = "\<lambda>k d. (k, int d, a + word_of_nat k, load_bytes m a k @ replicate (16 - k) 0)"
  have "(0, int L, a, replicate 16 0) = ?st 0 L" by simp
  moreover obtain k1 d1 where 1: "copy_chunk m 8 (?st 0 L) = ?st k1 d1" "k1 + d1 = L" "d1 < 8"
    using copy_chunk_step [of 0 L L 8 m a] assms by auto
  moreover obtain k2 d2 where 2: "copy_chunk m 4 (?st k1 d1) = ?st k2 d2" "k2 + d2 = L" "d2 < 4"
    using copy_chunk_step [of k1 d1 L 4 m a] assms 1 by auto
  moreover obtain k3 d3 where 3: "copy_chunk m 2 (?st k2 d2) = ?st k3 d3" "k3 + d3 = L" "d3 < 2"
    using copy_chunk_step [of k2 d2 L 2 m a] assms 2 by auto
  moreover obtain k4 d4 where 4: "copy_chunk m 1 (?st k3 d3) = ?st k4 d4" "k4 + d4 = L" "d4 < 1"
    using copy_chunk_step [of k3 d3 L 1 m a] assms 3 by auto
  ultimately show ?thesis unfolding crc_stack_def Let_def by simp
qed

text \<open>The bytes of a short message, read from the buffer, at the top of the register.\<close>
lemma crc_load_stack_eq:
  assumes "n \<le> 16"
  shows "crc_load_stack rfl (load_bytes m a n @ replicate (16 - n) 0)
    = push_bit (8 * (16 - n)) (word_of (rev (map r (load_bytes m a n))))"
proof -
  have "crc_load_stack rfl (load_bytes m a n @ replicate (16 - n) 0)
      = word_of (replicate (16 - n) 0 @ rev (map r (load_bytes m a n)))"
    using assms by (simp add: crc_load_stack_def rfl_word_of shuffle_endia r_zero)
  then show ?thesis by (simp add: word_of_zeros_append)
qed

lemma less_than_16_result:
  assumes g: "good_table p koeff" and L: "4 \<le> L" "L < 16"
  shows "crc_less_than_16_left rfl koeff (full_poly p) (poly_quotient p 64) a (crc_seed c) (int L) m
    = crc_bytes p (map r (load_bytes m a L)) c"
proof -
  let ?w = "word_of (rev (map r (load_bytes m a L))) :: m128"
  have nat: "nat (16 - int L) = 16 - L" using L by simp
  have w: "bit ?w k \<Longrightarrow> k < 8 * L" for k by (auto simp: bit_word_of)
  have "drop_bit (8 * (16 - L)) (push_bit (8 * (16 - L)) ?w) = ?w"
    by (rule bit_word_eqI) (use L w in \<open>fastforce simp: bit_simps\<close>)
  moreover have "drop_bit (8 * (16 - L)) (crc_seed c) = push_bit (8 * L - 32) (ucast c)"
  proof (rule bit_word_eqI)
    fix k
    have "8 * (16 - L) + k - 96 = k - (8 * L - 32)" "96 \<le> 8 * (16 - L) + k \<longleftrightarrow> 8 * L - 32 \<le> k"
      using L by auto
    then show "bit (drop_bit (8 * (16 - L)) (crc_seed c)) k = bit (push_bit (8 * L - 32) (ucast c :: m128)) k"
      using L bit_imp_le_length [of c "k - (8 * L - 32)"]
      unfolding bit_drop_bit_eq o_apply bit_crc_seed bit_push_bit_iff bit_unsigned_iff by auto
  qed
  moreover have "residue p (push_bit (8 * L - 32) (ucast c :: m128)) = xpow p (8 * L - 32) c"
  proof -
    have "drop_bit (128 - (8 * L - 32)) (ucast c :: m128) = 0"
      by (rule bit_word_eqI) (use L in \<open>auto simp: bit_simps dest: bit_imp_le_length\<close>)
    then show ?thesis
      using residue_push_bit [where 'a = 128, of "8 * L - 32" "ucast c" p] L
        residue_ucast [where 'a = 32 and 'b = 128, of p c] by (simp add: residue_u32)
  qed
  moreover have "residue p ?w = message_residue p (map r (load_bytes m a L))"
    by (rule residue_word_of_rev) (use L in simp)
  ultimately have "residue p (drop_bit (8 * (16 - L)) (push_bit (8 * (16 - L)) ?w XOR crc_seed c))
      = acc_residue p c (map r (load_bytes m a L))"
    by (simp add: drop_bit_xor residue_xor acc_residue_def)
  then show ?thesis
    using L shuffle_right [of L] crc_stack_eq [of L a m] crc_load_stack_eq [of L m a]
      acc_residue_crc [of "map r (load_bytes m a L)" p c]
    by (simp add: crc_less_than_16_left_def nat crc_128_done_eq [OF g])
qed

text \<open>Fewer than four bytes: the register holds the message times \<open>x ^ 32\<close> and the initial value.\<close>
lemma short_register:
  assumes n: "n \<in> {1, 2, 3}" and w: "\<And>k. bit (w :: u64) k \<Longrightarrow> k < 8 * n"
  shows "mm_srli_si128 (push_bit (8 * (16 - n)) (ucast w) XOR crc_seed c) (8 - n)
    = push_bit 32 (ucast (push_bit 32 w XOR push_bit (8 * n) (ucast c) :: u64))"
proof (rule bit_word_eqI)
  fix k assume "k < LENGTH(128)"
  then have k: "k < 128" by simp
  have c: "bit c i \<Longrightarrow> i < 32" for i using bit_imp_le_length [of c i] by simp
  have idx: "8 * (8 - n) + k - 8 * (16 - n) = k - 64" "8 * (8 - n) + k - 96 = k - 32 - 8 * n"
    "8 * (16 - n) \<le> 8 * (8 - n) + k \<longleftrightarrow> 64 \<le> k" "96 \<le> 8 * (8 - n) + k \<longleftrightarrow> 32 + 8 * n \<le> k"
    "8 * n \<le> k - 32 \<longleftrightarrow> 32 + 8 * n \<le> k" "32 \<le> k - 32 \<longleftrightarrow> 64 \<le> k" "k - 32 - 32 = k - 64"
    using n by auto
  have "k < 96 \<and> 8 * (8 - n) + k < 128" if "bit w (k - 64) \<or> bit c (k - 32 - 8 * n)"
    using that w [of "k - 64"] c [of "k - 32 - 8 * n"] n by auto
  then show "bit (mm_srli_si128 (push_bit (8 * (16 - n)) (ucast w) XOR crc_seed c) (8 - n)) k
    = bit (push_bit 32 (ucast (push_bit 32 w XOR push_bit (8 * n) (ucast c) :: u64)) :: m128) k"
    using k unfolding mm_srli_si128_def bit_drop_bit_eq o_apply bit_xor_iff bit_push_bit_iff bit_unsigned_iff bit_crc_seed idx
    by auto
qed

lemma only_less_than_4_result:
  assumes n: "n \<in> {1, 2, 3}"
  shows "crc_only_less_than_4 rfl (full_poly p) (poly_quotient p 64) a (crc_seed c) (int n) m
    = crc_bytes p (map r (load_bytes m a n)) c"
proof -
  define d where "d = map r (load_bytes m a n)"
  have len: "length d = n" by (simp add: d_def)
  let ?w = "word_of (rev d) :: u64"
  have w: "bit ?w k \<Longrightarrow> k < 8 * n" for k by (auto simp: bit_word_of len)
  have wide: "(word_of (rev d) :: m128) = ucast ?w"
    by (rule bit_word_eqI) (use n len in \<open>auto simp: bit_word_of bit_simps\<close>)
  have "put_bytes 0 (load_bytes m a n) (replicate 16 0) = load_bytes m a n @ replicate (16 - n) 0"
    by (simp add: put_bytes_def)
  moreover have "(if int n < 3 then if int n < 2 then 1 else 2 else 3) = n" using n by auto
  ultimately have "crc_only_less_than_4 rfl (full_poly p) (poly_quotient p 64) a (crc_seed c) (int n) m
      = barrett (full_poly p) (poly_quotient p 64) (mm_srli_si128 (push_bit (8 * (16 - n)) (ucast ?w) XOR crc_seed c) (8 - n))"
    using crc_load_stack_eq [of n m a] n wide unfolding crc_only_less_than_4_def Let_def d_def by auto
  also have "\<dots> = residue p (push_bit 32 ?w) XOR residue p (push_bit (8 * n) (ucast c) :: u64)"
    using short_register [OF n, of ?w c] w by (simp only: barrett_residue residue_xor)
  also have "residue p (push_bit 32 ?w) = xpow p 32 (message_residue p d)"
  proof -
    have "drop_bit 32 ?w = 0"
    proof (rule bit_word_eqI)
      fix k show "bit (drop_bit 32 ?w) k = bit (0 :: u64) k" using w [of "32 + k"] n by (auto simp: bit_drop_bit_eq)
    qed
    then show ?thesis
      using residue_push_bit [where 'a = 64, of 32 ?w p] residue_word_of_rev [where 'a = 64, of d p] n len by auto
  qed
  also have "residue p (push_bit (8 * n) (ucast c) :: u64) = xpow p (8 * n) c"
  proof -
    have "drop_bit (64 - 8 * n) (ucast c :: u64) = 0"
      by (rule bit_word_eqI) (use n bit_const [of c] in \<open>fastforce simp: bit_drop_bit_eq\<close>)
    then show ?thesis
      using residue_push_bit [where 'a = 64, of "8 * n" "ucast c" p] n
        residue_ucast [where 'a = 32 and 'b = 64, of p c] by (auto simp: residue_u32)
  qed
  finally show ?thesis by (simp add: crc_bytes_residue d_def xor.commute)
qed

lemma less_than_32_result:
  assumes g: "good_table p koeff" and n: "n < 32"
  shows "crc_less_than_32 rfl koeff (full_poly p) (poly_quotient p 64) a c (int n) m
    = crc_bytes p (map r (load_bytes m a n)) c"
proof -
  consider "n = 0" | "n \<in> {1, 2, 3}" | "4 \<le> n \<and> n < 16" | "n = 16" | "16 < n" by fastforce
  then show ?thesis
  proof cases
    case 1
    then show ?thesis by (simp add: crc_less_than_32_def crc_bytes_def)
  next
    case 2
    then have "int n < 4" by auto
    with 2 only_less_than_4_result [OF 2] show ?thesis
      by (auto simp: crc_less_than_32_def crc_less_than_16_left_def)
  next
    case 3
    with less_than_16_result [OF g] show ?thesis by (auto simp: crc_less_than_32_def Let_def)
  next
    case 4
    then show ?thesis
      using acc_residue_crc [of "map r (load_bytes m a 16)" p c]
      by (simp add: crc_less_than_32_def crc_128_done_eq [OF g] first_register)
  next
    case 5
    define L where "L = n - 16"
    have L: "0 < L" "L < 16" "int n - 16 = int L" "n = 16 + L" using 5 n by (auto simp: L_def)
    have "load_bytes m a n = load_bytes m a 16 @ load_bytes m (a + 16) L"
      using load_bytes_add [of m a 16 L] L by simp
    then have "crc_bytes p (map r (load_bytes m a n)) c = xpow p 32 (xpow p (8 * L) (acc_residue p c (map r (load_bytes m a 16)))
        XOR message_residue p (map r (load_bytes m (a + 16) L)))"
      using acc_residue_crc [of "map r (load_bytes m a n)" p c] 5 by (simp add: acc_residue_append)
    then show ?thesis
      using 5 L get_last_two_xmms_residue [OF g L(1,2), of "a + 16" "crc_load rfl a m XOR crc_seed c" m]
      by (simp add: crc_less_than_32_def crc_128_done_eq [OF g] first_register Let_def)
  qed
qed

text \<open>A negative length is taken for one byte.\<close>
lemma crc_opt_k0_negative:
  assumes g: "good_table p koeff" and len: "len < 0"
  shows "crc_opt_k0 rfl a c len 32 koeff m = crc_bytes p [r (m a)] c"
proof -
  have "koeff64 koeff 0 = full_poly p" "koeff64 koeff 2 = poly_quotient p 64" using g by (simp_all add: good_table_def)
  moreover have "crc_only_less_than_4 rfl q u a x len m = crc_only_less_than_4 rfl q u a x (int 1) m" for q u x
    using len by (simp add: crc_only_less_than_4_def)
  moreover have "load_bytes m a 1 = [m a]" by (simp add: load_bytes_def)
  ultimately show ?thesis
    using len only_less_than_4_result [of 1 p a c m]
    by (simp add: crc_opt_k0_def crc_less_than_32_def crc_less_than_16_left_def)
qed

text \<open>The routine computes the CRC, whatever the size.\<close>
lemma crc_opt_k0_result:
  assumes g: "good_table p koeff"
  shows "crc_opt_k0 rfl a c (int n) 32 koeff m = crc_bytes p (map r (load_bytes m a n)) c"
proof -
  have k: "koeff64 koeff 0 = full_poly p" "koeff64 koeff 2 = poly_quotient p 64" using g by (simp_all add: good_table_def)
  have "32 \<le> n \<Longrightarrow> final_reduction_for_128 rfl koeff (full_poly p) (poly_quotient p 64) (crc_fold_32 rfl koeff a c (int n) m) m
      = crc_bytes p (map r (load_bytes m a n)) c"
    "256 \<le> n \<Longrightarrow> final_reduction_for_128 rfl koeff (full_poly p) (poly_quotient p 64) (crc_fold_256 rfl koeff a c (int n) m) m
      = crc_bytes p (map r (load_bytes m a n)) c"
    by (rule tail_done [OF g fold_32_tail [OF g]], assumption, rule tail_done [OF g fold_256_tail [OF g]], assumption)
  then have "(if int n < 256 then if int n < 32 then crc_less_than_32 rfl koeff (full_poly p) (poly_quotient p 64) a c (int n) m
        else final_reduction_for_128 rfl koeff (full_poly p) (poly_quotient p 64) (crc_fold_32 rfl koeff a c (int n) m) m
      else final_reduction_for_128 rfl koeff (full_poly p) (poly_quotient p 64) (crc_fold_256 rfl koeff a c (int n) m) m)
    = crc_bytes p (map r (load_bytes m a n)) c"
    using less_than_32_result [OF g, of n a c m] by (auto simp: not_less)
  with k show ?thesis by (simp add: crc_opt_k0_def)
qed

end

section \<open>Both routines\<close>

interpretation plain: byte_order "\<lambda>x. x" "\<lambda>b. b"
  by unfold_locales simp_all

interpretation mirrored: byte_order D_REFL reverse_u8
  by unfold_locales (simp_all add: refl_word_of reverse_u8_def)

lemma own_CRC_8u_opt_k0_eq:
  "good_table p koeff \<Longrightarrow> own_CRC_8u_opt_k0 a c (int n) 32 koeff m = crc_bytes p (load_bytes m a n) c"
  unfolding own_CRC_8u_opt_k0_def using plain.crc_opt_k0_result by simp

lemma own_CRC_reflected_8u_opt_k0_eq:
  "good_table p koeff \<Longrightarrow>
   own_CRC_reflected_8u_opt_k0 a c (int n) 32 koeff m = crc_bytes p (map reverse_u8 (load_bytes m a n)) c"
  unfolding own_CRC_reflected_8u_opt_k0_def by (rule mirrored.crc_opt_k0_result)

end
