(* ===== verification/DML_Crc_Long.thy ===== *)
theory DML_Crc_Long
  imports DML_Crc_Opt
begin

text \<open>
  The CRC routines for long buffers, \<open>own_crc32_long_le_k0\<close> and \<open>own_crc32_long_be_k0\<close> of
  \<open>core/src/sw_dispatcher/avx512/crc.c\<close>, with their constants for the default polynomial, and the
  entry points that choose a routine by the size and the polynomial. The little-endian routine
  works on byte-reversed registers; the other one works on registers as they are loaded, in which
  the coefficients stand in the opposite order, and turns to the first order only at the end.
\<close>

unbundle bit_operations_syntax

section \<open>Pieces shared by the two routines\<close>

text \<open>The cases of the switch are 1 to 15.\<close>
definition own_shift_two_lanes :: "nat \<Rightarrow> m128 \<times> m128 \<Rightarrow> m128 \<times> m128" where
  "own_shift_two_lanes offset = (\<lambda>(xmm0, xmm1).
     if offset \<in> {1 .. 15}
     then (mm_alignr_epi8 xmm1 xmm0 (16 - offset), mm_srli_si128 xmm1 (16 - offset))
     else (mm_alignr_epi8 xmm1 xmm0 16, mm_srli_si128 xmm1 16))"

definition own_shift_two_lanes_be :: "nat \<Rightarrow> m128 \<times> m128 \<Rightarrow> m128 \<times> m128" where
  "own_shift_two_lanes_be offset = (\<lambda>(xmm0, xmm1).
     if offset \<in> {1 .. 15}
     then (mm_alignr_epi8 xmm0 xmm1 offset, mm_slli_si128 xmm1 (16 - offset))
     else (mm_alignr_epi8 xmm0 xmm1 0, mm_slli_si128 xmm1 16))"

text \<open>The folding step on registers with the opposite order of coefficients.\<close>
definition fold_be_si128 :: "m128 \<Rightarrow> m128 \<Rightarrow> m128 \<Rightarrow> m128" where
  "fold_be_si128 x k d = mm_clmulepi64_si128 x k 0x01 XOR d XOR mm_clmulepi64_si128 x k 0x10"

text \<open>The two loops; \<open>ld\<close> loads a register, \<open>fld\<close> folds it.\<close>
function long_fold_512 ::
  "(addr \<Rightarrow> mem \<Rightarrow> m128) \<Rightarrow> (m128 \<Rightarrow> m128 \<Rightarrow> m128 \<Rightarrow> m128) \<Rightarrow> m128 \<Rightarrow> addr \<Rightarrow> u32 \<Rightarrow> m128 list \<Rightarrow> mem
     \<Rightarrow> addr \<times> u32 \<times> m128 list" where
  "long_fold_512 ld fld k_koef src_ptr len xs m =
     (if 128 \<le> len
      then long_fold_512 ld fld k_koef (src_ptr + 64) (len - 64)
        (map (\<lambda>i. fld (xs ! i) k_koef (ld (src_ptr + word_of_nat (16 * i)) m)) [0 ..< 4]) m
      else (src_ptr, len, xs))"
  by pat_completeness auto

lemma unat_decrease: "n \<le> len \<Longrightarrow> 0 < n \<Longrightarrow> unat (len - n) < unat len" for len n :: u32
  by (simp add: unat_sub word_less_nat_alt word_le_nat_alt)

termination long_fold_512
  by (relation "measure (\<lambda>(ld, fld, k_koef, src_ptr, len, xs, m). unat len)")
    (auto intro!: unat_decrease elim: order_trans [rotated])

function long_fold_128 ::
  "(addr \<Rightarrow> mem \<Rightarrow> m128) \<Rightarrow> (m128 \<Rightarrow> m128 \<Rightarrow> m128 \<Rightarrow> m128) \<Rightarrow> m128 \<Rightarrow> addr \<Rightarrow> u32 \<Rightarrow> m128 \<Rightarrow> mem
     \<Rightarrow> addr \<times> u32 \<times> m128" where
  "long_fold_128 ld fld k_koef src_ptr len xmm0 m =
     (if 32 \<le> len
      then long_fold_128 ld fld k_koef (src_ptr + 16) (len - 16) (fld xmm0 k_koef (ld src_ptr m)) m
      else (src_ptr, len, xmm0))"
  by pat_completeness auto
termination long_fold_128
  by (relation "measure (\<lambda>(ld, fld, k_koef, src_ptr, len, xmm0, m). unat len)")
    (auto intro!: unat_decrease elim: order_trans [rotated])

declare long_fold_512.simps [simp del] long_fold_128.simps [simp del]

text \<open>Four registers at a time, for more than 512 bytes; then the four are folded into one.\<close>
definition long_fold_first ::
  "(addr \<Rightarrow> mem \<Rightarrow> m128) \<Rightarrow> (m128 \<Rightarrow> m128 \<Rightarrow> m128 \<Rightarrow> m128) \<Rightarrow> m128 \<Rightarrow> m128 \<Rightarrow> addr \<Rightarrow> u32 \<Rightarrow> m128 \<Rightarrow> mem
     \<Rightarrow> addr \<times> u32 \<times> m128" where
  "long_fold_first ld fld k_koef_512 k_koef_128 src_ptr len xmm0 m =
     (if 512 < len
      then let xs = [xmm0, ld src_ptr m, ld (src_ptr + 16) m, ld (src_ptr + 32) m];
               src_ptr = src_ptr + 48;
               (src_ptr, len, xs) = long_fold_512 ld fld k_koef_512 src_ptr len xs m;
               xmm0 = fld (xs ! 0) k_koef_128 (xs ! 1);
               xmm0 = fld xmm0 k_koef_128 (xs ! 2);
               xmm0 = fld xmm0 k_koef_128 (xs ! 3)
           in (src_ptr, len - 48, xmm0)
      else (src_ptr, len, xmm0))"

text \<open>From the first register on to the last whole one.\<close>
definition long_fold ::
  "(addr \<Rightarrow> mem \<Rightarrow> m128) \<Rightarrow> (m128 \<Rightarrow> m128 \<Rightarrow> m128 \<Rightarrow> m128) \<Rightarrow> m128 \<Rightarrow> m128 \<Rightarrow> addr \<Rightarrow> u32 \<Rightarrow> m128 \<Rightarrow> mem
     \<Rightarrow> addr \<times> m128" where
  "long_fold ld fld k_koef_512 k_koef_128 src_ptr len xmm0 m =
     (let (src_ptr, len, xmm0) = long_fold_first ld fld k_koef_512 k_koef_128 src_ptr len xmm0 m;
          (src_ptr, len, xmm0) = long_fold_128 ld fld k_koef_128 src_ptr len xmm0 m
      in (src_ptr, xmm0))"

definition tail_mask :: "u32 \<Rightarrow> u16" where
  "tail_mask tail = push_bit (unat tail) 1 - 1"

section \<open>The little-endian routine\<close>

definition le_k_128 :: m128 where
  "le_k_128 = mm_set_epi64x (push_bit 32 0xff60609e) (push_bit 32 0xd7a01665)"

definition le_k_512 :: m128 where
  "le_k_512 = mm_set_epi64x (push_bit 32 0x81eee05c) (push_bit 32 0x3f76a4f2)"

definition le_load :: "addr \<Rightarrow> mem \<Rightarrow> m128" where
  "le_load src_ptr m = mm_shuffle_epi8 (mm_loadu_si128 src_ptr m) ENDIA_SHUF_MASK"

definition long_le_tail :: "addr \<Rightarrow> u32 \<Rightarrow> m128 \<Rightarrow> mem \<Rightarrow> m128" where
  "long_le_tail src_ptr tail xmm0 m =
     (if tail \<noteq> 0
      then let xmm2 = mm_maskz_loadu_epi8 (tail_mask tail) src_ptr m;
               xmm2 = mm_shuffle_epi8 xmm2 ENDIA_SHUF_MASK;
               (xmm2, xmm0) = own_shift_two_lanes (unat tail) (xmm2, xmm0)
           in fold_si128 xmm0 le_k_128 xmm2
      else xmm0)"

definition crc_bitwise_le :: "u32 \<Rightarrow> u8 \<Rightarrow> u32" where
  "crc_bitwise_le crc b =
     for_loop 8
       (\<lambda>_ crc. ucast (ucast (push_bit 1 crc) XOR (- (ucast (drop_bit 31 crc) :: u64) AND ucast D_POLYNOMIAL_1)))
       (crc XOR push_bit 24 (ucast b))"

definition own_crc32_long_le_k0 :: "addr \<Rightarrow> u32 \<Rightarrow> u32 \<Rightarrow> mem \<Rightarrow> u64" where
  "own_crc32_long_le_k0 src_ptr len crc m =
     (if 16 \<le> len
      then let k_q = 0x11edc6f41;
               k_u = 0x11f91caf6;
               k_64 = push_bit 32 0x3aab4576;
               k_96 = push_bit 32 0xd7a01665;
               tail = len AND 0xf;
               xCRC = mm_slli_si128 (mm_cvtsi32_si128 crc) 12;
               xmm0 = le_load src_ptr m XOR xCRC;
               (src_ptr, xmm0) = long_fold le_load fold_si128 le_k_512 le_k_128 (src_ptr + 16) len xmm0 m;
               xmm0 = long_le_tail src_ptr tail xmm0 m;
               xmm0 = reduce_128 k_64 k_96 xmm0
           in ucast (barrett k_q k_u xmm0)
      else ucast (for_loop (unat len) (\<lambda>i crc. crc_bitwise_le crc (m (src_ptr + word_of_nat i))) crc))"

section \<open>The reflected routine\<close>

definition bit_reflect_32 :: "u32 \<Rightarrow> u32" where
  "bit_reflect_32 x =
     (let shuffle_mask = mm_cvtsi32_si128 0x00010203;
          xmm0 = mm_cvtsi32_si128 x;
          xmm1 = mm_srli_epi16 xmm0 4;
          xmm0 = xmm0 AND xmm_F;
          xmm1 = xmm1 AND xmm_F;
          xmm0 = mm_shuffle_epi8 xmmSH_L xmm0;
          xmm1 = mm_shuffle_epi8 xmmSH_H xmm1;
          xmm0 = xmm0 OR xmm1;
          xmm0 = mm_shuffle_epi8 xmm0 shuffle_mask
      in mm_cvtsi128_si32 xmm0)"

definition be_k_128 :: m128 where
  "be_k_128 = mm_set_epi64x (push_bit 1 0x790606ff) (push_bit 1 0xa66805eb)"

definition be_k_512 :: m128 where
  "be_k_512 = mm_set_epi64x (push_bit 1 0x3a077781) (push_bit 1 0x4f256efc)"

definition long_be_tail :: "addr \<Rightarrow> u32 \<Rightarrow> m128 \<Rightarrow> mem \<Rightarrow> m128" where
  "long_be_tail src_ptr tail xmm0 m =
     (if tail \<noteq> 0
      then let xmm2 = mm_maskz_loadu_epi8 (tail_mask tail) src_ptr m;
               (xmm2, xmm0) = own_shift_two_lanes_be (unat tail) (xmm2, xmm0)
           in fold_be_si128 xmm0 be_k_128 xmm2
      else xmm0)"

definition be_mask2 :: m128 where
  "be_mask2 = mm_set_epi64x 0xFFFFFFFFFFFFFFFF 0xFFFFFFFF00000000"

definition reduce_be_128 :: "u64 \<Rightarrow> u64 \<Rightarrow> m128 \<Rightarrow> m128" where
  "reduce_be_128 k_64 k_96 xmm0 =
     (let k_koef = mm_set_epi64x k_96 k_64;
          xmm1 = xmm0;
          xmm0 = mm_clmulepi64_si128 xmm0 k_koef 0x10;
          xmm1 = mm_srli_si128 xmm1 8;
          xmm0 = xmm0 XOR xmm1;
          xmm1 = xmm0;
          xmm1 = xmm1 AND be_mask2;
          xmm0 = mm_slli_si128 xmm0 12;
          xmm0 = mm_clmulepi64_si128 xmm0 k_koef 0x01
      in xmm0 XOR xmm1)"

definition crc_bitwise_be :: "u32 \<Rightarrow> u32 \<Rightarrow> u8 \<Rightarrow> u32" where
  "crc_bitwise_be polynomial_s crc b =
     for_loop 8 (\<lambda>_ crc. drop_bit 1 crc XOR (- (crc AND 1) AND polynomial_s)) (crc XOR ucast b)"

definition own_crc32_long_be_k0 :: "addr \<Rightarrow> u32 \<Rightarrow> u32 \<Rightarrow> mem \<Rightarrow> u32" where
  "own_crc32_long_be_k0 src_ptr len crc m =
     (let crc = bit_reflect_32 crc in
      if 16 \<le> len
      then let k_q = 0x11edc6f41;
               k_u = 0x11f91caf6;
               k_64 = push_bit 1 0x6ea2d55c;
               k_96 = push_bit 1 0xa66805eb;
               tail = len AND 0xf;
               xCRC = mm_cvtsi32_si128 crc;
               xmm0 = mm_loadu_si128 src_ptr m XOR xCRC;
               (src_ptr, xmm0) = long_fold mm_loadu_si128 fold_be_si128 be_k_512 be_k_128 (src_ptr + 16) len xmm0 m;
               xmm0 = long_be_tail src_ptr tail xmm0 m;
               xmm0 = reduce_be_128 k_64 k_96 xmm0;
               xmm0 = D_REFL xmm0;
               xmm0 = mm_shuffle_epi8 xmm0 ENDIA_SHUF_MASK
           in barrett k_q k_u xmm0
      else let polynomial_s = bit_reflect_32 D_POLYNOMIAL_1
           in bit_reflect_32 (for_loop (unat len)
                (\<lambda>i crc. crc_bitwise_be polynomial_s crc (m (src_ptr + word_of_nat i))) crc))"

section \<open>Entry points\<close>

definition own_CRC_8u_k0 :: "addr \<Rightarrow> u32 \<Rightarrow> u64 \<Rightarrow> byte list \<Rightarrow> u32 \<Rightarrow> u32 \<Rightarrow> mem \<Rightarrow> u32" where
  "own_CRC_8u_k0 src_ptr len poly optPoly init crc m =
     (if push_bit 32 1 OR ucast D_POLYNOMIAL_1 = poly
      then if len < 1024 then own_CRC_8u_opt_k0 src_ptr init (sint len) 32 optPoly m
           else ucast (own_crc32_long_le_k0 src_ptr len crc m)
      else own_CRC_8u_opt_k0 src_ptr init (sint len) (getCRCSize poly) optPoly m)"

definition own_CRC_reflected_8u_k0 :: "addr \<Rightarrow> u32 \<Rightarrow> u64 \<Rightarrow> byte list \<Rightarrow> u32 \<Rightarrow> u32 \<Rightarrow> mem \<Rightarrow> u32" where
  "own_CRC_reflected_8u_k0 src_ptr len poly optPoly init crc m =
     (if push_bit 32 1 OR ucast D_POLYNOMIAL_1 = poly
      then if len < 1024 then own_CRC_reflected_8u_opt_k0 src_ptr init (sint len) 32 optPoly m
           else own_crc32_long_be_k0 src_ptr len crc m
      else own_CRC_reflected_8u_opt_k0 src_ptr init (sint len) (getCRCSize poly) optPoly m)"

text \<open>The table of another polynomial is built in a local array, here with zeros in it before.\<close>
definition dmlc_own_calculate_crc_32u :: "addr \<Rightarrow> u32 \<Rightarrow> u32 \<Rightarrow> u32 \<Rightarrow> mem \<Rightarrow> u32" where
  "dmlc_own_calculate_crc_32u memory_region_ptr bytes_to_hash crc polynomial m =
     (let poly = ucast polynomial OR push_bit 32 1 in
      if D_POLYNOMIAL_1 = polynomial
      then own_CRC_8u_k0 memory_region_ptr bytes_to_hash poly opt_poly_1_ptr crc crc m
      else let opt_poly_ptr = own_gen_crc_opt_poly_8u poly (replicate 128 0)
           in own_CRC_8u_k0 memory_region_ptr bytes_to_hash poly opt_poly_ptr crc crc m)"

definition dmlc_own_calculate_crc_reflected_32u :: "addr \<Rightarrow> u32 \<Rightarrow> u32 \<Rightarrow> u32 \<Rightarrow> mem \<Rightarrow> u32" where
  "dmlc_own_calculate_crc_reflected_32u memory_region_ptr bytes_to_hash crc polynomial m =
     (let poly = ucast polynomial OR push_bit 32 1 in
      if D_POLYNOMIAL_1 = polynomial
      then own_CRC_reflected_8u_k0 memory_region_ptr bytes_to_hash poly opt_poly_1_ptr crc crc m
      else let opt_poly_ptr = own_gen_crc_opt_poly_8u poly (replicate 128 0)
           in own_CRC_reflected_8u_k0 memory_region_ptr bytes_to_hash poly opt_poly_ptr crc crc m)"

definition dml_avx512_crc_u32 :: "addr \<Rightarrow> u32 \<Rightarrow> u32 \<Rightarrow> u32 \<Rightarrow> mem \<Rightarrow> u32" where
  "dml_avx512_crc_u32 src transfer_size crc_value polynomial m =
     dmlc_own_calculate_crc_32u src transfer_size crc_value polynomial m"

definition dml_avx512_crc_reflected_u32 :: "addr \<Rightarrow> u32 \<Rightarrow> u32 \<Rightarrow> u32 \<Rightarrow> mem \<Rightarrow> u32" where
  "dml_avx512_crc_reflected_u32 src transfer_size crc_value polynomial m =
     dmlc_own_calculate_crc_reflected_32u src transfer_size crc_value polynomial m"

section \<open>Folding in either order of coefficients\<close>

lemma load_64: "load_bytes m a 64 = load_bytes m a 16 @ load_bytes m (a + 16) 16 @ load_bytes m (a + 32) 16 @ load_bytes m (a + 48) 16"
  using load_bytes_add [of m a 16 48] load_bytes_add [of m "a + 16" 16 32] load_bytes_add [of m "a + 32" 16 16]
  by (simp add: add.commute [of a])

text \<open>
  What the two routines need of their loads and folds: \<open>rs\<close> reads the residue of a register in
  its order of coefficients, \<open>r\<close> is what the order means for a byte.
\<close>
locale coefficient_order =
  fixes p :: u32 and rs :: "m128 \<Rightarrow> u32" and r :: "byte \<Rightarrow> byte" and ld :: "addr \<Rightarrow> mem \<Rightarrow> m128"
    and fld :: "m128 \<Rightarrow> m128 \<Rightarrow> m128 \<Rightarrow> m128" and k128 k512 :: m128
  assumes rs_ld: "rs (ld a m) = message_residue p (map r (load_bytes m a 16))"
    and rs_128: "rs (fld x k128 d) = xpow p 128 (rs x) XOR rs d"
    and rs_512: "rs (fld x k512 d) = xpow p 512 (rs x) XOR rs d"
begin

lemma fold_four:
  fixes a :: addr and m :: mem
  assumes "length xs = 4"
  defines "ys \<equiv> map (\<lambda>i. fld (xs ! i) k512 (ld (a + word_of_nat (16 * i)) m)) [0 ..< 4]"
  shows "rs (fld (fld (fld (ys ! 0) k128 (ys ! 1)) k128 (ys ! 2)) k128 (ys ! 3))
    = xpow p 512 (rs (fld (fld (fld (xs ! 0) k128 (xs ! 1)) k128 (xs ! 2)) k128 (xs ! 3)))
      XOR message_residue p (map r (load_bytes m a 64))"
proof -
  have msg: "message_residue p (map r (load_bytes m a 64))
      = xpow p 384 (rs (ld a m)) XOR xpow p 256 (rs (ld (a + 16) m)) XOR xpow p 128 (rs (ld (a + 32) m)) XOR rs (ld (a + 48) m)"
    by (simp add: load_64 message_residue_append rs_ld xor.assoc)
  have "xpow p 128 (xpow p 128 (xpow p 128 c)) = xpow p 384 c" "xpow p 128 (xpow p 128 c) = xpow p 256 c"
    "xpow p 128 (xpow p 256 c) = xpow p 384 c" for c
    by (simp_all flip: xpow_add)
  note pows = this
  show ?thesis
    unfolding ys_def msg by (simp add: rs_128 rs_512 xpow_xor pows xpow_commute [of _ p 512] ac_simps numeral_2_eq_2)
qed

lemma long_fold_512_result:
  assumes "length xs = 4" "64 \<le> len"
  shows "\<exists>k len' xs'. long_fold_512 ld fld k512 src len xs m = (src + word_of_nat k, len', xs')
    \<and> unat len = k + unat len' \<and> 16 dvd k \<and> 64 \<le> unat len' \<and> length xs' = 4
    \<and> rs (fld (fld (fld (xs' ! 0) k128 (xs' ! 1)) k128 (xs' ! 2)) k128 (xs' ! 3))
        = xpow p (8 * k) (rs (fld (fld (fld (xs ! 0) k128 (xs ! 1)) k128 (xs ! 2)) k128 (xs ! 3)))
          XOR message_residue p (map r (load_bytes m src k))"
  using assms
proof (induction "unat len" arbitrary: src len xs rule: less_induct)
  case less
  let ?q = "\<lambda>xs. rs (fld (fld (fld (xs ! 0) k128 (xs ! 1)) k128 (xs ! 2)) k128 (xs ! 3))"
  show ?case
  proof (cases "128 \<le> len")
    case False
    then show ?thesis
      using less.prems long_fold_512.simps [of ld fld k512 src len xs m]
      by (intro exI [of _ 0] exI [of _ len] exI [of _ xs]) (simp add: word_le_nat_alt)
  next
    case True
    define ys where "ys = map (\<lambda>i. fld (xs ! i) k512 (ld (src + word_of_nat (16 * i)) m)) [0 ..< 4]"
    have len: "unat len = 64 + unat (len - 64)" "128 \<le> unat len" using True by (simp_all add: unat_sub word_le_nat_alt)
    then have "unat (len - 64) < unat len" "64 \<le> len - 64" by (simp_all add: word_le_nat_alt)
    from less.hyps [OF this(1) _ this(2), of ys "src + 64"] obtain k len' xs' where k:
      "long_fold_512 ld fld k512 (src + 64) (len - 64) ys m = (src + 64 + word_of_nat k, len', xs')"
      "unat (len - 64) = k + unat len'" "16 dvd k" "64 \<le> unat len'" "length xs' = 4"
      "?q xs' = xpow p (8 * k) (?q ys) XOR message_residue p (map r (load_bytes m (src + 64) k))"
      by (auto simp: ys_def)
    have q: "?q ys = xpow p 512 (?q xs) XOR message_residue p (map r (load_bytes m src 64))"
      unfolding ys_def by (rule fold_four [OF less.prems(1)])
    have "load_bytes m src (64 + k) = load_bytes m src 64 @ load_bytes m (src + 64) k"
      using load_bytes_add [of m src 64 k] by simp
    moreover have "xpow p (8 * (64 + k)) c = xpow p (8 * k) (xpow p 512 c)" for c
      by (simp flip: xpow_add add: add.commute)
    ultimately have "?q xs' = xpow p (8 * (64 + k)) (?q xs) XOR message_residue p (map r (load_bytes m src (64 + k)))"
      unfolding k(6) q by (simp only: message_residue_append xpow_xor map_append length_map length_load_bytes) (simp add: ac_simps)
    moreover have "long_fold_512 ld fld k512 src len xs m = (src + word_of_nat (64 + k), len', xs')"
      using True k(1) long_fold_512.simps [of ld fld k512 src len xs m] by (simp add: ys_def add.assoc)
    ultimately show ?thesis using k(2-5) len by (intro exI [of _ "64 + k"] exI [of _ len'] exI [of _ xs']) simp
  qed
qed

lemma long_fold_128_result:
  assumes "16 \<le> len"
  shows "\<exists>k len' x'. long_fold_128 ld fld k128 src len x m = (src + word_of_nat k, len', x')
    \<and> unat len = k + unat len' \<and> 16 dvd k \<and> 16 \<le> unat len' \<and> unat len' < 32
    \<and> rs x' = xpow p (8 * k) (rs x) XOR message_residue p (map r (load_bytes m src k))"
  using assms
proof (induction "unat len" arbitrary: src len x rule: less_induct)
  case less
  show ?case
  proof (cases "32 \<le> len")
    case False
    then show ?thesis
      using less.prems long_fold_128.simps [of ld fld k128 src len x m]
      by (intro exI [of _ 0] exI [of _ len] exI [of _ x]) (simp add: word_le_nat_alt)
  next
    case True
    define y where "y = fld x k128 (ld src m)"
    have len: "unat len = 16 + unat (len - 16)" "32 \<le> unat len" using True by (simp_all add: unat_sub word_le_nat_alt)
    then have "unat (len - 16) < unat len" "16 \<le> len - 16" by (simp_all add: word_le_nat_alt)
    from less.hyps [OF this, of "src + 16" y] obtain k len' x' where k:
      "long_fold_128 ld fld k128 (src + 16) (len - 16) y m = (src + 16 + word_of_nat k, len', x')"
      "unat (len - 16) = k + unat len'" "16 dvd k" "16 \<le> unat len'" "unat len' < 32"
      "rs x' = xpow p (8 * k) (rs y) XOR message_residue p (map r (load_bytes m (src + 16) k))"
      by blast
    have "load_bytes m src (16 + k) = load_bytes m src 16 @ load_bytes m (src + 16) k"
      using load_bytes_add [of m src 16 k] by simp
    moreover have "xpow p (8 * (16 + k)) c = xpow p (8 * k) (xpow p 128 c)" for c
      by (simp flip: xpow_add add: add.commute)
    ultimately have "rs x' = xpow p (8 * (16 + k)) (rs x) XOR message_residue p (map r (load_bytes m src (16 + k)))"
      unfolding k(6) y_def rs_128 rs_ld
      by (simp only: message_residue_append xpow_xor map_append length_map length_load_bytes) (simp add: ac_simps)
    moreover have "long_fold_128 ld fld k128 src len x m = (src + word_of_nat (16 + k), len', x')"
      using True k(1) long_fold_128.simps [of ld fld k128 src len x m] by (simp add: y_def add.assoc)
    ultimately show ?thesis using k(2-5) len by (intro exI [of _ "16 + k"] exI [of _ len'] exI [of _ x']) simp
  qed
qed

lemma first_four:
  assumes x: "rs x = acc_residue p c (map r (load_bytes m a 16))"
  shows "rs (fld (fld (fld x k128 (ld (a + 16) m)) k128 (ld (a + 16 + 16) m)) k128 (ld (a + 16 + 32) m))
    = acc_residue p c (map r (load_bytes m a 64))"
proof -
  have "a + 16 + 16 = a + 32" "a + 16 + 32 = a + 48" by simp_all
  then show ?thesis
    unfolding load_64 rs_128 rs_ld x map_append using acc_residue_append
    by (simp add: acc_residue_append message_residue_append xpow_xor ac_simps flip: xpow_add)
qed

lemma long_fold_first_result:
  assumes N: "16 \<le> len" and x: "rs x = acc_residue p c (map r (load_bytes m a 16))"
  shows "\<exists>k len' y. long_fold_first ld fld k512 k128 (a + 16) len x m = (a + word_of_nat k, len', y) \<and> 16 dvd k \<and> 16 \<le> k
    \<and> 16 \<le> unat len' \<and> k + unat len' = unat len + 16 \<and> rs y = acc_residue p c (map r (load_bytes m a k))"
proof (cases "512 < len")
  case False
  then show ?thesis
    using N x by (intro exI [of _ 16] exI [of _ len] exI [of _ x]) (simp add: long_fold_first_def word_le_nat_alt)
next
  case True
  define xs where "xs = [x, ld (a + 16) m, ld (a + 16 + 16) m, ld (a + 16 + 32) m]"
  let ?f = "\<lambda>xs. fld (fld (fld (xs ! 0) k128 (xs ! 1)) k128 (xs ! 2)) k128 (xs ! 3)"
  have q0: "rs (?f xs) = acc_residue p c (map r (load_bytes m a 64))" using first_four [OF x] by (simp add: xs_def)
  have "64 \<le> len" "length xs = 4" using True by (simp_all add: word_le_nat_alt word_less_nat_alt xs_def)
  from long_fold_512_result [OF this(2,1), of "a + 64" m] obtain k len' xs' where k:
    "long_fold_512 ld fld k512 (a + 64) len xs m = (a + 64 + word_of_nat k, len', xs')"
    "unat len = k + unat len'" "16 dvd k" "64 \<le> unat len'"
    "rs (?f xs') = xpow p (8 * k) (rs (?f xs)) XOR message_residue p (map r (load_bytes m (a + 64) k))" by blast
  have "load_bytes m a (64 + k) = load_bytes m a 64 @ load_bytes m (a + 64) k"
    using load_bytes_add [of m a 64 k] by simp
  then have q: "rs (?f xs') = acc_residue p c (map r (load_bytes m a (64 + k)))"
    unfolding k(5) q0 using acc_residue_append [of "map r (load_bytes m a 64)" p c "map r (load_bytes m (a + 64) k)"] by simp
  have "unat (len' - 48) = unat len' - 48" using k(4) by (simp add: unat_sub word_le_nat_alt)
  moreover have "long_fold_first ld fld k512 k128 (a + 16) len x m = (a + word_of_nat (64 + k), len' - 48, ?f xs')"
  proof -
    have "a + 16 + 48 = a + 64" by simp
    then show ?thesis
      using True unfolding long_fold_first_def Let_def xs_def [symmetric] by (simp add: k(1) add.assoc)
  qed
  ultimately show ?thesis using q k(2-4) by (intro exI [of _ "64 + k"] exI [of _ "len' - 48"] exI [of _ "?f xs'"]) simp
qed

lemma long_fold_result:
  assumes N: "16 \<le> len" and x: "rs x = acc_residue p c (map r (load_bytes m a 16))"
  shows "\<exists>x'. long_fold ld fld k512 k128 (a + 16) len x m = (a + word_of_nat (unat len - unat len mod 16), x')
    \<and> rs x' = acc_residue p c (map r (load_bytes m a (unat len - unat len mod 16)))"
proof -
  from long_fold_first_result [OF assms] obtain k len' y where
    k: "long_fold_first ld fld k512 k128 (a + 16) len x m = (a + word_of_nat k, len', y)" "16 dvd k" "16 \<le> k" "16 \<le> unat len'"
    "k + unat len' = unat len + 16" "rs y = acc_residue p c (map r (load_bytes m a k))" by blast
  from k(4) have "16 \<le> len'" by (simp add: word_le_nat_alt)
  from long_fold_128_result [OF this, of "a + word_of_nat k" y m] obtain j len'' x' where j:
    "long_fold_128 ld fld k128 (a + word_of_nat k) len' y m = (a + word_of_nat k + word_of_nat j, len'', x')"
    "unat len' = j + unat len''" "16 dvd j" "16 \<le> unat len''" "unat len'' < 32"
    "rs x' = xpow p (8 * j) (rs y) XOR message_residue p (map r (load_bytes m (a + word_of_nat k) j))" by blast
  have "unat len = (k + j) + (unat len'' - 16)" using k(5) j(2,4) by simp
  moreover have "16 dvd k + j" "unat len'' - 16 < 16" using k(2) j(3,5) by auto
  ultimately have "unat len mod 16 = unat len'' - 16" by (auto elim!: dvdE)
  then have n: "unat len - unat len mod 16 = k + j" using k(5) j(2,4) by simp
  have "rs x' = acc_residue p c (map r (load_bytes m a (k + j)))"
    unfolding j(6) k(6) load_bytes_add using k(3) by (simp add: acc_residue_append)
  moreover have "long_fold ld fld k512 k128 (a + 16) len x m = (a + word_of_nat (k + j), x')"
    by (simp add: long_fold_def k(1) j(1) add.assoc)
  ultimately show ?thesis unfolding n by blast
qed

end

section \<open>The little-endian instance\<close>

abbreviation poly1 :: u32 where
  "poly1 \<equiv> D_POLYNOMIAL_1"

lemma le_constants:
  "le_k_128 = mm_set_epi64x (fold_constant poly1 (96 + 64)) (fold_constant poly1 96)"
  "le_k_512 = mm_set_epi64x (fold_constant poly1 (480 + 64)) (fold_constant poly1 480)"
  "push_bit 32 0x3aab4576 = fold_constant poly1 64" "push_bit 32 0xd7a01665 = fold_constant poly1 96"
  "full_poly poly1 = 0x11edc6f41" "poly_quotient poly1 64 = 0x11f91caf6"
  unfolding le_k_128_def le_k_512_def fold_constant_def D_POLYNOMIAL_1_def
  by (simp_all add: poly_1_entries quotient_poly_1 full_poly_def)

lemma le_load_crc_load: "le_load a m = crc_load (\<lambda>x. x) a m"
  by (simp add: le_load_def crc_load_def)

interpretation le: coefficient_order poly1 "residue poly1" "\<lambda>b. b" le_load fold_si128 le_k_128 le_k_512
proof
  show "residue poly1 (le_load a m) = message_residue poly1 (map (\<lambda>b. b) (load_bytes m a 16))" for a m
    unfolding le_load_crc_load by (rule plain.residue_crc_load)
  show "residue poly1 (fold_si128 x le_k_128 d) = xpow poly1 128 (residue poly1 x) XOR residue poly1 d" for x d
    unfolding le_constants residue_fold by simp
  show "residue poly1 (fold_si128 x le_k_512 d) = xpow poly1 512 (residue poly1 x) XOR residue poly1 d" for x d
    unfolding le_constants residue_fold by simp
qed

section \<open>The opposite order\<close>

lemma reverse_xmon: "i < LENGTH('a) \<Longrightarrow> word_reverse (xmon i :: 'a::len word) = xmon (LENGTH('a) - Suc i)"
  by (rule bit_word_eqI) (auto simp: bit_simps)

lemma reverse_xor: "word_reverse (a XOR b) = word_reverse a XOR word_reverse b"
  by (rule bit_word_eqI) (simp add: bit_simps)

text \<open>A folding constant in the opposite order, one place up.\<close>
definition be_constant :: "u32 \<Rightarrow> u64" where
  "be_constant c = push_bit 1 (ucast (word_reverse c))"

lemma reverse_clmul:
  "word_reverse (clmul a (be_constant c)) = clmul (word_reverse a) (push_bit 32 (ucast c))"
  unfolding be_constant_def
proof (rule bilinear_ext [of "\<lambda>a c. word_reverse (clmul a (push_bit 1 (ucast (word_reverse c))))"
      "\<lambda>a c. clmul (word_reverse a) (push_bit 32 (ucast c))"])
  fix i j assume ij: "i < LENGTH(64)" "j < LENGTH(32)"
  have "(ucast (xmon k :: u32) :: u64) = xmon k" if "k < 32" for k
    using that by (auto simp: bit_simps intro!: bit_word_eqI)
  with ij show "word_reverse (clmul (xmon i) (push_bit 1 (ucast (word_reverse (xmon j :: u32)))))
      = clmul (word_reverse (xmon i)) (push_bit 32 (ucast (xmon j :: u32)))"
    by (simp add: reverse_xmon clmul_basis Suc_diff_Suc)
qed (intro linear_intros)+

lemma reverse_halves:
  "epi64_half (word_reverse x) False = word_reverse (epi64_half x True)"
  "epi64_half (word_reverse x) True = word_reverse (epi64_half x False)"
  by (rule bit_word_eqI; auto simp: epi64_half_def bit_simps)+

lemma reverse_fold:
  "word_reverse (fold_be_si128 x (mm_set_epi64x (be_constant c1) (be_constant c0)) d)
     = fold_si128 (word_reverse x) (mm_set_epi64x (push_bit 32 (ucast c1)) (push_bit 32 (ucast c0))) (word_reverse d)"
  unfolding fold_be_si128_def fold_si128_def clmul_selectors epi64_half_set reverse_xor reverse_clmul reverse_halves ..

lemma reverse_word_of:
  assumes "length bs = 16" shows "word_reverse (word_of bs :: m128) = word_of (rev (map reverse_u8 bs))"
proof (rule bit_word_eqI)
  fix k assume "k < LENGTH(128)"
  then have k: "k div 8 < 16" "k < 128" by auto
  define q t where "q = k div 8" and "t = k mod 8"
  have t: "t < 8" "k = 8 * q + t" by (simp_all add: q_def t_def)
  have "q < 16" using k(1) by (simp only: q_def)
  with t have "127 - k = 8 * (15 - q) + (7 - t)" by linarith
  moreover have "7 - t < 8" by simp
  ultimately have "(127 - k) div 8 = 15 - q" "(127 - k) mod 8 = 7 - t" by (metis div_mult_self4 add.commute div_less add_0 zero_neq_numeral, metis mod_mult_self4 mod_less)
  then have "(127 - k) div 8 = 15 - k div 8" "(127 - k) mod 8 = 7 - k mod 8" by (simp_all add: q_def t_def)
  then show "bit (word_reverse (word_of bs :: m128)) k = bit (word_of (rev (map reverse_u8 bs)) :: m128) k"
    using assms k less_imp_diff_less [of 127 128 k] less_imp_diff_less [of 15 16 "k div 8"]
    by (simp add: bit_simps bit_word_of rev_nth bit_reverse_u8)
qed

text \<open>The reversal at the end of the routine.\<close>
lemma refl_endia: "mm_shuffle_epi8 (D_REFL x) ENDIA_SHUF_MASK = word_reverse x"
proof -
  have "x = word_of (bytes_of x)" by simp
  moreover have "length (bytes_of x) = 16" by simp
  ultimately show ?thesis
    using refl_word_of [of "bytes_of x"] shuffle_endia [of "map reverse_u8 (bytes_of x)"] reverse_word_of [of "bytes_of x"] by simp
qed

lemma reversed_entries:
  "word_reverse (0xff60609e :: u32) = 0x790606ff" "word_reverse (0xd7a01665 :: u32) = 0xa66805eb"
  "word_reverse (0x81eee05c :: u32) = 0x3a077781" "word_reverse (0x3f76a4f2 :: u32) = 0x4f256efc"
  "word_reverse (0x3aab4576 :: u32) = 0x6ea2d55c"
  by (simp_all add: word_reverse_def upt_rec)

lemma be_constants:
  "be_k_128 = mm_set_epi64x (be_constant (xpow poly1 160 1)) (be_constant (xpow poly1 96 1))"
  "be_k_512 = mm_set_epi64x (be_constant (xpow poly1 544 1)) (be_constant (xpow poly1 480 1))"
  "push_bit 1 0x6ea2d55c = be_constant (xpow poly1 64 1)" "push_bit 1 0xa66805eb = be_constant (xpow poly1 96 1)"
  unfolding be_k_128_def be_k_512_def be_constant_def D_POLYNOMIAL_1_def poly_1_entries reversed_entries
  by (simp_all del: push_bit_numeral)

interpretation be: coefficient_order poly1 "\<lambda>x. residue poly1 (word_reverse x)" reverse_u8 mm_loadu_si128 fold_be_si128 be_k_128 be_k_512
proof
  show "residue poly1 (word_reverse (mm_loadu_si128 a m)) = message_residue poly1 (map reverse_u8 (load_bytes m a 16))" for a m
    unfolding mm_loadu_si128_def by (simp add: reverse_word_of) (rule residue_word_of_rev, simp)
  show "residue poly1 (word_reverse (fold_be_si128 x be_k_128 d)) = xpow poly1 128 (residue poly1 (word_reverse x)) XOR residue poly1 (word_reverse d)" for x d
    using residue_fold [of poly1 "word_reverse x" 96] unfolding be_constants reverse_fold fold_constant_def by simp
  show "residue poly1 (word_reverse (fold_be_si128 x be_k_512 d)) = xpow poly1 512 (residue poly1 (word_reverse x)) XOR residue poly1 (word_reverse d)" for x d
    using residue_fold [of poly1 "word_reverse x" 480] unfolding be_constants reverse_fold fold_constant_def by simp
qed

section \<open>The last bytes\<close>

lemma unat_tail: "unat (len AND 0xf :: u32) = unat len mod 16"
proof -
  have "len AND 0xf = take_bit 4 len" using take_bit_eq_mask [of 4 len] by (simp add: mask_eq_exp_minus_1)
  then show ?thesis by (simp add: take_bit_eq_mod unat_mod_distrib)
qed

lemma maskz_tail:
  assumes "unat tail < 16"
  shows "mm_maskz_loadu_epi8 (tail_mask tail) a m = word_of (load_bytes m a (unat tail) @ replicate (16 - unat tail) 0)"
proof (rule vbyte_ext)
  fix j :: nat assume j: "j < 16"
  have "tail_mask tail = mask (unat tail)" by (simp add: tail_mask_def mask_eq_exp_minus_1)
  then have "bit (tail_mask tail) j \<longleftrightarrow> j < unat tail" using assms j by (simp add: bit_mask_iff)
  with j assms show "vbyte (mm_maskz_loadu_epi8 (tail_mask tail) a m) j
      = vbyte (word_of (load_bytes m a (unat tail) @ replicate (16 - unat tail) 0)) j"
    by (simp add: mm_maskz_loadu_epi8_def vbyte_word_of nth_append)
qed

text \<open>The two registers shifted together.\<close>
lemma alignr_eq:
  assumes "n \<le> 16" shows "mm_alignr_epi8 a b n = drop_bit (8 * n) b XOR push_bit (8 * (16 - n)) a"
proof (rule bit_word_eqI)
  fix k assume "k < LENGTH(128)"
  then have k: "k < 128" by simp
  have idx: "8 * n + k - 128 = k - 8 * (16 - n)" "128 \<le> 8 * n + k \<longleftrightarrow> 8 * (16 - n) \<le> k" "8 * n + k < 256"
    using assms k by auto
  have "bit b (8 * n + k) \<Longrightarrow> 8 * n + k < 128" using bit_imp_le_length [of b "8 * n + k"] by simp
  with k idx show "bit (mm_alignr_epi8 a b n) k = bit (drop_bit (8 * n) b XOR push_bit (8 * (16 - n)) a) k"
    unfolding mm_alignr_epi8_def bit_unsigned_iff bit_drop_bit_eq o_apply bit_or_iff bit_push_bit_iff bit_xor_iff by auto
qed

lemma drop_push: "n \<le> 128 \<Longrightarrow> drop_bit n (push_bit n y) = take_bit (128 - n) (y :: m128)"
  by (rule bit_word_eqI) (auto simp: bit_simps)

lemma reverse_shifts:
  "n \<le> LENGTH('a) \<Longrightarrow> word_reverse (drop_bit n x) = push_bit n (word_reverse (x :: 'a::len word))"
  "n \<le> LENGTH('a) \<Longrightarrow> word_reverse (push_bit n x) = drop_bit n (word_reverse x)"
proof -
  assume n: "n \<le> LENGTH('a)"
  show "word_reverse (drop_bit n x) = push_bit n (word_reverse x)"
  proof (rule bit_word_eqI)
    fix k assume k: "k < LENGTH('a)"
    show "bit (word_reverse (drop_bit n x)) k = bit (push_bit n (word_reverse x)) k"
    proof (cases "n \<le> k")
      case True
      then have "n + (LENGTH('a) - Suc k) = LENGTH('a) - Suc (k - n)" using k by simp
      with True k show ?thesis
        unfolding bit_word_reverse_iff bit_drop_bit_eq bit_push_bit_iff o_apply by (simp only:) auto
    next
      case False
      then have "\<not> bit x (n + (LENGTH('a) - Suc k))"
        using k bit_imp_le_length [of x "n + (LENGTH('a) - Suc k)"] by auto
      with False k show ?thesis unfolding bit_word_reverse_iff bit_drop_bit_eq bit_push_bit_iff o_apply by simp
    qed
  qed
  have "LENGTH('a) - Suc k - n = LENGTH('a) - Suc (n + k)" "n \<le> LENGTH('a) - Suc k \<longleftrightarrow> n + k < LENGTH('a) \<or> n = 0"
    if "k < LENGTH('a)" for k using that by auto
  then show "word_reverse (push_bit n x) = drop_bit n (word_reverse x)"
    by (intro bit_word_eqI, unfold bit_word_reverse_iff bit_drop_bit_eq bit_push_bit_iff o_apply) auto
qed

lemma residue_shifted:
  assumes t: "0 < t" "t < 16" and d: "length d = t"
  shows "xpow p 128 (residue p (drop_bit (8 * (16 - t)) x)) XOR residue p (push_bit (8 * t) x XOR take_bit (8 * t) (word_of (rev d) :: m128))
    = xpow p (8 * t) (residue p x) XOR message_residue p d"
proof -
  have "xpow p 128 (residue p (drop_bit (8 * (16 - t)) x)) XOR residue p (push_bit (8 * t) x) = xpow p (8 * t) (residue p x)"
    using residue_shift [where 'a = 128, of "8 * t" p x] t by (simp add: diff_mult_distrib2)
  moreover have "take_bit (8 * t) (word_of (rev d) :: m128) = word_of (rev d)"
    unfolding take_bit_word_of using d by simp
  moreover have "residue p (word_of (rev d) :: m128) = message_residue p d"
    by (rule residue_word_of_rev) (use t d in simp)
  ultimately show ?thesis by (simp add: residue_xor flip: xor.assoc)
qed

lemma long_le_tail_residue:
  assumes t: "unat tail < 16"
  shows "residue poly1 (long_le_tail a tail x m)
    = xpow poly1 (8 * unat tail) (residue poly1 x) XOR message_residue poly1 (load_bytes m a (unat tail))"
proof (cases "tail = 0")
  case True
  then show ?thesis by (simp add: long_le_tail_def)
next
  case False
  then have t0: "0 < unat tail" using unat_eq_zero [of tail] by (auto simp: unat_gt_0)
  let ?d = "load_bytes m a (unat tail)"
  have "mm_shuffle_epi8 (mm_maskz_loadu_epi8 (tail_mask tail) a m) ENDIA_SHUF_MASK = push_bit (8 * (16 - unat tail)) (word_of (rev ?d))"
    unfolding maskz_tail [OF t] using t shuffle_endia [of "?d @ replicate (16 - unat tail) 0"]
      word_of_zeros_append [of "16 - unat tail" "rev ?d"] by simp
  then have "long_le_tail a tail x m = fold_si128 (drop_bit (8 * (16 - unat tail)) x) le_k_128
      (push_bit (8 * unat tail) x XOR take_bit (8 * unat tail) (word_of (rev ?d)))"
    using False t t0
    by (simp add: long_le_tail_def own_shift_two_lanes_def mm_srli_si128_def alignr_eq drop_push diff_mult_distrib2 xor.commute)
  then show ?thesis using residue_shifted [OF t0 t, of ?d poly1 x] by (simp add: le.rs_128)
qed

lemma long_be_tail_residue:
  assumes t: "unat tail < 16"
  shows "residue poly1 (word_reverse (long_be_tail a tail x m))
    = xpow poly1 (8 * unat tail) (residue poly1 (word_reverse x)) XOR message_residue poly1 (map reverse_u8 (load_bytes m a (unat tail)))"
proof (cases "tail = 0")
  case True
  then show ?thesis by (simp add: long_be_tail_def)
next
  case False
  then have t0: "0 < unat tail" using unat_eq_zero [of tail] by (auto simp: unat_gt_0)
  let ?d = "map reverse_u8 (load_bytes m a (unat tail))" and ?n = "8 * (16 - unat tail)"
  let ?y = "mm_maskz_loadu_epi8 (tail_mask tail) a m"
  have "reverse_u8 0 = 0" by (simp add: reverse_u8_def)
  then have y: "word_reverse ?y = push_bit ?n (word_of (rev ?d))"
    unfolding maskz_tail [OF t] using t reverse_word_of [of "load_bytes m a (unat tail) @ replicate (16 - unat tail) 0"]
      word_of_zeros_append [of "16 - unat tail" "rev ?d"] by simp
  have "long_be_tail a tail x m = fold_be_si128 (push_bit ?n x) be_k_128 (drop_bit (8 * unat tail) x XOR push_bit ?n ?y)"
    using False t t0 by (simp add: long_be_tail_def own_shift_two_lanes_be_def mm_slli_si128_def alignr_eq)
  moreover have "word_reverse (push_bit ?n x) = drop_bit ?n (word_reverse x)" using t by (simp add: reverse_shifts)
  moreover have "word_reverse (drop_bit (8 * unat tail) x XOR push_bit ?n ?y)
      = push_bit (8 * unat tail) (word_reverse x) XOR take_bit (8 * unat tail) (word_of (rev ?d))"
    using t by (simp add: reverse_xor reverse_shifts y drop_push diff_mult_distrib2)
  ultimately show ?thesis using residue_shifted [OF t0 t, of ?d poly1 "word_reverse x"] by (simp add: be.rs_128)
qed

section \<open>Bit by bit\<close>

lemma crc_bitwise_le_eq: "crc_bitwise_le c b = calculate_crc_32u c b poly1"
proof -
  have step: "ucast (ucast (push_bit 1 c) XOR (- (ucast (drop_bit 31 c) :: u64) AND ucast poly1)) = xtime poly1 c" for c :: u32
  proof -
    have "drop_bit 31 c = of_bool (bit c 31)"
    proof (rule bit_word_eqI)
      fix n show "bit (drop_bit 31 c) n = bit (of_bool (bit c 31) :: u32) n"
        using bit_imp_le_length [of c "31 + n"] by (cases n) (auto simp: bit_simps)
    qed
    moreover have "ucast (ucast v XOR ucast w :: u64) = v XOR w" for v w :: u32
      by (rule bit_word_eqI) (auto simp: bit_simps)
    moreover have "ucast (ucast v :: u64) = v" for v :: u32
      by (rule bit_word_eqI) (auto simp: bit_simps)
    ultimately show ?thesis unfolding xtime_def by (cases "bit c 31") (simp_all del: push_bit_eq_mult)
  qed
  have "crc_bitwise_le c b = xpow poly1 8 (c XOR push_bit 24 (ucast b))"
    unfolding crc_bitwise_le_def step by (rule for_loop_funpow)
  also have "\<dots> = xpow poly1 8 c XOR xpow poly1 (8 + 24) (ucast b)"
    unfolding xpow_xor xpow_add by (simp add: xpow_ucast_byte)
  finally show ?thesis by (simp add: calculate_crc_xpow)
qed

lemma own_crc32_long_le_short:
  assumes "len < 16"
  shows "own_crc32_long_le_k0 a len c m = ucast (crc_bytes poly1 (load_bytes m a (unat len)) c)"
proof -
  have "\<not> 16 \<le> len" using assms by (simp only: not_le)
  then show ?thesis
    unfolding own_crc32_long_le_k0_def crc_bitwise_le_eq crc_bytes_loop by (simp only: if_False load_bytes_def)
qed

lemma bit_reflect_32_eq: "bit_reflect_32 x = word_reverse x"
proof (rule bit_word_eqI)
  fix k assume "k < LENGTH(32)"
  then have k: "k < 32" by simp
  have def: "bit_reflect_32 x = ucast (mm_shuffle_epi8 (D_REFL (ucast x)) (0x00010203))"
    unfolding bit_reflect_32_def D_REFL_def Let_def mm_cvtsi32_si128_def mm_cvtsi128_si32_def by simp
  have mask: "vbyte (0x00010203) j = sel (3 - j)" if "j < 4" for j
  proof -
    have "list_all (\<lambda>j. vbyte 0x00010203 j = sel (3 - j)) [0 ..< 4]" by code_simp
    with that show ?thesis by (simp add: list_all_iff)
  qed
  define q t where "q = k div 8" and "t = k mod 8"
  have q: "q < 4" "t < 8" "k = 8 * q + t" using k by (simp_all add: q_def t_def)
  have "bit (bit_reflect_32 x) k \<longleftrightarrow> bit (vbyte (mm_shuffle_epi8 (D_REFL (ucast x)) (0x00010203)) q) t"
    using k q by (simp add: def bit_simps bit_vbyte)
  also have "\<dots> \<longleftrightarrow> bit (reverse_u8 (vbyte (ucast x) (3 - q))) t"
    using q selector_small [of "3 - q"] by (simp add: vbyte_shuffle mask vbyte_refl)
  also have "\<dots> \<longleftrightarrow> bit x (31 - k)"
  proof -
    have "8 * (3 - q) + (7 - t) = 31 - k" "7 - t < 8" "31 - k < 128" using q by linarith+
    then show ?thesis using q(2) by (simp only: bit_reverse_u8 bit_vbyte bit_unsigned_iff possible_bit_word) simp
  qed
  finally show "bit (bit_reflect_32 x) k = bit (word_reverse x) k" using k by (simp add: bit_simps)
qed

lemma crc_bitwise_be_eq:
  "crc_bitwise_be (word_reverse poly1) (word_reverse c) b = word_reverse (calculate_crc_32u c (reverse_u8 b) poly1)"
proof -
  have step: "drop_bit 1 (word_reverse d) XOR (- (word_reverse d AND 1) AND word_reverse poly1) = word_reverse (xtime poly1 d)" for d :: u32
  proof -
    have zero: "word_reverse 0 = (0 :: u32)" by (rule bit_word_eqI) (simp add: bit_simps)
    have "word_reverse d AND 1 = of_bool (bit d 31)"
      by (rule bit_word_eqI) (auto simp: bit_simps)
    moreover have "drop_bit 1 (word_reverse d) = word_reverse (push_bit 1 d)"
      by (rule reverse_shifts(2) [symmetric]) simp
    ultimately show ?thesis unfolding xtime_def reverse_xor by (cases "bit d 31") (simp_all add: zero)
  qed
  have loop: "for_loop n (\<lambda>_ crc. drop_bit 1 crc XOR (- (crc AND 1) AND word_reverse poly1)) (word_reverse d)
      = word_reverse (xpow poly1 n d)" for n d
    by (induction n) (simp_all only: for_loop_0 for_loop_Suc funpow.simps id_apply o_apply step)
  have start: "word_reverse c XOR ucast b = word_reverse (c XOR push_bit 24 (ucast (reverse_u8 b)))"
  proof (rule bit_word_eqI)
    fix k assume "k < LENGTH(32)"
    then show "bit (word_reverse c XOR ucast b) k = bit (word_reverse (c XOR push_bit 24 (ucast (reverse_u8 b)))) k"
      using bit_imp_le_length [of b k] bit_reverse_u8 [of "7 - k" b]
      unfolding bit_word_reverse_iff bit_xor_iff bit_push_bit_iff bit_unsigned_iff by auto
  qed
  have "xpow poly1 8 (c XOR push_bit 24 (ucast (reverse_u8 b))) = xpow poly1 8 c XOR xpow poly1 (8 + 24) (ucast (reverse_u8 b))"
    unfolding xpow_xor xpow_add by (simp add: xpow_ucast_byte)
  then show ?thesis unfolding crc_bitwise_be_def start loop by (simp add: calculate_crc_xpow)
qed

lemma own_crc32_long_be_short:
  assumes "len < 16"
  shows "own_crc32_long_be_k0 a len c m = crc_bytes poly1 (map reverse_u8 (load_bytes m a (unat len))) c"
proof -
  have "for_loop n (\<lambda>i crc. crc_bitwise_be (word_reverse poly1) crc (f i)) (word_reverse c)
      = word_reverse (for_loop n (\<lambda>i crc. calculate_crc_32u crc (reverse_u8 (f i)) poly1) c)" for n f
    by (induction n) (simp_all add: crc_bitwise_be_eq)
  moreover have "\<not> 16 \<le> len" using assms by (simp only: not_le)
  ultimately show ?thesis
    unfolding own_crc32_long_be_k0_def bit_reflect_32_eq Let_def crc_bytes_loop
    by (simp only: if_False load_bytes_def o_def word_rev_rev list.map_comp)
qed

section \<open>Both routines\<close>

lemma split_tail:
  "load_bytes m a n = load_bytes m a (n - n mod 16) @ load_bytes m (a + word_of_nat (n - n mod 16)) (n mod 16)"
  using load_bytes_add [of m a "n - n mod 16" "n mod 16"] by simp

lemma own_crc32_long_le_long:
  assumes len: "16 \<le> len"
  shows "own_crc32_long_le_k0 a len c m = ucast (crc_bytes poly1 (load_bytes m a (unat len)) c)"
proof -
  define n where "n = unat len - unat len mod 16"
  have n: "16 \<le> n"
  proof -
    have "16 \<le> unat len" using len by (simp add: word_le_nat_alt)
    then have "16 * (unat len div 16) \<ge> 16" by (simp add: div_greater_zero_iff Suc_le_eq)
    then show ?thesis by (simp add: n_def minus_mod_eq_mult_div)
  qed
  have "residue poly1 (le_load a m XOR mm_slli_si128 (mm_cvtsi32_si128 c) 12) = acc_residue poly1 c (map (\<lambda>b. b) (load_bytes m a 16))"
    using plain.first_register [of poly1 a m c] by (simp add: le_load_crc_load crc_seed_def)
  from le.long_fold_result [OF len this] obtain x where x:
    "long_fold le_load fold_si128 le_k_512 le_k_128 (a + 16) len (le_load a m XOR mm_slli_si128 (mm_cvtsi32_si128 c) 12) m
       = (a + word_of_nat n, x)" "residue poly1 x = acc_residue poly1 c (load_bytes m a n)"
    unfolding n_def by auto
  have t: "unat (len AND 0xf) < 16" "unat (len AND 0xf) = unat len mod 16" by (simp_all add: unat_tail)
  have "load_bytes m a (unat len) = load_bytes m a n @ load_bytes m (a + word_of_nat n) (unat len mod 16)"
    unfolding n_def by (rule split_tail)
  then have "residue poly1 (long_le_tail (a + word_of_nat n) (len AND 0xf) x m) = acc_residue poly1 c (load_bytes m a (unat len))"
    unfolding long_le_tail_residue [OF t(1)] t(2) x(2) using n by (simp add: acc_residue_append)
  moreover have "xpow poly1 32 (acc_residue poly1 c (load_bytes m a (unat len))) = crc_bytes poly1 (load_bytes m a (unat len)) c"
    by (rule acc_residue_crc) (use len in \<open>simp add: word_le_nat_alt\<close>)
  ultimately show ?thesis
    unfolding own_crc32_long_le_k0_def if_P [OF len] Let_def x(1) prod.case le_constants(3,4) le_constants(5,6) [symmetric]
    by (simp only: barrett_reduce_128)
qed

lemma bit_be_mask2: "bit be_mask2 k \<longleftrightarrow> 32 \<le> k \<and> k < 128"
proof -
  have mask: "be_mask2 = push_bit 32 (mask 96)"
    unfolding be_mask2_def mm_set_epi64x_def by (simp add: mask_eq_exp_minus_1)
  show ?thesis unfolding mask bit_push_bit_iff bit_mask_iff by (auto simp: possible_bit_def)
qed

lemma reverse_and_mask: "word_reverse (y AND be_mask2) = word_reverse y AND mask2"
proof (rule bit_word_eqI)
  fix k assume "k < LENGTH(128)"
  then have "k < 128" by simp
  then have "32 \<le> 128 - Suc k \<longleftrightarrow> k < 96" "128 - Suc k < 128" by linarith+
  then show "bit (word_reverse (y AND be_mask2)) k = bit (word_reverse y AND mask2) k"
    by (simp add: bit_word_reverse_iff bit_and_iff bit_mask2 bit_be_mask2)
qed

lemma reverse_reduce:
  "word_reverse (reduce_be_128 (be_constant c64) (be_constant c96) x)
     = reduce_128 (push_bit 32 (ucast c64)) (push_bit 32 (ucast c96)) (word_reverse x)"
proof -
  define y where "y = clmul (epi64_half x False) (be_constant c96) XOR mm_srli_si128 x 8"
  have y: "word_reverse y = clmul (epi64_half (word_reverse x) True) (push_bit 32 (ucast c96)) XOR mm_slli_si128 (word_reverse x) 8"
    unfolding y_def reverse_xor reverse_clmul reverse_halves mm_srli_si128_def mm_slli_si128_def by (simp add: reverse_shifts)
  have "word_reverse (epi64_half (mm_slli_si128 y 12) True) = epi64_half (mm_srli_si128 (word_reverse y) 12) False"
    unfolding mm_srli_si128_def mm_slli_si128_def reverse_halves(1) [symmetric] by (simp add: reverse_shifts)
  then have "word_reverse (reduce_be_128 (be_constant c64) (be_constant c96) x)
      = clmul (epi64_half (mm_srli_si128 (word_reverse y) 12) False) (push_bit 32 (ucast c64)) XOR (word_reverse y AND mask2)"
    unfolding reduce_be_128_def Let_def clmul_selectors epi64_half_set y_def [symmetric] reverse_xor reverse_clmul reverse_and_mask by simp
  then show ?thesis unfolding y reduce_128_def Let_def clmul_selectors epi64_half_set .
qed

lemma reverse_seed: "word_reverse (mm_cvtsi32_si128 (word_reverse c)) = crc_seed c"
proof (rule bit_word_eqI)
  fix k assume k: "k < LENGTH(128)"
  have "32 - Suc (127 - k) = k - 96" if "96 \<le> k" using that k by simp
  then show "bit (word_reverse (mm_cvtsi32_si128 (word_reverse c))) k = bit (crc_seed c) k"
    using k unfolding mm_cvtsi32_si128_def bit_word_reverse_iff bit_unsigned_iff bit_crc_seed by auto
qed

lemma own_crc32_long_be_long:
  assumes len: "16 \<le> len"
  shows "own_crc32_long_be_k0 a len c m = crc_bytes poly1 (map reverse_u8 (load_bytes m a (unat len))) c"
proof -
  define n where "n = unat len - unat len mod 16"
  have n: "16 \<le> n"
  proof -
    have "16 \<le> unat len" using len by (simp add: word_le_nat_alt)
    then have "16 * (unat len div 16) \<ge> 16" by (simp add: div_greater_zero_iff Suc_le_eq)
    then show ?thesis by (simp add: n_def minus_mod_eq_mult_div)
  qed
  let ?x = "mm_loadu_si128 a m XOR mm_cvtsi32_si128 (word_reverse c)"
  have "residue poly1 (word_reverse ?x) = acc_residue poly1 c (map reverse_u8 (load_bytes m a 16))"
    by (simp add: reverse_xor reverse_seed residue_xor residue_seed be.rs_ld acc_residue_def)
  from be.long_fold_result [OF len this] obtain x where x:
    "long_fold mm_loadu_si128 fold_be_si128 be_k_512 be_k_128 (a + 16) len ?x m = (a + word_of_nat n, x)"
    "residue poly1 (word_reverse x) = acc_residue poly1 c (map reverse_u8 (load_bytes m a n))"
    unfolding n_def by auto
  have t: "unat (len AND 0xf) < 16" "unat (len AND 0xf) = unat len mod 16" by (simp_all add: unat_tail)
  have "load_bytes m a (unat len) = load_bytes m a n @ load_bytes m (a + word_of_nat n) (unat len mod 16)"
    unfolding n_def by (rule split_tail)
  then have "residue poly1 (word_reverse (long_be_tail (a + word_of_nat n) (len AND 0xf) x m))
      = acc_residue poly1 c (map reverse_u8 (load_bytes m a (unat len)))"
    unfolding long_be_tail_residue [OF t(1)] t(2) x(2) using n by (simp add: acc_residue_append)
  moreover have "xpow poly1 32 (acc_residue poly1 c (map reverse_u8 (load_bytes m a (unat len)))) = crc_bytes poly1 (map reverse_u8 (load_bytes m a (unat len))) c"
    by (rule acc_residue_crc) (use len in \<open>simp add: word_le_nat_alt\<close>)
  ultimately show ?thesis
    unfolding own_crc32_long_be_k0_def bit_reflect_32_eq Let_def if_P [OF len] x(1) prod.case be_constants(3,4) refl_endia
      reverse_reduce le_constants(5,6) [symmetric] fold_constant_def [symmetric]
    by (simp only: barrett_reduce_128)
qed

text \<open>Both compute the CRC for every size, although they are called for long buffers only.\<close>
lemma own_crc32_long_le_eq: "own_crc32_long_le_k0 a len c m = ucast (crc_bytes poly1 (load_bytes m a (unat len)) c)"
  using own_crc32_long_le_long own_crc32_long_le_short by (cases "16 \<le> len") (simp_all only: not_le)

lemma own_crc32_long_be_eq:
  "own_crc32_long_be_k0 a len c m = crc_bytes poly1 (map reverse_u8 (load_bytes m a (unat len))) c"
  using own_crc32_long_be_long own_crc32_long_be_short by (cases "16 \<le> len") (simp_all only: not_le)

section \<open>Entry points\<close>

lemma sint_small: "unat len < 2 ^ 31 \<Longrightarrow> sint (len :: u32) = int (unat len)"
proof -
  assume "unat len < 2 ^ 31"
  then have "int (unat len) < int (2 ^ 31)" by (simp only: of_nat_less_iff)
  then have "- (2 ^ 31) \<le> uint len" "uint len < 2 ^ 31" by (simp_all add: order_trans [OF _ unsigned_greater_eq])
  then show ?thesis using signed_take_bit_int_eq_self [of 31 "uint len"] by (simp add: sint_uint)
qed

lemma full_poly_inject: "full_poly p = full_poly q \<longleftrightarrow> p = q"
proof
  assume eq: "full_poly p = full_poly q"
  show "p = q"
  proof (rule bit_word_eqI)
    fix k assume "k < LENGTH(32)"
    then show "bit p k = bit q k" using bit_full_poly [of p k] bit_full_poly [of q k] eq by simp
  qed
qed simp

lemma default_poly: "push_bit 32 1 OR ucast poly1 = full_poly poly1"
  by (simp add: full_poly_def or.commute)

lemma small_size: "len < 1024 \<Longrightarrow> unat len < 2 ^ 31" for len :: u32
  by (simp add: word_less_nat_alt)

text \<open>
  The AVX-512 CRC. Sizes from \<open>2 ^ 31\<close> on are negative lengths for the routine that serves the
  other polynomials.
\<close>
lemma dml_avx512_crc_eq:
  assumes "polynomial = poly1 \<or> unat n < 2 ^ 31"
  shows "dml_avx512_crc_u32 src n c polynomial m = dml_ref_crc_32u src n c polynomial m"
proof (cases "polynomial = poly1")
  case True
  have "own_CRC_8u_opt_k0 src c (sint n) 32 opt_poly_1_ptr m = crc_bytes poly1 (load_bytes m src (unat n)) c" if "n < 1024"
    unfolding sint_small [OF small_size [OF that]] by (rule own_CRC_8u_opt_k0_eq [OF opt_poly_1_good])
  moreover have "ucast (ucast w :: u64) = w" for w :: u32 by (rule bit_word_eqI) (auto simp: bit_simps)
  ultimately show ?thesis
    unfolding dml_avx512_crc_u32_def dmlc_own_calculate_crc_32u_def own_CRC_8u_k0_def default_poly Let_def
      full_poly_def [symmetric] True own_crc32_long_le_eq dml_ref_crc_eq by simp
next
  case False
  with assms have n: "sint n = int (unat n)" by (intro sint_small) simp
  have "own_CRC_8u_opt_k0 src c (sint n) 32 (own_gen_crc_opt_poly_8u (full_poly polynomial) (replicate 128 0)) m
      = crc_bytes polynomial (load_bytes m src (unat n)) c"
    unfolding n by (rule own_CRC_8u_opt_k0_eq, rule own_gen_good_table) simp
  with False show ?thesis
    unfolding dml_avx512_crc_u32_def dmlc_own_calculate_crc_32u_def own_CRC_8u_k0_def default_poly Let_def
      full_poly_def [symmetric] full_poly_inject getCRCSize_full dml_ref_crc_eq by (simp add: eq_commute)
qed

lemma dml_avx512_crc_reflected_eq:
  assumes "polynomial = poly1 \<or> unat n < 2 ^ 31"
  shows "dml_avx512_crc_reflected_u32 src n c polynomial m = dml_ref_crc_reflected_u32 src n c polynomial m"
proof (cases "polynomial = poly1")
  case True
  have "own_CRC_reflected_8u_opt_k0 src c (sint n) 32 opt_poly_1_ptr m
      = crc_bytes poly1 (map reverse_u8 (load_bytes m src (unat n))) c" if "n < 1024"
    unfolding sint_small [OF small_size [OF that]] by (rule own_CRC_reflected_8u_opt_k0_eq [OF opt_poly_1_good])
  then show ?thesis
    unfolding dml_avx512_crc_reflected_u32_def dmlc_own_calculate_crc_reflected_32u_def own_CRC_reflected_8u_k0_def
      default_poly Let_def full_poly_def [symmetric] True own_crc32_long_be_eq dml_ref_crc_reflected_eq by simp
next
  case False
  with assms have n: "sint n = int (unat n)" by (intro sint_small) simp
  have "own_CRC_reflected_8u_opt_k0 src c (sint n) 32 (own_gen_crc_opt_poly_8u (full_poly polynomial) (replicate 128 0)) m
      = crc_bytes polynomial (map reverse_u8 (load_bytes m src (unat n))) c"
    unfolding n by (rule own_CRC_reflected_8u_opt_k0_eq, rule own_gen_good_table) simp
  with False show ?thesis
    unfolding dml_avx512_crc_reflected_u32_def dmlc_own_calculate_crc_reflected_32u_def own_CRC_reflected_8u_k0_def
      default_poly Let_def full_poly_def [symmetric] full_poly_inject getCRCSize_full dml_ref_crc_reflected_eq
    by (simp add: eq_commute)
qed

lemma sint_large: "2 ^ 31 \<le> unat len \<Longrightarrow> sint (len :: u32) < 0"
proof (rule ccontr)
  assume n: "2 ^ 31 \<le> unat len" and "\<not> sint len < 0"
  then have "\<not> bit len 31" using bit_last_iff [of len] by simp
  then have "k < 31" if "bit len k" for k
    using that bit_imp_le_length [of len k] by (cases "k = 31") auto
  then have "take_bit 31 len = len" by (intro bit_word_eqI) (auto simp: bit_take_bit_iff)
  then have "unat len = take_bit 31 (unat len)" by (metis unsigned_take_bit_eq)
  with n take_bit_nat_less_exp [of 31 "unat len"] show False by linarith
qed

text \<open>With another polynomial only the first byte of such a buffer counts.\<close>
lemma dml_avx512_crc_large:
  assumes "polynomial \<noteq> poly1" "2 ^ 31 \<le> unat n"
  shows "dml_avx512_crc_u32 src n c polynomial m = crc_bytes polynomial [m src] c"
proof -
  have "crc_opt_k0 (\<lambda>x. x) src c (sint n) 32 (own_gen_crc_opt_poly_8u (full_poly polynomial) (replicate 128 0)) m
      = crc_bytes polynomial [m src] c"
    by (rule plain.crc_opt_k0_negative [OF own_gen_good_table sint_large [OF assms(2)]]) simp
  with assms(1) show ?thesis
    unfolding dml_avx512_crc_u32_def dmlc_own_calculate_crc_32u_def own_CRC_8u_k0_def default_poly Let_def
      full_poly_def [symmetric] full_poly_inject getCRCSize_full own_CRC_8u_opt_k0_def by (simp add: eq_commute)
qed

end
