(* ===== verification/DML_Dispatch.thy ===== *)
theory DML_Dispatch
  imports DML_Core_Kernels DML_Avx512_Move DML_Crc_Long
begin

text \<open>
  The dispatch table of a processor with AVX-512 and what the choice changes: nothing but speed,
  as long as the routines are called with sizes they handle. The optimised comparison does not
  return for the largest sizes.
\<close>

section \<open>The table of the optimised routines\<close>

text \<open>
  The routines \<open>dispatcher\<close> installs. An entry means the value of the routine where it returns
  one; \<open>the None\<close> stands for a call that faults or never returns and satisfies no equation.
\<close>
definition avx512_table :: "cpuid_insn \<Rightarrow> (u64 \<Rightarrow> nat \<Rightarrow> u64) \<Rightarrow> dispatch_table" where
  "avx512_table cpuid wide =
     ref_table\<lparr>
       gs_mem_move := (\<lambda>src dst n m.
         the (dml_avx512_mem_move (dml_core_get_cache_size cpuid 0) src dst n m)),
       gs_fill_u64 := (\<lambda>p dst n m. the (dml_avx512_fill_u64 wide p dst n m)),
       gs_compare := (\<lambda>a b n m. the (dml_avx512_compare a b n m)),
       gs_compare_pattern := dml_avx512_compare_pattern,
       gs_crc_u32 := dml_avx512_crc_u32, gs_crc_reflected_u32 := dml_avx512_crc_reflected_u32 \<rparr>"

text \<open>The table the library works with: the constructor run with the extension leaf of the processor.\<close>
definition gs_dispatcher :: "cpuid_insn \<Rightarrow> (u64 \<Rightarrow> nat \<Rightarrow> u64) \<Rightarrow> dispatch_table" where
  "gs_dispatcher cpuid wide =
     dispatcher (avx512_table cpuid wide) (reg_ebx (dml_core_cpuid cpuid 7))"

text \<open>A second call finds the stored size.\<close>
lemma dml_core_get_cache_size_again:
  "dml_core_get_cache_size cpuid (dml_core_get_cache_size cpuid s) = dml_core_get_cache_size cpuid s"
  by (simp add: dml_core_get_cache_size_def)

text \<open>
  Ways and partitions are counted with one added twice: a cache of 8 ways, one partition, lines of
  64 bytes and 64 sets, which holds 32768 bytes, is taken to hold more than twice as much.
\<close>
lemma cache_size_overcounted:
  "this_cache_size \<lparr> reg_eax = 0x21, reg_ebx = 7 * 2 ^ 22 + 63, reg_ecx = 63, reg_edx = 0 \<rparr> = 73728"
  by (simp add: this_cache_size_def)

section \<open>Entries of the selected table\<close>

lemma selected_entries:
  fixes cpuid wide
  defines "T \<equiv> gs_dispatcher cpuid wide"
  shows "gs_create_delta T = dml_ref_create_delta" "gs_apply_delta T = dml_ref_apply_delta"
    "gs_dualcast T = dml_ref_dualcast" "gs_compare_pattern T p src n m = dml_ref_compare_pattern p src n m"
    "unat src + unat n < 2 ^ 64 \<Longrightarrow> unat dst + unat n < 2 ^ 64 \<Longrightarrow>
       gs_mem_move T src dst n m = dml_ref_mem_move src dst n m"
    "wide p 64 \<in> {0, p} \<Longrightarrow> gs_fill_u64 T p dst n m = dml_ref_fill_u64 p dst n m"
    "unat n < 2 ^ 32 - 64 \<Longrightarrow> gs_compare T a b n m = dml_ref_compare a b n m"
    "gs_crc_u32 T src n c crc_polynomial m = dml_ref_crc_32u src n c crc_polynomial m"
    "gs_crc_reflected_u32 T src n c crc_polynomial m = dml_ref_crc_reflected_u32 src n c crc_polynomial m"
  unfolding T_def gs_dispatcher_def dispatcher_def Let_def
  by (simp_all add: avx512_table_def ref_table_def dml_avx512_compare_pattern_eq dml_avx512_mem_move_eq
      dml_avx512_fill_eq dml_avx512_compare_eq dml_avx512_crc_eq dml_avx512_crc_reflected_eq
      crc_polynomial_def D_POLYNOMIAL_1_def)

section \<open>Properties\<close>


text \<open>
  Claim C8: the AVX-512 memory move is the portable one for every size, every alignment of the two
  buffers and every overlap, whatever the cache size: it finishes with the same memory and makes
  no unaligned vector access, for buffers inside the address space.
\<close>
theorem avx512_mem_move_equiv:
  assumes "unat src + unat n < 2 ^ 64" "unat dst + unat n < 2 ^ 64"
  shows "dml_avx512_mem_move cache_size src dst n m = Some (dml_ref_mem_move src dst n m)"
  using assms by (rule dml_avx512_mem_move_eq)

text \<open>
  Claim C27: for the sizes from \<open>2 ^ 32 - 64\<close> on, the counter of the AVX-512 comparison wraps: on
  two regions of \<open>2 ^ 32\<close> equal bytes it never returns, where the portable routine reports equality.
\<close>
theorem avx512_compare_hangs:
  assumes "2 ^ 32 - 64 \<le> unat n" "\<And>k. k < 2 ^ 32 \<Longrightarrow> m (a + word_of_nat k) = m (b + word_of_nat k)"
  shows "dml_avx512_compare a b n m = None \<and> dml_ref_compare a b n m = (0, 0)"
proof
  have "avx512_compare_loop a b 0 n m = None"
    using avx512_compare_loop_diverges [OF assms(2,1), of 0] by (cases "avx512_compare_loop a b 0 n m") auto
  then show "dml_avx512_compare a b n m = None" by (simp add: dml_avx512_compare_def)
  have "load_bytes m a (unat n) = load_bytes m b (unat n)"
    using unat_u32_less [of n] by (intro load_bytes_cong assms(2)) simp
  then show "dml_ref_compare a b n m = (0, 0)"
    by (simp add: dml_ref_compare_eq first_mismatch_None [THEN iffD2])
qed

text \<open>
  Claim C6: the AVX-512 CRC, which folds the data with carry-less products by precomputed powers,
  is the portable one, which shifts in one bit at a time: for every buffer, every initial value
  and every polynomial, for sizes below \<open>2 ^ 31\<close>, and for every size with the polynomial the
  library uses.
\<close>
theorem avx512_crc_equiv:
  assumes "polynomial = D_POLYNOMIAL_1 \<or> unat n < 2 ^ 31"
  shows "dml_avx512_crc_u32 src n crc_value polynomial m = dml_ref_crc_32u src n crc_value polynomial m"
  using assms by (rule dml_avx512_crc_eq)

text \<open>
  Claim C7: the same for the CRC of bit-reflected data, whose routine for long buffers keeps the
  coefficients in the opposite order throughout.
\<close>
theorem avx512_crc_reflected_equiv:
  assumes "polynomial = D_POLYNOMIAL_1 \<or> unat n < 2 ^ 31"
  shows "dml_avx512_crc_reflected_u32 src n crc_value polynomial m
    = dml_ref_crc_reflected_u32 src n crc_value polynomial m"
  using assms by (rule dml_avx512_crc_reflected_eq)

section \<open>Witnesses\<close>

theorem avx512_crc_equiv_witness:
  "dml_avx512_crc_u32 0x1003 0x12345 0xFFFFFFFF D_POLYNOMIAL_1 (\<lambda>a. ucast a)
    = dml_ref_crc_32u 0x1003 0x12345 0xFFFFFFFF D_POLYNOMIAL_1 (\<lambda>a. ucast a)
   \<and> dml_avx512_crc_u32 0x1003 77 0 0x04C11DB7 (\<lambda>a. ucast a) = dml_ref_crc_32u 0x1003 77 0 0x04C11DB7 (\<lambda>a. ucast a)"
  by (intro conjI avx512_crc_equiv) simp_all

theorem avx512_crc_reflected_equiv_witness:
  "dml_avx512_crc_reflected_u32 0x1003 0x12345 0xFFFFFFFF D_POLYNOMIAL_1 (\<lambda>a. ucast a)
    = dml_ref_crc_reflected_u32 0x1003 0x12345 0xFFFFFFFF D_POLYNOMIAL_1 (\<lambda>a. ucast a)"
  by (rule avx512_crc_reflected_equiv) simp

theorem avx512_mem_move_equiv_witness:
  "dml_avx512_mem_move 0 0x1001 0x9003 5 (\<lambda>a. ucast a) = Some (dml_ref_mem_move 0x1001 0x9003 5 (\<lambda>a. ucast a))"
  by (rule avx512_mem_move_equiv) simp_all

theorem avx512_compare_hangs_witness:
  "dml_avx512_compare 0 0x100000000 0xFFFFFFFF (\<lambda>_. 7) = None \<and> dml_ref_compare 0 0x100000000 0xFFFFFFFF (\<lambda>_. 7) = (0, 0)"
  by (rule avx512_compare_hangs) simp_all


end
