(* ===== verification/DML_Heap.thy ===== *)
theory DML_Heap
  imports "HOL-Library.Multiset"
begin

text \<open>
  The heap algorithms of the C++ library that order the work queues of a device: \<open>std::push_heap\<close>
  and \<open>std::sort_heap\<close> on a range, as the loops of the library move elements. Elements are moved,
  not copied, and a move may transfer only a part of an element: \<open>put old new\<close> is the slot \<open>old\<close>
  after \<open>new\<close> was moved into it. The locale \<open>movable\<close> names the part that is transferred; under it
  a pushed range is a heap and a sorted heap is in ascending order.
\<close>

section \<open>The algorithms\<close>

text \<open>Move parents down into the hole until \<open>v\<close> fits.\<close>
function push_up :: "('a \<Rightarrow> int) \<Rightarrow> ('a \<Rightarrow> 'a \<Rightarrow> 'a) \<Rightarrow> nat \<Rightarrow> 'a \<Rightarrow> 'a list \<Rightarrow> 'a list" where
  "push_up key put hole v xs =
     (let parent = (hole - 1) div 2
      in if 0 < hole \<and> key (xs ! parent) < key v
         then push_up key put parent v (xs[hole := put (xs ! hole) (xs ! parent)])
         else xs[hole := put (xs ! hole) v])"
  by pat_completeness auto
termination
  by (relation "measure (\<lambda>(key, put, hole, v, xs). hole)") auto

text \<open>Move the greater child up into the hole while there are two.\<close>
function sink :: "('a \<Rightarrow> int) \<Rightarrow> ('a \<Rightarrow> 'a \<Rightarrow> 'a) \<Rightarrow> nat \<Rightarrow> nat \<Rightarrow> 'a list \<Rightarrow> nat \<times> 'a list" where
  "sink key put len hole xs =
     (if hole < (len - 1) div 2
      then
        let right = 2 * (hole + 1);
            child = (if key (xs ! right) < key (xs ! (right - 1)) then right - 1 else right)
        in sink key put len child (xs[hole := put (xs ! hole) (xs ! child)])
      else (hole, xs))"
  by pat_completeness auto
termination
  by (relation "measure (\<lambda>(key, put, len, hole, xs). len - hole)") auto

declare push_up.simps [simp del] sink.simps [simp del]

definition adjust_heap :: "('a \<Rightarrow> int) \<Rightarrow> ('a \<Rightarrow> 'a \<Rightarrow> 'a) \<Rightarrow> nat \<Rightarrow> 'a \<Rightarrow> 'a list \<Rightarrow> 'a list" where
  "adjust_heap key put len v xs =
     (case sink key put len 0 xs of (hole, ys) \<Rightarrow>
        if even len \<and> 0 < len \<and> hole = (len - 2) div 2
        then let left = 2 * hole + 1
             in push_up key put left v (ys[hole := put (ys ! hole) (ys ! left)])
        else push_up key put hole v ys)"

text \<open>\<open>push_heap(begin, end)\<close>: the last element joins the heap of the others.\<close>
definition push_heap :: "('a \<Rightarrow> int) \<Rightarrow> ('a \<Rightarrow> 'a \<Rightarrow> 'a) \<Rightarrow> 'a list \<Rightarrow> 'a list" where
  "push_heap key put xs =
     (if xs = [] then [] else push_up key put (length xs - 1) (last xs) xs)"

text \<open>\<open>pop_heap\<close> on the first \<open>n\<close> elements: the root goes to their end.\<close>
definition pop_heap :: "('a \<Rightarrow> int) \<Rightarrow> ('a \<Rightarrow> 'a \<Rightarrow> 'a) \<Rightarrow> nat \<Rightarrow> 'a list \<Rightarrow> 'a list" where
  "pop_heap key put n xs =
     adjust_heap key put (n - 1) (xs ! (n - 1)) (xs[n - 1 := put (xs ! (n - 1)) (xs ! 0)])"

fun sort_prefix :: "('a \<Rightarrow> int) \<Rightarrow> ('a \<Rightarrow> 'a \<Rightarrow> 'a) \<Rightarrow> nat \<Rightarrow> 'a list \<Rightarrow> 'a list" where
  "sort_prefix key put 0 xs = xs"
| "sort_prefix key put (Suc n) xs =
     (if n = 0 then xs else sort_prefix key put n (pop_heap key put (Suc n) xs))"

definition sort_heap :: "('a \<Rightarrow> int) \<Rightarrow> ('a \<Rightarrow> 'a \<Rightarrow> 'a) \<Rightarrow> 'a list \<Rightarrow> 'a list" where
  "sort_heap key put xs = sort_prefix key put (length xs) xs"

section \<open>Heaps in arrays\<close>

definition is_heap :: "('a \<Rightarrow> int) \<Rightarrow> nat \<Rightarrow> 'a list \<Rightarrow> bool" where
  "is_heap f n xs \<longleftrightarrow> (\<forall>i. 0 < i \<and> i < n \<longrightarrow> f (xs ! i) \<le> f (xs ! ((i - 1) div 2)))"

text \<open>A heap whose element at \<open>h\<close> does not count.\<close>
definition hole_heap :: "('a \<Rightarrow> int) \<Rightarrow> nat \<Rightarrow> nat \<Rightarrow> 'a list \<Rightarrow> bool" where
  "hole_heap f n h xs \<longleftrightarrow>
     (\<forall>i. 0 < i \<and> i < n \<and> i \<noteq> h \<and> (i - 1) div 2 \<noteq> h \<longrightarrow> f (xs ! i) \<le> f (xs ! ((i - 1) div 2)))
   \<and> (\<forall>i. 0 < i \<and> i < n \<and> (i - 1) div 2 = h \<and> 0 < h \<longrightarrow> f (xs ! i) \<le> f (xs ! ((h - 1) div 2)))"

lemma hole_heapD:
  assumes "hole_heap f n h xs" "0 < i" "i < n"
  shows "i \<noteq> h \<Longrightarrow> (i - 1) div 2 \<noteq> h \<Longrightarrow> f (xs ! i) \<le> f (xs ! ((i - 1) div 2))"
    and "(i - 1) div 2 = h \<Longrightarrow> 0 < h \<Longrightarrow> f (xs ! i) \<le> f (xs ! ((h - 1) div 2))"
  using assms by (auto simp: hole_heap_def)

lemma parent_less: "0 < i \<Longrightarrow> (i - 1) div 2 < (i :: nat)"
  by simp

text \<open>The hole moves down to its greatest child, or up to its parent.\<close>
lemma hole_down:
  assumes hh: "hole_heap f n h xs" and c: "(c - 1) div 2 = h" "0 < c" "c < n" "n \<le> length xs"
    and great: "\<And>i. 0 < i \<Longrightarrow> i < n \<Longrightarrow> (i - 1) div 2 = h \<Longrightarrow> f (xs ! i) \<le> f (xs ! c)"
  shows "hole_heap f n c (xs[h := xs ! c])"
proof -
  let ?ys = "xs[h := xs ! c]"
  have hc: "h < c" using c parent_less by auto
  have nth: "?ys ! i = (if i = h then xs ! c else xs ! i)" for i using hc c by auto
  have one: "f (?ys ! i) \<le> f (?ys ! ((i - 1) div 2))"
    if "0 < i" "i < n" "i \<noteq> c" "(i - 1) div 2 \<noteq> c" for i
  proof (cases "i = h")
    case True
    then have "f (xs ! c) \<le> f (xs ! ((h - 1) div 2))" using hole_heapD(2) [OF hh c(2,3,1)] that by simp
    moreover have "(h - 1) div 2 \<noteq> h" using that True parent_less [of h] by linarith
    ultimately show ?thesis using True nth [of "(i - 1) div 2"] nth [of i] by simp
  next
    case False
    show ?thesis
    proof (cases "(i - 1) div 2 = h")
      case True
      then show ?thesis using False great that nth [of i] nth [of h] by simp
    next
      case ne: False
      then show ?thesis using False hole_heapD(1) [OF hh] that nth by simp
    qed
  qed
  have two: "f (?ys ! i) \<le> f (?ys ! h)" if "0 < i" "i < n" "(i - 1) div 2 = c" for i
  proof -
    have "i \<noteq> h" "c \<noteq> h" using parent_less [OF that(1)] that(3) hc by simp_all
    then have "f (xs ! i) \<le> f (xs ! c)" using hole_heapD(1) [OF hh that(1,2)] that(3) by simp
    then show ?thesis using \<open>i \<noteq> h\<close> nth by simp
  qed
  show ?thesis unfolding hole_heap_def using one two c(1) by blast
qed

lemma hole_up_children:
  assumes hh: "hole_heap f n h xs" and h: "0 < h" "h < n" "n \<le> length xs" and p: "p = (h - 1) div 2"
    and i: "0 < i" "i < n" "(i - 1) div 2 = p"
  shows "f (xs[h := xs ! p] ! i) \<le> f (xs ! p)"
proof (cases "i = h")
  case True
  then show ?thesis using h by simp
next
  case False
  have "p \<noteq> h" using parent_less [OF h(1)] p by simp
  then have "f (xs ! i) \<le> f (xs ! p)" using hole_heapD(1) [OF hh i(1,2) False] i(3) by metis
  then show ?thesis using False by simp
qed

lemma hole_up_others:
  assumes hh: "hole_heap f n h xs" and h: "0 < h" "h < n" "n \<le> length xs" and p: "p = (h - 1) div 2"
    and i: "0 < i" "i < n" "i \<noteq> p" "(i - 1) div 2 \<noteq> p"
  shows "f (xs[h := xs ! p] ! i) \<le> f (xs[h := xs ! p] ! ((i - 1) div 2))"
proof -
  have ne: "i \<noteq> h" using i(4) p by metis
  show ?thesis
  proof (cases "(i - 1) div 2 = h")
    case True
    then have "f (xs ! i) \<le> f (xs ! p)" using hole_heapD(2) [OF hh i(1,2) True h(1)] p by metis
    then show ?thesis using True ne h by simp
  next
    case False
    then have "f (xs ! i) \<le> f (xs ! ((i - 1) div 2))" using hole_heapD(1) [OF hh i(1,2) ne] by metis
    then show ?thesis using False ne by simp
  qed
qed

lemma hole_up:
  assumes hh: "hole_heap f n h xs" and h: "0 < h" "h < n" "n \<le> length xs" and p: "p = (h - 1) div 2"
  shows "hole_heap f n p (xs[h := xs ! p])"
proof -
  let ?ys = "xs[h := xs ! p]"
  have ph: "p < h" using parent_less [OF h(1)] p by metis
  have "f (?ys ! i) \<le> f (?ys ! ((p - 1) div 2))" if i: "0 < i" "i < n" "(i - 1) div 2 = p" "0 < p" for i
  proof -
    have gp: "(p - 1) div 2 < p" using parent_less [OF i(4)] .
    have "f (xs ! p) \<le> f (xs ! ((p - 1) div 2))"
      using hole_heapD(1) [OF hh i(4)] gp ph h(2) by (metis less_trans less_irrefl)
    moreover have "?ys ! ((p - 1) div 2) = xs ! ((p - 1) div 2)"
      using gp ph by (metis less_trans less_irrefl nth_list_update_neq)
    ultimately show ?thesis using hole_up_children [OF assms i(1-3)] by (metis order_trans)
  qed
  then show ?thesis unfolding hole_heap_def using hole_up_others [OF assms] by blast
qed

section \<open>The algorithms on elements that move completely\<close>

abbreviation copy :: "'a \<Rightarrow> 'a \<Rightarrow> 'a" where
  "copy old new \<equiv> new"

lemma mset_move:
  assumes "h < length xs" "p < length xs" "p \<noteq> h"
  shows "mset (xs[h := xs ! p, p := v]) = mset (xs[h := v])"
proof -
  have "mset ((xs[h := v])[p := v, h := xs ! p]) = mset (xs[h := v])"
    using mset_swap [of h "xs[h := v]" p] assms by simp
  moreover have "(xs[h := v])[p := v, h := xs ! p] = xs[h := xs ! p, p := v]"
    using assms by (metis list_update_overwrite list_update_swap)
  ultimately show ?thesis by simp
qed

lemma push_up_step:
  "0 < h \<and> key (xs ! ((h - 1) div 2)) < key v \<Longrightarrow> push_up key put h v xs
    = push_up key put ((h - 1) div 2) v (xs[h := put (xs ! h) (xs ! ((h - 1) div 2))])"
  by (subst push_up.simps) (simp only: Let_def if_True simp_thms)

lemma push_up_stop:
  "\<not> (0 < h \<and> key (xs ! ((h - 1) div 2)) < key v) \<Longrightarrow> push_up key put h v xs = xs[h := put (xs ! h) v]"
  by (subst push_up.simps) (simp only: Let_def if_False)

lemma sink_step:
  "h < (n - 1) div 2 \<Longrightarrow> r = 2 * (h + 1) \<Longrightarrow> c = (if key (xs ! r) < key (xs ! (r - 1)) then r - 1 else r) \<Longrightarrow>
    sink key put n h xs = sink key put n c (xs[h := put (xs ! h) (xs ! c)])"
  by (subst sink.simps) (simp only: Let_def if_True)

lemma length_push_up [simp]: "length (push_up key put h v xs) = length xs"
  by (induction key put h v xs rule: push_up.induct) (subst push_up.simps, simp add: Let_def)

lemma length_push_heap [simp]: "length (push_heap key put xs) = length xs"
  by (simp add: push_heap_def)

lemma push_up_above: "h < i \<Longrightarrow> push_up key put h v xs ! i = xs ! i"
proof (induction key put h v xs rule: push_up.induct)
  case (1 key put h v xs)
  then show ?case
    by (cases "0 < h \<and> key (xs ! ((h - 1) div 2)) < key v")
      (subst push_up.simps, simp add: Let_def less_trans [OF parent_less])+
qed

lemma mset_push_up: "h < length xs \<Longrightarrow> mset (push_up f copy h v xs) = mset (xs[h := v])"
proof (induction f "copy :: 'a \<Rightarrow> 'a \<Rightarrow> 'a" h v xs rule: push_up.induct)
  case (1 f h v xs)
  let ?p = "(h - 1) div 2"
  show ?case
  proof (cases "0 < h \<and> f (xs ! ?p) < f v")
    case True
    then have p: "?p < h" using parent_less by blast
    have "mset (push_up f copy h v xs) = mset (push_up f copy ?p v (xs[h := xs ! ?p]))"
      using push_up_step [OF True] by simp
    also have "\<dots> = mset (xs[h := xs ! ?p, ?p := v])"
      using 1(1) [OF refl True] 1(2) p by simp
    also have "\<dots> = mset (xs[h := v])" using 1(2) p by (intro mset_move) simp_all
    finally show ?thesis .
  next
    case False
    then show ?thesis by (simp only: push_up_stop [OF False])
  qed
qed

lemma push_up_heap:
  assumes "hole_heap f n h xs" "h < n" "n \<le> length xs"
    and "\<And>i. 0 < i \<Longrightarrow> i < n \<Longrightarrow> (i - 1) div 2 = h \<Longrightarrow> f (xs ! i) \<le> f v"
  shows "is_heap f n (push_up f copy h v xs)"
  using assms
proof (induction f "copy :: 'a \<Rightarrow> 'a \<Rightarrow> 'a" h v xs rule: push_up.induct)
  case (1 f h v xs)
  let ?p = "(h - 1) div 2"
  show ?case
  proof (cases "0 < h \<and> f (xs ! ?p) < f v")
    case True
    then have p: "?p < h" using parent_less by blast
    have "is_heap f n (push_up f copy ?p v (xs[h := xs ! ?p]))"
    proof (rule 1(1) [OF refl True])
      show "hole_heap f n ?p (xs[h := xs ! ?p])"
        using hole_up [OF 1(2) _ 1(3,4) refl] True by blast
      show "f (xs[h := xs ! ?p] ! i) \<le> f v" if "0 < i" "i < n" "(i - 1) div 2 = ?p" for i
        using hole_up_children [OF 1(2) _ 1(3,4) refl that] True by (meson le_less_trans less_imp_le)
    qed (use p 1(3,4) in simp_all)
    then show ?thesis by (simp only: push_up_step [OF True])
  next
    case False
    have "f (xs[h := v] ! i) \<le> f (xs[h := v] ! ((i - 1) div 2))" if i: "0 < i" "i < n" for i
    proof -
      have ne: "(i - 1) div 2 \<noteq> i" using parent_less [OF i(1)] by linarith
      consider "i = h" | "i \<noteq> h" "(i - 1) div 2 = h" | "i \<noteq> h" "(i - 1) div 2 \<noteq> h" by blast
      then show ?thesis
      proof cases
        case 1
        then have "f v \<le> f (xs ! ?p)" using False i(1) by (simp add: not_less)
        then show ?thesis using 1 ne i \<open>h < n\<close> \<open>n \<le> length xs\<close> by simp
      next
        case 2
        then show ?thesis using "1.prems"(4) [OF i 2(2)] i \<open>h < n\<close> \<open>n \<le> length xs\<close> by simp
      next
        case 3
        then show ?thesis using hole_heapD(1) [OF "1.prems"(1) i 3] by simp
      qed
    qed
    then show ?thesis unfolding push_up_stop [OF False] is_heap_def by blast
  qed
qed

text \<open>Sinking the hole keeps the heap and ends where at most one child is left.\<close>
lemma sink_heap:
  assumes "hole_heap f n h xs" "h < n" "n \<le> length xs" "sink f copy n h xs = (h', ys)"
  shows "hole_heap f n h' ys \<and> h' < n \<and> (n - 1) div 2 \<le> h' \<and> length ys = length xs
    \<and> mset (ys[h' := v]) = mset (xs[h := v]) \<and> (\<forall>i. n \<le> i \<longrightarrow> ys ! i = xs ! i)"
  using assms
proof (induction f "copy :: 'a \<Rightarrow> 'a \<Rightarrow> 'a" n h xs rule: sink.induct)
  case (1 f n h xs)
  define r where "r = 2 * (h + 1)"
  define c where "c = (if f (xs ! r) < f (xs ! (r - 1)) then r - 1 else r)"
  show ?case
  proof (cases "h < (n - 1) div 2")
    case True
    then have r: "r < n" by (simp add: r_def)
    have c: "(c - 1) div 2 = h" "h < c" "c < n" using r by (auto simp: c_def r_def)
    have great: "f (xs ! i) \<le> f (xs ! c)" if "0 < i" "(i - 1) div 2 = h" for i
    proof -
      have "i = r - 1 \<or> i = r" using that by (auto simp: r_def)
      then show ?thesis by (auto simp: c_def)
    qed
    have hole: "hole_heap f n c (xs[h := xs ! c])"
      using "1.prems" c great by (intro hole_down) auto
    have rec: "sink f copy n c (xs[h := xs ! c]) = (h', ys)"
      using "1.prems"(4) sink_step [OF True r_def c_def, of copy] by simp
    have "mset (xs[h := xs ! c, c := v]) = mset (xs[h := v])"
      using c "1.prems" by (intro mset_move) simp_all
    moreover have "xs[h := xs ! c] ! i = xs ! i" if "n \<le> i" for i using that "1.prems"(2) by simp
    moreover have "n \<le> length (xs[h := xs ! c])" using "1.prems"(3) by simp
    ultimately show ?thesis
      using "1.hyps" [OF True r_def c_def hole c(3) _ rec] by simp
  next
    case False
    then have "h' = h" "ys = xs" using "1.prems"(4) by (auto simp: sink.simps)
    then show ?thesis using "1.prems"(1,2) False by simp
  qed
qed

text \<open>The loop of \<open>adjust_heap\<close> and the step for a single left child leave a hole without children.\<close>
lemma adjust_heap_leaf:
  assumes hole: "hole_heap f n 0 xs" and n: "0 < n" "n \<le> length xs"
    and zs_def: "zs = adjust_heap f copy n v xs"
  shows "\<exists>k ws. zs = push_up f copy k v ws \<and> hole_heap f n k ws \<and> k < n \<and> length ws = length xs
    \<and> mset (ws[k := v]) = mset (xs[0 := v]) \<and> (\<forall>i. n \<le> i \<longrightarrow> ws ! i = xs ! i)
    \<and> (\<forall>i. 0 < i \<and> i < n \<longrightarrow> (i - 1) div 2 \<noteq> k)"
proof -
  obtain h ys where sink: "sink f copy n 0 xs = (h, ys)" by (rule prod.exhaust)
  note s = sink_heap [OF hole n sink, of v]
  show ?thesis
  proof (cases "even n \<and> 0 < n \<and> h = (n - 2) div 2")
    case True
    define l where "l = 2 * h + 1"
    have nh: "n = 2 * h + 2" using True by (auto elim!: evenE)
    have l: "l < n" "(l - 1) div 2 = h" "0 < l" "h < l" "l \<noteq> h" by (auto simp: l_def nh)
    have "f (ys ! i) \<le> f (ys ! l)" if "0 < i" "i < n" "(i - 1) div 2 = h" for i
    proof -
      have "i = l" using that unfolding l_def nh by linarith
      then show ?thesis by simp
    qed
    then have "hole_heap f n l (ys[h := ys ! l])" using s l n by (intro hole_down) auto
    moreover have "mset (ys[h := ys ! l, l := v]) = mset (ys[h := v])"
      using s l n by (intro mset_move) simp_all
    moreover have "(i - 1) div 2 \<noteq> l" if "0 < i" "i < n" for i
      using that(2) unfolding l_def nh by linarith
    ultimately show ?thesis
      using s l True by (intro exI [of _ l] exI [of _ "ys[h := ys ! l]"])
        (simp add: zs_def adjust_heap_def sink l_def)
  next
    case False
    have "(i - 1) div 2 \<noteq> h" if "0 < i" "i < n" for i
    proof
      assume i: "(i - 1) div 2 = h"
      have low: "(n - 1) div 2 \<le> h" using s by blast
      show False
      proof (cases "even n")
        case True
        then obtain b where "n = 2 * b" by (rule evenE)
        then have "h = (n - 2) div 2" using i low that by linarith
        then show False using False True n(1) by blast
      next
        case odd: False
        then obtain b where "n = 2 * b + 1" by (rule oddE)
        then have "b \<le> h" "i - 1 < b * 2" using low that by simp_all
        then show False using i less_mult_imp_div_less [of "i - 1" b 2] by simp
      qed
    qed
    moreover have "zs = push_up f copy h v ys"
      unfolding zs_def adjust_heap_def sink prod.case if_not_P [OF False] ..
    ultimately show ?thesis using s by blast
  qed
qed

lemma adjust_heap_result:
  assumes "hole_heap f n 0 xs" and n: "0 < n" "n \<le> length xs" and "zs = adjust_heap f copy n v xs"
  shows "is_heap f n zs" "mset zs = mset (xs[0 := v])" "length zs = length xs"
    "\<And>i. n \<le> i \<Longrightarrow> zs ! i = xs ! i"
proof -
  obtain k ws where w: "zs = push_up f copy k v ws" "hole_heap f n k ws" "k < n" "length ws = length xs"
    "mset (ws[k := v]) = mset (xs[0 := v])" "\<And>i. n \<le> i \<Longrightarrow> ws ! i = xs ! i"
    "\<And>i. 0 < i \<Longrightarrow> i < n \<Longrightarrow> (i - 1) div 2 \<noteq> k"
    using adjust_heap_leaf [OF assms] by blast
  show "is_heap f n zs" unfolding w(1) by (rule push_up_heap [OF w(2,3)]) (use w(4,7) n(2) in auto)
  show "mset zs = mset (xs[0 := v])" using w n by (simp add: mset_push_up)
  show "length zs = length xs" using w by simp
  show "zs ! i = xs ! i" if "n \<le> i" for i using w that by (simp add: push_up_above)
qed

lemma heap_root: "is_heap f n xs \<Longrightarrow> i < n \<Longrightarrow> f (xs ! i) \<le> f (xs ! 0)"
proof (induction i rule: less_induct)
  case (less i)
  show ?case
  proof (cases "i = 0")
    case False
    then have "f (xs ! i) \<le> f (xs ! ((i - 1) div 2))" using less.prems by (simp add: is_heap_def)
    also have "\<dots> \<le> f (xs ! 0)" using False less parent_less [of i] by simp
    finally show ?thesis .
  qed simp
qed

lemma pop_heap_result:
  assumes heap: "is_heap f (Suc n) xs" and n: "0 < n" "n < length xs"
    and zs_def: "zs = pop_heap f copy (Suc n) xs"
  shows "is_heap f n zs" "mset zs = mset xs" "zs ! n = xs ! 0" "\<And>i. n < i \<Longrightarrow> zs ! i = xs ! i"
proof -
  let ?ys = "xs[n := xs ! 0]"
  have "hole_heap f n 0 ?ys" using heap by (auto simp: hole_heap_def is_heap_def)
  have zs: "zs = adjust_heap f copy n (xs ! n) ?ys" by (simp add: zs_def pop_heap_def)
  note a = adjust_heap_result [OF \<open>hole_heap f n 0 ?ys\<close> n(1) _ zs]
  show "is_heap f n zs" using a(1) n zs by simp
  have "xs \<noteq> []" using n(2) by auto
  then have "mset (xs[n := xs ! 0, 0 := xs ! n]) = mset xs"
    using mset_swap [of n xs 0] n by (simp add: list_update_swap)
  then show "mset zs = mset xs" using a(2) n zs by simp
  show "zs ! n = xs ! 0" using a(4) [of n] n zs by simp
  show "zs ! i = xs ! i" if "n < i" for i using a(4) [of i] n zs that by simp
qed

lemma sort_prefix_result:
  assumes "is_heap f n xs" "n \<le> length xs"
    and "sorted (map f (drop n xs))" "\<And>x y. x \<in> set (take n xs) \<Longrightarrow> y \<in> set (drop n xs) \<Longrightarrow> f x \<le> f y"
  shows "sorted (map f (sort_prefix f copy n xs)) \<and> mset (sort_prefix f copy n xs) = mset xs"
  using assms
proof (induction n arbitrary: xs)
  case (Suc n)
  show ?case
  proof (cases "n = 0")
    case True
    have "xs = take 1 xs @ drop 1 xs" by simp
    moreover have "take 1 xs = [xs ! 0]" using Suc.prems(2) True by (cases xs) simp_all
    ultimately have "map f xs = f (xs ! 0) # map f (drop 1 xs)" by (metis append_Cons append_Nil list.map(2))
    moreover have "f (xs ! 0) \<le> f y" if "y \<in> set (drop 1 xs)" for y
      using Suc.prems(4) [of "xs ! 0" y] that True \<open>take 1 xs = [xs ! 0]\<close> by simp
    ultimately show ?thesis using Suc.prems(3) True by simp
  next
    case False
    define zs where "zs = pop_heap f copy (Suc n) xs"
    have n: "0 < n" "n < length xs" using False Suc.prems(2) by simp_all
    note pop = pop_heap_result [OF Suc.prems(1) n zs_def]
    have len: "length zs = length xs" using pop(2) by (metis size_mset)
    have drop: "drop (Suc n) zs = drop (Suc n) xs"
      using pop(4) len by (intro nth_equalityI) simp_all
    then have "mset (take (Suc n) zs) = mset (take (Suc n) xs)"
      using pop(2) by (metis add_right_cancel append_take_drop_id mset_append)
    then have set: "set (take (Suc n) zs) = set (take (Suc n) xs)" by (rule mset_eq_setD)
    have tail: "drop n zs = xs ! 0 # drop (Suc n) xs"
      using drop pop(3) n len by (metis Cons_nth_drop_Suc)
    have "xs ! 0 \<in> set (take (Suc n) xs)" using n by (cases xs) simp_all
    then have first: "f (xs ! 0) \<le> f y" if "y \<in> set (drop (Suc n) xs)" for y
      using Suc.prems(4) that by blast
    have below: "f x \<le> f (xs ! 0)" if "x \<in> set (take (Suc n) xs)" for x
      using that heap_root [OF Suc.prems(1)] by (auto simp: in_set_conv_nth)
    have "sorted (map f (drop n zs))" using Suc.prems(3) first tail by simp
    moreover have "f x \<le> f y" if "x \<in> set (take n zs)" "y \<in> set (drop n zs)" for x y
    proof -
      have "x \<in> set (take (Suc n) xs)" using that(1) set set_take_subset_set_take [of n "Suc n" zs] by auto
      then show ?thesis using that(2) tail below Suc.prems(4) by auto
    qed
    ultimately show ?thesis
      using Suc.IH [OF pop(1), of] n len pop(2) False by (simp add: zs_def [symmetric])
  qed
qed simp

lemma sort_heap_copy:
  "is_heap f (length xs) xs \<Longrightarrow> sorted (map f (sort_heap f copy xs)) \<and> mset (sort_heap f copy xs) = mset xs"
  unfolding sort_heap_def by (rule sort_prefix_result) simp_all

lemma push_heap_copy:
  assumes "is_heap f (length xs) xs"
  shows "is_heap f (Suc (length xs)) (push_heap f copy (xs @ [x]))" "mset (push_heap f copy (xs @ [x])) = mset (xs @ [x])"
proof -
  have eq: "push_heap f copy (xs @ [x]) = push_up f copy (length xs) x (xs @ [x])"
    by (simp add: push_heap_def)
  have none: "(i - 1) div 2 \<noteq> length xs" "(i - 1) div 2 < length xs" if "0 < i" "i < Suc (length xs)" for i
    using that by linarith+
  have "hole_heap f (Suc (length xs)) (length xs) (xs @ [x])"
    using assms none by (auto simp: hole_heap_def is_heap_def nth_append)
  then show "is_heap f (Suc (length xs)) (push_heap f copy (xs @ [x]))"
    unfolding eq using none by (intro push_up_heap) auto
  show "mset (push_heap f copy (xs @ [x])) = mset (xs @ [x])"
    unfolding eq by (simp add: mset_push_up)
qed

section \<open>Elements that move in part\<close>

text \<open>\<open>content\<close> is what a move transfers; it determines the key.\<close>
locale movable =
  fixes key :: "'a \<Rightarrow> int" and put :: "'a \<Rightarrow> 'a \<Rightarrow> 'a" and content :: "'a \<Rightarrow> 'c" and rank :: "'c \<Rightarrow> int"
  assumes key_content: "key x = rank (content x)"
    and content_put: "content (put old new) = content new"
begin

lemma map_push_up:
  "h < length xs \<Longrightarrow> map content (push_up key put h v xs) = push_up rank copy h (content v) (map content xs)"
proof (induction h arbitrary: xs rule: less_induct)
  case (less h)
  let ?p = "(h - 1) div 2"
  have p: "?p < length xs" using less.prems by linarith
  show ?case
  proof (cases "0 < h \<and> key (xs ! ?p) < key v")
    case True
    then have r: "0 < h \<and> rank (map content xs ! ?p) < rank (content v)" using p by (simp add: key_content)
    show ?thesis
      using less.IH [OF parent_less, of "xs[h := put (xs ! h) (xs ! ?p)]"] True p less.prems
      unfolding push_up_step [OF True] push_up_step [OF r] by (simp add: map_update content_put)
  next
    case False
    then have r: "\<not> (0 < h \<and> rank (map content xs ! ?p) < rank (content v))" using p by (simp add: key_content)
    show ?thesis unfolding push_up_stop [OF False] push_up_stop [OF r] by (simp add: map_update content_put)
  qed
qed

lemma map_sink:
  "n \<le> length xs \<Longrightarrow> h < n \<Longrightarrow> sink rank copy n h (map content xs)
    = (fst (sink key put n h xs), map content (snd (sink key put n h xs)))
    \<and> fst (sink key put n h xs) < n \<and> length (snd (sink key put n h xs)) = length xs"
proof (induction "n - h" arbitrary: h xs rule: less_induct)
  case less
  show ?case
  proof (cases "h < (n - 1) div 2")
    case True
    define r where "r = 2 * (h + 1)"
    define c where "c = (if key (xs ! r) < key (xs ! (r - 1)) then r - 1 else r)"
    have r: "r < n" "r - 1 < n" using True by (simp_all add: r_def)
    have c: "h < c" "c < n" using r by (auto simp: c_def r_def)
    have c': "c = (if rank (map content xs ! r) < rank (map content xs ! (r - 1)) then r - 1 else r)"
      using r less.prems by (simp add: c_def key_content)
    show ?thesis
      using less.hyps [of c "xs[h := put (xs ! h) (xs ! c)]"] c less.prems
      unfolding sink_step [OF True r_def c_def] sink_step [OF True r_def c']
      by (simp add: map_update content_put)
  next
    case False
    then show ?thesis using less.prems by (simp add: sink.simps)
  qed
qed

lemma map_pop_heap:
  assumes "0 < n" "n < length xs"
  shows "map content (pop_heap key put (Suc n) xs) = pop_heap rank copy (Suc n) (map content xs)"
proof -
  let ?ys = "xs[n := put (xs ! n) (xs ! 0)]"
  obtain h zs where sink: "sink key put n 0 ?ys = (h, zs)" by (rule prod.exhaust)
  have m: "sink rank copy n 0 (map content ?ys) = (h, map content zs)" "h < n" "length zs = length xs"
    using map_sink [of n ?ys 0] assms sink by simp_all
  have l: "(map content xs)[n := content (xs ! 0)] = map content ?ys"
    by (simp add: map_update content_put)
  let ?b = "even n \<and> 0 < n \<and> h = (n - 2) div 2"
  have pop: "pop_heap key put (Suc n) xs = (if ?b
      then push_up key put (2 * h + 1) (xs ! n) (zs[h := put (zs ! h) (zs ! (2 * h + 1))])
      else push_up key put h (xs ! n) zs)"
    by (simp add: pop_heap_def adjust_heap_def sink Let_def)
  have plain: "pop_heap rank copy (Suc n) (map content xs) = (if ?b
      then push_up rank copy (2 * h + 1) (content (xs ! n)) ((map content zs)[h := map content zs ! (2 * h + 1)])
      else push_up rank copy h (content (xs ! n)) (map content zs))"
    unfolding pop_heap_def adjust_heap_def diff_Suc_1
    using assms by (simp only: nth_map less_trans l m(1) prod.case Let_def)
  show ?thesis
  proof (cases ?b)
    case True
    then have "2 * h + 1 < length xs" using assms by (auto elim!: evenE)
    then show ?thesis unfolding pop plain using True m
      by (simp only: if_True simp_thms map_push_up length_list_update map_update content_put nth_map)
  next
    case False
    then show ?thesis unfolding pop plain if_not_P [OF False] using m assms by (intro map_push_up) simp
  qed
qed

lemma length_pop_heap:
  "0 < n \<Longrightarrow> n < length xs \<Longrightarrow> length (pop_heap key put (Suc n) xs) = length xs"
  using map_sink [of n "xs[n := put (xs ! n) (xs ! 0)]" 0]
  by (auto simp: pop_heap_def adjust_heap_def Let_def split: prod.split)

lemma length_sort_heap: "length (sort_heap key put xs) = length xs"
proof -
  have "n \<le> length xs \<Longrightarrow> length (sort_prefix key put n xs) = length xs" for n xs
    by (induction n arbitrary: xs) (simp_all add: length_pop_heap)
  then show ?thesis by (simp add: sort_heap_def)
qed

lemma map_sort_prefix:
  "n \<le> length xs \<Longrightarrow> map content (sort_prefix key put n xs) = sort_prefix rank copy n (map content xs)"
  by (induction n arbitrary: xs) (simp_all add: map_pop_heap length_pop_heap)

lemma map_sort_heap: "map content (sort_heap key put xs) = sort_heap rank copy (map content xs)"
  by (simp add: sort_heap_def map_sort_prefix)

lemma map_push_heap: "map content (push_heap key put xs) = push_heap rank copy (map content xs)"
  by (simp add: push_heap_def map_push_up last_map)

end

end
