(* ===== verification/DML_Hw_Init.thy ===== *)
theory DML_Hw_Init
  imports DML_Hardware DML_Heap
begin

text \<open>
  Discovery of the accelerators (\<open>hw_dispatcher.cpp\<close>, \<open>hw_device.cpp\<close>, \<open>hw_queue.cpp\<close>,
  \<open>hw_configuration_driver.c\<close>): loading the configuration library, enumerating devices and work
  queues, ordering the queues of a device, and the state submissions start from. What the library
  and the operating system answer is data: the symbols the library exports, and for each device
  and queue the values its functions return. The memory accesses and calls the code makes without
  a check are values of \<open>init_error\<close>.
\<close>

section \<open>The configuration library (\<open>hw_configuration_driver.c\<close>)\<close>

record accel_library =
  lib_loads :: bool
  lib_has :: "string \<Rightarrow> bool"

definition functions_table :: "string list" where
  "functions_table =
    [''accfg_new'', ''accfg_device_get_first'', ''accfg_device_get_devname'', ''accfg_device_get_next'',
     ''accfg_wq_get_first'', ''accfg_wq_get_next'', ''accfg_wq_get_state'', ''accfg_wq_get_mode'',
     ''accfg_device_get_version'', ''accfg_wq_get_devname'', ''accfg_device_get_state'', ''accfg_unref'',
     ''accfg_device_get_gen_cap'', ''accfg_device_get_numa_node'', ''accfg_wq_get_priority'',
     ''accfg_group_get_first'', ''accfg_group_get_next'', ''accfg_group_get_traffic_class_a'',
     ''accfg_group_get_traffic_class_b'', ''accfg_wq_get_group'', ''accfg_wq_get_group_id'',
     ''accfg_group_get_id'', ''accfg_wq_get_user_dev_path'']"

text \<open>The loop over the table: the verdict, and which entries hold a function afterwards.\<close>
fun own_load_configuration_functions :: "(string \<Rightarrow> bool) \<Rightarrow> string list \<Rightarrow> bool \<times> bool list" where
  "own_load_configuration_functions has [] = (True, [])"
| "own_load_configuration_functions has (function_name # rest) =
     (if has function_name
      then (case own_load_configuration_functions has rest of (ok, loaded) \<Rightarrow> (ok, True # loaded))
      else (False, replicate (length (function_name # rest)) False))"

text \<open>The status, whether a driver instance is kept, and the table.\<close>
definition initialize_accelerator_driver :: "accel_library \<Rightarrow> dml_status \<times> bool \<times> bool list" where
  "initialize_accelerator_driver lib =
     (let status = (if lib_loads lib then DML_STATUS_OK else DML_STATUS_LIBACCEL_NOT_FOUND)
      in if status \<noteq> DML_STATUS_OK then (status, False, replicate (length functions_table) False)
         else case own_load_configuration_functions (lib_has lib) functions_table of (ok, loaded) \<Rightarrow>
           (status, ok, loaded))"

datatype init_error = unusable_function | array_overrun | name_overread

text \<open>A function of the table may be called while the library is loaded and its entry is set.\<close>
definition may_call :: "bool \<Rightarrow> bool list \<Rightarrow> nat \<Rightarrow> bool" where
  "may_call driver loaded i \<longleftrightarrow> driver \<and> loaded ! i"

section \<open>Work queues (\<open>hw_queue.cpp\<close>)\<close>

datatype accfg_wq_state =
  ACCFG_WQ_DISABLED | ACCFG_WQ_ENABLED | ACCFG_WQ_QUIESCING | ACCFG_WQ_LOCKED | ACCFG_WQ_UNKNOWN

datatype accfg_wq_mode = ACCFG_WQ_SHARED | ACCFG_WQ_DEDICATED | ACCFG_WQ_MODE_UNKNOWN

text \<open>What is known of a queue: the last three are the results of \<open>open\<close> and \<open>mmap\<close> on its path, and the
  traffic class of its group, if it has one.\<close>
record accfg_wq =
  wq_state :: accfg_wq_state
  wq_mode :: accfg_wq_mode
  wq_priority :: int
  wq_path_status :: int
  wq_fd :: int
  wq_region :: "addr option"
  wq_group :: "int option"

text \<open>\<open>operator=(hw_queue &&)\<close>: the memory type is not transferred.\<close>
definition move_queue :: "hw_queue \<Rightarrow> hw_queue \<Rightarrow> hw_queue" where
  "move_queue this other =
     this\<lparr> hw_version := hw_version other, hw_priority := hw_priority other,
       portal_mask := portal_mask other, portal_offset := 0 \<rparr>"

definition initialize_new_queue :: "accfg_wq \<Rightarrow> hw_queue \<Rightarrow> dml_status \<times> hw_queue" where
  "initialize_new_queue wq q =
     (if wq_state wq \<noteq> ACCFG_WQ_ENABLED then (DML_STATUS_WORK_QUEUES_NOT_AVAILABLE, q)
      else if wq_mode wq \<noteq> ACCFG_WQ_SHARED then (DML_STATUS_WORK_QUEUES_NOT_AVAILABLE, q)
      else if wq_path_status wq < 0 then (DML_STATUS_LIBACCEL_ERROR, q)
      else if wq_fd wq < 0 then (DML_STATUS_LIBACCEL_ERROR, q)
      else case wq_region wq of
        None \<Rightarrow> (DML_STATUS_LIBACCEL_ERROR, q)
      | Some region_ptr \<Rightarrow>
          (case wq_group wq of
             None \<Rightarrow> (DML_STATUS_LIBACCEL_ERROR, q)
           | Some traffic_class_b \<Rightarrow>
               (DML_STATUS_OK, set_portal_ptr region_ptr
                 (q\<lparr> hw_priority := wq_priority wq,
                     memory_type := (if traffic_class_b \<noteq> 0 then durable else non_durable) \<rparr>))))"

section \<open>Devices (\<open>hw_device.cpp\<close>)\<close>

definition MAX_WORK_QUEUE_COUNT :: nat where "MAX_WORK_QUEUE_COUNT = 8"
definition MAX_DEVICE_COUNT :: nat where "MAX_DEVICE_COUNT = 8"
definition CHAR_MSK :: u32 where "CHAR_MSK = 0xFF202020"
definition DSA_DEVICE_ID :: u32 where "DSA_DEVICE_ID = 0xFF617364"
definition DEVICE_NAME_LENGTH :: nat where "DEVICE_NAME_LENGTH = 2"

text \<open>Reading a C string: its characters, then the terminator, then nothing that may be read.\<close>
definition char_at :: "byte list \<Rightarrow> nat \<Rightarrow> byte option" where
  "char_at name i = (if i < length name then Some (name ! i) else if i = length name then Some 0 else None)"

text \<open>The four bytes read as one word.\<close>
definition candidate_at :: "byte list \<Rightarrow> nat \<Rightarrow> u32 option" where
  "candidate_at name i =
     (case (char_at name i, char_at name (i + 1), char_at name (i + 2), char_at name (i + 3)) of
        (Some a, Some b, Some c, Some d) \<Rightarrow> Some (word_of [a, b, c, d]) | _ \<Rightarrow> None)"

function own_search_device_name :: "byte list \<Rightarrow> u32 \<Rightarrow> nat \<Rightarrow> nat \<Rightarrow> bool option" where
  "own_search_device_name src name name_size symbol_idx =
     (case char_at src (symbol_idx + name_size) of
        None \<Rightarrow> None
      | Some c \<Rightarrow>
          if c = 0 then Some False
          else case candidate_at src symbol_idx of
                 None \<Rightarrow> None
               | Some candidate \<Rightarrow>
                   if name = (candidate OR CHAR_MSK) then Some True
                   else own_search_device_name src name name_size (Suc symbol_idx))"
  by pat_completeness auto
termination
  by (relation "measure (\<lambda>(src, name, name_size, i). Suc (length src) - i)")
    (auto simp: char_at_def split: if_splits)

declare own_search_device_name.simps [simp del]

datatype accfg_device_state = ACCFG_DEVICE_DISABLED | ACCFG_DEVICE_ENABLED | ACCFG_DEVICE_UNKNOWN

record accfg_device =
  device_name :: "byte list"
  device_version :: u32
  device_state :: accfg_device_state
  device_gen_cap :: u64
  device_numa_node :: u64
  device_wqs :: "accfg_wq list"

text \<open>An algorithm on the first \<open>n\<close> elements of an array.\<close>
definition on_prefix :: "nat \<Rightarrow> ('a list \<Rightarrow> 'a list) \<Rightarrow> 'a list \<Rightarrow> 'a list" where
  "on_prefix n f xs = f (take n xs) @ drop n xs"

text \<open>The loop over the work queues; \<open>n\<close> is the position of \<open>wq_it\<close>.\<close>
fun init_queues :: "accfg_wq list \<Rightarrow> hw_queue list \<Rightarrow> nat \<Rightarrow> init_error + hw_queue list \<times> nat" where
  "init_queues [] queues n = Inr (queues, n)"
| "init_queues (wq # rest) queues n =
     (if length queues \<le> n then Inl array_overrun
      else
        let (status, q) = initialize_new_queue wq (queues ! n); queues' = queues[n := q]
        in if status = DML_STATUS_OK
           then init_queues rest (on_prefix (Suc n) (push_heap hw_priority move_queue) queues') (Suc n)
           else init_queues rest queues' n)"

definition initialize_new_device :: "accfg_device \<Rightarrow> hw_device \<Rightarrow> init_error + dml_status \<times> hw_device" where
  "initialize_new_device dev this =
     (case own_search_device_name (device_name dev) DSA_DEVICE_ID DEVICE_NAME_LENGTH 0 of
        None \<Rightarrow> Inl name_overread
      | Some is_dsa_device \<Rightarrow>
          let this1 = this\<lparr> version_major := drop_bit 8 (device_version dev),
                version_minor := device_version dev AND 0xFF \<rparr>
          in if \<not> is_dsa_device \<or> version_major this1 > 2
             then Inr (DML_STATUS_WORK_QUEUES_NOT_AVAILABLE, this1)
             else if device_state dev \<noteq> ACCFG_DEVICE_ENABLED
             then Inr (DML_STATUS_WORK_QUEUES_NOT_AVAILABLE, this1)
             else
               case init_queues (device_wqs dev) (working_queues this1) 0 of
                 Inl e \<Rightarrow> Inl e
               | Inr (queues, n) \<Rightarrow>
                   let queues' = (if n > 1 then on_prefix n (sort_heap hw_priority move_queue) queues else queues);
                       this2 = this1\<lparr> gen_cap_register := device_gen_cap dev,
                         numa_node_id := device_numa_node dev, working_queues := queues', queue_count := n \<rparr>
                   in if n = 0 then Inr (DML_STATUS_WORK_QUEUES_NOT_AVAILABLE, this2)
                      else Inr (DML_STATUS_OK, this2))"

section \<open>Capabilities of a device (\<open>own_dsa_accel_constants.h\<close>, \<open>hw_device.cpp\<close>)\<close>

definition block_on_fault_support :: "hw_device \<Rightarrow> u8" where
  "block_on_fault_support dev = ucast (gen_cap_register dev AND 0x01)"

definition overlapping_copy_support :: "hw_device \<Rightarrow> u8" where
  "overlapping_copy_support dev = ucast (drop_bit 1 (gen_cap_register dev) AND 0x01)"

definition memory_cache_control_support :: "hw_device \<Rightarrow> u8" where
  "memory_cache_control_support dev = ucast (drop_bit 2 (gen_cap_register dev) AND 0x01)"

definition flush_cache_control_support :: "hw_device \<Rightarrow> u8" where
  "flush_cache_control_support dev = ucast (drop_bit 3 (gen_cap_register dev) AND 0x01)"

definition destination_readback_support :: "hw_device \<Rightarrow> u8" where
  "destination_readback_support dev = ucast (drop_bit 8 (gen_cap_register dev) AND 0x01)"

definition descriptor_readback_support :: "hw_device \<Rightarrow> u8" where
  "descriptor_readback_support dev = ucast (drop_bit 9 (gen_cap_register dev) AND 0x01)"

definition max_transfer_size :: "hw_device \<Rightarrow> u32" where
  "max_transfer_size dev = push_bit (unat (drop_bit 16 (gen_cap_register dev) AND 0x1F)) 1"

definition max_batch_size :: "hw_device \<Rightarrow> u32" where
  "max_batch_size dev = push_bit (unat (drop_bit 21 (gen_cap_register dev) AND 0x0F)) 1"

definition message_size :: "hw_device \<Rightarrow> u16" where
  "message_size dev = ucast ((drop_bit 25 (gen_cap_register dev) AND 0x3F) * 256)"

definition configuration_support :: "hw_device \<Rightarrow> u8" where
  "configuration_support dev = ucast (drop_bit 31 (gen_cap_register dev) AND 0x01)"

record hw_gen_cap =
  cap_max_transfer_size :: u32
  cap_max_batch_size :: u32
  cap_message_size :: u16
  cap_descriptor_readback_support :: u8
  cap_memory_cache_control_support :: u8
  cap_destination_readback_support :: u8
  cap_flush_cache_control_support :: u8
  cap_overlapping_copy_support :: u8
  cap_block_on_fault_support :: u8
  cap_configuration_support :: u8

definition fill_hw_context :: "hw_device \<Rightarrow> hw_gen_cap" where
  "fill_hw_context dev = \<lparr>
     cap_max_transfer_size = max_transfer_size dev,
     cap_max_batch_size = max_batch_size dev,
     cap_message_size = message_size dev,
     cap_descriptor_readback_support = descriptor_readback_support dev,
     cap_memory_cache_control_support = memory_cache_control_support dev,
     cap_destination_readback_support = destination_readback_support dev,
     cap_flush_cache_control_support = flush_cache_control_support dev,
     cap_overlapping_copy_support = overlapping_copy_support dev,
     cap_block_on_fault_support = block_on_fault_support dev,
     cap_configuration_support = configuration_support dev \<rparr>"

section \<open>The dispatcher (\<open>hw_dispatcher.cpp\<close>)\<close>

text \<open>The members a fresh object has.\<close>
definition new_queue :: hw_queue where
  "new_queue = \<lparr> hw_version = 0, hw_priority = 0, memory_type = non_durable, portal_mask = 0, portal_offset = 0 \<rparr>"

definition new_device :: hw_device where
  "new_device = \<lparr> working_queues = replicate MAX_WORK_QUEUE_COUNT new_queue, queue_count = 0,
     gen_cap_register = 0, numa_node_id = 0, version_major = 0, version_minor = 0 \<rparr>"

record hw_dispatcher =
  driver_loaded :: bool
  context_set :: bool
  dispatcher_devices :: "hw_device list"
  device_count :: nat
  dispatcher_hw_support :: bool
  hw_init_status :: dml_status

text \<open>The loop over the devices; \<open>n\<close> is the position of \<open>device_it\<close>.\<close>
fun init_devices :: "accfg_device list \<Rightarrow> hw_device list \<Rightarrow> nat \<Rightarrow> init_error + hw_device list \<times> nat" where
  "init_devices [] devs n = Inr (devs, n)"
| "init_devices (dev # rest) devs n =
     (if length devs \<le> n then Inl array_overrun
      else case initialize_new_device dev (devs ! n) of
        Inl e \<Rightarrow> Inl e
      | Inr (status, device) \<Rightarrow>
          init_devices rest (devs[n := device]) (if status = DML_STATUS_OK then Suc n else n))"

text \<open>\<open>initialize_hw\<close>: \<open>new_context\<close> is what \<open>accfg_new\<close> returns, \<open>found\<close> the devices of the context.\<close>
definition initialize_hw :: "accel_library \<Rightarrow> int \<Rightarrow> accfg_device list \<Rightarrow> hw_dispatcher
    \<Rightarrow> init_error + dml_status \<times> hw_dispatcher" where
  "initialize_hw lib new_context found this =
     (case initialize_accelerator_driver lib of (status, driver, loaded) \<Rightarrow>
        let this1 = this\<lparr> driver_loaded := driver \<rparr>
        in if status \<noteq> DML_STATUS_OK then Inr (status, this1)
           else if \<not> may_call driver loaded 0 then Inl unusable_function
           else if new_context \<noteq> 0 then Inr (DML_STATUS_LIBACCEL_ERROR, this1)
           else case init_devices found (dispatcher_devices this1) 0 of
             Inl e \<Rightarrow> Inl e
           | Inr (devs, n) \<Rightarrow>
               let this2 = this1\<lparr> dispatcher_devices := devs, device_count := n \<rparr>
               in if n = 0 then Inr (DML_STATUS_WORK_QUEUES_NOT_AVAILABLE, this2)
                  else Inr (DML_STATUS_OK, this2\<lparr> context_set := True \<rparr>))"

text \<open>The constructor of the only instance.\<close>
definition make_hw_dispatcher :: "accel_library \<Rightarrow> int \<Rightarrow> accfg_device list \<Rightarrow> init_error + hw_dispatcher" where
  "make_hw_dispatcher lib new_context found =
     (case initialize_hw lib new_context found
         \<lparr> driver_loaded = False, context_set = False, dispatcher_devices = replicate MAX_DEVICE_COUNT new_device,
           device_count = 0, dispatcher_hw_support = False, hw_init_status = DML_STATUS_OK \<rparr> of
        Inl e \<Rightarrow> Inl e
      | Inr (status, this) \<Rightarrow>
          Inr (this\<lparr> hw_init_status := status, dispatcher_hw_support := (status = DML_STATUS_OK) \<rparr>))"

text \<open>What submissions see of the dispatcher, before the first of a thread.\<close>
definition initial_hw_state :: "hw_dispatcher \<Rightarrow> 'h \<Rightarrow> 'h hw_state" where
  "initial_hw_state disp env = \<lparr> devices = take (device_count disp) (dispatcher_devices disp),
     hw_support = dispatcher_hw_support disp, last_wq_idx = None, current_device_idx = 0, hw_env = env \<rparr>"

section \<open>Loading the library\<close>

lemma own_load_result: "fst (own_load_configuration_functions has names) \<longleftrightarrow> (\<forall>n \<in> set names. has n)"
  by (induction names) (auto split: prod.split)

text \<open>
  Claim C39: when the configuration library can be loaded but lacks a function, the library is closed
  again and yet the driver reports success; the initialisation of the hardware then calls through
  the table into the closed library.
\<close>
theorem missing_function_unnoticed:
  assumes "lib_loads lib" "name \<in> set functions_table" "\<not> lib_has lib name"
  shows "(\<exists>loaded. initialize_accelerator_driver lib = (DML_STATUS_OK, False, loaded))
    \<and> make_hw_dispatcher lib new_context found = Inl unusable_function"
proof -
  obtain ok loaded where load: "own_load_configuration_functions (lib_has lib) functions_table = (ok, loaded)"
    by (rule prod.exhaust)
  then have "\<not> ok" using own_load_result [of "lib_has lib" functions_table] assms(2,3) by auto
  then have "initialize_accelerator_driver lib = (DML_STATUS_OK, False, loaded)"
    using load assms(1) by (simp add: initialize_accelerator_driver_def)
  then show ?thesis
    by (simp add: make_hw_dispatcher_def initialize_hw_def may_call_def)
qed

theorem missing_function_unnoticed_witness:
  "make_hw_dispatcher \<lparr> lib_loads = True, lib_has = \<lambda>n. n \<noteq> ''accfg_unref'' \<rparr> 0 [] = Inl unusable_function"
  using missing_function_unnoticed [of "\<lparr> lib_loads = True, lib_has = \<lambda>n. n \<noteq> ''accfg_unref'' \<rparr>" "''accfg_unref''" 0 "[]"]
  by (simp add: functions_table_def)

section \<open>Recognising a device\<close>

text \<open>The letters \<open>dsa\<close> at a position, in upper or lower case.\<close>
definition dsa_at :: "byte list \<Rightarrow> nat \<Rightarrow> bool" where
  "dsa_at name i \<longleftrightarrow> i + 3 \<le> length name
     \<and> name ! i \<in> {0x64, 0x44} \<and> name ! (i + 1) \<in> {0x73, 0x53} \<and> name ! (i + 2) \<in> {0x61, 0x41}"

lemma u8_eq_iff: "(x :: u8) = y \<longleftrightarrow> (\<forall>i<8. bit x i = bit y i)"
  using bit_word_eqI [of x y] by auto

lemma or_letter:
  fixes a l :: u8
  assumes "l AND 0x20 = 0x20"
  shows "l = a OR 0x20 \<longleftrightarrow> a = l \<or> a = l AND NOT 0x20"
proof -
  have b: "bit (0x20 :: u8) i \<longleftrightarrow> i = 5" for i
    using bit_push_bit_iff [of 5 "1 :: u8" i] by (auto simp: bit_1_iff push_bit_eq_mult)
  have l5: "bit l 5" using assms b bit_eq_iff [of "l AND 0x20" "0x20"] by (metis bit_and_iff)
  have bits: "bit (a OR 0x20) i \<longleftrightarrow> bit a i \<or> i = 5" "bit (l AND NOT 0x20) i \<longleftrightarrow> bit l i \<and> i \<noteq> 5" if "i < 8" for i
    using that by (simp_all only: bit_or_iff bit_and_iff bit_not_iff_eq b) (auto simp: word_size)
  have "l = a OR 0x20 \<longleftrightarrow> (\<forall>i<8. bit l i = (bit a i \<or> i = 5))"
    using bits(1) by (simp add: u8_eq_iff)
  moreover have "a = l \<longleftrightarrow> (\<forall>i<8. bit a i = bit l i)" by (simp add: u8_eq_iff)
  moreover have "a = l AND NOT 0x20 \<longleftrightarrow> (\<forall>i<8. bit a i = (bit l i \<and> i \<noteq> 5))"
    using bits(2) by (simp add: u8_eq_iff)
  ultimately show ?thesis using l5 by auto
qed

lemma word_of_or:
  assumes "length xs = length ys"
  shows "(word_of xs OR word_of ys :: u32) = word_of (map2 (OR) xs ys)"
  by (rule bit_word_eqI) (use assms in \<open>auto simp: bit_or_iff bit_word_of nth_append\<close>)

lemma word_of_eq_iff:
  assumes "length xs = 4" "length ys = 4"
  shows "(word_of xs :: u32) = word_of ys \<longleftrightarrow> xs = ys"
proof -
  have "bytes_of (word_of xs :: u32) = xs" "bytes_of (word_of ys :: u32) = ys"
    using assms by (simp_all add: bytes_of_word_of)
  then show ?thesis by metis
qed

lemma or_all_ones: "(0xFF :: u8) = d OR 0xFF"
proof -
  have e: "(0xFF :: u8) = - 1" by simp
  show ?thesis unfolding e by simp
qed

lemma letters: "(0x64 :: u8) = a OR 0x20 \<longleftrightarrow> a \<in> {0x64, 0x44}" "(0x73 :: u8) = a OR 0x20 \<longleftrightarrow> a \<in> {0x73, 0x53}"
  "(0x61 :: u8) = a OR 0x20 \<longleftrightarrow> a \<in> {0x61, 0x41}"
  using or_letter [of "0x64" a] or_letter [of "0x73" a] or_letter [of "0x61" a] by simp_all

lemma candidate_matches:
  "DSA_DEVICE_ID = (word_of [a, b, c, d] OR CHAR_MSK)
    \<longleftrightarrow> a \<in> {0x64, 0x44} \<and> b \<in> {0x73, 0x53} \<and> c \<in> {0x61, 0x41}"
proof -
  let ?m = "[0x20, 0x20, 0x20, 0xFF] :: byte list" and ?l = "[0x64, 0x73, 0x61, 0xFF] :: byte list"
  have const: "CHAR_MSK = word_of ?m" "DSA_DEVICE_ID = word_of ?l"
    by (simp_all add: CHAR_MSK_def DSA_DEVICE_ID_def)
  have "(word_of [a, b, c, d] OR word_of ?m :: u32) = word_of (map2 (OR) [a, b, c, d] ?m)"
    by (rule word_of_or) simp
  then have "DSA_DEVICE_ID = (word_of [a, b, c, d] OR CHAR_MSK) \<longleftrightarrow> ?l = map2 (OR) [a, b, c, d] ?m"
    unfolding const using word_of_eq_iff [of ?l "map2 (OR) [a, b, c, d] ?m"] by (simp only: list.size length_map length_zip)
  also have "\<dots> \<longleftrightarrow> 0x64 = a OR 0x20 \<and> 0x73 = b OR 0x20 \<and> 0x61 = c OR 0x20 \<and> 0xFF = d OR 0xFF"
    by (simp only: zip_Cons_Cons zip_Nil list.map prod.case list.inject simp_thms)
  finally show ?thesis unfolding letters using or_all_ones by metis
qed

text \<open>
  A device is taken for an accelerator exactly when its name contains the letters \<open>dsa\<close>, in either
  case; a name shorter than two characters makes the search read behind its terminator.
\<close>
lemma search_device_name:
  assumes "0 \<notin> set name"
  shows "own_search_device_name name DSA_DEVICE_ID DEVICE_NAME_LENGTH i
    = (if length name < i + 2 then None else Some (\<exists>k\<ge>i. dsa_at name k))"
proof (induction "length name - i" arbitrary: i)
  case 0
  then show ?case
    by (subst own_search_device_name.simps) (auto simp: DEVICE_NAME_LENGTH_def char_at_def dsa_at_def)
next
  case (Suc x)
  consider "length name < i + 2" | "length name = i + 2" | "i + 2 < length name" by linarith
  then show ?case
  proof cases
    case 1
    then show ?thesis
      by (subst own_search_device_name.simps) (simp add: DEVICE_NAME_LENGTH_def char_at_def)
  next
    case 2
    then show ?thesis
      by (subst own_search_device_name.simps) (auto simp: DEVICE_NAME_LENGTH_def char_at_def dsa_at_def)
  next
    case 3
    have c: "name ! (i + 2) \<noteq> 0" using nth_mem [OF 3] assms by auto
    obtain d where cand: "candidate_at name i = Some (word_of [name ! i, name ! (i + 1), name ! (i + 2), d])"
    proof (rule that)
      show "candidate_at name i = Some (word_of [name ! i, name ! (i + 1), name ! (i + 2),
          if i + 3 < length name then name ! (i + 3) else 0])"
        using 3 unfolding candidate_at_def char_at_def by (simp del: word_of.simps)
    qed
    have here: "DSA_DEVICE_ID = (word_of [name ! i, name ! (i + 1), name ! (i + 2), d] OR CHAR_MSK) \<longleftrightarrow> dsa_at name i"
      using 3 unfolding candidate_matches dsa_at_def by simp
    have "own_search_device_name name DSA_DEVICE_ID DEVICE_NAME_LENGTH (Suc i) = Some (\<exists>k\<ge>Suc i. dsa_at name k)"
      using Suc.hyps(1) [of "Suc i"] Suc.hyps(2) 3 by simp
    moreover have "(\<exists>k\<ge>i. dsa_at name k) \<longleftrightarrow> dsa_at name i \<or> (\<exists>k\<ge>Suc i. dsa_at name k)"
      by (auto simp: Suc_le_eq intro: less_imp_le) (metis le_neq_implies_less)
    ultimately show ?thesis
      using 3 c cand here by (subst own_search_device_name.simps)
        (simp add: DEVICE_NAME_LENGTH_def char_at_def del: word_of.simps)
  qed
qed

section \<open>The queues of a device\<close>

text \<open>What a move of a queue transfers and what a queue is made from.\<close>
definition queue_content :: "hw_queue \<Rightarrow> int \<times> addr" where
  "queue_content q = (hw_priority q, portal_mask q)"

definition wq_usable :: "accfg_wq \<Rightarrow> bool" where
  "wq_usable wq \<longleftrightarrow> wq_state wq = ACCFG_WQ_ENABLED \<and> wq_mode wq = ACCFG_WQ_SHARED \<and> 0 \<le> wq_path_status wq
     \<and> 0 \<le> wq_fd wq \<and> wq_region wq \<noteq> None \<and> wq_group wq \<noteq> None"

definition wq_content :: "accfg_wq \<Rightarrow> int \<times> addr" where
  "wq_content wq = (wq_priority wq, the (wq_region wq) AND NOT OWN_PAGE_MASK)"

interpretation queues: movable hw_priority move_queue queue_content fst
  by unfold_locales (simp_all add: queue_content_def move_queue_def)

lemma initialize_new_queue_result:
  "fst (initialize_new_queue wq q) = DML_STATUS_OK \<longleftrightarrow> wq_usable wq"
  "wq_usable wq \<Longrightarrow> queue_content (snd (initialize_new_queue wq q)) = wq_content wq"
  "\<not> wq_usable wq \<Longrightarrow> snd (initialize_new_queue wq q) = q"
  by (auto simp: initialize_new_queue_def wq_usable_def queue_content_def wq_content_def set_portal_ptr_def
      split: option.splits)

text \<open>The prefix of used slots as a list of contents.\<close>
abbreviation contents :: "nat \<Rightarrow> hw_queue list \<Rightarrow> (int \<times> addr) list" where
  "contents n qs \<equiv> map queue_content (take n qs)"

lemma init_queues_result:
  assumes "init_queues wqs qs n = Inr (qs', n')" "n \<le> length qs" "is_heap fst n (contents n qs)"
  shows "length qs' = length qs \<and> n' = n + length (filter wq_usable wqs) \<and> n' \<le> length qs
    \<and> is_heap fst n' (contents n' qs')
    \<and> mset (contents n' qs') = mset (contents n qs) + mset (map wq_content (filter wq_usable wqs))"
  using assms
proof (induction wqs arbitrary: qs n)
  case (Cons wq wqs)
  obtain status q where init: "initialize_new_queue wq (qs ! n) = (status, q)" by (rule prod.exhaust)
  note q = initialize_new_queue_result [of wq "qs ! n", unfolded init fst_conv snd_conv]
  have n: "n < length qs" using Cons.prems(1) by (simp split: if_splits)
  show ?case
  proof (cases "wq_usable wq")
    case False
    then have "init_queues wqs qs n = Inr (qs', n')"
      using Cons.prems(1) n q by (simp add: init)
    then show ?thesis using Cons.IH Cons.prems(2,3) False by simp
  next
    case True
    define ps where "ps = push_heap hw_priority move_queue (take n qs @ [q])"
    have on: "on_prefix (Suc n) (push_heap hw_priority move_queue) (qs[n := q]) = ps @ drop (Suc n) qs"
      using n by (simp add: on_prefix_def ps_def take_Suc_conv_app_nth drop_update_cancel)
    have len: "length ps = Suc n" using n by (simp add: ps_def)
    have m: "map queue_content ps = push_heap fst copy (contents n qs @ [wq_content wq])"
      using q True by (simp add: ps_def queues.map_push_heap)
    have run: "init_queues wqs (ps @ drop (Suc n) qs) (Suc n) = Inr (qs', n')"
      using Cons.prems(1) n q True on by (simp add: init)
    have l: "length (contents n qs) = n" using n by simp
    have "is_heap fst (Suc n) (contents (Suc n) (ps @ drop (Suc n) qs))"
      "mset (contents (Suc n) (ps @ drop (Suc n) qs)) = mset (contents n qs @ [wq_content wq])"
      using push_heap_copy [of fst "contents n qs" "wq_content wq"] Cons.prems(3) l len m by simp_all
    moreover have "length (ps @ drop (Suc n) qs) = length qs" using n len by simp
    ultimately show ?thesis using Cons.IH [OF run] n True by (auto simp del: length_append)
  qed
qed simp

lemma init_queues_fits:
  "n + length wqs \<le> length qs \<Longrightarrow> \<exists>r. init_queues wqs qs n = Inr r"
  by (induction wqs arbitrary: qs n) (auto simp: on_prefix_def Let_def split: prod.split)

text \<open>A device as its initialisation leaves it for submissions.\<close>
definition device_ready :: "accfg_device \<Rightarrow> hw_device \<Rightarrow> bool" where
  "device_ready dev d \<longleftrightarrow> 0 < queue_count d \<and> queue_count d \<le> length (working_queues d)
     \<and> sorted (map hw_priority (take (queue_count d) (working_queues d)))
     \<and> mset (contents (queue_count d) (working_queues d)) = mset (map wq_content (filter wq_usable (device_wqs dev)))
     \<and> numa_node_id d = device_numa_node dev \<and> gen_cap_register d = device_gen_cap dev"

lemma sorted_queues:
  assumes "is_heap fst n (contents n qs)" "n \<le> length qs"
  defines "qs' \<equiv> if n > 1 then on_prefix n (sort_heap hw_priority move_queue) qs else qs"
  shows "length qs' = length qs" "sorted (map hw_priority (take n qs'))" "mset (contents n qs') = mset (contents n qs)"
proof -
  let ?s = "sort_heap hw_priority move_queue (take n qs)"
  have len: "length ?s = n" using assms(2) by (simp add: queues.length_sort_heap)
  have "sorted (map fst (map queue_content ?s)) \<and> mset (map queue_content ?s) = mset (contents n qs)"
    unfolding queues.map_sort_heap using assms(1,2) by (intro sort_heap_copy) simp
  then have s: "sorted (map hw_priority ?s)" "mset (map queue_content ?s) = mset (contents n qs)"
    by (simp_all add: queue_content_def comp_def)
  have few: "sorted (map hw_priority (take n qs))" if "\<not> n > 1"
    using that by (intro sorted01) simp
  show "length qs' = length qs" using assms(2) len by (simp add: qs'_def on_prefix_def)
  show "sorted (map hw_priority (take n qs'))" using s len few by (simp add: qs'_def on_prefix_def)
  show "mset (contents n qs') = mset (contents n qs)" using s len by (simp add: qs'_def on_prefix_def)
qed

text \<open>An enabled accelerator of a supported version with a usable queue.\<close>
definition device_accepted :: "accfg_device \<Rightarrow> bool" where
  "device_accepted dev \<longleftrightarrow> (\<exists>k. dsa_at (device_name dev) k) \<and> drop_bit 8 (device_version dev) \<le> 2
     \<and> device_state dev = ACCFG_DEVICE_ENABLED \<and> (\<exists>wq \<in> set (device_wqs dev). wq_usable wq)"

lemma initialize_new_device_result:
  assumes "initialize_new_device dev this = Inr (status, d)" "0 \<notin> set (device_name dev)"
  shows "(status = DML_STATUS_OK \<longleftrightarrow> device_accepted dev)
    \<and> (status = DML_STATUS_OK \<longrightarrow> device_ready dev d)
    \<and> length (working_queues d) = length (working_queues this)"
proof -
  let ?dsa = "\<exists>k. dsa_at (device_name dev) k"
  have search: "own_search_device_name (device_name dev) DSA_DEVICE_ID DEVICE_NAME_LENGTH 0 = Some ?dsa"
    using assms(1) search_device_name [OF assms(2), of 0]
    by (auto simp: initialize_new_device_def split: if_splits)
  show ?thesis
  proof (cases "?dsa \<and> drop_bit 8 (device_version dev) \<le> 2 \<and> device_state dev = ACCFG_DEVICE_ENABLED")
    case False
    then have "status = DML_STATUS_WORK_QUEUES_NOT_AVAILABLE" "working_queues d = working_queues this"
      using assms(1) search by (auto simp: initialize_new_device_def Let_def not_le split: if_splits)
    then show ?thesis using False by (auto simp: device_accepted_def)
  next
    case True
    then have dsa: "?dsa" and ver: "\<not> 2 < drop_bit 8 (device_version dev)" and on: "device_state dev = ACCFG_DEVICE_ENABLED"
      by (simp_all add: not_less)
    obtain qs n where init: "init_queues (device_wqs dev) (working_queues this) 0 = Inr (qs, n)"
      using assms(1) search dsa ver on
      by (cases "init_queues (device_wqs dev) (working_queues this) 0")
        (auto simp: initialize_new_device_def Let_def)
    have r: "length qs = length (working_queues this)" "n = length (filter wq_usable (device_wqs dev))"
      "n \<le> length qs" "is_heap fst n (contents n qs)"
      "mset (contents n qs) = mset (map wq_content (filter wq_usable (device_wqs dev)))"
      using init_queues_result [OF init le0] unfolding take_0 list.map mset.simps add_0 by (auto simp: is_heap_def)
    note q = sorted_queues [OF r(4,3)]
    have "n = 0 \<longleftrightarrow> \<not> (\<exists>wq \<in> set (device_wqs dev). wq_usable wq)" using r(2) by (auto simp: filter_empty_conv)
    moreover have "status = (if n = 0 then DML_STATUS_WORK_QUEUES_NOT_AVAILABLE else DML_STATUS_OK)"
      "working_queues d = (if n > 1 then on_prefix n (sort_heap hw_priority move_queue) qs else qs)"
      "queue_count d = n" "numa_node_id d = device_numa_node dev" "gen_cap_register d = device_gen_cap dev"
      using assms(1) search dsa ver on init by (auto simp: initialize_new_device_def Let_def split: if_splits)
    ultimately show ?thesis using True q r by (auto simp: device_ready_def device_accepted_def)
  qed
qed

section \<open>The devices of the dispatcher\<close>

lemma init_devices_result:
  assumes "init_devices found devs n = Inr (devs', n')" "n \<le> length devs"
    and "\<And>dev. dev \<in> set found \<Longrightarrow> 0 \<notin> set (device_name dev)"
  shows "length devs' = length devs \<and> n \<le> n' \<and> n' \<le> length devs \<and> take n devs' = take n devs
    \<and> list_all2 device_ready (filter device_accepted found) (drop n (take n' devs'))"
  using assms
proof (induction found arbitrary: devs n)
  case (Cons dev found)
  have n: "n < length devs" using Cons.prems(1) by (simp split: if_splits)
  obtain status d where init: "initialize_new_device dev (devs ! n) = Inr (status, d)"
    using Cons.prems(1) n by (auto split: sum.splits)
  note d = initialize_new_device_result [OF init] Cons.prems(3) [of dev]
  let ?k = "if status = DML_STATUS_OK then Suc n else n"
  have "init_devices found (devs[n := d]) ?k = Inr (devs', n')"
    using Cons.prems(1) n init by simp
  note ih = Cons.IH [OF this]
  show ?case
  proof (cases "status = DML_STATUS_OK")
    case True
    then have ih': "length devs' = length devs" "Suc n \<le> n'" "n' \<le> length devs" "take (Suc n) devs' = take (Suc n) (devs[n := d])"
      "list_all2 device_ready (filter device_accepted found) (drop (Suc n) (take n' devs'))"
      using ih n Cons.prems(3) by simp_all
    then have "take n devs' = take n devs" "devs' ! n = d"
      using n by (metis list_update_beyond min.absorb1 order_refl take_take take_update_cancel lessI less_imp_le_nat,
        metis lessI nth_list_update_eq nth_take)
    moreover have "drop n (take n' devs') = devs' ! n # drop (Suc n) (take n' devs')"
      using ih'(1-3) n by (simp add: Cons_nth_drop_Suc [symmetric])
    ultimately show ?thesis using ih' d True by simp
  next
    case False
    then have "length devs' = length devs \<and> n \<le> n' \<and> n' \<le> length devs \<and> take n devs' = take n devs
      \<and> list_all2 device_ready (filter device_accepted found) (drop n (take n' devs'))"
      using ih n Cons.prems(3) by simp
    moreover have "\<not> device_accepted dev" using d False by simp
    ultimately show ?thesis by simp
  qed
qed simp

lemma dispatcher_result:
  assumes "make_hw_dispatcher lib new_context found = Inr disp"
    and "\<And>dev. dev \<in> set found \<Longrightarrow> 0 \<notin> set (device_name dev)"
    and "S = initial_hw_state disp env"
  shows "(hw_support S \<longleftrightarrow> lib_loads lib \<and> new_context = 0 \<and> (\<exists>dev \<in> set found. device_accepted dev))
    \<and> (hw_support S \<longrightarrow> list_all2 device_ready (filter device_accepted found) (devices S))"
proof (cases "lib_loads lib \<and> new_context = 0")
  case False
  then show ?thesis
    using assms(1,3) by (auto simp: make_hw_dispatcher_def initialize_hw_def initialize_accelerator_driver_def
        initial_hw_state_def Let_def split: prod.splits if_splits)
next
  case True
  obtain drv loaded where load: "initialize_accelerator_driver lib = (DML_STATUS_OK, drv, loaded)"
    using True by (cases "own_load_configuration_functions (lib_has lib) functions_table")
      (auto simp: initialize_accelerator_driver_def)
  have call: "may_call drv loaded 0"
    using assms(1) load by (auto simp: make_hw_dispatcher_def initialize_hw_def Let_def split: if_splits)
  obtain devs n where init: "init_devices found (replicate MAX_DEVICE_COUNT new_device) 0 = Inr (devs, n)"
    using assms(1) load call True
    by (auto simp: make_hw_dispatcher_def initialize_hw_def Let_def split: sum.splits)
  have r: "list_all2 device_ready (filter device_accepted found) (take n devs)" "n \<le> length devs"
    using init_devices_result [OF init] assms(2) by simp_all
  have "device_count disp = n" "dispatcher_devices disp = devs" "dispatcher_hw_support disp \<longleftrightarrow> 0 < n"
    using assms(1) load call True init
    by (auto simp: make_hw_dispatcher_def initialize_hw_def Let_def split: if_splits)
  moreover have "n = 0 \<longleftrightarrow> filter device_accepted found = []"
    using list_all2_lengthD [OF r(1)] r(2) by auto
  ultimately show ?thesis
    using True r(1) assms(3) by (auto simp: initial_hw_state_def filter_empty_conv)
qed

lemma dispatcher_devices_ready:
  assumes "make_hw_dispatcher lib new_context found = Inr disp"
    and "\<And>dev. dev \<in> set found \<Longrightarrow> 0 \<notin> set (device_name dev)"
    and "S = initial_hw_state disp env" "hw_support S"
  shows "list_all2 device_ready (filter device_accepted found) (devices S)" "devices S \<noteq> []"
proof -
  show r: "list_all2 device_ready (filter device_accepted found) (devices S)"
    using dispatcher_result [OF assms(1-3)] assms(4) by blast
  show "devices S \<noteq> []"
    using dispatcher_result [OF assms(1-3)] assms(4) list_all2_lengthD [OF r] by (auto simp: filter_empty_conv)
qed

text \<open>
  Claim C16: the library has hardware support exactly when its configuration library and context are
  there and some device is accepted: an enabled accelerator of a supported version with a usable
  work queue, that is an enabled shared queue whose portal could be mapped. Then submissions see
  exactly the accepted devices in the order they were found, each with exactly its usable queues,
  their portals, and the queues in ascending order of priority.
\<close>
theorem make_hw_dispatcher_result:
  assumes "make_hw_dispatcher lib new_context found = Inr disp"
    and "\<And>dev. dev \<in> set found \<Longrightarrow> 0 \<notin> set (device_name dev)"
    and "S = initial_hw_state disp env"
  shows "(hw_support S \<longleftrightarrow> lib_loads lib \<and> new_context = 0 \<and> (\<exists>dev \<in> set found. device_accepted dev))
    \<and> (hw_support S \<longrightarrow> list_all2 device_ready (filter device_accepted found) (devices S))"
  using assms by (rule dispatcher_result)

section \<open>Submissions after initialisation\<close>

text \<open>The states a thread reaches by submitting, whatever the submissions return.\<close>
inductive hw_reachable :: "'h enqcmd \<Rightarrow> u32 \<Rightarrow> 'h hw_state \<Rightarrow> 'h hw_state \<Rightarrow> bool"
  for enqcmd :: "'h enqcmd" and tsc_aux :: u32 and S0 :: "'h hw_state" where
  start: "hw_reachable enqcmd tsc_aux S0 S0"
| submit: "hw_reachable enqcmd tsc_aux S0 S \<Longrightarrow>
    hardware_submit enqcmd tsc_aux d numa_id S m = (status, S', m') \<Longrightarrow> hw_reachable enqcmd tsc_aux S0 S'"

text \<open>All devices have \<open>n\<close> queues and the remembered index is one of them.\<close>
definition hw_uniform :: "nat \<Rightarrow> 'h hw_state \<Rightarrow> bool" where
  "hw_uniform n S \<longleftrightarrow> 0 < n
     \<and> (\<forall>dev \<in> set (devices S). queue_count dev = n \<and> n \<le> length (working_queues dev))
     \<and> (case last_wq_idx S of None \<Rightarrow> True | Some i \<Rightarrow> i < n)"

lemma hw_enqueue_uniform:
  assumes "hw_uniform n S" "idx < length (devices S)" "hw_enqueue enqcmd idx d S m = (status, S', m')"
  shows "hw_uniform n S' \<and> length (devices S') = length (devices S)"
proof -
  have dev: "devices S ! idx \<in> set (devices S)" using assms(2) by simp
  obtain st dev' l' h' where run: "hw_device_enqueue enqcmd d (devices S ! idx) (last_wq_idx S) (hw_env S) = (st, dev', l', h')"
    by (rule prod_cases4)
  have S': "devices S' = (devices S)[idx := dev']" "last_wq_idx S' = l'"
    using assms(3) run by (auto simp: hw_enqueue_def Let_def)
  have "(\<exists>i < n. l' = Some i) \<and> queue_count dev' = n \<and> n \<le> length (working_queues dev')"
    using hw_device_enqueue_in_range [OF _ _ _ run] dev assms(1) by (auto simp: hw_uniform_def)
  moreover have "dev \<in> set (devices S) \<or> dev = dev'" if "dev \<in> set (devices S')" for dev
    using that set_update_subset_insert [of "devices S" idx dev'] by (auto simp: S')
  ultimately show ?thesis using assms(1) by (auto simp: hw_uniform_def S')
qed

lemma hw_submit_loop_uniform:
  "hw_uniform n S \<Longrightarrow> untried \<le> length (devices S) \<Longrightarrow>
    hw_submit_loop enqcmd own d untried S m = (status, S', m') \<Longrightarrow> hw_uniform n S'"
proof (induction untried arbitrary: S m)
  case (Suc untried)
  let ?n = "length (devices S)"
  let ?idx = "current_device_idx S mod ?n"
  let ?S1 = "S\<lparr> current_device_idx := (current_device_idx S + 1) mod ?n \<rparr>"
  have idx: "?idx < length (devices ?S1)" using Suc.prems(2) by (simp, intro mod_less_divisor) linarith
  have u: "hw_uniform n ?S1" using Suc.prems(1) by (simp add: hw_uniform_def)
  obtain st S2 m2 where enq: "hw_enqueue enqcmd ?idx d ?S1 m = (st, S2, m2)" by (rule prod_cases3)
  note two = hw_enqueue_uniform [OF u idx enq]
  show ?case
  proof (cases "own \<noteq> numa_node_id (devices S ! ?idx) \<or> st \<noteq> sub_success")
    case True
    then show ?thesis
      using Suc.prems(2,3) Suc.IH [OF u] Suc.IH [of S2] two enq by (auto simp: Let_def split: if_splits)
  next
    case False
    then show ?thesis using Suc.prems(3) two enq by (auto simp: Let_def)
  qed
qed simp

lemma hw_reachable_uniform:
  "hw_reachable enqcmd tsc_aux S0 S \<Longrightarrow> hw_uniform n S0 \<Longrightarrow> hw_uniform n S"
proof (induction rule: hw_reachable.induct)
  case (submit S d numa_id m status S' m')
  then show ?case
    using hw_submit_loop_uniform [of n S "length (devices S)" enqcmd _ d m status S' m']
    by (auto simp: hardware_submit_def Let_def split: if_splits)
qed

text \<open>
  Claim C24: when all accepted devices have the same number of queues, no submission of a thread ever
  leaves the initialised queues of a device, however many went before and whatever they returned:
  the order in which the next submission would probe a device visits each of its queues exactly once.
\<close>
theorem submissions_stay_in_range:
  assumes "make_hw_dispatcher lib new_context found = Inr disp"
    and "\<And>dev. dev \<in> set found \<Longrightarrow> 0 \<notin> set (device_name dev)"
    and "S0 = initial_hw_state disp env" "hw_support S0" "\<And>dev. dev \<in> set (devices S0) \<Longrightarrow> queue_count dev = n"
    and "hw_reachable enqcmd tsc_aux S0 S" "dev \<in> set (devices S)"
    and "order = probe_order (queue_count dev) (case last_wq_idx S of None \<Rightarrow> queue_count dev - 1 | Some i \<Rightarrow> i)"
  shows "set order = {0 ..< n} \<and> distinct order \<and> n \<le> length (working_queues dev)"
proof -
  have ready: "list_all2 device_ready (filter device_accepted found) (devices S0)" "devices S0 \<noteq> []"
    using dispatcher_devices_ready [OF assms(1-4)] by simp_all
  then have each: "0 < queue_count e \<and> queue_count e \<le> length (working_queues e)" if "e \<in> set (devices S0)" for e
    using that by (auto simp: list_all2_conv_all_nth in_set_conv_nth device_ready_def)
  then have "0 < n" using ready(2) assms(5) by (metis list.set_sel(1))
  then have "hw_uniform n S0" using each assms(3,5) by (auto simp: hw_uniform_def initial_hw_state_def)
  then have u: "hw_uniform n S" using hw_reachable_uniform assms(6) by blast
  then show ?thesis
    using assms(7,8) by (auto simp: hw_uniform_def set_probe_order distinct_probe_order split: option.splits)
qed

section \<open>An example machine\<close>

definition sample_library :: accel_library where
  "sample_library = \<lparr> lib_loads = True, lib_has = \<lambda>_. True \<rparr>"

definition sample_wq :: "int \<Rightarrow> addr \<Rightarrow> accfg_wq" where
  "sample_wq priority region = \<lparr> wq_state = ACCFG_WQ_ENABLED, wq_mode = ACCFG_WQ_SHARED, wq_priority = priority,
     wq_path_status = 0, wq_fd = 3, wq_region = Some region, wq_group = Some 0 \<rparr>"

text \<open>An accelerator with two queues.\<close>
definition sample_device :: accfg_device where
  "sample_device = \<lparr> device_name = [0x64, 0x73, 0x61, 0x30], device_version = 0x100,
     device_state = ACCFG_DEVICE_ENABLED, device_gen_cap = 0, device_numa_node = 0,
     device_wqs = [sample_wq 7 0x10000, sample_wq 3 0x20000] \<rparr>"

lemma sample_device_name: "dev \<in> set [sample_device] \<Longrightarrow> 0 \<notin> set (device_name dev)"
  by (simp add: sample_device_def)

lemma sample_device_accepted: "device_accepted sample_device"
proof -
  have "dsa_at (device_name sample_device) 0" by (simp add: sample_device_def dsa_at_def)
  then show ?thesis by (auto simp: device_accepted_def sample_device_def sample_wq_def wq_usable_def)
qed

lemma sample_dispatcher: "\<exists>disp. make_hw_dispatcher sample_library 0 [sample_device] = Inr disp"
proof -
  have load: "\<exists>t. initialize_accelerator_driver sample_library = (DML_STATUS_OK, True, True # t)"
    by (simp add: initialize_accelerator_driver_def sample_library_def functions_table_def)
  have name: "own_search_device_name (device_name sample_device) DSA_DEVICE_ID DEVICE_NAME_LENGTH 0 \<noteq> None"
    using search_device_name [OF sample_device_name] by (simp add: sample_device_def)
  obtain r where "init_queues (device_wqs sample_device) (working_queues new_device) 0 = Inr r"
    using init_queues_fits [of 0 "device_wqs sample_device" "working_queues new_device"]
    by (auto simp: sample_device_def new_device_def MAX_WORK_QUEUE_COUNT_def)
  then have "\<exists>r. initialize_new_device sample_device new_device = Inr r"
    using name by (cases r) (auto simp: initialize_new_device_def Let_def)
  then obtain st d where "initialize_new_device sample_device new_device = Inr (st, d)" by auto
  then have "\<exists>r. init_devices [sample_device] (replicate MAX_DEVICE_COUNT new_device) 0 = Inr r"
    by (simp add: MAX_DEVICE_COUNT_def numeral_eq_Suc)
  then obtain devs n where "init_devices [sample_device] (replicate MAX_DEVICE_COUNT new_device) 0 = Inr (devs, n)"
    by auto
  then show ?thesis
    using load by (auto simp: make_hw_dispatcher_def initialize_hw_def may_call_def Let_def
        simp del: init_devices.simps)
qed

theorem make_hw_dispatcher_result_witness:
  "\<exists>disp. make_hw_dispatcher sample_library 0 [sample_device] = Inr disp
    \<and> hw_support (initial_hw_state disp ())
    \<and> list_all2 device_ready [sample_device] (devices (initial_hw_state disp ()))"
proof -
  obtain disp where disp: "make_hw_dispatcher sample_library 0 [sample_device] = Inr disp"
    using sample_dispatcher by blast
  have "lib_loads sample_library" by (simp add: sample_library_def)
  then show ?thesis
    using make_hw_dispatcher_result [OF disp sample_device_name refl, of "()"] disp sample_device_accepted
    by simp
qed

theorem submissions_stay_in_range_witness:
  "\<exists>disp dev. make_hw_dispatcher sample_library 0 [sample_device] = Inr disp
    \<and> dev \<in> set (devices (initial_hw_state disp ()))
    \<and> set (probe_order (queue_count dev) (queue_count dev - 1)) = {0 ..< queue_count dev}"
proof -
  obtain disp where disp: "make_hw_dispatcher sample_library 0 [sample_device] = Inr disp"
    using sample_dispatcher by blast
  let ?S = "initial_hw_state disp ()"
  have "lib_loads sample_library" by (simp add: sample_library_def)
  then have on: "hw_support ?S" and ready: "list_all2 device_ready [sample_device] (devices ?S)"
    using dispatcher_result [OF disp sample_device_name refl, of "()"] sample_device_accepted by simp_all
  from ready obtain dev where dev: "devices ?S = [dev]" by (auto simp: list_all2_Cons1)
  have "set (probe_order (queue_count dev) (case last_wq_idx ?S of None \<Rightarrow> queue_count dev - 1 | Some i \<Rightarrow> i))
      = {0 ..< queue_count dev}"
    using submissions_stay_in_range [OF disp sample_device_name refl on _ hw_reachable.start _ refl,
        of "queue_count dev" dev] dev by simp
  then show ?thesis using disp dev by (intro exI [of _ disp] exI [of _ dev]) (simp add: initial_hw_state_def)
qed

end
