(* ===== verification/DML_Hw_Release.thy ===== *)
theory DML_Hw_Release
  imports DML_Hw_Init
begin

text \<open>
  What the accelerator side of the library holds of the operating system, and gives back: the
  portal pages of the work queues (\<open>hw_queue.cpp\<close>), the context and the handle of the configuration
  library (\<open>hw_dispatcher.cpp\<close>, \<open>hw_configuration_driver.c\<close>). The initialisation of \<open>DML_Hw_Init\<close> is
  repeated with the portal pointers of the queues and the resources in use, and shown to be the
  same; moves of queues inside the heap algorithms null the pointer they take.
\<close>

section \<open>The heap algorithms with what a move leaves behind\<close>

text \<open>\<open>*i = std::move(*j)\<close>: \<open>leave x\<close> is \<open>x\<close> after it was moved from.\<close>
definition move_slot :: "('a \<Rightarrow> 'a \<Rightarrow> 'a) \<Rightarrow> ('a \<Rightarrow> 'a) \<Rightarrow> nat \<Rightarrow> nat \<Rightarrow> 'a list \<Rightarrow> 'a list" where
  "move_slot put leave i j xs = xs[i := put (xs ! i) (xs ! j), j := leave (xs ! j)]"

function move_up :: "('a \<Rightarrow> int) \<Rightarrow> ('a \<Rightarrow> 'a \<Rightarrow> 'a) \<Rightarrow> ('a \<Rightarrow> 'a) \<Rightarrow> nat \<Rightarrow> 'a \<Rightarrow> 'a list \<Rightarrow> 'a list" where
  "move_up key put leave hole v xs =
     (let parent = (hole - 1) div 2
      in if 0 < hole \<and> key (xs ! parent) < key v
         then move_up key put leave parent v (move_slot put leave hole parent xs)
         else xs[hole := put (xs ! hole) v])"
  by pat_completeness auto
termination
  by (relation "measure (\<lambda>(key, put, leave, hole, v, xs). hole)") auto

function move_down :: "('a \<Rightarrow> int) \<Rightarrow> ('a \<Rightarrow> 'a \<Rightarrow> 'a) \<Rightarrow> ('a \<Rightarrow> 'a) \<Rightarrow> nat \<Rightarrow> nat \<Rightarrow> 'a list \<Rightarrow> nat \<times> 'a list" where
  "move_down key put leave len hole xs =
     (if hole < (len - 1) div 2
      then
        let right = 2 * (hole + 1);
            child = (if key (xs ! right) < key (xs ! (right - 1)) then right - 1 else right)
        in move_down key put leave len child (move_slot put leave hole child xs)
      else (hole, xs))"
  by pat_completeness auto
termination
  by (relation "measure (\<lambda>(key, put, leave, len, hole, xs). len - hole)") auto

declare move_up.simps [simp del] move_down.simps [simp del]

definition moving_adjust_heap :: "('a \<Rightarrow> int) \<Rightarrow> ('a \<Rightarrow> 'a \<Rightarrow> 'a) \<Rightarrow> ('a \<Rightarrow> 'a) \<Rightarrow> nat \<Rightarrow> 'a \<Rightarrow> 'a list \<Rightarrow> 'a list" where
  "moving_adjust_heap key put leave len v xs =
     (case move_down key put leave len 0 xs of (hole, ys) \<Rightarrow>
        if even len \<and> 0 < len \<and> hole = (len - 2) div 2
        then let left = 2 * hole + 1
             in move_up key put leave left v (move_slot put leave hole left ys)
        else move_up key put leave hole v ys)"

text \<open>The last element is first moved into a temporary, which is moved into its place and destroyed.\<close>
definition moving_push_heap :: "('a \<Rightarrow> int) \<Rightarrow> ('a \<Rightarrow> 'a \<Rightarrow> 'a) \<Rightarrow> ('a \<Rightarrow> 'a) \<Rightarrow> 'a list \<Rightarrow> 'a list" where
  "moving_push_heap key put leave xs =
     (if xs = [] then []
      else move_up key put leave (length xs - 1) (last xs) (xs[length xs - 1 := leave (last xs)]))"

definition moving_pop_heap :: "('a \<Rightarrow> int) \<Rightarrow> ('a \<Rightarrow> 'a \<Rightarrow> 'a) \<Rightarrow> ('a \<Rightarrow> 'a) \<Rightarrow> nat \<Rightarrow> 'a list \<Rightarrow> 'a list" where
  "moving_pop_heap key put leave n xs =
     moving_adjust_heap key put leave (n - 1) (xs ! (n - 1))
       (move_slot put leave (n - 1) 0 (xs[n - 1 := leave (xs ! (n - 1))]))"

fun moving_sort_prefix :: "('a \<Rightarrow> int) \<Rightarrow> ('a \<Rightarrow> 'a \<Rightarrow> 'a) \<Rightarrow> ('a \<Rightarrow> 'a) \<Rightarrow> nat \<Rightarrow> 'a list \<Rightarrow> 'a list" where
  "moving_sort_prefix key put leave 0 xs = xs"
| "moving_sort_prefix key put leave (Suc n) xs =
     (if n = 0 then xs else moving_sort_prefix key put leave n (moving_pop_heap key put leave (Suc n) xs))"

definition moving_sort_heap :: "('a \<Rightarrow> int) \<Rightarrow> ('a \<Rightarrow> 'a \<Rightarrow> 'a) \<Rightarrow> ('a \<Rightarrow> 'a) \<Rightarrow> 'a list \<Rightarrow> 'a list" where
  "moving_sort_heap key put leave xs = moving_sort_prefix key put leave (length xs) xs"

section \<open>Nothing is lost or shared by moving\<close>

definition held :: "('a \<Rightarrow> 'p multiset) \<Rightarrow> 'a list \<Rightarrow> 'p multiset" where
  "held owns xs = sum_list (map owns xs)"

lemma held_simps [simp]:
  "held owns [] = {#}" "held owns (x # xs) = owns x + held owns xs" "held owns (xs @ ys) = held owns xs + held owns ys"
  by (simp_all add: held_def)

lemma held_update:
  assumes "i < length xs"
  shows "held owns (xs[i := z]) + owns (xs ! i) = held owns xs + owns z"
proof -
  have "held owns xs = held owns (take i xs @ xs ! i # drop (Suc i) xs)"
    using id_take_nth_drop [OF assms] by simp
  then show ?thesis using assms by (simp add: upd_conv_take_nth_drop ac_simps)
qed

lemma held_none: "(\<And>x. x \<in> set xs \<Longrightarrow> owns x = {#}) \<Longrightarrow> held owns xs = {#}"
  by (induction xs) simp_all

text \<open>
  \<open>plain\<close> forgets what an element owns; a move hands \<open>owns\<close> over and must not hit an element that
  still owns something.
\<close>
locale handing_over =
  fixes key :: "'a \<Rightarrow> int" and put :: "'a \<Rightarrow> 'a \<Rightarrow> 'a" and leave :: "'a \<Rightarrow> 'a"
    and plain :: "'a \<Rightarrow> 'b" and plain_key :: "'b \<Rightarrow> int" and plain_put :: "'b \<Rightarrow> 'b \<Rightarrow> 'b"
    and owns :: "'a \<Rightarrow> 'p multiset"
  assumes plain_keys: "key x = plain_key (plain x)"
    and plain_puts: "plain (put x y) = plain_put (plain x) (plain y)"
    and plain_leaves: "plain (leave x) = plain x"
    and owns_put: "owns (put x y) = owns y"
    and owns_leave: "owns (leave x) = {#}"
begin

lemma length_move_slot [simp]: "length (move_slot put leave i j xs) = length xs"
  by (simp add: move_slot_def)

lemma length_move_up [simp]: "length (move_up key put leave h v xs) = length xs"
proof (induction h arbitrary: xs rule: less_induct)
  case (less h)
  have "length (move_up key put leave ((h - 1) div 2) v ys) = length ys" if "0 < h" for ys
    using less that by simp
  then show ?case unfolding move_up.simps [of key put leave h v xs] Let_def by simp
qed

lemma move_slot_plain:
  "i < length xs \<Longrightarrow> j < length xs \<Longrightarrow> i \<noteq> j \<Longrightarrow>
    map plain (move_slot put leave i j xs) = (map plain xs)[i := plain_put (map plain xs ! i) (map plain xs ! j)]"
  by (rule nth_equalityI) (auto simp: move_slot_def nth_list_update plain_puts plain_leaves)

lemma move_slot_held:
  assumes "i < length xs" "j < length xs" "i \<noteq> j" "owns (xs ! i) = {#}"
  shows "held owns (move_slot put leave i j xs) = held owns xs \<and> owns (move_slot put leave i j xs ! j) = {#}"
proof -
  let ?ys = "xs[i := put (xs ! i) (xs ! j)]"
  have "held owns ?ys = held owns xs + owns (xs ! j)" using held_update [OF assms(1), of owns "put (xs ! i) (xs ! j)"] assms(4) by (simp add: owns_put)
  moreover have "held owns (?ys[j := leave (xs ! j)]) + owns (xs ! j) = held owns ?ys"
    using held_update [of j ?ys owns "leave (xs ! j)"] assms by (simp add: owns_leave)
  ultimately show ?thesis using assms by (simp add: move_slot_def owns_leave)
qed

lemma move_up_result:
  assumes "hole < length xs" "owns (xs ! hole) = {#}"
  shows "map plain (move_up key put leave hole v xs) = push_up plain_key plain_put hole (plain v) (map plain xs)
    \<and> held owns (move_up key put leave hole v xs) = held owns xs + owns v"
  using assms
proof (induction hole arbitrary: xs rule: less_induct)
  case (less h)
  let ?p = "(h - 1) div 2"
  have p: "?p < length xs" using less.prems by linarith
  show ?case
  proof (cases "0 < h \<and> key (xs ! ?p) < key v")
    case True
    then have ph: "?p < h" using parent_less by blast
    have c: "0 < h \<and> plain_key (map plain xs ! ?p) < plain_key (plain v)" using True p by (simp add: plain_keys)
    let ?ys = "move_slot put leave h ?p xs"
    have t: "held owns ?ys = held owns xs" "owns (?ys ! ?p) = {#}" using move_slot_held less.prems p ph by auto
    have "move_up key put leave h v xs = move_up key put leave ?p v ?ys"
      using True by (subst move_up.simps) (simp only: Let_def if_True simp_thms)
    with less.IH [OF ph, of ?ys] t p less.prems ph show ?thesis
      unfolding push_up_step [OF c] by (simp add: move_slot_plain)
  next
    case False
    then have c: "\<not> (0 < h \<and> plain_key (map plain xs ! ?p) < plain_key (plain v))" using p by (simp add: plain_keys)
    have "move_up key put leave h v xs = xs[h := put (xs ! h) v]"
      using False by (subst move_up.simps) (simp only: Let_def if_False)
    then show ?thesis
      using held_update [OF less.prems(1), of owns "put (xs ! h) v"] less.prems unfolding push_up_stop [OF c]
      by (simp add: map_update plain_puts owns_put)
  qed
qed

lemma move_down_result:
  assumes "n \<le> length xs" "h < n" "owns (xs ! h) = {#}"
  shows "\<exists>hole ys. move_down key put leave n h xs = (hole, ys) \<and> sink plain_key plain_put n h (map plain xs) = (hole, map plain ys)
    \<and> hole < n \<and> length ys = length xs \<and> held owns ys = held owns xs \<and> owns (ys ! hole) = {#}"
  using assms
proof (induction "n - h" arbitrary: h xs rule: less_induct)
  case less
  show ?case
  proof (cases "h < (n - 1) div 2")
    case True
    define r where "r = 2 * (h + 1)"
    define c where "c = (if key (xs ! r) < key (xs ! (r - 1)) then r - 1 else r)"
    have r: "r < n" "r - 1 < n" using True by (simp_all add: r_def)
    have c: "h < c" "c < n" using r by (auto simp: c_def r_def)
    have c': "c = (if plain_key (map plain xs ! r) < plain_key (map plain xs ! (r - 1)) then r - 1 else r)"
      using r less.prems by (simp add: c_def plain_keys)
    let ?ys = "move_slot put leave h c xs"
    have t: "held owns ?ys = held owns xs" "owns (?ys ! c) = {#}"
      using move_slot_held [of h xs c] c less.prems by auto
    have s: "move_down key put leave n h xs = move_down key put leave n c ?ys"
      using True by (subst move_down.simps) (simp only: Let_def if_True r_def [symmetric] c_def [symmetric])
    have "sink plain_key plain_put n h (map plain xs) = sink plain_key plain_put n c (map plain ?ys)"
      using sink_step [OF True r_def c'] move_slot_plain [of h xs c] c less.prems by simp
    with less.hyps [of c ?ys] c t less.prems show ?thesis by (simp add: s)
  next
    case False
    then show ?thesis using less.prems by (simp add: sink.simps move_down.simps)
  qed
qed

lemma moving_push_heap_result:
  "map plain (moving_push_heap key put leave xs) = push_heap plain_key plain_put (map plain xs)
    \<and> held owns (moving_push_heap key put leave xs) = held owns xs"
proof (cases "xs = []")
  case False
  let ?n = "length xs - 1" let ?ys = "xs[?n := leave (last xs)]"
  have n: "?n < length xs" "xs ! ?n = last xs" using False by (simp_all add: last_conv_nth)
  have "map plain ?ys = map plain xs" using n by (simp add: map_update plain_leaves) (metis list_update_id nth_map)
  moreover have "held owns ?ys + owns (last xs) = held owns xs" using held_update [OF n(1), of owns "leave (last xs)"] n(2) by (simp add: owns_leave)
  ultimately show ?thesis
    using move_up_result [of ?n ?ys "last xs"] n False
    by (simp add: moving_push_heap_def push_heap_def owns_leave last_map)
qed (simp add: moving_push_heap_def push_heap_def)

lemma moving_pop_heap_result:
  assumes "0 < n" "n < length xs"
  shows "map plain (moving_pop_heap key put leave (Suc n) xs) = pop_heap plain_key plain_put (Suc n) (map plain xs)
    \<and> held owns (moving_pop_heap key put leave (Suc n) xs) = held owns xs
    \<and> length (moving_pop_heap key put leave (Suc n) xs) = length xs"
proof -
  let ?xs1 = "xs[n := leave (xs ! n)]" let ?xs2 = "move_slot put leave n 0 ?xs1"
  have p1: "map plain ?xs1 = map plain xs" using assms by (simp add: map_update plain_leaves) (metis list_update_id nth_map)
  have t1: "held owns ?xs1 + owns (xs ! n) = held owns xs" using held_update [OF assms(2), of owns "leave (xs ! n)"] by (simp add: owns_leave)
  have t2: "held owns ?xs2 = held owns ?xs1" "owns (?xs2 ! 0) = {#}"
    using move_slot_held [of n ?xs1 0] assms less_trans [OF assms] by (auto simp: owns_leave)
  have p2: "map plain ?xs2 = (map plain xs)[n := plain_put (map plain xs ! n) (map plain xs ! 0)]"
    using move_slot_plain [of n ?xs1 0] assms less_trans [OF assms] p1 by simp
  obtain hole ys where d: "move_down key put leave n 0 ?xs2 = (hole, ys)"
    "sink plain_key plain_put n 0 (map plain ?xs2) = (hole, map plain ys)"
    "hole < n" "length ys = length xs" "held owns ys = held owns ?xs2" "owns (ys ! hole) = {#}"
    using move_down_result [of n ?xs2 0] assms t2 by auto
  let ?b = "even n \<and> 0 < n \<and> hole = (n - 2) div 2"
  have pop: "pop_heap plain_key plain_put (Suc n) (map plain xs) = (if ?b
      then push_up plain_key plain_put (2 * hole + 1) (plain (xs ! n))
        ((map plain ys)[hole := plain_put (map plain ys ! hole) (map plain ys ! (2 * hole + 1))])
      else push_up plain_key plain_put hole (plain (xs ! n)) (map plain ys))"
    unfolding pop_heap_def adjust_heap_def diff_Suc_1 p2 [symmetric] d(2) using assms by (simp add: Let_def)
  have mv: "moving_pop_heap key put leave (Suc n) xs = (if ?b
      then move_up key put leave (2 * hole + 1) (xs ! n) (move_slot put leave hole (2 * hole + 1) ys)
      else move_up key put leave hole (xs ! n) ys)"
    unfolding moving_pop_heap_def moving_adjust_heap_def diff_Suc_1 d(1) by (simp add: Let_def)
  show ?thesis
  proof (cases ?b)
    case True
    then have l: "2 * hole + 1 < length ys" using assms d(4) by (auto elim!: evenE)
    have "held owns (move_slot put leave hole (2 * hole + 1) ys) = held owns ys"
      "owns (move_slot put leave hole (2 * hole + 1) ys ! (2 * hole + 1)) = {#}"
      using move_slot_held [of hole ys "2 * hole + 1"] l d by auto
    then show ?thesis unfolding pop mv if_P [OF True]
      using move_up_result [of "2 * hole + 1" "move_slot put leave hole (2 * hole + 1) ys" "xs ! n"] l d t1 t2
        move_slot_plain [of hole ys "2 * hole + 1"] by simp
  next
    case False
    then show ?thesis unfolding pop mv if_not_P [OF False]
      using move_up_result [of hole ys "xs ! n"] d t1 t2 assms by simp
  qed
qed

lemma moving_sort_heap_result:
  "map plain (moving_sort_heap key put leave xs) = sort_heap plain_key plain_put (map plain xs)
    \<and> held owns (moving_sort_heap key put leave xs) = held owns xs"
proof -
  have "map plain (moving_sort_prefix key put leave n xs) = sort_prefix plain_key plain_put n (map plain xs)
      \<and> held owns (moving_sort_prefix key put leave n xs) = held owns xs" if "n \<le> length xs" for n xs
    using that
  proof (induction n arbitrary: xs)
    case (Suc n)
    show ?case
    proof (cases "n = 0")
      case False
      let ?ys = "moving_pop_heap key put leave (Suc n) xs"
      have r: "map plain ?ys = pop_heap plain_key plain_put (Suc n) (map plain xs)" "held owns ?ys = held owns xs"
        "length ?ys = length xs" using moving_pop_heap_result [of n xs] False Suc.prems by simp_all
      from r False Suc.IH [of ?ys] Suc.prems show ?thesis by simp
    qed simp
  qed simp
  then show ?thesis by (simp add: moving_sort_heap_def sort_heap_def)
qed

end

section \<open>Work queues with their portals (\<open>hw_queue.cpp\<close>)\<close>

text \<open>A queue and its \<open>portal_ptr_\<close>.\<close>
type_synonym portal_queue = "hw_queue \<times> addr"

definition portal_priority :: "portal_queue \<Rightarrow> int" where
  "portal_priority x = hw_priority (fst x)"

text \<open>\<open>operator=(hw_queue &&)\<close>: the pointer is overwritten with that of the other, which is nulled.\<close>
definition take_portal :: "portal_queue \<Rightarrow> portal_queue \<Rightarrow> portal_queue" where
  "take_portal x y = (move_queue (fst x) (fst y), snd y)"

definition drop_portal :: "portal_queue \<Rightarrow> portal_queue" where
  "drop_portal x = (fst x, 0)"

definition portals_of :: "portal_queue \<Rightarrow> addr multiset" where
  "portals_of x = (if snd x = 0 then {#} else {#snd x#})"

interpretation portals: handing_over portal_priority take_portal drop_portal fst hw_priority move_queue portals_of
  by unfold_locales (simp_all add: portal_priority_def take_portal_def drop_portal_def portals_of_def)

text \<open>\<open>initialize_new_queue\<close> with the pages that are mapped.\<close>
definition initialize_new_queue_r :: "accfg_wq \<Rightarrow> portal_queue \<Rightarrow> addr multiset \<Rightarrow> dml_status \<times> portal_queue \<times> addr multiset" where
  "initialize_new_queue_r wq q pages =
     (if wq_state wq \<noteq> ACCFG_WQ_ENABLED then (DML_STATUS_WORK_QUEUES_NOT_AVAILABLE, q, pages)
      else if wq_mode wq \<noteq> ACCFG_WQ_SHARED then (DML_STATUS_WORK_QUEUES_NOT_AVAILABLE, q, pages)
      else if wq_path_status wq < 0 then (DML_STATUS_LIBACCEL_ERROR, q, pages)
      else if wq_fd wq < 0 then (DML_STATUS_LIBACCEL_ERROR, q, pages)
      else case wq_region wq of
        None \<Rightarrow> (DML_STATUS_LIBACCEL_ERROR, q, pages)
      | Some region_ptr \<Rightarrow>
          let pages' = add_mset region_ptr pages
          in case wq_group wq of
               None \<Rightarrow> (DML_STATUS_LIBACCEL_ERROR, q, pages')
             | Some traffic_class_b \<Rightarrow>
                 (DML_STATUS_OK, (set_portal_ptr region_ptr
                   ((fst q)\<lparr> hw_priority := wq_priority wq,
                       memory_type := (if traffic_class_b \<noteq> 0 then durable else non_durable) \<rparr>), region_ptr), pages'))"

text \<open>\<open>~hw_queue\<close>; \<open>None\<close> when a page that is not mapped would be unmapped.\<close>
definition destroy_queue :: "portal_queue \<Rightarrow> addr multiset \<Rightarrow> addr multiset option" where
  "destroy_queue q pages =
     (if snd q \<noteq> 0 then if snd q \<in># pages then Some (pages - {#snd q#}) else None else Some pages)"

section \<open>Devices (\<open>hw_device.cpp\<close>)\<close>

fun init_queues_r :: "accfg_wq list \<Rightarrow> portal_queue list \<Rightarrow> nat \<Rightarrow> addr multiset
    \<Rightarrow> init_error + portal_queue list \<times> nat \<times> addr multiset" where
  "init_queues_r [] queues n pages = Inr (queues, n, pages)"
| "init_queues_r (wq # rest) queues n pages =
     (if length queues \<le> n then Inl array_overrun
      else
        let (status, q, pages') = initialize_new_queue_r wq (queues ! n) pages; queues' = queues[n := q]
        in if status = DML_STATUS_OK
           then init_queues_r rest
             (on_prefix (Suc n) (moving_push_heap portal_priority take_portal drop_portal) queues') (Suc n) pages'
           else init_queues_r rest queues' n pages')"

text \<open>A device and the portals of its queues.\<close>
type_synonym portal_device = "hw_device \<times> addr list"

definition device_queues :: "portal_device \<Rightarrow> portal_queue list" where
  "device_queues d = zip (working_queues (fst d)) (snd d)"

definition initialize_new_device_r :: "accfg_device \<Rightarrow> portal_device \<Rightarrow> addr multiset
    \<Rightarrow> init_error + dml_status \<times> portal_device \<times> addr multiset" where
  "initialize_new_device_r dev this pages =
     (case own_search_device_name (device_name dev) DSA_DEVICE_ID DEVICE_NAME_LENGTH 0 of
        None \<Rightarrow> Inl name_overread
      | Some is_dsa_device \<Rightarrow>
          let this1 = (fst this)\<lparr> version_major := drop_bit 8 (device_version dev),
                version_minor := device_version dev AND 0xFF \<rparr>
          in if \<not> is_dsa_device \<or> version_major this1 > 2
             then Inr (DML_STATUS_WORK_QUEUES_NOT_AVAILABLE, (this1, snd this), pages)
             else if device_state dev \<noteq> ACCFG_DEVICE_ENABLED
             then Inr (DML_STATUS_WORK_QUEUES_NOT_AVAILABLE, (this1, snd this), pages)
             else
               case init_queues_r (device_wqs dev) (device_queues (this1, snd this)) 0 pages of
                 Inl e \<Rightarrow> Inl e
               | Inr (queues, n, pages') \<Rightarrow>
                   let queues' = (if n > 1 then on_prefix n (moving_sort_heap portal_priority take_portal drop_portal) queues
                                  else queues);
                       this2 = (this1\<lparr> gen_cap_register := device_gen_cap dev, numa_node_id := device_numa_node dev,
                         working_queues := map fst queues', queue_count := n \<rparr>, map snd queues')
                   in if n = 0 then Inr (DML_STATUS_WORK_QUEUES_NOT_AVAILABLE, this2, pages')
                      else Inr (DML_STATUS_OK, this2, pages'))"

section \<open>The dispatcher (\<open>hw_dispatcher.cpp\<close>, \<open>hw_configuration_driver.c\<close>)\<close>

fun init_devices_r :: "accfg_device list \<Rightarrow> portal_device list \<Rightarrow> nat \<Rightarrow> addr multiset
    \<Rightarrow> init_error + portal_device list \<times> nat \<times> addr multiset" where
  "init_devices_r [] devs n pages = Inr (devs, n, pages)"
| "init_devices_r (dev # rest) devs n pages =
     (if length devs \<le> n then Inl array_overrun
      else case initialize_new_device_r dev (devs ! n) pages of
        Inl e \<Rightarrow> Inl e
      | Inr (status, device, pages') \<Rightarrow>
          init_devices_r rest (devs[n := device]) (if status = DML_STATUS_OK then Suc n else n) pages')"

text \<open>What is held of the operating system and of the library.\<close>
record hw_resources =
  res_pages :: "addr multiset"
  res_contexts :: nat
  res_libraries :: nat

text \<open>A dispatcher and the portals of its devices.\<close>
type_synonym portal_dispatcher = "hw_dispatcher \<times> addr list list"

definition dispatcher_portals :: "portal_dispatcher \<Rightarrow> portal_device list" where
  "dispatcher_portals d = zip (dispatcher_devices (fst d)) (snd d)"

text \<open>A library that lacks a function is closed again at once; the table is that of \<open>initialize_hw\<close>.\<close>
definition initialize_hw_r :: "accel_library \<Rightarrow> int \<Rightarrow> accfg_device list \<Rightarrow> portal_dispatcher \<Rightarrow> hw_resources
    \<Rightarrow> init_error + dml_status \<times> portal_dispatcher \<times> hw_resources" where
  "initialize_hw_r lib new_context found this R =
     (case initialize_accelerator_driver lib of (status, driver, loaded) \<Rightarrow>
        let this1 = ((fst this)\<lparr> driver_loaded := driver \<rparr>, snd this);
            R1 = (if driver then R\<lparr> res_libraries := Suc (res_libraries R) \<rparr> else R)
        in if status \<noteq> DML_STATUS_OK then Inr (status, this1, R1)
           else if \<not> may_call driver loaded 0 then Inl unusable_function
           else if new_context \<noteq> 0 then Inr (DML_STATUS_LIBACCEL_ERROR, this1, R1)
           else
             let R2 = R1\<lparr> res_contexts := Suc (res_contexts R1) \<rparr>
             in case init_devices_r found (dispatcher_portals this1) 0 (res_pages R2) of
                  Inl e \<Rightarrow> Inl e
                | Inr (devs, n, pages) \<Rightarrow>
                    let this2 = ((fst this1)\<lparr> dispatcher_devices := map fst devs, device_count := n \<rparr>, map snd devs);
                        R3 = R2\<lparr> res_pages := pages \<rparr>
                    in if n = 0 then Inr (DML_STATUS_WORK_QUEUES_NOT_AVAILABLE, this2, R3)
                       else Inr (DML_STATUS_OK, ((fst this2)\<lparr> context_set := True \<rparr>, snd this2), R3))"

definition make_hw_dispatcher_r :: "accel_library \<Rightarrow> int \<Rightarrow> accfg_device list
    \<Rightarrow> init_error + portal_dispatcher \<times> hw_resources" where
  "make_hw_dispatcher_r lib new_context found =
     (case initialize_hw_r lib new_context found
         (\<lparr> driver_loaded = False, context_set = False, dispatcher_devices = replicate MAX_DEVICE_COUNT new_device,
            device_count = 0, dispatcher_hw_support = False, hw_init_status = DML_STATUS_OK \<rparr>,
          replicate MAX_DEVICE_COUNT (replicate MAX_WORK_QUEUE_COUNT 0))
         \<lparr> res_pages = {#}, res_contexts = 0, res_libraries = 0 \<rparr> of
        Inl e \<Rightarrow> Inl e
      | Inr (status, this, R) \<Rightarrow>
          Inr (((fst this)\<lparr> hw_init_status := status, dispatcher_hw_support := (status = DML_STATUS_OK) \<rparr>, snd this), R))"

text \<open>\<open>finalize_accelerator_driver\<close>.\<close>
definition finalize_accelerator_driver :: "bool \<Rightarrow> hw_resources \<Rightarrow> hw_resources" where
  "finalize_accelerator_driver driver R =
     (if driver then R\<lparr> res_libraries := res_libraries R - 1 \<rparr> else R)"

text \<open>The queues of all devices, the last first.\<close>
fun destroy_queues :: "portal_queue list \<Rightarrow> addr multiset \<Rightarrow> addr multiset option" where
  "destroy_queues [] pages = Some pages"
| "destroy_queues (q # qs) pages = (case destroy_queue q pages of None \<Rightarrow> None | Some pages' \<Rightarrow> destroy_queues qs pages')"

text \<open>\<open>~hw_dispatcher\<close> and then its members.\<close>
definition destroy_hw_dispatcher :: "portal_dispatcher \<Rightarrow> hw_resources \<Rightarrow> hw_resources option" where
  "destroy_hw_dispatcher this R =
     (let R1 = (if context_set (fst this) then R\<lparr> res_contexts := res_contexts R - 1 \<rparr> else R);
          R2 = finalize_accelerator_driver (driver_loaded (fst this)) R1
      in case destroy_queues (rev (concat (map device_queues (dispatcher_portals this)))) (res_pages R2) of
           None \<Rightarrow> None
         | Some pages \<Rightarrow> Some (R2\<lparr> res_pages := pages \<rparr>))"

section \<open>The same initialisation\<close>

text \<open>The page of a queue that has no group stays mapped.\<close>
definition lost_portal :: "accfg_wq \<Rightarrow> addr multiset" where
  "lost_portal wq =
     (if wq_state wq = ACCFG_WQ_ENABLED \<and> wq_mode wq = ACCFG_WQ_SHARED \<and> 0 \<le> wq_path_status wq \<and> 0 \<le> wq_fd wq
        \<and> wq_group wq = None
      then (case wq_region wq of None \<Rightarrow> {#} | Some p \<Rightarrow> {#p#}) else {#})"

lemma initialize_new_queue_r_result:
  assumes "initialize_new_queue_r wq q pages = (status, q', pages')" "wq_region wq \<noteq> Some 0" "snd q = 0"
  shows "initialize_new_queue wq (fst q) = (status, fst q')"
    and "pages' = pages + portals_of q' + lost_portal wq" and "status \<noteq> DML_STATUS_OK \<Longrightarrow> q' = q"
  using assms by (auto simp: initialize_new_queue_r_def initialize_new_queue_def lost_portal_def portals_of_def Let_def
      split: if_splits option.splits)

lemma initialize_new_queue_r_plain:
  "initialize_new_queue wq (fst q) = (fst (initialize_new_queue_r wq q pages), fst (fst (snd (initialize_new_queue_r wq q pages))))"
  by (simp add: initialize_new_queue_r_def initialize_new_queue_def Let_def split: option.splits)

lemma map_on_prefix:
  "(\<And>xs. map f (F xs) = G (map f xs)) \<Longrightarrow> map f (on_prefix n F xs) = on_prefix n G (map f xs)"
  by (simp add: on_prefix_def take_map drop_map)

lemma total_on_prefix:
  assumes "\<And>xs. held owns (F xs) = held owns xs"
  shows "held owns (on_prefix n F xs) = held owns xs"
proof -
  have "held owns (on_prefix n F xs) = held owns (take n xs @ drop n xs)"
    using assms by (simp only: on_prefix_def held_simps)
  then show ?thesis by simp
qed

lemma init_queues_r_plain:
  "init_queues wqs (map fst xs) n
    = (case init_queues_r wqs xs n pages of Inl e \<Rightarrow> Inl e | Inr (ys, k, pages') \<Rightarrow> Inr (map fst ys, k))"
proof (induction wqs arbitrary: xs n pages)
  case (Cons wq wqs)
  obtain status q pages' where r: "initialize_new_queue_r wq (xs ! n) pages = (status, q, pages')" by (rule prod_cases3)
  have p: "initialize_new_queue wq (fst (xs ! n)) = (status, fst q)"
    using initialize_new_queue_r_plain [of wq "xs ! n" pages] r by simp
  have push: "map fst (on_prefix (Suc n) (moving_push_heap portal_priority take_portal drop_portal) ys)
      = on_prefix (Suc n) (push_heap hw_priority move_queue) (map fst ys)" for ys
    by (rule map_on_prefix) (simp add: portals.moving_push_heap_result)
  show ?case
    using Cons.IH [of "on_prefix (Suc n) (moving_push_heap portal_priority take_portal drop_portal) (xs[n := q])" "Suc n" pages']
      Cons.IH [of "xs[n := q]" n pages']
    by (simp add: r p push map_update Let_def)
qed simp

text \<open>From a position on, no slot holds a portal.\<close>
definition unused_from :: "nat \<Rightarrow> portal_queue list \<Rightarrow> bool" where
  "unused_from n xs \<longleftrightarrow> (\<forall>i. n \<le> i \<and> i < length xs \<longrightarrow> snd (xs ! i) = 0)"

lemma length_moving_push_heap: "length (moving_push_heap portal_priority take_portal drop_portal xs) = length xs"
  using portals.moving_push_heap_result [of xs] by (metis length_map length_push_heap)

lemma length_moving_sort_heap: "length (moving_sort_heap portal_priority take_portal drop_portal xs) = length xs"
  using portals.moving_sort_heap_result [of xs] by (metis length_map queues.length_sort_heap)

lemma length_on_prefix: "(\<And>xs. length (F xs) = length xs) \<Longrightarrow> length (on_prefix n F xs) = length xs"
  by (simp add: on_prefix_def)

lemma unused_on_prefix:
  "(\<And>xs. length (F xs) = length xs) \<Longrightarrow> n \<le> length xs \<Longrightarrow> unused_from n xs \<Longrightarrow> unused_from n (on_prefix n F xs)"
  by (auto simp: unused_from_def on_prefix_def nth_append)

lemma init_queues_r_pages:
  assumes "init_queues_r wqs xs n pages = Inr (ys, k, pages')" "n \<le> length xs" "unused_from n xs"
    and "\<And>wq. wq \<in> set wqs \<Longrightarrow> wq_region wq \<noteq> Some 0"
  shows "length ys = length xs \<and> k \<le> length xs \<and> unused_from k ys
    \<and> pages' + held portals_of xs = pages + held portals_of ys + held lost_portal wqs"
  using assms
proof (induction wqs arbitrary: xs n pages)
  case (Cons wq wqs)
  obtain status q pages1 where r: "initialize_new_queue_r wq (xs ! n) pages = (status, q, pages1)" by (rule prod_cases3)
  have n: "n < length xs" using Cons.prems(1) by (simp split: if_splits)
  have free: "snd (xs ! n) = 0" using Cons.prems(3) n by (simp add: unused_from_def)
  note q = initialize_new_queue_r_result [OF r _ free]
  have t: "held portals_of (xs[n := q]) = held portals_of xs + portals_of q"
    using held_update [OF n, of portals_of q] free by (simp add: portals_of_def)
  show ?case
  proof (cases "status = DML_STATUS_OK")
    case True
    let ?zs = "on_prefix (Suc n) (moving_push_heap portal_priority take_portal drop_portal) (xs[n := q])"
    have z: "length ?zs = length xs" by (simp add: length_on_prefix length_moving_push_heap)
    have "unused_from (Suc n) (xs[n := q])" using Cons.prems(3) by (simp add: unused_from_def)
    then have u: "unused_from (Suc n) ?zs" using n by (intro unused_on_prefix length_moving_push_heap) simp_all
    have tz: "held portals_of ?zs = held portals_of xs + portals_of q"
      unfolding t [symmetric] by (rule total_on_prefix) (simp add: portals.moving_push_heap_result)
    have "init_queues_r wqs ?zs (Suc n) pages1 = Inr (ys, k, pages')" using Cons.prems(1) n True by (simp add: r)
    from Cons.IH [OF this] Cons.prems(4) n z u have
      "length ys = length xs \<and> k \<le> length xs \<and> unused_from k ys
        \<and> pages' + held portals_of ?zs = pages1 + held portals_of ys + held lost_portal wqs" by simp
    then show ?thesis using q(2) Cons.prems(4) [of wq] tz by (auto simp: ac_simps)
  next
    case False
    then have "init_queues_r wqs xs n pages1 = Inr (ys, k, pages')"
      using Cons.prems(1,4) n q(3) by (simp add: r)
    moreover have "pages1 = pages + lost_portal wq" using q(2,3) Cons.prems(4) [of wq] False free by (simp add: portals_of_def)
    ultimately show ?thesis using Cons.IH [of xs n pages1] Cons.prems by (auto simp: ac_simps)
  qed
qed simp

section \<open>Devices and the dispatcher\<close>

definition device_portals :: "portal_device \<Rightarrow> addr multiset" where
  "device_portals d = held portals_of (device_queues d)"

definition wf_device :: "portal_device \<Rightarrow> bool" where
  "wf_device d \<longleftrightarrow> length (snd d) = length (working_queues (fst d))"

lemma fst_device_queues: "wf_device d \<Longrightarrow> map fst (device_queues d) = working_queues (fst d)"
  by (simp add: wf_device_def device_queues_def)

text \<open>The queues of a device are only looked at when its name, version and state are right.\<close>
definition device_scanned :: "accfg_device \<Rightarrow> bool" where
  "device_scanned dev \<longleftrightarrow> own_search_device_name (device_name dev) DSA_DEVICE_ID DEVICE_NAME_LENGTH 0 = Some True
     \<and> drop_bit 8 (device_version dev) \<le> 2 \<and> device_state dev = ACCFG_DEVICE_ENABLED"

definition lost_portals :: "accfg_device \<Rightarrow> addr multiset" where
  "lost_portals dev = (if device_scanned dev then held lost_portal (device_wqs dev) else {#})"

lemma initialize_new_device_r_plain:
  assumes "wf_device this"
  shows "initialize_new_device dev (fst this)
    = (case initialize_new_device_r dev this pages of Inl e \<Rightarrow> Inl e | Inr (status, d, pages') \<Rightarrow> Inr (status, fst d))"
proof -
  let ?this1 = "(fst this)\<lparr> version_major := drop_bit 8 (device_version dev), version_minor := device_version dev AND 0xFF \<rparr>"
  have q: "map fst (device_queues (?this1, snd this)) = working_queues (fst this)"
    using assms by (simp add: device_queues_def wf_device_def)
  have i: "init_queues (device_wqs dev) (working_queues (fst this)) 0
      = (case init_queues_r (device_wqs dev) (device_queues (?this1, snd this)) 0 pages of
           Inl e \<Rightarrow> Inl e | Inr (ys, k, pages') \<Rightarrow> Inr (map fst ys, k))"
    using init_queues_r_plain [of "device_wqs dev" "device_queues (?this1, snd this)" 0 pages] unfolding q .
  have s: "map fst (on_prefix n (moving_sort_heap portal_priority take_portal drop_portal) ys)
      = on_prefix n (sort_heap hw_priority move_queue) (map fst ys)" for n ys
    by (rule map_on_prefix) (simp add: portals.moving_sort_heap_result)
  show ?thesis
    by (simp add: initialize_new_device_def initialize_new_device_r_def Let_def i s split: option.split sum.split prod.split)
qed

lemma initialize_new_device_r_pages:
  assumes "initialize_new_device_r dev this pages = Inr (status, d, pages')" "wf_device this" "device_portals this = {#}"
    and "\<And>wq. wq \<in> set (device_wqs dev) \<Longrightarrow> wq_region wq \<noteq> Some 0"
  shows "wf_device d \<and> pages' = pages + device_portals d + lost_portals dev
    \<and> (status \<noteq> DML_STATUS_OK \<longrightarrow> device_portals d = {#})"
proof -
  let ?this1 = "(fst this)\<lparr> version_major := drop_bit 8 (device_version dev), version_minor := device_version dev AND 0xFF \<rparr>"
  have same: "device_queues (?this1, snd this) = device_queues this" "wf_device (?this1, snd this) = wf_device this"
    by (simp_all add: device_queues_def wf_device_def)
  show ?thesis
  proof (cases "device_scanned dev")
    case False
    then have "d = (?this1, snd this) \<and> pages' = pages"
      using assms(1) by (auto simp: initialize_new_device_r_def device_scanned_def Let_def not_le
          split: option.splits if_splits)
    with False assms(2,3) show ?thesis by (simp add: same device_portals_def lost_portals_def)
  next
    case True
    obtain qs n where r: "init_queues_r (device_wqs dev) (device_queues this) 0 pages = Inr (qs, n, pages')"
      and d: "d = (?this1\<lparr> gen_cap_register := device_gen_cap dev, numa_node_id := device_numa_node dev,
          working_queues := map fst (if n > 1 then on_prefix n (moving_sort_heap portal_priority take_portal drop_portal) qs else qs),
          queue_count := n \<rparr>, map snd (if n > 1 then on_prefix n (moving_sort_heap portal_priority take_portal drop_portal) qs else qs))"
      and st: "n = 0 \<longleftrightarrow> status \<noteq> DML_STATUS_OK"
      using assms(1) True
      by (auto simp: initialize_new_device_r_def device_scanned_def Let_def same(1) split: if_splits sum.splits prod.splits)
    have null: "snd x = 0" if "x \<in> set (device_queues this)" for x
      using assms(3) that split_list [OF that] by (auto simp: device_portals_def portals_of_def split: if_splits)
    then have "unused_from 0 (device_queues this)" by (simp add: unused_from_def)
    from init_queues_r_pages [OF r _ this assms(4)] have
      p: "unused_from n qs" "pages' + device_portals this = pages + held portals_of qs + held lost_portal (device_wqs dev)"
      by (auto simp: device_portals_def)
    have q: "device_queues d = (if n > 1 then on_prefix n (moving_sort_heap portal_priority take_portal drop_portal) qs else qs)"
      by (simp add: d device_queues_def zip_map_fst_snd)
    have "held portals_of (on_prefix n (moving_sort_heap portal_priority take_portal drop_portal) qs) = held portals_of qs"
      by (rule total_on_prefix) (simp add: portals.moving_sort_heap_result)
    then have t: "device_portals d = held portals_of qs" by (simp add: device_portals_def q)
    have "held portals_of qs = {#}" if "n = 0"
      using p(1) that by (intro held_none) (auto simp: unused_from_def portals_of_def in_set_conv_nth)
    with t p(2) st assms(3) True show ?thesis by (simp add: lost_portals_def wf_device_def d)
  qed
qed

lemma init_devices_r_plain:
  assumes "\<And>d. d \<in> set devs \<Longrightarrow> wf_device d"
  shows "init_devices found (map fst devs) n
    = (case init_devices_r found devs n pages of Inl e \<Rightarrow> Inl e | Inr (ds, k, pages') \<Rightarrow> Inr (map fst ds, k))"
  using assms
proof (induction found arbitrary: devs n pages)
  case (Cons dev found)
  show ?case
  proof (cases "n < length devs")
    case True
    then have wf: "wf_device (devs ! n)" using Cons.prems by simp
    note plain = initialize_new_device_r_plain [OF wf, of dev pages]
    show ?thesis
    proof (cases "initialize_new_device_r dev (devs ! n) pages")
      case (Inr r)
      obtain status d pages' where r: "r = (status, d, pages')" by (rule prod_cases3)
      have "length (snd d) = length (working_queues (fst d))"
        using Inr wf unfolding r
        by (auto simp: initialize_new_device_r_def Let_def wf_device_def device_queues_def split: option.splits if_splits sum.splits prod.splits)
      then have "wf_device e" if "e \<in> set (devs[n := d])" for e
        using that Cons.prems set_update_subset_insert [of devs n d] by (auto simp: wf_device_def)
      from Cons.IH [OF this] plain Inr True show ?thesis by (simp add: r map_update)
    qed (use plain True in simp)
  qed simp
qed simp

lemma init_devices_r_pages:
  assumes "init_devices_r found devs n pages = Inr (ds, k, pages')" "n \<le> length devs"
    and "\<And>d. d \<in> set devs \<Longrightarrow> wf_device d" "\<And>i. n \<le> i \<Longrightarrow> i < length devs \<Longrightarrow> device_portals (devs ! i) = {#}"
    and "\<And>dev wq. dev \<in> set found \<Longrightarrow> wq \<in> set (device_wqs dev) \<Longrightarrow> wq_region wq \<noteq> Some 0"
  shows "pages' + held device_portals devs = pages + held device_portals ds + held lost_portals found"
  using assms
proof (induction found arbitrary: devs n pages)
  case (Cons dev found)
  have n: "n < length devs" using Cons.prems(1) by (simp split: if_splits)
  obtain status d pages1 where r: "initialize_new_device_r dev (devs ! n) pages = Inr (status, d, pages1)"
    using Cons.prems(1) n by (auto split: sum.splits)
  have wf: "wf_device (devs ! n)" and null: "device_portals (devs ! n) = {#}" using Cons.prems(3,4) n by simp_all
  have d: "wf_device d" "pages1 = pages + device_portals d + lost_portals dev"
    "status \<noteq> DML_STATUS_OK \<Longrightarrow> device_portals d = {#}"
    using initialize_new_device_r_pages [OF r wf null] Cons.prems(5) [of dev] by auto
  have t: "held device_portals (devs[n := d]) = held device_portals devs + device_portals d"
    using held_update [OF n, of device_portals d] null by simp
  let ?n = "if status = DML_STATUS_OK then Suc n else n"
  have run: "init_devices_r found (devs[n := d]) ?n pages1 = Inr (ds, k, pages')"
    using Cons.prems(1) n by (simp add: r)
  have "pages' + held device_portals (devs[n := d]) = pages1 + held device_portals ds + held lost_portals found"
  proof (rule Cons.IH [OF run])
    show "wf_device e" if "e \<in> set (devs[n := d])" for e
      using that Cons.prems(3) [of e] d(1) set_update_subset_insert [of devs n d] by blast
    show "device_portals (devs[n := d] ! i) = {#}" if "?n \<le> i" "i < length (devs[n := d])" for i
      using that Cons.prems(4) [of i] d(3) n by (auto simp: nth_list_update split: if_splits)
    show "wq_region wq \<noteq> Some 0" if "e \<in> set found" "wq \<in> set (device_wqs e)" for e wq
      using Cons.prems(5) [OF list.set_intros(2) [OF that(1)] that(2)] .
  qed (use n in auto)
  then show ?case using t d(2) by (simp add: ac_simps)
qed simp

lemma destroy_queues_pages:
  "held portals_of qs \<subseteq># pages \<Longrightarrow> destroy_queues qs pages = Some (pages - held portals_of qs)"
proof (induction qs arbitrary: pages)
  case (Cons q qs)
  have q: "portals_of q \<subseteq># pages" using Cons.prems by (metis held_simps(2) mset_subset_eq_add_left subset_mset.trans)
  then have d: "destroy_queue q pages = Some (pages - portals_of q)"
    by (simp add: destroy_queue_def portals_of_def split: if_splits)
  have "held portals_of qs \<subseteq># pages - portals_of q"
    using Cons.prems q by (simp add: subset_mset.le_diff_conv2 add.commute)
  then show ?case using Cons.IH by (simp add: d)
qed simp

lemma held_concat: "held owns (concat xss) = held (held owns) xss"
  by (induction xss) simp_all

lemma held_rev [simp]: "held owns (rev xs) = held owns xs"
  by (induction xs) (simp_all add: ac_simps)

lemma held_map: "held owns (map f xs) = held (\<lambda>x. owns (f x)) xs"
  by (simp add: held_def comp_def)

lemma dispatcher_queues_held:
  "held portals_of (rev (concat (map device_queues (dispatcher_portals d)))) = held device_portals (dispatcher_portals d)"
  by (simp add: held_concat held_map device_portals_def [abs_def])

lemma new_dispatcher_portals:
  assumes "fresh = zip (replicate MAX_DEVICE_COUNT new_device) (replicate MAX_DEVICE_COUNT (replicate MAX_WORK_QUEUE_COUNT 0))"
  shows "map fst fresh = replicate MAX_DEVICE_COUNT new_device" "held device_portals fresh = {#}"
    "\<And>d. d \<in> set fresh \<Longrightarrow> wf_device d \<and> device_portals d = {#}"
proof -
  show "map fst fresh = replicate MAX_DEVICE_COUNT new_device" by (simp add: assms)
  show d: "wf_device d \<and> device_portals d = {#}" if "d \<in> set fresh" for d
  proof -
    have "d = (new_device, replicate MAX_WORK_QUEUE_COUNT 0)" using that by (auto simp: assms set_zip)
    then show ?thesis
      by (auto simp: wf_device_def device_portals_def device_queues_def new_device_def portals_of_def set_zip intro!: held_none)
  qed
  then show "held device_portals fresh = {#}" by (intro held_none) simp
qed

text \<open>
  Claim C19: creating the dispatcher with its resources is creating it as before. Destroying it then
  unmaps every portal page once and only pages that are mapped, although queues were moved while
  they were ordered, and closes the library. Left behind are exactly the pages of queues without a
  group, and the context of the library when no accelerator was found.
\<close>
theorem dispatcher_releases:
  assumes "make_hw_dispatcher_r lib new_context found = Inr (disp, R)"
    and "\<And>dev wq. dev \<in> set found \<Longrightarrow> wq \<in> set (device_wqs dev) \<Longrightarrow> wq_region wq \<noteq> Some 0"
  shows "make_hw_dispatcher lib new_context found = Inr (fst disp)
    \<and> (\<exists>R'. destroy_hw_dispatcher disp R = Some R' \<and> res_libraries R' = 0
        \<and> (let scanned = lib_loads lib \<and> new_context = 0
           in res_pages R' = (if scanned then held lost_portals found else {#})
            \<and> res_contexts R' = (if scanned \<and> device_count (fst disp) = 0 then 1 else 0)))"
proof -
  define fresh where "fresh = zip (replicate MAX_DEVICE_COUNT new_device) (replicate MAX_DEVICE_COUNT (replicate MAX_WORK_QUEUE_COUNT (0 :: addr)))"
  note f = new_dispatcher_portals [OF fresh_def]
  obtain status driver loaded where drv: "initialize_accelerator_driver lib = (status, driver, loaded)" by (rule prod_cases3)
  have ok: "status = DML_STATUS_OK \<longleftrightarrow> lib_loads lib" "status \<noteq> DML_STATUS_OK \<Longrightarrow> \<not> driver"
    using drv by (auto simp: initialize_accelerator_driver_def split: if_splits prod.splits)
  note defs = make_hw_dispatcher_r_def initialize_hw_r_def make_hw_dispatcher_def initialize_hw_def
    dispatcher_portals_def destroy_hw_dispatcher_def finalize_accelerator_driver_def Let_def
  show ?thesis
  proof (cases "lib_loads lib \<and> new_context = 0")
    case False
    have z: "held portals_of (rev (concat (map device_queues fresh))) = {#}"
      using f(2) by (simp add: held_concat held_map device_portals_def [abs_def])
    then have z: "destroy_queues (rev (concat (replicate MAX_DEVICE_COUNT
        (device_queues (new_device, replicate MAX_WORK_QUEUE_COUNT 0))))) {#} = Some {#}"
      using destroy_queues_pages [of "rev (concat (map device_queues fresh))" "{#}"] by (simp add: fresh_def)
    show ?thesis
    proof (cases "lib_loads lib")
      case True
      then have "may_call driver loaded 0" using assms(1) ok drv by (auto simp: defs split: if_splits)
      then have "driver" by (simp add: may_call_def)
      with assms(1) True False ok drv z \<open>may_call driver loaded 0\<close> show ?thesis by (auto simp: defs)
    next
      case no: False
      with assms(1) ok drv z show ?thesis by (auto simp: defs)
    qed
  next
    case True
    then have call: "may_call driver loaded 0" and lib: "status = DML_STATUS_OK" "lib_loads lib" "new_context = 0"
      using assms(1) ok drv by (auto simp: defs split: if_splits)
    then have "driver" by (simp add: may_call_def)
    have fr: "fresh = replicate MAX_DEVICE_COUNT (new_device, replicate MAX_WORK_QUEUE_COUNT 0)" by (simp add: fresh_def)
    obtain devs n pages where r: "init_devices_r found fresh 0 {#} = Inr (devs, n, pages)"
      using assms(1) drv call lib \<open>driver\<close> by (auto simp: defs fr split: sum.splits)
    have plain: "init_devices found (replicate MAX_DEVICE_COUNT new_device) 0 = Inr (map fst devs, n)"
      using init_devices_r_plain [of fresh found 0 "{#}"] f(1,3) r by simp
    have pages: "pages = held device_portals devs + held lost_portals found"
      using init_devices_r_pages [OF r] f(2,3) assms(2) by simp
    have zip: "zip (map fst devs) (map snd devs) = devs" by (simp add: zip_map_fst_snd)
    have "held portals_of (rev (concat (map device_queues devs))) = held device_portals devs"
      by (simp add: held_concat held_map device_portals_def [abs_def])
    then have d: "destroy_queues (rev (concat (map device_queues devs))) pages = Some (held lost_portals found)"
      using destroy_queues_pages [of "rev (concat (map device_queues devs))" pages] pages by simp
    have e: "disp = (if n = 0 then (\<lparr> driver_loaded = True, context_set = False, dispatcher_devices = map fst devs,
          device_count = n, dispatcher_hw_support = False, hw_init_status = DML_STATUS_WORK_QUEUES_NOT_AVAILABLE \<rparr>, map snd devs)
        else (\<lparr> driver_loaded = True, context_set = True, dispatcher_devices = map fst devs,
          device_count = n, dispatcher_hw_support = True, hw_init_status = DML_STATUS_OK \<rparr>, map snd devs))"
      "R = \<lparr> res_pages = pages, res_contexts = 1, res_libraries = 1 \<rparr>"
      using assms(1) drv call lib r \<open>driver\<close> by (auto simp: defs fr split: if_splits)
    have "make_hw_dispatcher lib new_context found = Inr (fst disp)"
      using drv call lib plain \<open>driver\<close> by (simp add: e make_hw_dispatcher_def initialize_hw_def)
    then show ?thesis
      using lib d zip by (simp add: e destroy_hw_dispatcher_def dispatcher_portals_def finalize_accelerator_driver_def)
  qed
qed

section \<open>Example run\<close>

text \<open>Two usable queues, which are ordered, and one without a group.\<close>
definition groupless_device :: accfg_device where
  "groupless_device = sample_device\<lparr> device_wqs := [sample_wq 5 0x10000, (sample_wq 3 0x20000)\<lparr> wq_group := None \<rparr>, sample_wq 1 0x30000] \<rparr>"

lemma groupless_scanned: "device_scanned groupless_device"
proof -
  have "own_search_device_name (device_name groupless_device) DSA_DEVICE_ID DEVICE_NAME_LENGTH 0 = Some True"
    using search_device_name [of "device_name groupless_device" 0]
    by (auto simp: groupless_device_def sample_device_def dsa_at_def)
  then show ?thesis by (simp add: device_scanned_def groupless_device_def sample_device_def)
qed

lemma groupless_dispatcher: "\<exists>disp R. make_hw_dispatcher_r sample_library 0 [groupless_device] = Inr (disp, R)"
proof -
  let ?fresh = "(new_device, replicate MAX_WORK_QUEUE_COUNT 0)"
  have load: "\<exists>t. initialize_accelerator_driver sample_library = (DML_STATUS_OK, True, True # t)"
    by (simp add: initialize_accelerator_driver_def sample_library_def functions_table_def)
  have name: "own_search_device_name (device_name groupless_device) DSA_DEVICE_ID DEVICE_NAME_LENGTH 0 = Some True"
    using groupless_scanned by (simp add: device_scanned_def)
  have wf: "wf_device ?fresh" by (simp add: wf_device_def new_device_def)
  obtain r where "init_queues (device_wqs groupless_device) (working_queues new_device) 0 = Inr r"
    using init_queues_fits [of 0 "device_wqs groupless_device" "working_queues new_device"]
    by (auto simp: groupless_device_def new_device_def MAX_WORK_QUEUE_COUNT_def)
  then have "initialize_new_device groupless_device new_device \<noteq> Inl e" for e
    using name by (cases r) (auto simp: initialize_new_device_def Let_def)
  then obtain r' where "initialize_new_device_r groupless_device ?fresh {#} = Inr r'"
    using initialize_new_device_r_plain [OF wf, of groupless_device "{#}"] by (auto split: sum.splits)
  then have "\<exists>r. init_devices_r [groupless_device] (replicate MAX_DEVICE_COUNT ?fresh) 0 {#} = Inr r"
    by (cases r') (simp add: MAX_DEVICE_COUNT_def numeral_eq_Suc)
  then obtain devs n pages where "init_devices_r [groupless_device] (replicate MAX_DEVICE_COUNT ?fresh) 0 {#} = Inr (devs, n, pages)"
    by auto
  then show ?thesis
    using load by (auto simp: make_hw_dispatcher_r_def initialize_hw_r_def dispatcher_portals_def may_call_def Let_def
        simp del: init_devices_r.simps)
qed

theorem dispatcher_releases_witness:
  "\<exists>disp R R'. make_hw_dispatcher_r sample_library 0 [groupless_device] = Inr (disp, R)
    \<and> destroy_hw_dispatcher disp R = Some R' \<and> res_libraries R' = 0 \<and> res_pages R' = {#0x20000#}"
proof -
  obtain disp R where d: "make_hw_dispatcher_r sample_library 0 [groupless_device] = Inr (disp, R)"
    using groupless_dispatcher by blast
  have "lib_loads sample_library" by (simp add: sample_library_def)
  moreover have "held lost_portals [groupless_device] = {#0x20000#}"
    using groupless_scanned by (simp add: lost_portals_def) (simp add: groupless_device_def sample_wq_def lost_portal_def)
  moreover have "wq_region wq \<noteq> Some 0" if "dev \<in> set [groupless_device]" "wq \<in> set (device_wqs dev)" for dev wq
    using that by (auto simp: groupless_device_def sample_wq_def)
  ultimately show ?thesis using d dispatcher_releases [OF d] by (auto simp: Let_def)
qed

end
