(* ===== verification/Spec2Isabelle.thy ===== *)
theory Spec2Isabelle
  imports DML_HL_Batch DML_Dispatch DML_Hw_Release
begin

text \<open>
  \<^bold>\<open>Intel Data Mover Library: a verification development.\<close>

  \<^bold>\<open>The program.\<close> The library moves, fills, compares and checks memory, either with an accelerator
  or in software. Work is described by a 64-byte descriptor and reported in a 32-byte completion
  record. From the bottom up: \<open>sources/core\<close> gives typed views of descriptors and records, validates
  descriptors, and executes them, in software (\<open>software_device.cpp\<close> and a kernel per operation,
  over the routines of \<open>sw_dispatcher\<close> and \<open>dif_impl\<close>) or by handing them to a work queue
  (\<open>hardware_device.cpp\<close>, \<open>hw_dispatcher\<close>). \<open>sources/middle_layer\<close> makes descriptors, offers the
  software, hardware and automatic execution paths, and finishes in software what the hardware left
  at a page fault. \<open>sources/c_api\<close> is the C interface, jobs and batches;
  \<open>include/dml/hl\<close> is the C++ interface, operations, handlers and sequences.

  \<^bold>\<open>Conventions.\<close> Memory is a function from 64-bit addresses to bytes; addresses, sizes, flags and
  record fields are words of the width the code gives them, so that their arithmetic wraps.
  Structures in memory (descriptors, records, the hidden state of a job, batch buffers) are read and
  written byte by byte, little-endian; \<open>dml_job_t\<close> and \<open>dml_dif_config_t\<close> are records. Status codes
  are datatypes. A kernel is given the bytes of its descriptor, as they are when it is called.
  Cache line instructions are collected in a list of events.

  \<^bold>\<open>Theories, sources and what is shown.\<close>

  \<^item> \<open>DML_Prelude\<close>: memory, regions, little-endian fields, counted loops; the locales \<open>field_view\<close> and
    \<open>field_pair\<close>, the contract of an integer field and of two independent fields.
  \<^item> \<open>DML_Types\<close> (\<open>detail/common\<close>, \<open>core/operations.hpp\<close>, \<open>ml/options.hpp\<close>): operation codes, flags,
    options and statuses with their values.
  \<^item> \<open>DML_Defs\<close> (\<open>dmldefs.h\<close>, \<open>dml_get_library_version.cpp\<close>): the public structures of the C
    interface and the library version.
  \<^item> \<open>DML_Views\<close> (\<open>core/descriptor_views.hpp\<close>, \<open>completion_record_views.hpp\<close>): every accessor; the field
    contract is interpreted on the shared ones.
  \<^item> \<open>DML_Validation\<close> (\<open>core/src/validation.cpp\<close>, \<open>utils.hpp\<close>): the validators. The overlap test is exact
    inside the address space; what an accepted DIF strip and create-delta guarantee; which operations
    are unsupported.
  \<^item> \<open>DML_Ref_Kernels\<close>, \<open>DML_Delta\<close> (\<open>sw_dispatcher/ref\<close>): the portable routines, each equal to a
    function on byte lists. Applying a created delta record restores the second source; the record
    respects its bound.
  \<^item> \<open>DML_Dif\<close> (\<open>dif_impl/dml_dif.c\<close>): check, insert, strip and update of integrity fields. Strip inverts
    insert, a check accepts what insert wrote, a failing check reports the first bad block, update
    recomputes the fields it does not pass through.
  \<^item> \<open>DML_Core_Kernels\<close> (\<open>core/src/*.cpp\<close>, \<open>optimization_dispatcher.cpp\<close>): dispatch, one kernel per
    operation, the batch loop and the software device. Every accepted descriptor is finished when the
    call returns; move, compare, CRC and batch do what they promise. The locale \<open>kernel_contract\<close> is
    what the kernels need of the dispatched routines, interpreted on the portable table.
  \<^item> \<open>DML_Vector\<close>, \<open>DML_Avx512\<close>, \<open>DML_Avx512_Move\<close> (\<open>sw_dispatcher/avx512\<close>, \<open>dml_cpuid.c\<close>): the vector
    instructions on registers as byte lists, aligned accesses that may fault, and the optimised move,
    fill and comparisons with their index tables; each equals the portable routine.
  \<^item> \<open>DML_Gf2\<close>, \<open>DML_Sse\<close>: polynomials over the field of two elements as words, their residues modulo
    a CRC polynomial, and the carry-less product; two maps that commute with \<open>XOR\<close> are equal when they
    agree on the powers of \<open>x\<close>, which carries the proofs. The 128 bit instructions and the shuffles.
  \<^item> \<open>DML_Crc_Constants\<close>, \<open>DML_Crc_Opt\<close>, \<open>DML_Crc_Long\<close> (\<open>sw_dispatcher/avx512/crc.c\<close>): the tables of
    folding constants, computed or built in, hold the powers they should; the reductions to 64 and 32
    bits are exact; the folding routines for short and long buffers, plain and reflected, compute the
    portable CRC. The locale \<open>byte_order\<close> is what the short routine needs of a load (interpreted for
    the plain and the reflected one), \<open>coefficient_order\<close> what the long one needs of loads and folds
    (interpreted for either order of coefficients).
  \<^item> \<open>DML_Dispatch\<close> (\<open>optimization_dispatcher.cpp\<close>): the table chosen from CPUID; the choice does not
    change what the software device does, CRC included, within the sizes the comparison handles.
  \<^item> \<open>DML_Make_Descriptor\<close> (\<open>middle_layer/make_descriptor.cpp\<close>, \<open>rebind\<close>): constructors and the
    connection with a record, which changes nothing else.
  \<^item> \<open>DML_Continuation\<close> (\<open>partial_completion.hpp\<close>, \<open>accumulate_records.hpp\<close>): narrowing a descriptor after a
    page fault and adding up the records.
  \<^item> \<open>DML_Hardware\<close> (\<open>hardware_device.cpp\<close>, \<open>hw_device.cpp\<close>, \<open>hw_queue.cpp\<close>): portals, the choice of queue
    and device, submission with the enqueue instruction as an argument.
  \<^item> \<open>DML_Heap\<close>, \<open>DML_Hw_Init\<close> (\<open>hw_dispatcher.cpp\<close>, \<open>hw_device.cpp\<close>, \<open>hw_queue.cpp\<close>,
    \<open>hw_configuration_driver.c\<close>): discovery of the accelerators and the heap algorithms that order their
    queues (locale \<open>movable\<close>, for elements of which a move transfers a part). Exactly the accepted
    devices and usable queues are found, queues in ascending priority; submissions stay in range
    while the devices have equally many queues; a missing library function goes unnoticed.
  \<^item> \<open>DML_Hw_Release\<close> (the destructors of the same files): the initialisation with the portal pointers,
    the pages that are mapped, the context and the library handle, shown to be the one of \<open>DML_Hw_Init\<close>;
    moves inside the heap algorithms hand the portals over (locale \<open>handing_over\<close>), and destruction
    releases each once, except what the code loses.
  \<^item> \<open>DML_Interconnect\<close> (\<open>core_interconnect.cpp\<close>, \<open>execution_path.hpp\<close>, \<open>result.cpp\<close>, \<open>wait.cpp\<close>): the three
    paths. A wait returns with the first non-zero status; the automatic path always finds a taker; an
    interrupted move, CRC or compare is completed.
  \<^item> \<open>DML_Task\<close> (\<open>ml/task.hpp\<close>, \<open>view.hpp\<close>, \<open>make_task.hpp\<close>): tasks and their moves; the locale \<open>task_slot\<close>
    is a place for a task, provided by task objects and by the slots of a batch or sequence (locale
    \<open>task_array\<close>).
  \<^item> \<open>DML_Job_API\<close>, \<open>DML_Job_Execution\<close> (\<open>c_api/dml.cpp\<close> and \<open>c_api/include\<close>): all functions on jobs. On a
    path that finishes at once (locale \<open>synchronous_path\<close>: the software path, and the automatic path
    without accelerators) executing a job is one run of the software device; from this follow the
    functional theorems for move, compare and CRC jobs. Refused jobs change nothing of the caller; the
    layout of a job; polling.
  \<^item> \<open>DML_Batch_API\<close> (\<open>c_api/dml_batch.cpp\<close>): setters, readers and layout of a batch; a filled batch is the
    batch its job describes, and running it is running its descriptors in order.
  \<^item> \<open>DML_HL_Types\<close>, \<open>DML_HL_Execution\<close>, \<open>DML_HL_Sequence\<close> (\<open>include/dml/hl\<close>): views, operation objects and
    results; all \<open>execute\<close> and \<open>submit\<close> functions and handlers; sequences. Executing is submitting and
    getting, the memory move copies the viewed bytes, and a sequence is the batch of the operations
    added with success.
  \<^item> \<open>DML_HL_Ownership\<close> (\<open>ml/buffer.hpp\<close>, \<open>hl/detail/buffer.hpp\<close>, \<open>hl/handler.hpp\<close>, \<open>hl/sequence.hpp\<close>):
    constructors with their allocations, moves and destructors, over a heap that records the blocks in
    use. The locale \<open>owner\<close> is the contract of a movable object that owns memory (\<open>plain_owner\<close> and
    \<open>exchanging_owner\<close> give it for simpler moves), interpreted on buffers, arrays, handlers and
    sequences; every program keeps one owner per block. What a sequence that was moved from does.
  \<^item> \<open>DML_HL_Batch\<close>: the batch operation on a sequence, from the calls that add operations to the result.

  \<^bold>\<open>Bounds and partiality.\<close> Loops with a counter are structurally recursive or have a measure. The wait
  loops may run for ever: they are partial functions into \<open>option\<close> over a trace of memories, and the
  theorem on them is that they return. So may the optimised comparison, whose counter wraps: it is
  proved to return below a size and not to return from it on. The loop that shifts delta offsets walks a region in steps of
  ten bytes; its fuel is the number of steps that cover the region. Sizes of structures (120 bytes
  for a job, 192 for its hidden state) are those of the 64-bit ABI.

  \<^bold>\<open>Not modelled.\<close> What libaccel-config, \<open>open\<close> and \<open>mmap\<close> return, which is data of the
  model; the CPUID instruction, an argument; the
  choice of an address by an allocator, which is an argument too, with the requirements of the C++
  standard as a hypothesis; overloads that only convert containers to views; tests, benchmarks, examples and tools. Memory that a kernel writes over its own
  descriptor while running is outside the model: descriptors are read when a kernel starts.
\<close>

end
